(* ===== verification/Prelude.thy ===== *)
theory Prelude
  imports Complex_Main "HOL-Library.Word" "HOL-Library.AList" "HOL-Library.Sublist"
begin

section \<open>Shared vocabulary of the development\<close>

text \<open>
  Machine integers, byte strings, hash maps, JSON values and the flight-log
  line shape that the components of \<open>agentd\<close> share, with the generic
  lemmas their proofs rest on.

  \<^item> A Rust \<open>u64\<close>/\<open>u32\<close>/\<open>u16\<close>/\<open>u8\<close> is a word of that width. The release
    profile of the workspace sets no \<open>overflow-checks\<close>, so \<open>+\<close> on words is the
    wrapping addition the shipped binary performs; \<open>saturating_*\<close> is written out.
  \<^item> A Rust \<open>String\<close>/\<open>&str\<close> is the list of its UTF-8 bytes (\<^typ>\<open>string\<close>);
    \<open>len()\<close> is \<^const>\<open>length\<close> and operations on \<open>chars()\<close> count the bytes that
    are not UTF-8 continuation bytes.
  \<^item> A \<open>HashMap\<close> is an association list. Its iteration order is unspecified in
    Rust; every theorem is about an arbitrary list, hence about every order.
  \<^item> A \<open>HashSet\<close> is a list used through \<^const>\<open>List.insert\<close>, \<^const>\<open>removeAll\<close>
    and membership.
\<close>

named_theorems map_simps \<open>lookup after insert and remove\<close>
named_theorems inv_intros \<open>preservation lemmas of component invariants\<close>

subsection \<open>Machine integers\<close>

type_synonym u8 = "8 word"
type_synonym u16 = "16 word"
type_synonym u32 = "32 word"
type_synonym u64 = "64 word"

definition saturating_add :: "'a::len word \<Rightarrow> 'a word \<Rightarrow> 'a word" where
  "saturating_add a b = (if a \<le> a + b then a + b else - 1)"

definition saturating_sub :: "'a::len word \<Rightarrow> 'a word \<Rightarrow> 'a word" where
  "saturating_sub a b = (if b \<le> a then a - b else 0)"

lemma unat_saturating_sub: "unat (saturating_sub a b) = unat a - unat b"
  by (auto simp: saturating_sub_def unat_sub word_le_nat_alt)

lemma unat_minus_one_eq: "unat (- 1 :: 'a::len word) = 2 ^ LENGTH('a) - 1"
  by (simp add: unsigned_minus_1_eq_mask mask_eq_exp_minus_1)

lemma unat_saturating_add:
  "unat (saturating_add a b) = min (unat a + unat b) (2 ^ LENGTH('a) - 1)"
  for a b :: "'a::len word"
proof (cases "unat a + unat b < 2 ^ LENGTH('a)")
  case True
  then have "unat (a + b) = unat a + unat b" by (simp add: unat_word_ariths)
  with True show ?thesis
    by (simp add: saturating_add_def word_le_nat_alt)
next
  case False
  have a: "unat a < 2 ^ LENGTH('a)" and b: "unat b < 2 ^ LENGTH('a)"
    by (rule unsigned_less)+
  have "unat (a + b) = (unat a + unat b - 2 ^ LENGTH('a)) mod 2 ^ LENGTH('a)"
    unfolding unat_word_ariths using False by (metis le_mod_geq not_less)
  moreover have "unat a + unat b - 2 ^ LENGTH('a) < 2 ^ LENGTH('a)"
    using a b by linarith
  ultimately have wrap: "unat (a + b) = unat a + unat b - 2 ^ LENGTH('a)"
    by (metis mod_less)
  have "unat (a + b) < unat a"
    using False wrap b by linarith
  with False show ?thesis
    by (simp add: saturating_add_def word_le_nat_alt unat_minus_one_eq)
qed

lemma saturating_add_0 [simp]: "saturating_add a 0 = a" "saturating_add 0 a = a"
  by (simp_all add: saturating_add_def)

lemma saturating_sub_0 [simp]: "saturating_sub a 0 = a" "saturating_sub a a = 0"
  by (simp_all add: saturating_sub_def)

lemma le_saturating_add: "a \<le> saturating_add a b"
  by (simp add: saturating_add_def)

subsection \<open>Hash maps as association lists\<close>

type_synonym ('k, 'v) hashmap = "('k \<times> 'v) list"

abbreviation get :: "('k, 'v) hashmap \<Rightarrow> 'k \<Rightarrow> 'v option" where
  "get m k \<equiv> map_of m k"

abbreviation contains_key :: "('k, 'v) hashmap \<Rightarrow> 'k \<Rightarrow> bool" where
  "contains_key m k \<equiv> map_of m k \<noteq> None"

abbreviation put :: "'k \<Rightarrow> 'v \<Rightarrow> ('k, 'v) hashmap \<Rightarrow> ('k, 'v) hashmap" where
  "put k v m \<equiv> AList.update k v m"

abbreviation remove :: "'k \<Rightarrow> ('k, 'v) hashmap \<Rightarrow> ('k, 'v) hashmap" where
  "remove k m \<equiv> AList.delete k m"

text \<open>\<open>values_mut()\<close> with an update of every entry.\<close>

definition map_values :: "('v \<Rightarrow> 'w) \<Rightarrow> ('k, 'v) hashmap \<Rightarrow> ('k, 'w) hashmap" where
  "map_values f m = map (\<lambda>(k, v). (k, f v)) m"

text \<open>\<open>entry(k).or_insert(v)\<close>.\<close>

definition or_insert :: "'k \<Rightarrow> 'v \<Rightarrow> ('k, 'v) hashmap \<Rightarrow> ('k, 'v) hashmap" where
  "or_insert k v m = (case map_of m k of None \<Rightarrow> put k v m | Some _ \<Rightarrow> m)"

text \<open>\<open>get_mut(k)\<close> followed by an in-place update.\<close>

definition modify :: "'k \<Rightarrow> ('v \<Rightarrow> 'v) \<Rightarrow> ('k, 'v) hashmap \<Rightarrow> ('k, 'v) hashmap" where
  "modify k f m = (case map_of m k of None \<Rightarrow> m | Some v \<Rightarrow> put k (f v) m)"

lemma get_put [simp, map_simps]: "get (put k v m) k' = (if k' = k then Some v else get m k')"
  by (simp add: update_conv')

lemma get_remove [simp, map_simps]: "get (remove k m) k' = (if k' = k then None else get m k')"
  by (simp add: delete_conv')

lemma get_map_values [simp, map_simps]: "get (map_values f m) k = map_option f (get m k)"
  by (induction m) (auto simp: map_values_def)

lemma get_or_insert [simp, map_simps]:
  "get (or_insert k v m) k' = (if k' = k \<and> get m k = None then Some v else get m k')"
  by (auto simp: or_insert_def split: option.splits)

lemma get_modify [simp, map_simps]:
  "get (modify k f m) k' = (if k' = k then map_option f (get m k) else get m k')"
  by (auto simp: modify_def split: option.splits)

subsection \<open>Byte strings\<close>

definition is_continuation_byte :: "char \<Rightarrow> bool" where
  "is_continuation_byte c \<longleftrightarrow> 128 \<le> (of_char c :: nat) \<and> (of_char c :: nat) < 192"

text \<open>\<open>chars().count()\<close> and \<open>chars().take(n)\<close> on UTF-8 bytes.\<close>

fun chars_count :: "string \<Rightarrow> nat" where
  "chars_count [] = 0"
| "chars_count (c # cs) = (if is_continuation_byte c then chars_count cs else Suc (chars_count cs))"

fun chars_take :: "nat \<Rightarrow> string \<Rightarrow> string" where
  "chars_take n [] = []"
| "chars_take n (c # cs) =
     (if is_continuation_byte c then c # chars_take n cs
      else case n of 0 \<Rightarrow> [] | Suc m \<Rightarrow> c # chars_take m cs)"

definition ellipsis :: string where
  "ellipsis = [CHR 0xE2, CHR 0x80, CHR 0xA6]"

definition em_dash :: string where
  "em_dash = [CHR 0xE2, CHR 0x80, CHR 0x94]"

lemma chars_count_take: "chars_count (chars_take n s) \<le> n"
  by (induction n s rule: chars_take.induct) (auto split: nat.splits)

lemma chars_take_all: "chars_count s \<le> n \<Longrightarrow> chars_take n s = s"
  by (induction n s rule: chars_take.induct) (auto split: nat.splits if_splits)

lemma prefix_chars_take: "prefix (chars_take n s) s"
  by (induction n s rule: chars_take.induct) (auto split: nat.splits)

text \<open>Decimal rendering, \<open>format!("{n}")\<close>.\<close>

definition digit_char :: "nat \<Rightarrow> char" where
  "digit_char d = char_of (48 + d)"

fun show_nat :: "nat \<Rightarrow> string" where
  "show_nat n = (if n < 10 then [digit_char n] else show_nat (n div 10) @ [digit_char (n mod 10)])"

declare show_nat.simps [simp del]

definition show_int :: "int \<Rightarrow> string" where
  "show_int i = (if i < 0 then CHR ''-'' # show_nat (nat (- i)) else show_nat (nat i))"

abbreviation show_word :: "'a::len word \<Rightarrow> string" where
  "show_word w \<equiv> show_nat (unat w)"

definition is_digit :: "char \<Rightarrow> bool" where
  "is_digit c \<longleftrightarrow> 48 \<le> (of_char c :: nat) \<and> (of_char c :: nat) \<le> 57"

definition is_ascii_alphanumeric :: "char \<Rightarrow> bool" where
  "is_ascii_alphanumeric c \<longleftrightarrow>
     (let n = (of_char c :: nat) in 48 \<le> n \<and> n \<le> 57 \<or> 65 \<le> n \<and> n \<le> 90 \<or> 97 \<le> n \<and> n \<le> 122)"

lemma of_char_digit_char: "d < 10 \<Longrightarrow> of_char (digit_char d) = 48 + d"
  by (simp add: digit_char_def)

lemma digits_show_nat: "\<forall>c \<in> set (show_nat n). is_digit c"
proof (induction n rule: show_nat.induct)
  case (1 n)
  then show ?case
    by (subst show_nat.simps) (auto simp: is_digit_def of_char_digit_char)
qed

lemma show_nat_nonempty [simp]: "show_nat n \<noteq> []"
  by (subst show_nat.simps) simp

fun nat_of_digits :: "nat \<Rightarrow> string \<Rightarrow> nat" where
  "nat_of_digits acc [] = acc"
| "nat_of_digits acc (c # cs) = nat_of_digits (10 * acc + (of_char c - 48)) cs"

lemma nat_of_digits_append: "nat_of_digits a (xs @ ys) = nat_of_digits (nat_of_digits a xs) ys"
  by (induction a xs rule: nat_of_digits.induct) auto

lemma nat_of_show_nat: "nat_of_digits 0 (show_nat n) = n"
proof (induction n rule: show_nat.induct)
  case (1 n)
  then show ?case
    by (subst show_nat.simps) (auto simp: nat_of_digits_append of_char_digit_char)
qed

lemma show_nat_inj: "show_nat m = show_nat n \<longleftrightarrow> m = n"
  by (metis nat_of_show_nat)

subsection \<open>Unicode scalar values of a byte string\<close>

text \<open>\<open>chars()\<close>: each character is a leading byte with the continuation bytes after it.\<close>

function utf8_chars :: "string \<Rightarrow> string list" where
  "utf8_chars [] = []"
| "utf8_chars (c # cs) =
     (c # takeWhile is_continuation_byte cs) # utf8_chars (dropWhile is_continuation_byte cs)"
  by pat_completeness auto
termination
  by (relation "measure length") (auto simp: length_dropWhile_le less_Suc_eq_le)

text \<open>\<open>char::is_whitespace\<close>: the code points with the Unicode property \<open>White_Space\<close>, as UTF-8.\<close>

definition is_whitespace :: "string \<Rightarrow> bool" where
  "is_whitespace ch \<longleftrightarrow>
     ch \<in> set ([[CHR 0x09], [CHR 0x0A], [CHR 0x0B], [CHR 0x0C], [CHR 0x0D], [CHR 0x20],
       [CHR 0xC2, CHR 0x85], [CHR 0xC2, CHR 0xA0], [CHR 0xE1, CHR 0x9A, CHR 0x80]] @
       map (\<lambda>n. [CHR 0xE2, CHR 0x80, char_of n]) ([128..<139] @ [168, 169, 175 :: nat]) @
       [[CHR 0xE2, CHR 0x81, CHR 0x9F], [CHR 0xE3, CHR 0x80, CHR 0x80]])"

definition str_trim :: "string \<Rightarrow> string" where
  "str_trim s =
     concat (rev (dropWhile is_whitespace (rev (dropWhile is_whitespace (utf8_chars s)))))"

fun split_whitespace_chars :: "string list \<Rightarrow> string \<Rightarrow> string list" where
  "split_whitespace_chars [] acc = (if acc = [] then [] else [acc])"
| "split_whitespace_chars (c # cs) acc =
     (if is_whitespace c then (if acc = [] then [] else [acc]) @ split_whitespace_chars cs []
      else split_whitespace_chars cs (acc @ c))"

definition split_whitespace :: "string \<Rightarrow> string list" where
  "split_whitespace s = split_whitespace_chars (utf8_chars s) []"

lemma concat_utf8_chars [simp]: "concat (utf8_chars s) = s"
  by (induction s rule: utf8_chars.induct) simp_all

subsection \<open>JSON values and flight-log lines\<close>

text \<open>
  \<open>serde_json::Value\<close>. A number is its exact rational value; an object keeps the
  order in which the \<open>json!\<close> literal lists its keys.
\<close>

datatype json =
    JNull
  | JBool bool
  | JNum rat
  | JStr string
  | JArr "json list"
  | JObj "(string \<times> json) list"

abbreviation JNat :: "nat \<Rightarrow> json" where
  "JNat n \<equiv> JNum (of_nat n)"

abbreviation JWord :: "'a::len word \<Rightarrow> json" where
  "JWord w \<equiv> JNum (of_nat (unat w))"

definition JOpt :: "('a \<Rightarrow> json) \<Rightarrow> 'a option \<Rightarrow> json" where
  "JOpt f x = (case x of None \<Rightarrow> JNull | Some v \<Rightarrow> f v)"

text \<open>\<open>Value::as_str\<close>, and \<open>v.get(k)\<close> / \<open>v[k]\<close>, which read \<open>Null\<close> or \<open>None\<close> off a non-object.\<close>

definition json_as_str :: "json \<Rightarrow> string option" where
  "json_as_str v = (case v of JStr s \<Rightarrow> Some s | _ \<Rightarrow> None)"

definition json_get :: "json \<Rightarrow> string \<Rightarrow> json option" where
  "json_get v k = (case v of JObj kvs \<Rightarrow> map_of kvs k | _ \<Rightarrow> None)"

end
