(* ===== verification/Evidence.thy ===== *)
theory Evidence
  imports Prelude
begin

section \<open>Action receipts (\<open>agentd/src/evidence.rs\<close>)\<close>

text \<open>
  The tamper-evident receipt log: each line is a signed JSON receipt that carries the hash of
  the line before it. The theory models the writer with its buffered file handle, segment
  rotation by renames, the verifier, and the recovery of the chain state at boot from a
  bounded tail of the file, with the repair of a torn final write.

  What is not under \<open>src/\<close> is an argument: \<open>ring\<close>'s SHA-256 and Ed25519 and \<open>serde_json\<close>'s
  codecs are the fields of \<open>crypto\<close>. What the file system does to each fallible call is
  an argument too (\<open>write_io\<close>, \<open>rotate_io\<close>, \<open>resume_io\<close>), so a theorem covers every pattern
  of I/O failures. A file is a name bound to an inode, because a rotation renames the file
  under an open handle.
\<close>

subsection \<open>Receipts and their codecs\<close>

record receipt_body =
  rb_seq :: u64
  rb_action :: string
  rb_target :: string
  rb_principal :: string
  rb_verdict :: string
  rb_ts :: string
  rb_chain_prev_hash :: string

record action_receipt = receipt_body +
  ar_signature :: string

record crypto =
  sha256 :: "string \<Rightarrow> string"
  sign :: "string \<Rightarrow> string"
  verify_sig :: "string \<Rightarrow> string \<Rightarrow> string \<Rightarrow> bool"
  body_json :: "receipt_body \<Rightarrow> string option"
  receipt_json :: "action_receipt \<Rightarrow> string option"
  parse_receipt :: "string \<Rightarrow> action_receipt option"

definition GENESIS_HASH :: string where
  "GENESIS_HASH = replicate 64 CHR ''0''"

definition RESUME_TAIL_WINDOW :: nat where
  "RESUME_TAIL_WINDOW = 64 * 1024"

definition RESUME_TAIL_MAX :: nat where
  "RESUME_TAIL_MAX = 1024 * 1024"

definition EVIDENCE_SEGMENTS_KEPT :: nat where
  "EVIDENCE_SEGMENTS_KEPT = 3"

datatype evidence_error =
    OddLengthHex
  | InvalidHexDigit char
  | SerializeBody
  | SerializeReceipt
  | WritingReceipt
  | FlushingFile
  | FsyncFile
  | RenameFailed string
  | ReadFailed
  | OpenFailed
  | ParseReceipt nat
  | SequenceGap u64 u64 nat
  | ChainBreak u64 nat
  | InvalidSigHex u64
  | SignatureInvalid u64 nat
  | NoCompleteLine nat
  | NoRecordBoundary
  | RepairFailed
  | EmptyTail
  | ParseTail
  | ImplausibleSeq u64 nat

subsection \<open>Hexadecimal\<close>

definition hex_digit :: "nat \<Rightarrow> char" where
  "hex_digit d = (if d < 10 then char_of (48 + d) else char_of (87 + d))"

definition hex_encode :: "string \<Rightarrow> string" where
  "hex_encode bytes =
     fold (\<lambda>b s. s @ [hex_digit (of_char b div 16), hex_digit (of_char b mod 16)]) bytes []"

text \<open>\<open>char::to_digit(16)\<close>.\<close>

definition to_digit16 :: "char \<Rightarrow> nat option" where
  "to_digit16 c =
     (let n = (of_char c :: nat) in
      if 48 \<le> n \<and> n \<le> 57 then Some (n - 48)
      else if 97 \<le> n \<and> n \<le> 102 then Some (n - 87)
      else if 65 \<le> n \<and> n \<le> 70 then Some (n - 55)
      else None)"

fun hex_pairs :: "string \<Rightarrow> evidence_error + string" where
  "hex_pairs (a # b # rest) =
     (case to_digit16 a of
        None \<Rightarrow> Inl (InvalidHexDigit a)
      | Some hi \<Rightarrow>
          (case to_digit16 b of
             None \<Rightarrow> Inl (InvalidHexDigit b)
           | Some lo \<Rightarrow>
               (case hex_pairs rest of
                  Inl e \<Rightarrow> Inl e
                | Inr bs \<Rightarrow> Inr (char_of (16 * hi + lo) # bs))))"
| "hex_pairs _ = Inr []"

definition hex_decode :: "string \<Rightarrow> evidence_error + string" where
  "hex_decode s = (if odd (length s) then Inl OddLengthHex else hex_pairs s)"

subsection \<open>Lines (\<open>str::lines\<close>)\<close>

fun split_inclusive_nl :: "string \<Rightarrow> string list" where
  "split_inclusive_nl [] = []"
| "split_inclusive_nl (c # cs) =
     (if c = CHR 0x0A then [c] # split_inclusive_nl cs
      else case split_inclusive_nl cs of [] \<Rightarrow> [[c]] | l # ls \<Rightarrow> (c # l) # ls)"

definition strip_suffix_char :: "char \<Rightarrow> string \<Rightarrow> string option" where
  "strip_suffix_char c s = (if s \<noteq> [] \<and> last s = c then Some (butlast s) else None)"

definition strip_line_end :: "string \<Rightarrow> string" where
  "strip_line_end l =
     (case strip_suffix_char CHR 0x0A l of
        None \<Rightarrow> l
      | Some l' \<Rightarrow> (case strip_suffix_char CHR 0x0D l' of None \<Rightarrow> l' | Some l'' \<Rightarrow> l''))"

definition str_lines :: "string \<Rightarrow> string list" where
  "str_lines s = map strip_line_end (split_inclusive_nl s)"

text \<open>What \<open>fs::read_to_string\<close> and the type \<open>String\<close> require of the bytes.\<close>

definition between :: "char \<Rightarrow> nat \<Rightarrow> nat \<Rightarrow> bool" where
  "between c lo hi \<longleftrightarrow> lo \<le> of_char c \<and> of_char c \<le> hi"

fun utf8_valid :: "string \<Rightarrow> bool" where
  "utf8_valid [] = True"
| "utf8_valid (a # cs) =
     (if between a 0 127 then utf8_valid cs
      else case cs of
        [] \<Rightarrow> False
      | b # cs1 \<Rightarrow>
          if between a 194 223 then is_continuation_byte b \<and> utf8_valid cs1
          else case cs1 of
            [] \<Rightarrow> False
          | c # cs2 \<Rightarrow>
              if between a 224 239 then
                (if between a 224 224 then between b 160 191
                 else if between a 237 237 then between b 128 159
                 else is_continuation_byte b) \<and> is_continuation_byte c \<and> utf8_valid cs2
              else case cs2 of
                [] \<Rightarrow> False
              | d # cs3 \<Rightarrow>
                  between a 240 244 \<and>
                  (if between a 240 240 then between b 144 191
                   else if between a 244 244 then between b 128 143
                   else is_continuation_byte b) \<and>
                  is_continuation_byte c \<and> is_continuation_byte d \<and> utf8_valid cs3)"

subsection \<open>Verification\<close>

definition body_of :: "action_receipt \<Rightarrow> receipt_body" where
  "body_of r = receipt_body.truncate r"

text \<open>The loop of \<open>verify_chain\<close>; \<open>i\<close> is the zero-based line index.\<close>

fun verify_lines ::
    "crypto \<Rightarrow> string \<Rightarrow> nat \<Rightarrow> string \<Rightarrow> u64 \<Rightarrow> string list \<Rightarrow> evidence_error + u64" where
  "verify_lines C pub_key i prev_hash expected_seq [] = Inr expected_seq"
| "verify_lines C pub_key i prev_hash expected_seq (line # rest) =
     (case parse_receipt C line of
        None \<Rightarrow> Inl (ParseReceipt (i + 1))
      | Some receipt \<Rightarrow>
          if rb_seq receipt \<noteq> expected_seq then
            Inl (SequenceGap (rb_seq receipt) expected_seq (i + 1))
          else if rb_chain_prev_hash receipt \<noteq> prev_hash then
            Inl (ChainBreak expected_seq (i + 1))
          else
            (case body_json C (body_of receipt) of
               None \<Rightarrow> Inl SerializeBody
             | Some canonical \<Rightarrow>
                 (case hex_decode (ar_signature receipt) of
                    Inl _ \<Rightarrow> Inl (InvalidSigHex expected_seq)
                  | Inr sig_bytes \<Rightarrow>
                      if \<not> verify_sig C pub_key canonical sig_bytes then
                        Inl (SignatureInvalid expected_seq (i + 1))
                      else
                        verify_lines C pub_key (i + 1) (hex_encode (sha256 C line))
                          (expected_seq + 1) rest)))"

text \<open>The public key and the file as \<open>fs::read\<close> / \<open>fs::read_to_string\<close> return them.\<close>

definition verify_chain :: "crypto \<Rightarrow> string option \<Rightarrow> string option \<Rightarrow> evidence_error + u64" where
  "verify_chain C evidence pub_key =
     (case pub_key of
        None \<Rightarrow> Inl ReadFailed
      | Some pk \<Rightarrow>
          (case evidence of
             None \<Rightarrow> Inl ReadFailed
           | Some content \<Rightarrow>
               if \<not> utf8_valid content then Inl ReadFailed
               else verify_lines C pk 0 GENESIS_HASH 0 (str_lines content)))"

subsection \<open>Files\<close>

record fs =
  fs_names :: "(string, nat) hashmap"
  fs_data :: "nat \<Rightarrow> string"
  fs_next :: nat

definition fs_exists :: "fs \<Rightarrow> string \<Rightarrow> bool" where
  "fs_exists f p = contains_key (fs_names f) p"

definition fs_content :: "fs \<Rightarrow> string \<Rightarrow> string option" where
  "fs_content f p = map_option (fs_data f) (get (fs_names f) p)"

definition fs_rename :: "string \<Rightarrow> string \<Rightarrow> fs \<Rightarrow> fs option" where
  "fs_rename from to f =
     (case get (fs_names f) from of
        None \<Rightarrow> None
      | Some i \<Rightarrow> Some (f\<lparr>fs_names := put to i (remove from (fs_names f))\<rparr>))"

definition fs_remove :: "string \<Rightarrow> fs \<Rightarrow> fs" where
  "fs_remove p f = f\<lparr>fs_names := remove p (fs_names f)\<rparr>"

text \<open>\<open>OpenOptions::new().create(true).append(true).open(p)\<close>.\<close>

definition fs_open_append :: "string \<Rightarrow> fs \<Rightarrow> nat \<times> fs" where
  "fs_open_append p f =
     (case get (fs_names f) p of
        Some i \<Rightarrow> (i, f)
      | None \<Rightarrow>
          (fs_next f,
           f\<lparr>fs_names := put p (fs_next f) (fs_names f),
             fs_data := (fs_data f)(fs_next f := []),
             fs_next := Suc (fs_next f)\<rparr>))"

definition fs_append :: "nat \<Rightarrow> string \<Rightarrow> fs \<Rightarrow> fs" where
  "fs_append i bytes f = f\<lparr>fs_data := (fs_data f)(i := fs_data f i @ bytes)\<rparr>"

subsection \<open>Segment rotation\<close>

definition segment_path :: "string \<Rightarrow> nat \<Rightarrow> string" where
  "segment_path path n = path @ ''.'' @ show_nat n"

text \<open>
  \<open>segment_path(path, 3).with_extension("evicting")\<close>: the extension \<open>3\<close> of a name that is not
  empty is replaced.
\<close>

definition parked_path :: "string \<Rightarrow> string" where
  "parked_path path = path @ ''.evicting''"

text \<open>Which of the fallible calls of one rotation the operating system lets through.\<close>

record rotate_io =
  io_park :: bool
  io_shift :: "nat \<Rightarrow> bool"
  io_live :: bool
  io_unlink :: bool
  io_reopen :: bool

definition checked_rename ::
    "bool \<Rightarrow> string \<Rightarrow> string \<Rightarrow> fs \<Rightarrow> fs \<times> (evidence_error + unit)" where
  "checked_rename ok from to f =
     (if \<not> ok then (f, Inl (RenameFailed from))
      else case fs_rename from to f of
             None \<Rightarrow> (f, Inl (RenameFailed from))
           | Some f' \<Rightarrow> (f', Inr ()))"

text \<open>The loop \<open>for n in (1..EVIDENCE_SEGMENTS_KEPT).rev()\<close>.\<close>

fun shift_segments ::
    "rotate_io \<Rightarrow> string \<Rightarrow> nat list \<Rightarrow> fs \<Rightarrow> fs \<times> (evidence_error + unit)" where
  "shift_segments io path [] f = (f, Inr ())"
| "shift_segments io path (n # ns) f =
     (if fs_exists f (segment_path path n) then
        (case checked_rename (io_shift io n) (segment_path path n) (segment_path path (n + 1)) f of
           (f', Inl e) \<Rightarrow> (f', Inl e)
         | (f', Inr _) \<Rightarrow> shift_segments io path ns f')
      else shift_segments io path ns f)"

definition rotate_segments ::
    "rotate_io \<Rightarrow> string \<Rightarrow> fs \<Rightarrow> fs \<times> (evidence_error + unit)" where
  "rotate_segments io path f =
     (let displaced = segment_path path EVIDENCE_SEGMENTS_KEPT;
          parked = parked_path path;
          had_displaced = fs_exists f displaced
      in case (if had_displaced then checked_rename (io_park io) displaced parked f
               else (f, Inr ())) of
           (f1, Inl e) \<Rightarrow> (f1, Inl e)
         | (f1, Inr _) \<Rightarrow>
             (case shift_segments io path (rev [1..<EVIDENCE_SEGMENTS_KEPT]) f1 of
                (f2, Inl e) \<Rightarrow> (f2, Inl e)
              | (f2, Inr _) \<Rightarrow>
                  (case checked_rename (io_live io) path (segment_path path 1) f2 of
                     (f3, Inl e) \<Rightarrow> (f3, Inl e)
                   | (f3, Inr _) \<Rightarrow>
                       (if had_displaced \<and> io_unlink io then fs_remove parked f3 else f3,
                        Inr ()))))"

subsection \<open>The writer\<close>

text \<open>
  \<open>Inner\<close>, with the \<open>BufWriter\<close> spelled out as the inode its file handle refers to and the
  bytes it has buffered but not yet written. \<open>chain_seq\<close> is the field \<open>seq\<close>.
\<close>

record inner =
  chain_seq :: u64
  chain_prev_hash :: string
  wr_inode :: nat
  wr_buf :: string
  seg_bytes :: u64
  rotation_broken :: bool

record evidence_writer =
  ew_inner :: inner
  ew_path :: string
  ew_cap :: u64

definition BUF_CAPACITY :: nat where
  "BUF_CAPACITY = 8192"

text \<open>
  One raw write of \<open>bytes\<close>: the kernel accepts everything (\<open>None\<close>) or fails after \<open>n\<close>
  bytes (\<open>Some n\<close>).
\<close>

definition accepted :: "nat option \<Rightarrow> string \<Rightarrow> nat" where
  "accepted out bytes = (case out of None \<Rightarrow> length bytes | Some n \<Rightarrow> min n (length bytes))"

definition write_ok :: "nat option \<Rightarrow> string \<Rightarrow> bool" where
  "write_ok out bytes \<longleftrightarrow> accepted out bytes = length bytes"

text \<open>\<open>BufWriter::flush_buf\<close>: what was written leaves the buffer, also on failure.\<close>

definition flush_buf :: "nat option \<Rightarrow> inner \<Rightarrow> fs \<Rightarrow> inner \<times> fs \<times> bool" where
  "flush_buf out w f =
     (let n = accepted out (wr_buf w)
      in (w\<lparr>wr_buf := drop n (wr_buf w)\<rparr>, fs_append (wr_inode w) (take n (wr_buf w)) f,
          write_ok out (wr_buf w)))"

text \<open>\<open>BufWriter::write_all\<close>: flush when the data does not fit, bypass when it exceeds the buffer.\<close>

definition buf_write_all ::
    "nat option \<Rightarrow> nat option \<Rightarrow> string \<Rightarrow> inner \<Rightarrow> fs \<Rightarrow> inner \<times> fs \<times> bool" where
  "buf_write_all out_flush out_direct data w f =
     (if length data < BUF_CAPACITY - length (wr_buf w) then
        (w\<lparr>wr_buf := wr_buf w @ data\<rparr>, f, True)
      else
        (case (if BUF_CAPACITY - length (wr_buf w) < length data then flush_buf out_flush w f
               else (w, f, True)) of
           (w1, f1, False) \<Rightarrow> (w1, f1, False)
         | (w1, f1, True) \<Rightarrow>
             if BUF_CAPACITY \<le> length data then
               (w1, fs_append (wr_inode w1) (take (accepted out_direct data) data) f1,
                write_ok out_direct data)
             else (w1\<lparr>wr_buf := wr_buf w1 @ data\<rparr>, f1, True)))"

record write_io =
  io_rotate :: rotate_io
  io_rotate_flush :: "nat option"
  io_line_flush :: "nat option"
  io_line_direct :: "nat option"
  io_nl_flush :: "nat option"
  io_flush :: "nat option"
  io_sync :: bool

definition rotate_locked :: "write_io \<Rightarrow> string \<Rightarrow> inner \<Rightarrow> fs \<Rightarrow> inner \<times> fs" where
  "rotate_locked io path w f =
     (case flush_buf (io_rotate_flush io) w f of
        (w1, f1, False) \<Rightarrow> (w1\<lparr>rotation_broken := True\<rparr>, f1)
      | (w1, f1, True) \<Rightarrow>
          (case rotate_segments (io_rotate io) path f1 of
             (f2, Inl _) \<Rightarrow> (w1\<lparr>rotation_broken := True\<rparr>, f2)
           | (f2, Inr _) \<Rightarrow>
               if io_reopen (io_rotate io) then
                 (case fs_open_append path f2 of
                    (i, f3) \<Rightarrow>
                      (w1\<lparr>wr_inode := i, wr_buf := [], chain_seq := 0,
                          chain_prev_hash := GENESIS_HASH, seg_bytes := 0\<rparr>, f3))
               else (w1\<lparr>rotation_broken := True\<rparr>, f2)))"

text \<open>The receipt built from the current chain state, and its line.\<close>

definition receipt_body_at ::
    "inner \<Rightarrow> string \<Rightarrow> string \<Rightarrow> string \<Rightarrow> string \<Rightarrow> string \<Rightarrow> receipt_body" where
  "receipt_body_at w action target prin verdict ts =
     \<lparr>rb_seq = chain_seq w, rb_action = action, rb_target = target, rb_principal = prin,
      rb_verdict = verdict, rb_ts = ts, rb_chain_prev_hash = chain_prev_hash w\<rparr>"

definition sign_receipt :: "crypto \<Rightarrow> receipt_body \<Rightarrow> evidence_error + string" where
  "sign_receipt C body =
     (case body_json C body of
        None \<Rightarrow> Inl SerializeBody
      | Some canonical \<Rightarrow>
          (case receipt_json C (receipt_body.extend body
                  (action_receipt.fields (hex_encode (sign C canonical)))) of
             None \<Rightarrow> Inl SerializeReceipt
           | Some line \<Rightarrow> Inr line))"

definition append_receipt ::
    "write_io \<Rightarrow> string \<Rightarrow> string \<Rightarrow> inner \<Rightarrow> fs \<Rightarrow> inner \<times> fs \<times> (evidence_error + u64)" where
  "append_receipt io hash line w f =
     (let seq = chain_seq w;
          w0 = w\<lparr>chain_prev_hash := hash, chain_seq := chain_seq w + 1\<rparr>
      in case buf_write_all (io_line_flush io) (io_line_direct io) line w0 f of
           (w1, f1, False) \<Rightarrow> (w1, f1, Inl WritingReceipt)
         | (w1, f1, True) \<Rightarrow>
             (case buf_write_all (io_nl_flush io) None [CHR 0x0A] w1 f1 of
                (w2, f2, False) \<Rightarrow> (w2, f2, Inl WritingReceipt)
              | (w2, f2, True) \<Rightarrow>
                  (let w3 = w2\<lparr>seg_bytes := saturating_add (seg_bytes w2) (of_nat (length line + 1))\<rparr>
                   in case flush_buf (io_flush io) w3 f2 of
                        (w4, f4, False) \<Rightarrow> (w4, f4, Inl FlushingFile)
                      | (w4, f4, True) \<Rightarrow>
                          (w4, f4, if io_sync io then Inr seq else Inl FsyncFile))))"

definition write_receipt ::
    "crypto \<Rightarrow> write_io \<Rightarrow> string \<Rightarrow> string \<Rightarrow> string \<Rightarrow> string \<Rightarrow> string \<Rightarrow> evidence_writer \<Rightarrow> fs \<Rightarrow>
     evidence_writer \<times> fs \<times> (evidence_error + u64)" where
  "write_receipt C io ts action target prin verdict ew f =
     (case (if ew_cap ew \<le> seg_bytes (ew_inner ew) \<and> \<not> rotation_broken (ew_inner ew)
            then rotate_locked io (ew_path ew) (ew_inner ew) f else (ew_inner ew, f)) of
        (w, f1) \<Rightarrow>
          (case sign_receipt C (receipt_body_at w action target prin verdict ts) of
             Inl e \<Rightarrow> (ew\<lparr>ew_inner := w\<rparr>, f1, Inl e)
           | Inr line \<Rightarrow>
               (case append_receipt io (hex_encode (sha256 C line)) line w f1 of
                  (w2, f2, r) \<Rightarrow> (ew\<lparr>ew_inner := w2\<rparr>, f2, r))))"

definition record_allowed ::
    "crypto \<Rightarrow> write_io \<Rightarrow> string \<Rightarrow> string \<Rightarrow> string \<Rightarrow> string \<Rightarrow> evidence_writer \<Rightarrow> fs \<Rightarrow>
     evidence_writer \<times> fs \<times> (evidence_error + u64)" where
  "record_allowed C io ts action target prin ew f =
     write_receipt C io ts action target prin ''allowed'' ew f"

definition record_denied ::
    "crypto \<Rightarrow> write_io \<Rightarrow> string \<Rightarrow> string \<Rightarrow> string \<Rightarrow> string \<Rightarrow> evidence_writer \<Rightarrow> fs \<Rightarrow>
     evidence_writer \<times> fs \<times> (evidence_error + u64)" where
  "record_denied C io ts action target prin ew f =
     write_receipt C io ts action target prin ''denied'' ew f"

subsection \<open>Recovering the chain state at boot\<close>

text \<open>
  The diagnostics that \<open>resume_note\<close> joins into one human-readable string; an empty list is
  \<open>None\<close>.
\<close>

datatype resume_diag =
    RotationAtOpenFailed evidence_error
  | FellBackToFullScan evidence_error
  | DelimiterRestored
  | TornBytesDiscarded nat
  | BadTailSignature u64

record resume =
  rs_seq :: u64
  rs_prev_hash :: string
  rs_note :: "resume_diag list"

definition resume_genesis :: resume where
  "resume_genesis = \<lparr>rs_seq = 0, rs_prev_hash = GENESIS_HASH, rs_note = []\<rparr>"

record resume_io =
  rio_stat :: bool
  rio_read_tail :: bool
  rio_append :: bool
  rio_truncate :: bool
  rio_scan :: bool
  rio_open :: bool

definition line_hash :: "crypto \<Rightarrow> string \<Rightarrow> string" where
  "line_hash C line =
     hex_encode (sha256 C (case strip_suffix_char CHR 0x0D line of None \<Rightarrow> line | Some l \<Rightarrow> l))"

definition read_tail :: "string \<Rightarrow> nat \<Rightarrow> nat \<Rightarrow> string \<times> nat" where
  "read_tail content len window =
     (let start = len - window in (take (len - start) (drop start content), start))"

definition count_nl :: "string \<Rightarrow> nat" where
  "count_nl buf = length (filter (\<lambda>b. b = CHR 0x0A) buf)"

text \<open>\<open>rposition\<close> of the newline byte.\<close>

definition rposition_nl :: "string \<Rightarrow> nat option" where
  "rposition_nl buf =
     (let n = length (takeWhile (\<lambda>b. b \<noteq> CHR 0x0A) (rev buf))
      in if n = length buf then None else Some (length buf - n - 1))"

definition full_scan_step :: "crypto \<Rightarrow> u64 \<times> string \<Rightarrow> string \<Rightarrow> u64 \<times> string" where
  "full_scan_step C st line = (fst st + 1, hex_encode (sha256 C line))"

definition resume_chain_full_scan ::
    "crypto \<Rightarrow> resume_io \<Rightarrow> string \<Rightarrow> evidence_error + u64 \<times> string" where
  "resume_chain_full_scan C io content =
     (if \<not> rio_scan io \<or> \<not> utf8_valid content then Inl ReadFailed
      else Inr (foldl (full_scan_step C) (0, GENESIS_HASH) (str_lines content)))"

definition seq_is_plausible :: "u64 \<Rightarrow> nat \<Rightarrow> bool" where
  "seq_is_plausible seq len \<longleftrightarrow> unat seq < len"

definition tail_signature_ok :: "crypto \<Rightarrow> action_receipt \<Rightarrow> string \<Rightarrow> bool" where
  "tail_signature_ok C receipt pub_key =
     (case body_json C (body_of receipt) of
        None \<Rightarrow> False
      | Some canonical \<Rightarrow>
          (case hex_decode (ar_signature receipt) of
             Inl _ \<Rightarrow> False
           | Inr sig \<Rightarrow> verify_sig C pub_key canonical sig))"

definition finish_tail ::
    "crypto \<Rightarrow> action_receipt \<Rightarrow> string \<Rightarrow> string option \<Rightarrow> resume_diag list \<Rightarrow> nat \<Rightarrow>
     evidence_error + resume" where
  "finish_tail C receipt hash pub_key note len =
     (if \<not> seq_is_plausible (rb_seq receipt) len then Inl (ImplausibleSeq (rb_seq receipt) len)
      else
        (let note' =
           (case pub_key of
              None \<Rightarrow> note
            | Some pk \<Rightarrow>
                if \<not> tail_signature_ok C receipt pk then note @ [BadTailSignature (rb_seq receipt)]
                else note)
         in Inr \<lparr>rs_seq = saturating_add (rb_seq receipt) 1, rs_prev_hash = hash, rs_note = note'\<rparr>))"

text \<open>The loop that grows the window until it holds a complete line.\<close>

function grow_tail :: "string \<Rightarrow> nat \<Rightarrow> nat \<Rightarrow> evidence_error + string \<times> nat" where
  "grow_tail content len window =
     (case read_tail content len window of
        (buf, start) \<Rightarrow>
          if 0 < start \<and> count_nl buf < 2 then
            (if \<not> window < RESUME_TAIL_MAX \<or> window = 0 then Inl (NoCompleteLine window)
             else grow_tail content len (min (window * 2) RESUME_TAIL_MAX))
          else Inr (buf, start))"
  by pat_completeness auto
termination
  by (relation "measure (\<lambda>(content, len, window). RESUME_TAIL_MAX - window)") auto

declare grow_tail.simps [simp del]

text \<open>
  The part of \<open>resume_from_tail\<close> after the window is known. The result pairs the file's content
  after any repair with the outcome.
\<close>

definition resume_buf ::
    "crypto \<Rightarrow> resume_io \<Rightarrow> string \<Rightarrow> nat \<Rightarrow> string option \<Rightarrow> string \<Rightarrow> nat \<Rightarrow>
     string \<times> (evidence_error + resume)" where
  "resume_buf C io content len pub_key buf start =
     (let last_nl = rposition_nl buf;
          frag_len = (case last_nl of Some i \<Rightarrow> length buf - (i + 1) | None \<Rightarrow> length buf);
          finish = (\<lambda>content' note buf'.
            if buf' = [] then (content', Inl EmptyTail)
            else
              let body = butlast buf';
                  line_start = (case rposition_nl body of None \<Rightarrow> 0 | Some i \<Rightarrow> i + 1);
                  line = drop line_start body
              in case parse_receipt C line of
                   None \<Rightarrow> (content', Inl ParseTail)
                 | Some receipt \<Rightarrow>
                     (content', finish_tail C receipt (line_hash C line) pub_key note len))
      in if 0 < frag_len then
           let frag = drop (length buf - frag_len) buf
           in case parse_receipt C frag of
                Some receipt \<Rightarrow>
                  if \<not> rio_append io then (content, Inl RepairFailed)
                  else (content @ [CHR 0x0A],
                        finish_tail C receipt (line_hash C frag) pub_key [DelimiterRestored] len)
              | None \<Rightarrow>
                  (case last_nl of
                     None \<Rightarrow> (content, Inl NoRecordBoundary)
                   | Some i \<Rightarrow>
                       if \<not> rio_truncate io then (content, Inl RepairFailed)
                       else
                         let keep = start + i + 1;
                             note = [TornBytesDiscarded frag_len]
                         in if keep = 0 then
                              (take keep content,
                               Inr \<lparr>rs_seq = 0, rs_prev_hash = GENESIS_HASH, rs_note = note\<rparr>)
                            else finish (take keep content) note (take (i + 1) buf))
         else finish content [] buf)"

definition resume_from_tail ::
    "crypto \<Rightarrow> resume_io \<Rightarrow> string \<Rightarrow> nat \<Rightarrow> string option \<Rightarrow> string \<times> (evidence_error + resume)" where
  "resume_from_tail C io content len pub_key =
     (if \<not> rio_read_tail io then (content, Inl ReadFailed)
      else case grow_tail content len RESUME_TAIL_WINDOW of
             Inl e \<Rightarrow> (content, Inl e)
           | Inr (buf, start) \<Rightarrow> resume_buf C io content len pub_key buf start)"

text \<open>\<open>None\<close> is a path that does not exist.\<close>

definition resume_chain ::
    "crypto \<Rightarrow> resume_io \<Rightarrow> string option \<Rightarrow> string option \<Rightarrow> string option \<times> (evidence_error + resume)" where
  "resume_chain C io file pub_key =
     (case file of
        None \<Rightarrow> (None, Inr resume_genesis)
      | Some content \<Rightarrow>
          if \<not> rio_stat io then (Some content, Inl ReadFailed)
          else if length content = 0 then (Some content, Inr resume_genesis)
          else
            (case resume_from_tail C io content (length content) pub_key of
               (content', Inr r) \<Rightarrow> (Some content', Inr r)
             | (content', Inl e) \<Rightarrow>
                 (Some content',
                  case resume_chain_full_scan C io content' of
                    Inl e' \<Rightarrow> Inl e'
                  | Inr (seq, h) \<Rightarrow>
                      Inr \<lparr>rs_seq = seq, rs_prev_hash = h, rs_note = [FellBackToFullScan e]\<rparr>)))"

text \<open>
  \<open>open_with_cap\<close> from the point where the key pair is loaded: rotate an oversized file, resume,
  open for appending.
\<close>

definition set_content :: "string \<Rightarrow> string option \<Rightarrow> fs \<Rightarrow> fs" where
  "set_content p c f =
     (case (c, get (fs_names f) p) of
        (Some s, Some i) \<Rightarrow> f\<lparr>fs_data := (fs_data f)(i := s)\<rparr>
      | _ \<Rightarrow> f)"

definition open_with_cap ::
    "crypto \<Rightarrow> rotate_io \<Rightarrow> resume_io \<Rightarrow> string \<Rightarrow> string \<Rightarrow> u64 \<Rightarrow> fs \<Rightarrow>
     fs \<times> (evidence_error + evidence_writer \<times> resume_diag list)" where
  "open_with_cap C rot_io io path pub_key cap f =
     (let oversized = (case fs_content f path of
            None \<Rightarrow> False | Some s \<Rightarrow> unat cap \<le> length s)
      in if fs_exists f path \<and> \<not> rio_stat io then (f, Inl ReadFailed)
         else
           (case (if oversized then rotate_segments rot_io path f else (f, Inr ())) of
              (f1, rot) \<Rightarrow>
                let rotate_note = (case rot of Inl e \<Rightarrow> [RotationAtOpenFailed e] | Inr _ \<Rightarrow> [])
                in case resume_chain C io (fs_content f1 path) (Some pub_key) of
                     (c, res) \<Rightarrow>
                       let f2 = set_content path c f1
                       in case res of
                            Inl e \<Rightarrow> (f2, Inl e)
                          | Inr resumed \<Rightarrow>
                              if \<not> rio_open io then (f2, Inl OpenFailed)
                              else
                                (case fs_open_append path f2 of
                                   (i, f3) \<Rightarrow>
                                     (f3, Inr
                                       (\<lparr>ew_inner =
                                          \<lparr>chain_seq = rs_seq resumed,
                                           chain_prev_hash = rs_prev_hash resumed,
                                           wr_inode = i, wr_buf = [],
                                           seg_bytes = of_nat (length (fs_data f3 i)),
                                           rotation_broken = False\<rparr>,
                                         ew_path = path, ew_cap = cap\<rparr>,
                                        rotate_note @ rs_note resumed)))))"

end
