(* ===== verification/Evidence_Chain.thy ===== *)
theory Evidence_Chain
  imports Evidence
begin

section \<open>Correctness of the receipt log\<close>

text \<open>
  The receipt writer keeps its files verifiable: hexadecimal and line handling, the chain as
  the verifier sees it, what a buffered write adds to the file under partial writes, the
  renames of a rotation, and the invariant of the writer. Ends with the tamper evidence that
  a verified chain gives and with a failure that breaks a chain.
\<close>

subsection \<open>Hexadecimal\<close>

lemma hex_encode_fold:
  "fold (\<lambda>b s. s @ [hex_digit (of_char b div 16), hex_digit (of_char b mod 16)]) bs acc =
   acc @ concat (map (\<lambda>b. [hex_digit (of_char b div 16), hex_digit (of_char b mod 16)]) bs)"
  by (induction bs arbitrary: acc) simp_all

lemma hex_encode_simps [simp]:
  "hex_encode [] = []"
  "hex_encode (b # bs) = hex_digit (of_char b div 16) # hex_digit (of_char b mod 16) # hex_encode bs"
  by (simp_all add: hex_encode_def hex_encode_fold)

lemma to_digit16_hex_digit [simp]: "d < 16 \<Longrightarrow> to_digit16 (hex_digit d) = Some d"
  by (simp add: hex_digit_def to_digit16_def)

lemma hex_pairs_encode: "hex_pairs (hex_encode bs) = Inr bs"
proof (induction bs)
  case (Cons b bs)
  have "(of_char b :: nat) div 16 < 16" using nat_of_char_less_256 [of b] by linarith
  then show ?case using Cons by simp
qed simp

lemma even_length_hex [simp]: "even (length (hex_encode bs))"
  by (induction bs) simp_all

text \<open>
  Hexadecimal is lossless: decoding the encoding of any byte string gives it back, so the
  signature a receipt carries is the signature that was computed.\<close>

theorem hex_roundtrip: "hex_decode (hex_encode bs) = Inr bs"
  by (simp add: hex_decode_def hex_pairs_encode)

lemma hex_encode_inj: "hex_encode a = hex_encode b \<longleftrightarrow> a = b"
  by (metis hex_pairs_encode sum.inject(2))

subsection \<open>Lines\<close>

definition wf_text :: "string \<Rightarrow> bool" where
  "wf_text s \<longleftrightarrow> s = [] \<or> last s = CHR 0x0A"

lemma split_nonempty: "s \<noteq> [] \<Longrightarrow> split_inclusive_nl s \<noteq> []"
  by (cases s) (auto split: list.splits)

lemma split_append: "wf_text a \<Longrightarrow> split_inclusive_nl (a @ b) = split_inclusive_nl a @ split_inclusive_nl b"
proof (induction a)
  case (Cons c a)
  then show ?case
    by (cases "a = []") (auto simp: wf_text_def split_nonempty split: list.splits)
qed simp

lemma split_line: "CHR 0x0A \<notin> set l \<Longrightarrow> split_inclusive_nl (l @ [CHR 0x0A]) = [l @ [CHR 0x0A]]"
  by (induction l) auto

lemma split_frag: "CHR 0x0A \<notin> set l \<Longrightarrow> l \<noteq> [] \<Longrightarrow> split_inclusive_nl l = [l]"
proof (induction l)
  case (Cons c l)
  then show ?case by (cases "l = []") auto
qed simp

lemma strip_line: "CHR 0x0D \<notin> set l \<Longrightarrow> strip_line_end (l @ [CHR 0x0A]) = l"
proof -
  assume "CHR 0x0D \<notin> set l"
  then have "l \<noteq> [] \<Longrightarrow> last l \<noteq> CHR 0x0D" by (metis last_in_set)
  then show ?thesis by (auto simp: strip_line_end_def strip_suffix_char_def butlast_append)
qed

lemma str_lines_append: "wf_text a \<Longrightarrow> str_lines (a @ b) = str_lines a @ str_lines b"
  by (simp add: str_lines_def split_append)

lemma str_lines_line:
  "CHR 0x0A \<notin> set l \<Longrightarrow> CHR 0x0D \<notin> set l \<Longrightarrow> str_lines (l @ [CHR 0x0A]) = [l]"
  by (simp add: str_lines_def split_line strip_line)

subsection \<open>UTF-8\<close>

lemma utf8_append: "utf8_valid a \<Longrightarrow> utf8_valid b \<Longrightarrow> utf8_valid (a @ b)"
proof (induction a rule: utf8_valid.induct)
  case (2 a cs)
  show ?case
  proof (cases "between a 0 127")
    case True
    with 2 show ?thesis by simp
  next
    case ascii: False
    with 2(5) obtain b1 cs1 where cs: "cs = b1 # cs1" by (cases cs) auto
    show ?thesis
    proof (cases "between a 194 223")
      case True
      with ascii cs 2 show ?thesis by simp
    next
      case two: False
      with ascii cs 2(5) obtain c cs2 where cs1: "cs1 = c # cs2" by (cases cs1) auto
      show ?thesis
      proof (cases "between a 224 239")
        case True
        with ascii two cs cs1 2 show ?thesis by simp
      next
        case three: False
        with ascii two cs cs1 2(5) obtain d cs3 where cs2: "cs2 = d # cs3" by (cases cs2) auto
        with ascii two three cs cs1 2 show ?thesis by simp
      qed
    qed
  qed
qed simp

lemma utf8_ascii: "\<forall>c \<in> set s. (of_char c :: nat) < 128 \<Longrightarrow> utf8_valid s"
  by (induction s) (auto simp: between_def)


subsection \<open>Chains\<close>

text \<open>
  The hash the next receipt has to carry after the lines \<open>ls\<close>.\<close>

definition chain_hash :: "crypto \<Rightarrow> string \<Rightarrow> string list \<Rightarrow> string" where
  "chain_hash C h ls = (if ls = [] then h else hex_encode (sha256 C (last ls)))"

lemma chain_hash_simps [simp]:
  "chain_hash C h [] = h"
  "chain_hash C h (l # ls) = chain_hash C (hex_encode (sha256 C l)) ls"
  "chain_hash C h (ls @ [l]) = hex_encode (sha256 C l)"
  by (simp_all add: chain_hash_def)

lemma verify_lines_append:
  "verify_lines C pk i h s (ls @ ms) =
     (case verify_lines C pk i h s ls of
        Inl e \<Rightarrow> Inl e
      | Inr s' \<Rightarrow> verify_lines C pk (i + length ls) (chain_hash C h ls) s' ms)"
proof (induction ls arbitrary: i h s)
  case (Cons l ls)
  show ?case
    by (simp add: Cons.IH split: option.split sum.split)
qed simp

text \<open>
  What the writer relies on of \<open>serde_json\<close> and of the key pair: a serialised receipt is one
  non-empty UTF-8 line without raw control characters, parses back to the receipt, none of its
  proper prefixes is a complete JSON object, and the public key accepts what the private key
  signs.\<close>

definition codec_laws :: "crypto \<Rightarrow> string \<Rightarrow> bool" where
  "codec_laws C pk \<longleftrightarrow>
     (\<forall>r s. receipt_json C r = Some s \<longrightarrow>
        s \<noteq> [] \<and> parse_receipt C s = Some r \<and> CHR 0x0A \<notin> set s \<and> CHR 0x0D \<notin> set s \<and> utf8_valid s \<and>
        (\<forall>p. strict_prefix p s \<longrightarrow> parse_receipt C p = None)) \<and>
     (\<forall>m. verify_sig C pk m (sign C m))"

text \<open>
  A text that the verifier accepts from genesis, with the sequence number and the hash that the
  next receipt has to carry.\<close>

definition chain_ok :: "crypto \<Rightarrow> string \<Rightarrow> string \<Rightarrow> u64 \<Rightarrow> string \<Rightarrow> bool" where
  "chain_ok C pk txt s h \<longleftrightarrow>
     wf_text txt \<and> utf8_valid txt \<and> CHR 0x0D \<notin> set txt \<and>
     verify_lines C pk 0 GENESIS_HASH 0 (str_lines txt) = Inr s \<and>
     h = chain_hash C GENESIS_HASH (str_lines txt)"

lemma chain_ok_empty: "chain_ok C pk [] 0 GENESIS_HASH"
  by (simp add: chain_ok_def wf_text_def str_lines_def)

lemma chain_ok_verify: "chain_ok C pk txt s h \<Longrightarrow> verify_chain C (Some txt) (Some pk) = Inr s"
  by (simp add: chain_ok_def verify_chain_def)

lemma body_of_extend:
  "body_of (receipt_body.extend b (action_receipt.fields sg)) = b"
  by (simp add: body_of_def receipt_body.defs action_receipt.defs)

lemma extend_fields [simp]:
  "rb_seq (receipt_body.extend b (action_receipt.fields sg)) = rb_seq b"
  "rb_chain_prev_hash (receipt_body.extend b (action_receipt.fields sg)) = rb_chain_prev_hash b"
  "ar_signature (receipt_body.extend b (action_receipt.fields sg)) = sg"
  by (simp_all add: receipt_body.defs action_receipt.defs)

lemma chain_ok_sign:
  assumes laws: "codec_laws C pk" and ok: "chain_ok C pk txt s h"
    and sign: "sign_receipt C b = Inr line" and b: "rb_seq b = s" "rb_chain_prev_hash b = h"
  shows "chain_ok C pk (txt @ line @ [CHR 0x0A]) (s + 1) (hex_encode (sha256 C line))"
proof -
  obtain canonical where can: "body_json C b = Some canonical"
    and line: "receipt_json C (receipt_body.extend b
       (action_receipt.fields (hex_encode (sign C canonical)))) = Some line"
    using sign by (auto simp: sign_receipt_def split: option.splits)
  have p: "parse_receipt C line = Some (receipt_body.extend b
       (action_receipt.fields (hex_encode (sign C canonical))))"
    and nocr: "CHR 0x0A \<notin> set line" "CHR 0x0D \<notin> set line" and u: "utf8_valid line"
    and v: "verify_sig C pk canonical (sign C canonical)"
    using laws line by (auto simp: codec_laws_def)
  have lines: "str_lines (txt @ line @ [CHR 0x0A]) = str_lines txt @ [line]"
    using ok nocr by (simp add: chain_ok_def str_lines_append str_lines_line)
  have "utf8_valid [CHR 0x0A]" by (simp add: between_def)
  then have u2: "utf8_valid (txt @ line @ [CHR 0x0A])"
    using ok u by (simp add: chain_ok_def utf8_append)
  show ?thesis
    using ok p v b can u2 nocr unfolding chain_ok_def lines
    by (simp add: verify_lines_append body_of_extend hex_decode_def hex_pairs_encode wf_text_def)
qed

subsection \<open>The buffered file\<close>

text \<open>
  What the file will hold once the buffer is flushed.\<close>

definition live_text :: "inner \<Rightarrow> fs \<Rightarrow> string" where
  "live_text w f = fs_data f (wr_inode w) @ wr_buf w"

definition writer_frame :: "inner \<Rightarrow> fs \<Rightarrow> inner \<Rightarrow> fs \<Rightarrow> bool" where
  "writer_frame w f w' f' \<longleftrightarrow>
     chain_seq w' = chain_seq w \<and> chain_prev_hash w' = chain_prev_hash w \<and>
     wr_inode w' = wr_inode w \<and> rotation_broken w' = rotation_broken w \<and>
     fs_names f' = fs_names f \<and> fs_next f' = fs_next f \<and>
     (\<forall>i. i \<noteq> wr_inode w \<longrightarrow> fs_data f' i = fs_data f i)"

lemma writer_frame_trans:
  "writer_frame w f w1 f1 \<Longrightarrow> writer_frame w1 f1 w2 f2 \<Longrightarrow> writer_frame w f w2 f2"
  by (simp add: writer_frame_def)

lemma flush_buf_text:
  assumes "flush_buf out w f = (w', f', ok)"
  shows "live_text w' f' = live_text w f" "writer_frame w f w' f'" "ok \<Longrightarrow> wr_buf w' = []"
  using assms
  by (auto simp: flush_buf_def Let_def live_text_def fs_append_def write_ok_def writer_frame_def)

lemma buffered_text:
  "live_text (w\<lparr>wr_buf := wr_buf w @ d\<rparr>) f = live_text w f @ d"
  "writer_frame w f (w\<lparr>wr_buf := wr_buf w @ d\<rparr>) f"
  by (simp_all add: live_text_def writer_frame_def)

lemma direct_text:
  "wr_buf w = [] \<Longrightarrow> live_text w (fs_append (wr_inode w) d f) = live_text w f @ d"
  "writer_frame w f w (fs_append (wr_inode w) d f)"
  by (simp_all add: live_text_def writer_frame_def fs_append_def)

lemma buf_write_all_text:
  assumes w: "buf_write_all o1 o2 d w f = (w', f', ok)"
  shows "writer_frame w f w' f' \<and>
    (\<exists>k. live_text w' f' = live_text w f @ take k d \<and> (ok \<longrightarrow> k = length d))"
proof -
  let ?spare = "BUF_CAPACITY - length (wr_buf w)"
  obtain w1 f1 ok1 where fl: "flush_buf o1 w f = (w1, f1, ok1)" by (metis prod_cases3)
  note flushed = flush_buf_text [OF fl]
  have full: "take (length d) d = d" by simp
  consider "length d < BUF_CAPACITY" "length d \<le> ?spare" | "?spare < length d" "\<not> ok1"
    | "?spare < length d" "ok1" "BUF_CAPACITY \<le> length d"
    | "?spare < length d" "ok1" "length d < BUF_CAPACITY"
    | "BUF_CAPACITY \<le> length d" "length d \<le> ?spare" "wr_buf w = []"
    by (cases "wr_buf w") (fastforce simp: BUF_CAPACITY_def not_less)+
  then show ?thesis
  proof cases
    case 1
    then show ?thesis
      using w full buffered_text [where w=w and d=d and f=f]
      by (auto simp: buf_write_all_def split: if_splits intro: exI [of _ "length d"])
  next
    case 2
    then show ?thesis
      using w fl flushed by (auto simp: buf_write_all_def intro: exI [of _ 0])
  next
    case 3
    then show ?thesis
      using w fl flushed direct_text [where w=w1 and d="take (accepted o2 d) d" and f=f1]
      by (auto simp: buf_write_all_def write_ok_def intro: writer_frame_trans)
  next
    case 4
    then show ?thesis
      using w fl flushed full buffered_text [where w=w1 and d=d and f=f1]
      by (auto simp: buf_write_all_def intro: writer_frame_trans exI [of _ "length d"])
  next
    case 5
    then show ?thesis
      using w direct_text [where w=w and d="take (accepted o2 d) d" and f=f]
      by (auto simp: buf_write_all_def write_ok_def)
  qed
qed

lemma append_receipt_text:
  assumes a: "append_receipt io h line w f = (w', f', r)"
  shows "wr_inode w' = wr_inode w" "rotation_broken w' = rotation_broken w"
    "fs_names f' = fs_names f" "fs_next f' = fs_next f"
    "\<forall>i. i \<noteq> wr_inode w \<longrightarrow> fs_data f' i = fs_data f i"
    "chain_seq w' = chain_seq w + 1" "chain_prev_hash w' = h"
    "\<exists>k. live_text w' f' = live_text w f @ take k (line @ [CHR 0x0A]) \<and>
         (r \<noteq> Inl WritingReceipt \<longrightarrow> k = length line + 1)"
    "r = Inr s \<Longrightarrow> wr_buf w' = [] \<and> s = chain_seq w"
proof -
  let ?w0 = "w\<lparr>chain_prev_hash := h, chain_seq := chain_seq w + 1\<rparr>"
  obtain w1 f1 ok1 where b1: "buf_write_all (io_line_flush io) (io_line_direct io) line ?w0 f =
    (w1, f1, ok1)" by (metis prod_cases3)
  obtain w2 f2 ok2 where b2: "buf_write_all (io_nl_flush io) None [CHR 0x0A] w1 f1 =
    (w2, f2, ok2)" by (metis prod_cases3)
  define w3 where "w3 = w2\<lparr>seg_bytes := saturating_add (seg_bytes w2) (of_nat (length line + 1))\<rparr>"
  obtain w4 f4 ok4 where b4: "flush_buf (io_flush io) w3 f2 = (w4, f4, ok4)"
    by (metis prod_cases3)
  obtain k1 where t1: "live_text w1 f1 = live_text w f @ take k1 line" "ok1 \<longrightarrow> k1 = length line"
    and fr1: "writer_frame ?w0 f w1 f1"
    using buf_write_all_text [OF b1] by (auto simp: live_text_def)
  obtain k2 where t2: "live_text w2 f2 = live_text w1 f1 @ take k2 [CHR 0x0A]" "ok2 \<longrightarrow> k2 = 1"
    and fr2: "writer_frame w1 f1 w2 f2"
    using buf_write_all_text [OF b2] by auto
  have t3: "live_text w3 f2 = live_text w2 f2" and fr3: "writer_frame w2 f2 w3 f2"
    by (simp_all add: w3_def live_text_def writer_frame_def)
  note t4 = flush_buf_text [OF b4]
  consider "\<not> ok1" "w' = w1" "f' = f1" "r = Inl WritingReceipt"
    | "ok1" "\<not> ok2" "w' = w2" "f' = f2" "r = Inl WritingReceipt"
    | "ok1" "ok2" "w' = w4" "f' = f4" "r \<noteq> Inl WritingReceipt" "r = Inr s \<longrightarrow> ok4 \<and> s = chain_seq w"
    using a b1 b2 b4 by (auto simp: append_receipt_def Let_def w3_def split: if_splits bool.splits)
  then have "writer_frame ?w0 f w' f' \<and> (r = Inr s \<longrightarrow> wr_buf w' = [] \<and> s = chain_seq w) \<and>
      (\<exists>k. live_text w' f' = live_text w f @ take k (line @ [CHR 0x0A]) \<and>
         (r \<noteq> Inl WritingReceipt \<longrightarrow> k = length line + 1))"
  proof cases
    case 1
    then show ?thesis
      using t1 fr1 by (auto intro!: exI [of _ "min k1 (length line)"] simp: min_def)
  next
    case 2
    then show ?thesis
      using t1 t2 fr1 fr2 by (auto intro!: exI [of _ "length line + k2"] intro: writer_frame_trans)
  next
    case 3
    then show ?thesis
      using t1 t2 t3 t4 fr1 fr2 fr3 
      by (auto intro!: exI [of _ "length line + 1"] intro: writer_frame_trans)
  qed
  then show "wr_inode w' = wr_inode w" "rotation_broken w' = rotation_broken w"
    "fs_names f' = fs_names f" "fs_next f' = fs_next f"
    "\<forall>i. i \<noteq> wr_inode w \<longrightarrow> fs_data f' i = fs_data f i"
    "chain_seq w' = chain_seq w + 1" "chain_prev_hash w' = h"
    "\<exists>k. live_text w' f' = live_text w f @ take k (line @ [CHR 0x0A]) \<and>
         (r \<noteq> Inl WritingReceipt \<longrightarrow> k = length line + 1)"
    "r = Inr s \<Longrightarrow> wr_buf w' = [] \<and> s = chain_seq w"
    by (auto simp: writer_frame_def)
qed


subsection \<open>Rotation\<close>

lemma segment_path_neq [simp]:
  "segment_path p n \<noteq> p" "p \<noteq> segment_path p n" "parked_path p \<noteq> p" "p \<noteq> parked_path p"
  by (simp_all add: segment_path_def parked_path_def)

lemma segment_path_inj [simp]: "segment_path p m = segment_path p n \<longleftrightarrow> m = n"
  by (simp add: segment_path_def show_nat_inj)

lemma segment_path_parked [simp]: "segment_path p n \<noteq> parked_path p" "parked_path p \<noteq> segment_path p n"
proof -
  have "show_nat n \<noteq> ''evicting''"
    using digits_show_nat [of n] by (auto simp: is_digit_def)
  then show "segment_path p n \<noteq> parked_path p" by (simp add: segment_path_def parked_path_def)
  then show "parked_path p \<noteq> segment_path p n" by metis
qed

definition segment_names :: "string \<Rightarrow> string list" where
  "segment_names p = [segment_path p 1, segment_path p 2, segment_path p 3, parked_path p]"

definition renamed :: "fs \<Rightarrow> fs \<Rightarrow> (string \<Rightarrow> nat option) \<Rightarrow> bool" where
  "renamed f f' m \<longleftrightarrow> get (fs_names f') = m \<and> fs_data f' = fs_data f \<and> fs_next f' = fs_next f"

lemma checked_rename_cases:
  assumes "checked_rename ok a b f = (f', r)" "a \<noteq> b"
  obtains e where "r = Inl e" "f' = f"
  | i where "r = Inr ()" "get (fs_names f) a = Some i"
      "renamed f f' ((get (fs_names f))(a := None, b := Some i))"
proof (cases "ok \<and> get (fs_names f) a \<noteq> None")
  case True
  then obtain i where "get (fs_names f) a = Some i" by blast
  with True assms show ?thesis
    by (intro that(2)) (auto simp: checked_rename_def fs_rename_def renamed_def fun_eq_iff)
next
  case False
  with assms show ?thesis
    by (intro that(1)) (auto simp: checked_rename_def fs_rename_def split: if_splits option.splits)
qed

text \<open>A step that renames \<open>a\<close> to \<open>b\<close> when \<open>a\<close> exists.\<close>

definition shifted :: "string \<Rightarrow> string \<Rightarrow> (string \<Rightarrow> nat option) \<Rightarrow> (string \<Rightarrow> nat option)" where
  "shifted a b m = (if m a = None then m else m(a := None, b := m a))"

lemma opt_rename:
  assumes "(if fs_exists f a then checked_rename ok a b f else (f, Inr ())) = (f', r)" "a \<noteq> b"
  shows "(\<exists>e. r = Inl e \<and> f' = f) \<or> 
    r = Inr () \<and> renamed f f' (shifted a b (get (fs_names f)))"
proof (cases "fs_exists f a")
  case True
  with assms(1) have c: "checked_rename ok a b f = (f', r)" by simp
  from c assms(2) show ?thesis
    by (cases rule: checked_rename_cases) (auto simp: shifted_def)
next
  case False
  with assms(1) show ?thesis by (auto simp: renamed_def shifted_def fs_exists_def)
qed

lemma opt_rename_shift:
  "shift_segments io path (n # ns) f =
     (case (if fs_exists f (segment_path path n)
            then checked_rename (io_shift io n) (segment_path path n) (segment_path path (n + 1)) f
            else (f, Inr ())) of
        (f', Inl e) \<Rightarrow> (f', Inl e) | (f', Inr _) \<Rightarrow> shift_segments io path ns f')"
  by simp

definition rotation_moves :: "string \<Rightarrow> (string \<times> string) list" where
  "rotation_moves p =
     [(segment_path p 3, parked_path p), (segment_path p 2, segment_path p 3),
      (segment_path p 1, segment_path p 2), (p, segment_path p 1)]"

definition rotated :: "string \<Rightarrow> nat \<Rightarrow> (string \<Rightarrow> nat option) \<Rightarrow> (string \<Rightarrow> nat option)" where
  "rotated p k m = fold (\<lambda>(a, b). shifted a b) (take k (rotation_moves p)) m"

lemma rotated_simps:
  "rotated p 0 m = m"
  "rotated p 1 m = shifted (segment_path p 3) (parked_path p) (rotated p 0 m)"
  "rotated p 2 m = shifted (segment_path p 2) (segment_path p 3) (rotated p 1 m)"
  "rotated p 3 m = shifted (segment_path p 1) (segment_path p 2) (rotated p 2 m)"
  "rotated p 4 m = shifted p (segment_path p 1) (rotated p 3 m)"
  by (simp_all add: rotated_def rotation_moves_def numeral_eq_Suc)

lemmas rotated_eqs = rotated_simps rotated_simps(2) [unfolded One_nat_def]

lemma renamed_refl: "renamed f f (get (fs_names f))"
  by (simp add: renamed_def)

lemma renamed_shifted:
  "renamed f f1 m \<Longrightarrow> renamed f1 f2 (shifted a b (get (fs_names f1))) \<Longrightarrow> renamed f f2 (shifted a b m)"
  by (simp add: renamed_def)

lemma rotate_segments_cases:
  assumes "rotate_segments io path f = (f', r)"
  obtains e k where "r = Inl e" "k \<le> 3" "renamed f f' (rotated path k (get (fs_names f)))"
  | f0 where "r = Inr ()" "get (fs_names f) path \<noteq> None" "renamed f f0 (rotated path 4 (get (fs_names f)))"
      "f' = (if fs_exists f (segment_path path 3) \<and> io_unlink io then fs_remove (parked_path path) f0 else f0)"
proof -
  let ?s = "segment_path path"
  obtain f1 r1 where x1: "(if fs_exists f (?s 3) then checked_rename (io_park io) (?s 3) (parked_path path) f else (f, Inr ())) = (f1, r1)"
    by fastforce
  obtain f2 r2 where x2: "(if fs_exists f1 (?s 2) then checked_rename (io_shift io 2) (?s 2) (?s 3) f1 else (f1, Inr ())) = (f2, r2)"
    by fastforce
  obtain f3 r3 where x3: "(if fs_exists f2 (?s 1) then checked_rename (io_shift io 1) (?s 1) (?s 2) f2 else (f2, Inr ())) = (f3, r3)"
    by fastforce
  obtain f4 r4 where x4: "checked_rename (io_live io) path (?s 1) f3 = (f4, r4)"
    by fastforce
  have sh: "shift_segments io path (rev [1..<3]) f1 =
     (case r2 of Inl e \<Rightarrow> (f2, Inl e) | Inr _ \<Rightarrow> (case r3 of Inl e \<Rightarrow> (f3, Inl e) | Inr _ \<Rightarrow> (f3, Inr ())))"
  proof -
    have l: "rev [1..<3] = [2, 1 :: nat]" by (simp add: upt_rec)
    have e: "(2::nat) + 1 = 3" "(1::nat) + 1 = 2" by simp_all
    show ?thesis
      unfolding l opt_rename_shift e x2 prod.case x3
      by (cases r2; cases r3; simp only: sum.case shift_segments.simps(1))
  qed
  have rot: "rotate_segments io path f =
     (case r1 of Inl e \<Rightarrow> (f1, Inl e) | Inr _ \<Rightarrow> (case r2 of Inl e \<Rightarrow> (f2, Inl e) | Inr _ \<Rightarrow>
       (case r3 of Inl e \<Rightarrow> (f3, Inl e) | Inr _ \<Rightarrow> (case r4 of Inl e \<Rightarrow> (f4, Inl e) | Inr _ \<Rightarrow>
         (if fs_exists f (?s 3) \<and> io_unlink io then fs_remove (parked_path path) f4 else f4, Inr ())))))"
    unfolding rotate_segments_def Let_def EVIDENCE_SEGMENTS_KEPT_def x1 prod.case
    by (cases r1; cases r2; cases r3; cases r4; simp only: sum.case prod.case sh x4)
  let ?m = "get (fs_names f)"
  have z1: "renamed f f1 (rotated path 1 ?m)" if "r1 = Inr ()"
    using opt_rename [OF x1 segment_path_parked(1)] that renamed_refl unfolding rotated_simps by auto
  have z2: "renamed f f2 (rotated path 2 ?m)" if "r1 = Inr ()" "r2 = Inr ()"
    using opt_rename [OF x2] that z1 renamed_shifted unfolding rotated_simps(3) by auto
  have z3: "renamed f f3 (rotated path 3 ?m)" if "r1 = Inr ()" "r2 = Inr ()" "r3 = Inr ()"
    using opt_rename [OF x3] that z2 renamed_shifted unfolding rotated_simps(4) by auto
  have y4: "(r4 = Inr () \<longrightarrow> get (fs_names f3) path \<noteq> None \<and>
      renamed f3 f4 (shifted path (?s 1) (get (fs_names f3)))) \<and> (r4 \<noteq> Inr () \<longrightarrow> f4 = f3)"
    using x4 segment_path_neq(2) by (cases rule: checked_rename_cases) (simp_all add: shifted_def)
  have y: "r1 \<noteq> Inr () \<longrightarrow> f1 = f" "r2 \<noteq> Inr () \<longrightarrow> f2 = f1" "r3 \<noteq> Inr () \<longrightarrow> f3 = f2"
    using opt_rename [OF x1] opt_rename [OF x2] opt_rename [OF x3] by simp_all blast+
  have p3: "rotated path 3 ?m path = ?m path"
    unfolding rotated_simps by (simp add: shifted_def)
  have z4: "renamed f f4 (rotated path 4 ?m)" "?m path \<noteq> None"
    if "r1 = Inr ()" "r2 = Inr ()" "r3 = Inr ()" "r4 = Inr ()"
    using y4 that z3 renamed_shifted p3 unfolding rotated_simps(5) by (auto simp: renamed_def)
  have inr: "\<And>r :: evidence_error + unit. (\<exists>e. r = Inl e) \<or> r = Inr ()"
    by (metis old.unit.exhaust sum.exhaust)
  consider e where "r1 = Inl e" | e where "r1 = Inr ()" "r2 = Inl e"
    | e where "r1 = Inr ()" "r2 = Inr ()" "r3 = Inl e"
    | e where "r1 = Inr ()" "r2 = Inr ()" "r3 = Inr ()" "r4 = Inl e"
    | "r1 = Inr ()" "r2 = Inr ()" "r3 = Inr ()" "r4 = Inr ()"
    using inr by metis
  then show ?thesis
  proof cases
    case (1 e)
    then show ?thesis
      using assms rot y renamed_refl by (intro that(1) [of e 0]) (auto simp: rotated_simps(1))
  next
    case (2 e)
    then show ?thesis using assms rot y z1 by (intro that(1) [of e 1]) auto
  next
    case (3 e)
    then show ?thesis using assms rot y z2 by (intro that(1) [of e 2]) auto
  next
    case (4 e)
    then show ?thesis using assms rot y4 z3 by (intro that(1) [of e 3]) auto
  next
    case 5
    then show ?thesis using assms rot z4 by (intro that(2) [of f4]) auto
  qed
qed


lemma rotated_origin:
  "rotated p k m q = Some i \<Longrightarrow> k \<le> 4 \<Longrightarrow>
     (q \<in> insert p (set (segment_names p)) \<and> (\<exists>q0 \<in> insert p (set (segment_names p)). m q0 = Some i)) \<or> m q = Some i"
proof -
  have step: "shifted a b m' q = Some i \<Longrightarrow> m' q = Some i \<or> q = b \<and> m' a = Some i" for a b m' q
    by (auto simp: shifted_def split: if_splits)
  assume "k \<le> 4"
  then have "k \<in> {0, 1, 2, 3, 4}" by auto
  moreover assume "rotated p k m q = Some i"
  ultimately show ?thesis
    by (auto simp: rotated_eqs segment_names_def dest!: step)
qed

lemma shifted_keeps:
  "m q = Some i \<Longrightarrow> m b \<noteq> Some i \<or> q \<noteq> b \<Longrightarrow> q \<in> Q \<Longrightarrow> b \<in> Q \<Longrightarrow> \<exists>q' \<in> Q. shifted a b m q' = Some i"
  by (cases "m a = None"; cases "q = a") (auto simp: shifted_def)

lemma shifted_source [simp]: "a \<noteq> b \<Longrightarrow> shifted a b m a = None"
  by (simp add: shifted_def)

lemma rotated_keeps:
  assumes "m q = Some i" "q \<in> {p, segment_path p 1, segment_path p 2, segment_path p 3}" "k \<le> 4"
  shows "\<exists>q' \<in> set (p # segment_names p). rotated p k m q' = Some i"
proof -
  let ?Q = "set (p # segment_names p)"
  have mem: "segment_path p 1 \<in> ?Q" "segment_path p 2 \<in> ?Q" "segment_path p 3 \<in> ?Q"
      "parked_path p \<in> ?Q" "q \<in> ?Q" "q \<noteq> parked_path p"
    using assms(2) by (auto simp: segment_names_def)
  have k1: "\<exists>q' \<in> ?Q. rotated p 1 m q' = Some i"
    unfolding rotated_simps using shifted_keeps [of m q i] assms(1) mem by metis
  have "rotated p 1 m (segment_path p 3) = None" unfolding rotated_simps by simp
  with k1 mem have k2: "\<exists>q' \<in> ?Q. rotated p 2 m q' = Some i"
    unfolding rotated_simps(3) using shifted_keeps by (metis option.distinct(1))
  have "rotated p 2 m (segment_path p 2) = None" unfolding rotated_simps(3) by simp
  with k2 mem have k3: "\<exists>q' \<in> ?Q. rotated p 3 m q' = Some i"
    unfolding rotated_simps(4) using shifted_keeps by (metis option.distinct(1))
  have "rotated p 3 m (segment_path p 1) = None" unfolding rotated_simps(4) by simp
  with k3 mem have k4: "\<exists>q' \<in> ?Q. rotated p 4 m q' = Some i"
    unfolding rotated_simps(5) using shifted_keeps by (metis option.distinct(1))
  have "k = 0 \<or> k = 1 \<or> k = 2 \<or> k = 3 \<or> k = 4" using assms(3) by linarith
  with k1 k2 k3 k4 mem(5) assms(1) rotated_simps(1) show ?thesis by metis
qed

lemma rotated_full:
  assumes "m p \<noteq> None"
  shows "rotated p 4 m p = None" "rotated p 4 m (segment_path p 1) = m p"
    "rotated p 4 m (segment_path p 2) = m (segment_path p 1)"
    "rotated p 4 m (segment_path p 3) = m (segment_path p 2)"
  using assms by (auto simp: rotated_eqs shifted_def)

lemma rotation_failed_keeps:
  assumes "rotate_segments io path f = (f', Inl e)"
    "q \<in> {path, segment_path path 1, segment_path path 2, segment_path path 3}"
    "fs_content f q = Some c"
  shows "\<exists>q' \<in> set (path # segment_names path). fs_content f' q' = Some c"
proof -
  from assms(1) obtain k where k: "k \<le> 3" "renamed f f' (rotated path k (get (fs_names f)))"
    by (elim rotate_segments_cases) auto
  moreover obtain i where "get (fs_names f) q = Some i" "fs_data f i = c"
    using assms(3) by (auto simp: fs_content_def)
  ultimately show ?thesis
    using rotated_keeps [of "get (fs_names f)" q i path k] assms(2)
    by (auto simp: renamed_def fs_content_def)
qed

lemma rotation_done_shifts:
  assumes "rotate_segments io path f = (f', Inr u)"
  shows "fs_content f' path = None \<and>
    fs_content f' (segment_path path 1) = fs_content f path \<and>
    fs_content f' (segment_path path 2) = fs_content f (segment_path path 1) \<and>
    fs_content f' (segment_path path 3) = fs_content f (segment_path path 2)"
  using assms rotated_full [of "get (fs_names f)" path]
  by (elim rotate_segments_cases) (auto simp: renamed_def fs_content_def fs_remove_def)

text \<open>
  C25. Rotation loses no retained segment, whatever renames fail: a failed rotation leaves the
  content of the live file and of every numbered segment under one of the log's names, and a
  completed one has moved each of them down by exactly one slot and freed the live name.\<close>

theorem rotation_loses_no_segment:
  assumes "rotate_segments io path f = (f', r)"
  shows "case r of
      Inl e \<Rightarrow> \<forall>q \<in> {path, segment_path path 1, segment_path path 2, segment_path path 3}.
        \<forall>c. fs_content f q = Some c \<longrightarrow>
          (\<exists>q' \<in> set (path # segment_names path). fs_content f' q' = Some c)
    | Inr u \<Rightarrow> fs_content f' path = None \<and>
        fs_content f' (segment_path path 1) = fs_content f path \<and>
        fs_content f' (segment_path path 2) = fs_content f (segment_path path 1) \<and>
        fs_content f' (segment_path path 3) = fs_content f (segment_path path 2)"
  using assms rotation_failed_keeps [of io path f f'] rotation_done_shifts [of io path f f']
  by (cases r) auto

definition sample_rotate_io :: rotate_io where
  "sample_rotate_io =
     \<lparr>io_park = True, io_shift = (\<lambda>_. True), io_live = False, io_unlink = True, io_reopen = True\<rparr>"

definition sample_segments :: fs where
  "sample_segments =
     \<lparr>fs_names = [(''e'', 0), (''e.1'', 1), (''e.3'', 2)],
      fs_data = (\<lambda>i. if i = 1 then ''one'' else if i = 2 then ''three'' else ''live''), fs_next = 3\<rparr>"

theorem rotation_loses_no_segment_witness:
  "snd (rotate_segments sample_rotate_io ''e'' sample_segments) = Inl (RenameFailed ''e'') \<and>
   (\<exists>q \<in> set (''e'' # segment_names ''e'').
      fs_content (fst (rotate_segments sample_rotate_io ''e'' sample_segments)) q = Some ''three'')"
proof -
  have r: "snd (rotate_segments sample_rotate_io ''e'' sample_segments) = Inl (RenameFailed ''e'')"
    by code_simp
  have c: "fs_content sample_segments (segment_path ''e'' 3) = Some ''three''"
    by code_simp
  show ?thesis
    using rotation_loses_no_segment [of sample_rotate_io "''e''" sample_segments
        "fst (rotate_segments sample_rotate_io ''e'' sample_segments)" "Inl (RenameFailed ''e'')"] r c
    by (auto simp: prod_eq_iff)
qed

subsection \<open>The invariant of the writer\<close>

text \<open>
  The bytes written and buffered form a chain that ends in the writer's own state; the live
  name denotes the open file unless rotation has been switched off; and every other segment
  verifies on its own.\<close>

definition writer_inv :: "crypto \<Rightarrow> string \<Rightarrow> evidence_writer \<Rightarrow> fs \<Rightarrow> bool" where
  "writer_inv C pk ew f \<longleftrightarrow>
     chain_ok C pk (live_text (ew_inner ew) f) (chain_seq (ew_inner ew))
       (chain_prev_hash (ew_inner ew)) \<and>
     wr_inode (ew_inner ew) < fs_next f \<and>
     (\<forall>q i. get (fs_names f) q = Some i \<longrightarrow> i < fs_next f) \<and>
     (\<not> rotation_broken (ew_inner ew) \<longrightarrow>
        get (fs_names f) (ew_path ew) = Some (wr_inode (ew_inner ew))) \<and>
     (\<forall>q \<in> set (segment_names (ew_path ew)). \<forall>i. get (fs_names f) q = Some i \<and>
        i \<noteq> wr_inode (ew_inner ew) \<longrightarrow> (\<exists>s h. chain_ok C pk (fs_data f i) s h))"


lemma writer_inv_frame:
  assumes "writer_inv C pk ew f" "wr_inode w' = wr_inode (ew_inner ew)"
    "fs_names f' = fs_names f" "fs_next f' = fs_next f"
    "\<forall>i. i \<noteq> wr_inode (ew_inner ew) \<longrightarrow> fs_data f' i = fs_data f i"
    "rotation_broken (ew_inner ew) \<longrightarrow> rotation_broken w'"
    "chain_ok C pk (live_text w' f') (chain_seq w') (chain_prev_hash w')"
  shows "writer_inv C pk (ew\<lparr>ew_inner := w'\<rparr>) f'"
  using assms unfolding writer_inv_def by auto

lemma live_text_broken [simp]: "live_text (w\<lparr>rotation_broken := b\<rparr>) f = live_text w f"
  by (simp add: live_text_def)

lemma writer_inv_flush:
  assumes "writer_inv C pk ew f" "flush_buf out (ew_inner ew) f = (w1, f1, ok)"
  shows "writer_inv C pk (ew\<lparr>ew_inner := w1\<rparr>) f1"
    "writer_inv C pk (ew\<lparr>ew_inner := w1\<lparr>rotation_broken := True\<rparr>\<rparr>) f1"
  using assms flush_buf_text [OF assms(2)]
  by (auto intro!: writer_inv_frame [OF assms(1)] simp: writer_frame_def writer_inv_def)

lemma writer_inv_renamed:
  assumes inv: "writer_inv C pk ew f" and nb: "\<not> rotation_broken (ew_inner ew)"
    and r: "renamed f f' (rotated (ew_path ew) k (get (fs_names f)))" and k: "k \<le> 4"
  shows "writer_inv C pk (ew\<lparr>ew_inner := (ew_inner ew)\<lparr>rotation_broken := True\<rparr>\<rparr>) f'"
proof -
  have org: "get (fs_names f') q = Some i \<Longrightarrow>
      (q \<in> insert (ew_path ew) (set (segment_names (ew_path ew))) \<and>
       (\<exists>q0 \<in> insert (ew_path ew) (set (segment_names (ew_path ew))). get (fs_names f) q0 = Some i)) \<or>
      get (fs_names f) q = Some i" for q i
    using rotated_origin [OF _ k] r by (simp add: renamed_def)
  have "\<forall>q i. get (fs_names f') q = Some i \<longrightarrow> i < fs_next f'"
    using org inv r unfolding writer_inv_def renamed_def by metis
  moreover have "\<exists>s h. chain_ok C pk (fs_data f' i) s h"
    if "q \<in> set (segment_names (ew_path ew))" "get (fs_names f') q = Some i"
      "i \<noteq> wr_inode (ew_inner ew)" for q i
    using org [OF that(2)] that inv nb r unfolding writer_inv_def renamed_def by auto
  ultimately show ?thesis
    using inv r unfolding writer_inv_def renamed_def by (auto simp: live_text_def)
qed

lemma writer_inv_removed:
  assumes "writer_inv C pk ew f" "rotation_broken (ew_inner ew)"
  shows "writer_inv C pk ew (fs_remove q f)"
  using assms by (auto simp: writer_inv_def fs_remove_def live_text_def split: if_splits)

lemma writer_inv_reopen:
  assumes inv: "writer_inv C pk ew f" and buf: "wr_buf (ew_inner ew) = []"
    and no: "get (fs_names f) (ew_path ew) = None"
    and op: "fs_open_append (ew_path ew) f = (i, f')"
    and w': "wr_inode w' = i" "wr_buf w' = []" "chain_seq w' = 0" "chain_prev_hash w' = GENESIS_HASH"
  shows "writer_inv C pk (ew\<lparr>ew_inner := w'\<rparr>) f'"
proof -
  have i: "i = fs_next f" and f': "f' = f\<lparr>fs_names := put (ew_path ew) (fs_next f) (fs_names f),
      fs_data := (fs_data f)(fs_next f := []), fs_next := Suc (fs_next f)\<rparr>"
    using op no by (auto simp: fs_open_append_def)
  have old: "chain_ok C pk (fs_data f (wr_inode (ew_inner ew))) (chain_seq (ew_inner ew))
      (chain_prev_hash (ew_inner ew))"
    using inv buf by (simp add: writer_inv_def live_text_def)
  have seg: "\<exists>s h. chain_ok C pk (fs_data f j) s h"
    if "q \<in> set (segment_names (ew_path ew))" "get (fs_names f) q = Some j" for q j
    using inv old that unfolding writer_inv_def by metis
  have lt: "j < fs_next f" if "get (fs_names f) q = Some j" for q j
    using inv that unfolding writer_inv_def by metis
  have np: "ew_path ew \<notin> set (segment_names (ew_path ew))"
    by (simp add: segment_names_def)
  show ?thesis
    using w' i chain_ok_empty seg lt np
    by (fastforce simp: writer_inv_def live_text_def f' split: if_splits intro: less_SucI)
qed

lemma rotate_locked_inv:
  assumes inv: "writer_inv C pk ew f" and nb: "\<not> rotation_broken (ew_inner ew)"
    and rl: "rotate_locked io (ew_path ew) (ew_inner ew) f = (w', f')"
  shows "writer_inv C pk (ew\<lparr>ew_inner := w'\<rparr>) f'"
proof -
  obtain w1 f1 ok where fl: "flush_buf (io_rotate_flush io) (ew_inner ew) f = (w1, f1, ok)"
    by (metis prod_cases3)
  note inv1 = writer_inv_flush [OF inv fl]
  have nb1: "\<not> rotation_broken w1" and buf1: "ok \<Longrightarrow> wr_buf w1 = []"
    using flush_buf_text [OF fl] nb by (auto simp: writer_frame_def)
  obtain f2 r where rs: "rotate_segments (io_rotate io) (ew_path ew) f1 = (f2, r)" by fastforce
  show ?thesis
  proof (cases ok)
    case False
    with rl fl inv1 show ?thesis by (auto simp: rotate_locked_def)
  next
    case ok: True
    from rs show ?thesis
    proof (cases rule: rotate_segments_cases)
      case (1 e k)
      with writer_inv_renamed [OF inv1(1), of f2 k] ok rl fl rs nb1 show ?thesis
        by (auto simp: rotate_locked_def)
    next
      case (2 f0)
      have inv0: "writer_inv C pk (ew\<lparr>ew_inner := w1\<lparr>rotation_broken := True\<rparr>\<rparr>) f0"
        using writer_inv_renamed [OF inv1(1), of f0 4] 2 nb1 by simp
      then have inv2: "writer_inv C pk (ew\<lparr>ew_inner := w1\<lparr>rotation_broken := True\<rparr>\<rparr>) f2"
        using 2 writer_inv_removed [OF inv0] by auto
      have no: "get (fs_names f2) (ew_path ew) = None"
        using 2 rotated_full(1) [of "get (fs_names f1)" "ew_path ew"]
        by (auto simp: renamed_def fs_remove_def)
      obtain i f3 where op: "fs_open_append (ew_path ew) f2 = (i, f3)" by fastforce
      show ?thesis
      proof (cases "io_reopen (io_rotate io)")
        case False
        with inv2 ok rl fl rs 2 show ?thesis by (auto simp: rotate_locked_def)
      next
        case True
        with ok rl fl rs 2 op have w': "f' = f3" "w' = w1\<lparr>wr_inode := i, wr_buf := [],
            chain_seq := 0, chain_prev_hash := GENESIS_HASH, seg_bytes := 0\<rparr>"
          by (auto simp: rotate_locked_def)
        then show ?thesis
          using writer_inv_reopen [OF inv2 _ _ _, of i f3 w'] no op buf1 [OF ok] by simp
      qed
    qed
  qed
qed


subsection \<open>Tamper evidence\<close>

lemma verify_snoc:
  assumes "verify_lines C pk i h s (ls @ [l]) = Inr n"
  obtains r canonical sg where "verify_lines C pk i h s ls = Inr (rb_seq r)" "n = rb_seq r + 1"
    "parse_receipt C l = Some r" "rb_chain_prev_hash r = chain_hash C h ls"
    "body_json C (body_of r) = Some canonical" "hex_decode (ar_signature r) = Inr sg"
    "verify_sig C pk canonical sg"
  using assms
  by (auto simp: verify_lines_append split: sum.splits option.splits if_splits)

lemma verify_length: "verify_lines C pk i h s ls = Inr n \<Longrightarrow> n = s + of_nat (length ls)"
proof (induction ls arbitrary: i h s)
  case (Cons l ls)
  then obtain i' h' where "verify_lines C pk i' h' (s + 1) ls = Inr n"
    by (auto split: sum.splits option.splits if_splits)
  then have "n = s + 1 + of_nat (length ls)" by (rule Cons.IH)
  then show ?case by (simp add: add.assoc)
qed simp

lemma chains_agree_backwards:
  assumes "verify_lines C pk i h s ls = Inr n" "verify_lines C pk i' h s' ls' = Inr n'"
    "length ls = length ls'" "chain_hash C h ls = chain_hash C h ls'"
  shows "ls = ls' \<or> (\<exists>x \<in> set ls. \<exists>y \<in> set ls'. x \<noteq> y \<and> sha256 C x = sha256 C y)"
  using assms
proof (induction ls arbitrary: ls' n n' rule: rev_induct)
  case (snoc l ls)
  then obtain l' ms where ls': "ls' = ms @ [l']" by (cases ls' rule: rev_cases) auto
  show ?case
  proof (cases "l = l'")
    case True
    obtain r where r: "verify_lines C pk i h s ls = Inr (rb_seq r)" "parse_receipt C l = Some r"
      "rb_chain_prev_hash r = chain_hash C h ls"
      using snoc.prems(1) by (elim verify_snoc) auto
    obtain r' where r': "verify_lines C pk i' h s' ms = Inr (rb_seq r')" "parse_receipt C l' = Some r'"
      "rb_chain_prev_hash r' = chain_hash C h ms"
      using snoc.prems(2) unfolding ls' by (elim verify_snoc) auto
    show ?thesis
      using snoc.IH [OF r(1) r'(1)] snoc.prems(3) r r' True by (auto simp: ls')
  next
    case False
    have "sha256 C l = sha256 C l'"
      using snoc.prems(4) by (simp add: ls' hex_encode_inj)
    with False show ?thesis by (auto simp: ls')
  qed
qed simp

text \<open>
  C19. Tamper evidence as a reduction: two logs that verify under the same key and end in the
  same line are line for line equal, or two different lines in them have the same SHA-256 hash.\<close>

theorem tamper_evidence:
  assumes v: "verify_chain C (Some c) (Some pk) = Inr n" "verify_chain C (Some c') (Some pk) = Inr n'"
    and ne: "str_lines c \<noteq> []" "str_lines c' \<noteq> []" and l: "last (str_lines c) = last (str_lines c')"
    and len: "length (str_lines c) < 2 ^ 64" "length (str_lines c') < 2 ^ 64"
  shows "str_lines c = str_lines c' \<or>
    (\<exists>x \<in> set (str_lines c). \<exists>y \<in> set (str_lines c'). x \<noteq> y \<and> sha256 C x = sha256 C y)"
proof -
  let ?ls = "str_lines c" and ?ls' = "str_lines c'"
  have vs: "verify_lines C pk 0 GENESIS_HASH 0 ?ls = Inr n" "verify_lines C pk 0 GENESIS_HASH 0 ?ls' = Inr n'"
    using v by (auto simp: verify_chain_def split: if_splits)
  obtain ls m ls' where sp: "?ls = ls @ [m]" "?ls' = ls' @ [m]"
    using ne l by (metis append_butlast_last_id)
  obtain r where r: "verify_lines C pk 0 GENESIS_HASH 0 ls = Inr (rb_seq r)" "parse_receipt C m = Some r"
    using vs(1) unfolding sp by (elim verify_snoc) auto
  have r': "verify_lines C pk 0 GENESIS_HASH 0 ls' = Inr (rb_seq r)"
    using vs(2) r(2) unfolding sp by (elim verify_snoc) auto
  have "(of_nat (length ls) :: u64) = of_nat (length ls')"
    using verify_length [OF r(1)] verify_length [OF r'] by simp
  then have "length ls = length ls'"
    using len by (simp add: sp of_nat_eq_iff word_of_nat_eq_iff take_bit_eq_mod)
  then show ?thesis
    using chains_agree_backwards [OF vs] by (simp add: sp)
qed

text \<open>
  C39. A line that the buffer refuses is lost, but the chain state has already moved past it: the
  next receipt that is written successfully leaves a file that fails verification with a
  sequence gap.\<close>

theorem failed_write_breaks_chain:
  assumes laws: "codec_laws C pk" 
    and ok: "chain_ok C pk (live_text w f) (chain_seq w) (chain_prev_hash w)"
    and a1: "append_receipt io1 (hex_encode (sha256 C line1)) line1 w f = (w1, f1, Inl WritingReceipt)"
    and lost: "live_text w1 f1 = live_text w f"
    and sgn: "sign_receipt C (receipt_body_at w1 action target prin verdict ts) = Inr line2"
    and a2: "append_receipt io2 (hex_encode (sha256 C line2)) line2 w1 f1 = (w2, f2, Inr q)"
  shows "\<exists>i. verify_chain C (Some (fs_data f2 (wr_inode w2))) (Some pk) =
    Inl (SequenceGap (chain_seq w + 1) (chain_seq w) i)"
proof -
  obtain canonical where line: "receipt_json C (receipt_body.extend (receipt_body_at w1 action target prin verdict ts)
       (action_receipt.fields (hex_encode (sign C canonical)))) = Some line2"
    using sgn by (auto simp: sign_receipt_def split: option.splits)
  have nocr: "CHR 0x0A \<notin> set line2" "CHR 0x0D \<notin> set line2" and u: "utf8_valid line2"
    and p: "parse_receipt C line2 = Some (receipt_body.extend (receipt_body_at w1 action target prin verdict ts)
       (action_receipt.fields (hex_encode (sign C canonical))))"
    using laws line by (auto simp: codec_laws_def)
  have tx: "fs_data f2 (wr_inode w2) = live_text w f @ line2 @ [CHR 0x0A]"
    using append_receipt_text(8,9) [OF a2] lost by (auto simp: live_text_def)
  have "utf8_valid [CHR 0x0A]" by (simp add: between_def)
  with u ok have u2: "utf8_valid (live_text w f @ line2 @ [CHR 0x0A])"
    by (simp add: chain_ok_def utf8_append)
  have sq: "chain_seq w1 = chain_seq w + 1"
    using append_receipt_text(6) [OF a1] by simp
  show ?thesis
    using ok nocr p u2 sq unfolding tx
    by (simp add: verify_chain_def chain_ok_def str_lines_append str_lines_line verify_lines_append
        receipt_body_at_def)
qed

subsection \<open>A concrete codec, for the witnesses\<close>

definition sample_fields :: "action_receipt \<Rightarrow> string list" where
  "sample_fields r =
     [show_word (rb_seq r), rb_action r, rb_target r, rb_principal r, rb_verdict r, rb_ts r,
      rb_chain_prev_hash r, ar_signature r]"

definition sample_encode :: "string list \<Rightarrow> string" where
  "sample_encode fs = concat (map (\<lambda>f. hex_encode f @ ''.'') fs)"

fun sample_decode :: "string \<Rightarrow> string \<Rightarrow> string list option" where
  "sample_decode acc [] = (if acc = [] then Some [] else None)"
| "sample_decode acc (c # cs) =
     (if c = CHR ''.'' then
        (case hex_decode (rev acc) of
           Inl _ \<Rightarrow> None
         | Inr f \<Rightarrow> map_option (Cons f) (sample_decode [] cs))
      else sample_decode (c # acc) cs)"

definition sample_receipt :: "string list \<Rightarrow> action_receipt option" where
  "sample_receipt fs =
     (case fs of
        [sq, a, t, p, v, ts, prev, sg] \<Rightarrow>
          Some \<lparr>rb_seq = of_nat (nat_of_digits 0 sq), rb_action = a, rb_target = t, rb_principal = p,
                rb_verdict = v, rb_ts = ts, rb_chain_prev_hash = prev, ar_signature = sg\<rparr>
      | _ \<Rightarrow> None)"

definition sample_crypto :: crypto where
  "sample_crypto =
     \<lparr>sha256 = (\<lambda>s. s), sign = (\<lambda>m. m), verify_sig = (\<lambda>pk m sg. sg = m),
      body_json = (\<lambda>b. Some (rb_action b @ ''/'' @ rb_target b @ ''/'' @ rb_verdict b)),
      receipt_json = (\<lambda>r. Some (sample_encode (sample_fields r))),
      parse_receipt = (\<lambda>s. case sample_decode [] s of None \<Rightarrow> None | Some fs \<Rightarrow> sample_receipt fs)\<rparr>"

lemma hex_digit_chars: "c \<in> set (hex_encode f) \<Longrightarrow> is_ascii_alphanumeric c"
proof (induction f)
  case (Cons b f)
  have "is_ascii_alphanumeric (hex_digit d)" if "d < 16" for d
    using that by (simp add: hex_digit_def is_ascii_alphanumeric_def)
  moreover have "(of_char b :: nat) div 16 < 16" using nat_of_char_less_256 [of b] by linarith
  ultimately show ?case using Cons by auto
qed simp

lemma hex_not_dot [simp]: "CHR ''.'' \<notin> set (hex_encode f)"
  using hex_digit_chars [of "CHR ''.''" f] by (auto simp: is_ascii_alphanumeric_def)

lemma sample_decode_skip:
  "CHR ''.'' \<notin> set s \<Longrightarrow> sample_decode acc (s @ cs) = sample_decode (rev s @ acc) cs"
  by (induction s arbitrary: acc) auto

lemma sample_roundtrip: "sample_decode [] (sample_encode fs) = Some fs"
  by (induction fs)
    (simp_all add: sample_encode_def sample_decode_skip hex_decode_def hex_pairs_encode)

lemma sample_decode_length:
  "sample_decode acc s = Some fs \<Longrightarrow> length fs = length (filter (\<lambda>c. c = CHR ''.'') s)"
  by (induction acc s arbitrary: fs rule: sample_decode.induct)
    (auto split: if_splits sum.splits)

lemma sample_encode_dots: "length (filter (\<lambda>c. c = CHR ''.'') (sample_encode fs)) = length fs"
proof (induction fs)
  case (Cons f fs)
  have "filter (\<lambda>c. c = CHR ''.'') (hex_encode f) = []"
    using hex_not_dot [of f] by (auto simp: filter_empty_conv)
  with Cons show ?case by (simp add: sample_encode_def)
qed (simp add: sample_encode_def)

lemma sample_encode_last: "fs \<noteq> [] \<Longrightarrow> last (sample_encode fs) = CHR ''.'' \<and> sample_encode fs \<noteq> []"
  by (induction fs rule: rev_induct) (auto simp: sample_encode_def)

lemma sample_prefix:
  assumes "strict_prefix p (sample_encode fs)" "sample_decode [] p = Some gs"
  shows "length gs < length fs"
proof -
  obtain q where q: "sample_encode fs = p @ q" "q \<noteq> []"
    using assms(1) by (auto simp: strict_prefix_def prefix_def)
  then have "fs \<noteq> []" by (auto simp: sample_encode_def)
  with q sample_encode_last [of fs] have "last q = CHR ''.''" by simp
  with q(2) have "filter (\<lambda>c. c = CHR ''.'') q \<noteq> []"
    by (metis (mono_tags, lifting) filter_empty_conv last_in_set)
  then have "0 < length (filter (\<lambda>c. c = CHR ''.'') q)" by blast
  moreover have "length (filter (\<lambda>c. c = CHR ''.'') p) + length (filter (\<lambda>c. c = CHR ''.'') q) = length fs"
    using sample_encode_dots [of fs] q(1) by simp
  ultimately show ?thesis
    using sample_decode_length [OF assms(2)] by linarith
qed

lemma sample_encode_chars:
  assumes "c \<in> set (sample_encode fs)"
  shows "is_ascii_alphanumeric c \<or> c = CHR ''.''"
  using assms hex_digit_chars by (auto simp: sample_encode_def split: if_splits)

lemma sample_laws: "codec_laws sample_crypto pk"
proof -
  have "sample_receipt (sample_fields r) = Some r" for r
    by (simp add: sample_receipt_def sample_fields_def nat_of_show_nat)
  moreover have "CHR 0x0A \<notin> set (sample_encode fs)" "CHR 0x0D \<notin> set (sample_encode fs)" for fs
    using sample_encode_chars [of "CHR 0x0A" fs] sample_encode_chars [of "CHR 0x0D" fs]
    by (auto simp: is_ascii_alphanumeric_def)
  moreover have "utf8_valid (sample_encode fs)" for fs
    by (rule utf8_ascii) (auto dest!: sample_encode_chars simp: is_ascii_alphanumeric_def Let_def)
  moreover have "sample_encode (sample_fields r) \<noteq> []" for r
    by (simp add: sample_encode_def sample_fields_def)
  moreover have "parse_receipt sample_crypto p = None"
    if "strict_prefix p (sample_encode (sample_fields r))" for p r
  proof (cases "sample_decode [] p")
    case (Some gs)
    with sample_prefix [OF that] have "length gs < 8" by (simp add: sample_fields_def)
    with Some show ?thesis
      by (auto simp: sample_crypto_def sample_receipt_def split: list.splits)
  qed (simp add: sample_crypto_def)
  ultimately show ?thesis
    by (auto simp: codec_laws_def sample_crypto_def sample_roundtrip)
qed


definition sample_io :: write_io where
  "sample_io =
     \<lparr>io_rotate = \<lparr>io_park = True, io_shift = (\<lambda>_. True), io_live = True, io_unlink = True, io_reopen = True\<rparr>,
      io_rotate_flush = None, io_line_flush = None, io_line_direct = None, io_nl_flush = None,
      io_flush = None, io_sync = True\<rparr>"

definition sample_fs :: fs where
  "sample_fs = \<lparr>fs_names = [(''e'', 0)], fs_data = (\<lambda>_. []), fs_next = 1\<rparr>"

definition sample_inner :: inner where
  "sample_inner = \<lparr>chain_seq = 0, chain_prev_hash = GENESIS_HASH, wr_inode = 0, wr_buf = [],
     seg_bytes = 0, rotation_broken = False\<rparr>"

definition sample_writer :: evidence_writer where
  "sample_writer = \<lparr>ew_inner = sample_inner, ew_path = ''e'', ew_cap = 100\<rparr>"

lemma sample_writer_inv: "writer_inv sample_crypto pk sample_writer sample_fs"
  by (simp add: writer_inv_def sample_writer_def sample_inner_def sample_fs_def live_text_def
      chain_ok_empty segment_names_def segment_path_def parked_path_def)


lemma write_ok_None [simp]: "write_ok None b"
  by (simp add: write_ok_def accepted_def)

lemma flush_buf_None: "\<exists>w' f'. flush_buf None w f = (w', f', True)"
  by (simp add: flush_buf_def Let_def)

lemma buf_write_all_None: "\<exists>w' f'. buf_write_all None None d w f = (w', f', True)"
  using flush_buf_None [of w f] by (auto simp: buf_write_all_def)

lemma append_receipt_succeeds:
  assumes "io_line_flush io = None" "io_line_direct io = None" "io_nl_flush io = None"
    "io_flush io = None" "io_sync io"
  shows "\<exists>w' f'. append_receipt io h line w f = (w', f', Inr (chain_seq w))"
proof -
  obtain w1 f1 where 1: "buf_write_all None None line (w\<lparr>chain_prev_hash := h, chain_seq := chain_seq w + 1\<rparr>) f = (w1, f1, True)"
    using buf_write_all_None by blast
  obtain w2 f2 where 2: "buf_write_all None None [CHR 0x0A] w1 f1 = (w2, f2, True)"
    using buf_write_all_None by blast
  obtain w4 f4 where 4: "flush_buf None (w2\<lparr>seg_bytes := saturating_add (seg_bytes w2) (of_nat (length line + 1))\<rparr>) f2 = (w4, f4, True)"
    using flush_buf_None by blast
  show ?thesis using assms 1 2 4 by (simp add: append_receipt_def Let_def)
qed

definition sample_body :: receipt_body where
  "sample_body = receipt_body_at sample_inner ''fs.read'' ''/etc'' ''a'' ''allowed'' ''t''"

definition sample_line :: string where
  "sample_line = sample_encode (sample_fields (receipt_body.extend sample_body
     (action_receipt.fields (hex_encode ''fs.read//etc/allowed''))))"

lemma sample_signed: "sign_receipt sample_crypto sample_body = Inr sample_line"
  by (simp add: sign_receipt_def sample_crypto_def sample_line_def sample_body_def receipt_body_at_def)



definition sample_good :: string where
  "sample_good = sample_line @ [CHR 0x0A]"

lemma sample_good_chain: "chain_ok sample_crypto pk sample_good 1 (hex_encode sample_line)"
  using chain_ok_sign [OF sample_laws chain_ok_empty sample_signed]
  by (simp add: sample_good_def sample_body_def receipt_body_at_def sample_inner_def sample_crypto_def)

theorem tamper_evidence_witness:
  "str_lines sample_good = str_lines sample_good \<or>
   (\<exists>x \<in> set (str_lines sample_good). \<exists>y \<in> set (str_lines sample_good).
      x \<noteq> y \<and> sha256 sample_crypto x = sha256 sample_crypto y)"
proof -
  have "str_lines sample_good = [sample_line]"
    using sample_encode_chars [of "CHR 0x0A"] sample_encode_chars [of "CHR 0x0D"]
    by (auto simp: sample_good_def sample_line_def is_ascii_alphanumeric_def intro!: str_lines_line)
  then show ?thesis
    using tamper_evidence [OF chain_ok_verify [OF sample_good_chain [of "''k''"]]
        chain_ok_verify [OF sample_good_chain [of "''k''"]]] by simp
qed

definition sample_full_io :: write_io where
  "sample_full_io = sample_io\<lparr>io_line_direct := Some 0\<rparr>"

lemma sample_big_line_lost:
  "append_receipt sample_full_io h (replicate 8192 CHR ''a'') sample_inner sample_fs =
     (sample_inner\<lparr>chain_prev_hash := h, chain_seq := 1\<rparr>, sample_fs, Inl WritingReceipt)"
  by (simp add: append_receipt_def buf_write_all_def BUF_CAPACITY_def sample_inner_def Let_def
      sample_full_io_def sample_io_def accepted_def write_ok_def fs_append_def sample_fs_def)

theorem failed_write_breaks_chain_witness:
  "\<exists>w f line i. append_receipt sample_io (hex_encode line) line
       (sample_inner\<lparr>chain_prev_hash := hex_encode (replicate 8192 CHR ''a''), chain_seq := 1\<rparr>)
       sample_fs = (w, f, Inr 1) \<and>
     verify_chain sample_crypto (Some (fs_data f (wr_inode w))) (Some ''k'') = Inl (SequenceGap 1 0 i)"
proof -
  let ?w1 = "sample_inner\<lparr>chain_prev_hash := hex_encode (replicate 8192 CHR ''a''), chain_seq := 1\<rparr>"
  obtain line where l: "sign_receipt sample_crypto
      (receipt_body_at ?w1 ''fs.read'' ''/etc'' ''a'' ''allowed'' ''t'') = Inr line"
    by (simp add: sign_receipt_def sample_crypto_def)
  obtain w f where a: "append_receipt sample_io (hex_encode (sha256 sample_crypto line)) line ?w1 sample_fs =
      (w, f, Inr 1)"
    using append_receipt_succeeds [of sample_io "hex_encode (sha256 sample_crypto line)" line ?w1 sample_fs]
    by (auto simp: sample_io_def)
  have s: "sha256 sample_crypto = (\<lambda>s. s)" by (simp add: sample_crypto_def)
  have ok: "chain_ok sample_crypto ''k'' (live_text sample_inner sample_fs) (chain_seq sample_inner)
      (chain_prev_hash sample_inner)"
    by (simp add: live_text_def sample_inner_def sample_fs_def chain_ok_empty)
  have "\<exists>i. verify_chain sample_crypto (Some (fs_data f (wr_inode w))) (Some ''k'') =
      Inl (SequenceGap (chain_seq sample_inner + 1) (chain_seq sample_inner) i)"
    by (rule failed_write_breaks_chain [OF sample_laws ok, of sample_full_io "replicate 8192 CHR ''a''" ?w1
          sample_fs _ _ _ _ _ line sample_io w f 1])
      (use sample_big_line_lost [of "hex_encode (replicate 8192 CHR ''a'')"] l a in
        \<open>simp_all add: s live_text_def\<close>)
  with a show ?thesis by (auto simp: s sample_inner_def)
qed

end
