(* ===== verification/Evidence_Resume.thy ===== *)
theory Evidence_Resume
  imports Evidence_Chain
begin

section \<open>Recovering the receipt log at boot\<close>

text \<open>
  The daemon resumes a log from a bounded window at its end. The lemmas locate the last
  complete line in the window and give what boot makes of a clean file, of a torn final write
  and of a final line without its newline; together they cover a crash at any byte of an
  append.
\<close>

lemma rposition_nl_none:
  assumes "CHR 0x0A \<notin> set s"
  shows "rposition_nl s = None"
proof -
  have "takeWhile (\<lambda>b. b \<noteq> CHR 0x0A) (rev s) = rev s"
    using assms by (subst takeWhile_eq_all_conv) auto
  then have "length (takeWhile (\<lambda>b. b \<noteq> CHR 0x0A) (rev s)) = length s" by (simp only: length_rev)
  then show ?thesis by (simp add: rposition_nl_def)
qed

lemma rposition_nl_some:
  "CHR 0x0A \<notin> set s \<Longrightarrow> rposition_nl (a @ CHR 0x0A # s) = Some (length a)"
proof -
  assume "CHR 0x0A \<notin> set s"
  then have "takeWhile (\<lambda>b. b \<noteq> CHR 0x0A) (rev s @ CHR 0x0A # rev a) = rev s"
    by (subst takeWhile_append2) auto
  then show ?thesis by (simp add: rposition_nl_def)
qed

lemma wf_text_drop: "wf_text s \<Longrightarrow> wf_text (drop n s)"
  by (cases "n < length s") (auto simp: wf_text_def last_drop)

lemma last_line_of:
  "wf_text pre \<Longrightarrow> CHR 0x0A \<notin> set l \<Longrightarrow>
     drop (case rposition_nl (pre @ l) of None \<Rightarrow> 0 | Some i \<Rightarrow> i + 1) (pre @ l) = l"
proof (cases pre rule: rev_cases)
  case Nil
  moreover assume "CHR 0x0A \<notin> set l"
  ultimately show ?thesis by (simp add: rposition_nl_none)
next
  case (snoc p c)
  moreover assume "CHR 0x0A \<notin> set l" "wf_text pre"
  ultimately show ?thesis by (simp add: rposition_nl_some wf_text_def)
qed

lemma count_nl_append [simp]: "count_nl (a @ b) = count_nl a + count_nl b"
  by (simp add: count_nl_def)

lemma count_nl_Cons [simp]: "count_nl (c # b) = (if c = CHR 0x0A then 1 else 0) + count_nl b"
  by (simp add: count_nl_def)

lemma count_nl_0 [simp]: "CHR 0x0A \<notin> set s \<Longrightarrow> count_nl s = 0"
  by (induction s) (auto simp: count_nl_def)

lemma count_nl_drop: "count_nl (drop n s) \<le> count_nl s"
  by (metis append_take_drop_id count_nl_append le_add2)

lemma grow_tail_spec:
  "grow_tail content (length content) window = Inr (buf, start) \<Longrightarrow>
     buf = drop start content \<and> (start = 0 \<or> 2 \<le> count_nl buf)"
proof (induction content "length content" window rule: grow_tail.induct)
  case (1 content window)
  from "1.prems" have "(case read_tail content (length content) window of
      (buf, start) \<Rightarrow>
        if 0 < start \<and> count_nl buf < 2 then
          (if \<not> window < RESUME_TAIL_MAX \<or> window = 0 then Inl (NoCompleteLine window)
           else grow_tail content (length content) (min (window * 2) RESUME_TAIL_MAX))
        else Inr (buf, start)) = Inr (buf, start)"
    by (subst (asm) grow_tail.simps)
  with "1.hyps" show ?case
    by (auto simp: read_tail_def Let_def split: if_splits)
qed

lemma grow_tail_enough:
  assumes "need \<le> RESUME_TAIL_MAX" "0 < window" 
    and "length content \<le> need \<or> 2 \<le> count_nl (drop (length content - need) content)"
  shows "\<exists>buf start. grow_tail content (length content) window = Inr (buf, start)"
  using assms
proof (induction content "length content" window rule: grow_tail.induct)
  case (1 content window)
  show ?case
  proof (cases "window < RESUME_TAIL_MAX")
    case True
    then have w: "0 < min (window * 2) RESUME_TAIL_MAX" using "1.prems" by auto
    show ?thesis
      using "1.hyps" [OF _ _ _ "1.prems"(1) w "1.prems"(3)] True "1.prems"
      by (subst grow_tail.simps) (auto simp: read_tail_def Let_def)
  next
    case False
    with "1.prems" have "need \<le> window" by simp
    then obtain d where "length content - need = (length content - window) + d" by (metis add_diff_inverse_nat diff_le_mono2 not_less)
    then have "length content \<le> window \<or> 2 \<le> count_nl (drop (length content - window) content)"
      using "1.prems"(3) count_nl_drop [of d "drop (length content - window) content"] \<open>need \<le> window\<close>
      by (auto simp: add.commute)
    then show ?thesis
      by (subst grow_tail.simps) (auto simp: read_tail_def Let_def)
  qed
qed

lemma window_start:
  assumes "content = pre @ line @ CHR 0x0A # frag" "CHR 0x0A \<notin> set line" "CHR 0x0A \<notin> set frag"
    and "start = 0 \<or> 2 \<le> count_nl (drop start content)"
  shows "drop start content = drop start pre @ line @ CHR 0x0A # frag \<and> start \<le> length pre"
proof -
  have "start \<le> length pre"
  proof (rule ccontr)
    assume "\<not> start \<le> length pre"
    then have "drop start content = drop (start - length pre) (line @ CHR 0x0A # frag)"
      using assms(1) by simp
    moreover have "count_nl (drop (start - length pre) (line @ CHR 0x0A # frag)) \<le> 1"
      using count_nl_drop [of "start - length pre" "line @ CHR 0x0A # frag"] assms(2,3) by simp
    ultimately show False using assms(4) \<open>\<not> start \<le> length pre\<close> by simp
  qed
  then show ?thesis using assms(1) by simp
qed


lemma finish_tail_ok:
  assumes "verify_lines C pk 0 GENESIS_HASH 0 (ls @ [l]) = Inr n" "length ls < len" "len < 2 ^ 64"
    "parse_receipt C l = Some r"
  shows "finish_tail C r h (Some pk) note len = Inr \<lparr>rs_seq = n, rs_prev_hash = h, rs_note = note\<rparr>"
proof -
  from assms(1,4) obtain canonical sg where
    v: "verify_lines C pk 0 GENESIS_HASH 0 ls = Inr (rb_seq r)" "n = rb_seq r + 1"
      "body_json C (body_of r) = Some canonical" "hex_decode (ar_signature r) = Inr sg"
      "verify_sig C pk canonical sg"
    by (elim verify_snoc) auto
  have "rb_seq r = of_nat (length ls)" using verify_length [OF v(1)] by simp
  then have u: "unat (rb_seq r) = length ls"
    using assms(2,3) by (simp add: unat_of_nat)
  have "saturating_add (rb_seq r) 1 = rb_seq r + 1"
  proof (rule word_unat_eq_iff [THEN iffD2])
    show "unat (saturating_add (rb_seq r) 1) = unat (rb_seq r + 1)"
      using u assms(2,3) by (simp add: unat_saturating_add unat_word_ariths)
  qed
  then show ?thesis
    using u v assms(2) by (simp add: finish_tail_def seq_is_plausible_def tail_signature_ok_def)
qed

lemma length_split: "length (split_inclusive_nl s) \<le> length s"
  by (induction s) (auto split: list.splits)

lemma line_hash_no_cr: "CHR 0x0D \<notin> set l \<Longrightarrow> line_hash C l = hex_encode (sha256 C l)"
  by (cases l rule: rev_cases) (auto simp: line_hash_def strip_suffix_char_def)

definition io_ok :: "resume_io \<Rightarrow> bool" where
  "io_ok io \<longleftrightarrow> rio_stat io \<and> rio_read_tail io \<and> rio_append io \<and> rio_truncate io \<and> rio_scan io \<and> rio_open io"

lemma resume_buf_complete:
  assumes "buf = p @ line @ [CHR 0x0A]" "wf_text p" "CHR 0x0A \<notin> set line" "parse_receipt C line = Some r"
  shows "resume_buf C io content len pk buf start =
    (content, finish_tail C r (line_hash C line) pk [] len)"
  using assms last_line_of [OF assms(2,3)] rposition_nl_some [of "[]" "p @ line"]
  by (simp add: resume_buf_def Let_def butlast_append del: drop_append)

lemma resume_buf_unterminated:
  assumes "buf = p @ CHR 0x0A # frag" "CHR 0x0A \<notin> set frag"
    "parse_receipt C frag = Some r" "frag \<noteq> []" "rio_append io"
  shows "resume_buf C io content len pk buf start =
    (content @ [CHR 0x0A], finish_tail C r (line_hash C frag) pk [DelimiterRestored] len)"
  using assms rposition_nl_some [of frag p] by (simp add: resume_buf_def Let_def)

lemma resume_buf_torn:
  assumes "buf = p @ line @ CHR 0x0A # frag" "wf_text p" "CHR 0x0A \<notin> set line"
    "CHR 0x0A \<notin> set frag" "parse_receipt C frag = None" "frag \<noteq> []" "parse_receipt C line = Some r"
    "rio_truncate io"
  shows "resume_buf C io content len pk buf start =
    (take (start + length p + length line + 1) content,
     finish_tail C r (line_hash C line) pk [TornBytesDiscarded (length frag)] len)"
proof -
  have "drop (Suc (length p + length line)) buf = frag"
    "take (Suc (length p + length line)) buf = p @ line @ [CHR 0x0A]"
    "rposition_nl buf = Some (length p + length line)"
    using assms(1,4) rposition_nl_some [of frag "p @ line"] by simp_all
  moreover have "length buf = length p + length line + 1 + length frag" using assms(1) by simp
  ultimately show ?thesis
    using assms(2-) last_line_of [OF assms(2,3)]
    by (simp add: resume_buf_def Let_def butlast_append add.assoc del: drop_append)
qed

text \<open>What a crash during the next append can leave behind, and what the boot makes of it.\<close>

lemma last_line_split:
  assumes "wf_text s" "s \<noteq> []"
  obtains pre l where "s = pre @ l @ [CHR 0x0A]" "wf_text pre" "CHR 0x0A \<notin> set l"
proof -
  define l where "l = rev (takeWhile (\<lambda>c. c \<noteq> CHR 0x0A) (rev (butlast s)))"
  define pre where "pre = rev (dropWhile (\<lambda>c. c \<noteq> CHR 0x0A) (rev (butlast s)))"
  have b: "butlast s = pre @ l"
    by (metis l_def pre_def rev_append rev_rev_ident takeWhile_dropWhile_id)
  have s: "s = butlast s @ [CHR 0x0A]"
    using assms by (metis append_butlast_last_id wf_text_def)
  have "CHR 0x0A \<notin> set l" by (auto simp: l_def dest: set_takeWhileD)
  moreover have "wf_text pre"
    using hd_dropWhile [of "\<lambda>c. c \<noteq> CHR 0x0A" "rev (butlast s)"]
    by (auto simp: pre_def wf_text_def last_rev)
  ultimately show ?thesis using that s b by simp
qed

lemma resume_window:
  assumes c: "content = pre @ line @ CHR 0x0A # frag" and pre: "wf_text pre" "CHR 0x0A \<notin> set line" "CHR 0x0A \<notin> set frag"
    and small: "length line + length frag + 2 \<le> RESUME_TAIL_MAX"
  obtains start where
    "grow_tail content (length content) RESUME_TAIL_WINDOW = Inr (drop start pre @ line @ CHR 0x0A # frag, start)"
    "start \<le> length pre"
proof -
  have "\<exists>buf start. grow_tail content (length content) RESUME_TAIL_WINDOW = Inr (buf, start)"
  proof (cases pre rule: rev_cases)
    case Nil
    then show ?thesis
      by (intro grow_tail_enough [OF small]) (simp_all add: c RESUME_TAIL_WINDOW_def)
  next
    case (snoc p ch)
    with pre have "ch = CHR 0x0A" by (simp add: wf_text_def)
    then have "drop (length content - (length line + length frag + 2)) content = CHR 0x0A # line @ CHR 0x0A # frag"
      by (simp add: c snoc)
    then show ?thesis
      by (intro grow_tail_enough [OF small]) (simp_all add: RESUME_TAIL_WINDOW_def)
  qed
  then obtain buf start where g: "grow_tail content (length content) RESUME_TAIL_WINDOW = Inr (buf, start)" by blast
  with grow_tail_spec [OF g] window_start [OF c pre(2,3), of start] that show ?thesis by auto
qed


lemma chain_ok_last:
  assumes ok: "chain_ok C pk s n h" and ne: "s \<noteq> []"
  obtains pre l r where "s = pre @ l @ [CHR 0x0A]" "wf_text pre" "CHR 0x0A \<notin> set l"
    "last (str_lines s) = l" "parse_receipt C l = Some r" "h = line_hash C l"
    "\<And>hash nt len. length s \<le> Suc len \<Longrightarrow> len < 2 ^ 64 \<Longrightarrow> l \<noteq> [] \<Longrightarrow>
       finish_tail C r hash (Some pk) nt len = Inr \<lparr>rs_seq = n, rs_prev_hash = hash, rs_note = nt\<rparr>"
    "\<And>hash nt len. length s \<le> len \<Longrightarrow> len < 2 ^ 64 \<Longrightarrow>
       finish_tail C r hash (Some pk) nt len = Inr \<lparr>rs_seq = n, rs_prev_hash = hash, rs_note = nt\<rparr>"
proof -
  have "wf_text s" using ok by (simp add: chain_ok_def)
  from last_line_split [OF this ne] obtain pre l where
    s: "s = pre @ l @ [CHR 0x0A]" "wf_text pre" "CHR 0x0A \<notin> set l" by blast
  have cr: "CHR 0x0D \<notin> set l" using ok s by (auto simp: chain_ok_def)
  have ls: "str_lines s = str_lines pre @ [l]"
    using s cr by (simp add: str_lines_append str_lines_line)
  have v: "verify_lines C pk 0 GENESIS_HASH 0 (str_lines pre @ [l]) = Inr n"
    using ok ls by (simp add: chain_ok_def)
  then obtain r where r: "parse_receipt C l = Some r" by (elim verify_snoc) auto
  have "length (str_lines pre) \<le> length pre"
    using length_split [of pre] by (simp add: str_lines_def)
  then have fin: "finish_tail C r hash (Some pk) nt len = Inr \<lparr>rs_seq = n, rs_prev_hash = hash, rs_note = nt\<rparr>"
    if "length pre < len" "len < 2 ^ 64" for hash nt len
    using finish_tail_ok [OF v _ that(2) r] that by simp
  have h: "h = line_hash C l" using ok ls line_hash_no_cr [OF cr] by (simp add: chain_ok_def)
  show ?thesis
  proof (rule that [OF s _ r h])
    show "last (str_lines s) = l" by (simp add: ls)
    fix hash nt len
    show "length s \<le> Suc len \<Longrightarrow> len < 2 ^ 64 \<Longrightarrow> l \<noteq> [] \<Longrightarrow>
       finish_tail C r hash (Some pk) nt len = Inr \<lparr>rs_seq = n, rs_prev_hash = hash, rs_note = nt\<rparr>"
      by (rule fin) (cases l; simp add: s)
    show "length s \<le> len \<Longrightarrow> len < 2 ^ 64 \<Longrightarrow>
       finish_tail C r hash (Some pk) nt len = Inr \<lparr>rs_seq = n, rs_prev_hash = hash, rs_note = nt\<rparr>"
      by (rule fin) (simp add: s)
  qed
qed

lemma resume_chain_tail:
  assumes "io_ok io" "content = pre @ line @ CHR 0x0A # frag" "wf_text pre" "CHR 0x0A \<notin> set line"
    "CHR 0x0A \<notin> set frag" "length line + length frag + 2 \<le> RESUME_TAIL_MAX"
    "\<And>start. start \<le> length pre \<Longrightarrow> resume_buf C io content (length content) pk
        (drop start pre @ line @ CHR 0x0A # frag) start = (content', Inr r)"
  shows "resume_chain C io (Some content) pk = (Some content', Inr r)"
proof -
  obtain start where "grow_tail content (length content) RESUME_TAIL_WINDOW =
      Inr (drop start pre @ line @ CHR 0x0A # frag, start)" "start \<le> length pre"
    using resume_window [OF assms(2-6)] by blast
  with assms(7) [of start] assms(1) show ?thesis
    by (simp add: resume_chain_def resume_from_tail_def io_ok_def assms(2))
qed

lemma resume_clean:
  assumes "io_ok io" "chain_ok C pk good n h" "good \<noteq> []"
    "length (last (str_lines good)) + 2 \<le> RESUME_TAIL_MAX" "length good < 2 ^ 64"
  shows "resume_chain C io (Some good) (Some pk) =
    (Some good, Inr \<lparr>rs_seq = n, rs_prev_hash = h, rs_note = []\<rparr>)"
proof -
  from chain_ok_last [OF assms(2,3)] obtain pre l r where
    g: "good = pre @ l @ [CHR 0x0A]" "wf_text pre" "CHR 0x0A \<notin> set l" "last (str_lines good) = l"
      "parse_receipt C l = Some r" "h = line_hash C l"
      "\<And>hash nt len. length good \<le> len \<Longrightarrow> len < 2 ^ 64 \<Longrightarrow>
       finish_tail C r hash (Some pk) nt len = Inr \<lparr>rs_seq = n, rs_prev_hash = hash, rs_note = nt\<rparr>"
    by metis
  show ?thesis
    by (rule resume_chain_tail [OF assms(1) g(1,2,3)])
      (use assms g(4,6,7) resume_buf_complete [OF refl wf_text_drop [OF g(2)] g(3,5)] in auto)
qed

lemma resume_torn:
  assumes "io_ok io" "chain_ok C pk good n h" "good \<noteq> []"
    "frag \<noteq> []" "CHR 0x0A \<notin> set frag" "parse_receipt C frag = None"
    "length (last (str_lines good)) + length frag + 2 \<le> RESUME_TAIL_MAX"
    "length good + length frag < 2 ^ 64"
  shows "resume_chain C io (Some (good @ frag)) (Some pk) =
    (Some good, Inr \<lparr>rs_seq = n, rs_prev_hash = h, rs_note = [TornBytesDiscarded (length frag)]\<rparr>)"
proof -
  from chain_ok_last [OF assms(2,3)] obtain pre l r where
    g: "good = pre @ l @ [CHR 0x0A]" "wf_text pre" "CHR 0x0A \<notin> set l" "last (str_lines good) = l"
      "parse_receipt C l = Some r" "h = line_hash C l"
      "\<And>hash nt len. length good \<le> len \<Longrightarrow> len < 2 ^ 64 \<Longrightarrow>
       finish_tail C r hash (Some pk) nt len = Inr \<lparr>rs_seq = n, rs_prev_hash = hash, rs_note = nt\<rparr>"
    by metis
  have "rio_truncate io" using assms(1) by (simp add: io_ok_def)
  note torn = resume_buf_torn [OF refl wf_text_drop [OF g(2)] g(3) assms(5,6,4) g(5) this]
  have c: "good @ frag = pre @ l @ CHR 0x0A # frag" by (simp add: g(1))
  show ?thesis
    by (rule resume_chain_tail [OF assms(1) c g(2,3) assms(5)])
      (use assms g(4,6,7) torn in \<open>auto simp: g(1)\<close>)
qed

lemma resume_unterminated:
  assumes "io_ok io" "chain_ok C pk good n h" "good \<noteq> []"
    "chain_ok C pk (good @ line @ [CHR 0x0A]) n' h'"
    "line \<noteq> []" "CHR 0x0A \<notin> set line"
    "length (last (str_lines good)) + length line + 2 \<le> RESUME_TAIL_MAX"
    "length good + length line < 2 ^ 64"
  shows "resume_chain C io (Some (good @ line)) (Some pk) =
    (Some (good @ line @ [CHR 0x0A]), Inr \<lparr>rs_seq = n', rs_prev_hash = h', rs_note = [DelimiterRestored]\<rparr>)"
proof -
  from chain_ok_last [OF assms(2,3)] obtain pre l where
    g: "good = pre @ l @ [CHR 0x0A]" "wf_text pre" "CHR 0x0A \<notin> set l" "last (str_lines good) = l"
    by metis
  from chain_ok_last [OF assms(4)] obtain pre' l' r' where
    g': "good @ line @ [CHR 0x0A] = pre' @ l' @ [CHR 0x0A]" "wf_text pre'" "CHR 0x0A \<notin> set l'"
      "parse_receipt C l' = Some r'" "h' = line_hash C l'"
      "\<And>hash nt len. length (good @ line @ [CHR 0x0A]) \<le> Suc len \<Longrightarrow> len < 2 ^ 64 \<Longrightarrow> l' \<noteq> [] \<Longrightarrow>
       finish_tail C r' hash (Some pk) nt len = Inr \<lparr>rs_seq = n', rs_prev_hash = hash, rs_note = nt\<rparr>"
    by (metis append_is_Nil_conv list.distinct(1))
  have wg: "wf_text good" using assms(2) by (simp add: chain_ok_def)
  have l': "l' = line"
    using last_line_of [OF wg assms(6)] last_line_of [OF g'(2,3)] g'(1)
    by (metis append_assoc append_same_eq)
  have "rio_append io" using assms(1) by (simp add: io_ok_def)
  note unt = resume_buf_unterminated [OF refl assms(6) g'(4) [unfolded l'] assms(5) this]
  have c: "good @ line = pre @ l @ CHR 0x0A # line" by (simp add: g(1))
  show ?thesis
    by (rule resume_chain_tail [OF assms(1) c g(2,3) assms(6)])
      (use assms g(4) g'(5,6) l' unt [where p = "_ @ _", simplified] in \<open>auto simp: g(1)\<close>)
qed




definition sample_body2 :: receipt_body where
  "sample_body2 = sample_body\<lparr>rb_seq := 1, rb_chain_prev_hash := hex_encode sample_line\<rparr>"

definition sample_line2 :: string where
  "sample_line2 = sample_encode (sample_fields (receipt_body.extend sample_body2
     (action_receipt.fields (hex_encode ''fs.read//etc/allowed''))))"

lemma sample_signed2: "sign_receipt sample_crypto sample_body2 = Inr sample_line2"
  by (simp add: sign_receipt_def sample_crypto_def sample_line2_def sample_body2_def sample_body_def receipt_body_at_def)

definition sample_resume_io :: resume_io where
  "sample_resume_io = \<lparr>rio_stat = True, rio_read_tail = True, rio_append = True, rio_truncate = True,
     rio_scan = True, rio_open = True\<rparr>"

lemma length_hex [simp]: "length (hex_encode s) = 2 * length s"
  by (induction s) simp_all

lemma length_sample_encode: "length (sample_encode fs) = (\<Sum>f \<leftarrow> fs. 2 * length f + 1)"
  by (induction fs) (simp_all add: sample_encode_def)

lemma sample_lengths: "length sample_line = 258" "length sample_line2 = 1162"
  by (simp_all add: sample_line_def sample_line2_def length_sample_encode sample_fields_def sample_body_def
     sample_body2_def receipt_body_at_def sample_inner_def GENESIS_HASH_def action_receipt.defs receipt_body.defs show_nat.simps) 




end
