(* ===== verification/Capability.thy ===== *)
theory Capability
  imports Prelude
begin

section \<open>Capabilities (\<open>agentd/src/capability.rs\<close>)\<close>

text \<open>
  The permission model: lexical path normalisation and anchoring, the runtime
  check \<open>satisfies\<close>, the type-level check \<open>satisfies_type\<close>, the attenuation
  check \<open>capability_covered_by\<close> used when an agent spawns a child or an
  operator narrows an agent, and the declaration-tier table.

  The process-wide FS anchor (\<open>FS_ANCHOR\<close>, the start-up working directory) is an
  explicit argument \<open>anchor\<close>. Paths are byte strings, parsed by \<open>components\<close> the
  way \<open>std::path\<close> does on Unix.
\<close>

subsection \<open>Unix paths (\<open>std::path\<close>)\<close>

datatype component = RootDir | CurDir | ParentDir | Normal string

fun split_char :: "char \<Rightarrow> string \<Rightarrow> string list" where
  "split_char d [] = [[]]"
| "split_char d (c # cs) =
     (if c = d then [] # split_char d cs
      else case split_char d cs of [] \<Rightarrow> [[c]] | seg # segs \<Rightarrow> (c # seg) # segs)"

definition is_absolute :: "string \<Rightarrow> bool" where
  "is_absolute p \<longleftrightarrow> (case p of [] \<Rightarrow> False | c # _ \<Rightarrow> c = CHR ''/'')"

definition segment_component :: "string \<Rightarrow> component list" where
  "segment_component seg =
     (if seg = '''' \<or> seg = ''.'' then []
      else if seg = ''..'' then [ParentDir] else [Normal seg])"

text \<open>
  \<open>Path::components\<close>: repeated and trailing separators vanish, and a \<open>.\<close> is kept
  only at the start of a relative path.
\<close>

definition components :: "string \<Rightarrow> component list" where
  "components p =
     (if is_absolute p then RootDir # concat (map segment_component (split_char CHR ''/'' (tl p)))
      else case split_char CHR ''/'' p of
             [] \<Rightarrow> []
           | seg # segs \<Rightarrow>
               (if seg = ''.'' then [CurDir] else segment_component seg)
               @ concat (map segment_component segs))"

fun component_str :: "component \<Rightarrow> string" where
  "component_str RootDir = ''/''"
| "component_str CurDir = ''.''"
| "component_str ParentDir = ''..''"
| "component_str (Normal s) = s"

text \<open>\<open>PathBuf::push\<close> (and \<open>Path::join\<close>, which pushes on a copy), and \<open>collect()\<close>.\<close>

definition path_push :: "string \<Rightarrow> string \<Rightarrow> string" where
  "path_push buf p =
     (if is_absolute p then p
      else if buf \<noteq> [] \<and> last buf \<noteq> CHR ''/'' then buf @ CHR ''/'' # p
      else buf @ p)"

definition path_collect :: "component list \<Rightarrow> string" where
  "path_collect cs = foldl path_push [] (map component_str cs)"

definition path_starts_with :: "string \<Rightarrow> string \<Rightarrow> bool" where
  "path_starts_with p base \<longleftrightarrow> prefix (components base) (components p)"

subsection \<open>Normalisation and anchoring\<close>

text \<open>The loop body of \<open>normalize_path\<close> over the accumulated vector.\<close>

definition normalize_step :: "component list \<Rightarrow> component \<Rightarrow> component list" where
  "normalize_step acc c =
     (case c of
        CurDir \<Rightarrow> acc
      | ParentDir \<Rightarrow>
          (case rev acc of
             Normal _ # _ \<Rightarrow> butlast acc
           | _ \<Rightarrow> acc @ [c])
      | _ \<Rightarrow> acc @ [c])"

definition normalize_components :: "component list \<Rightarrow> component list" where
  "normalize_components cs = foldl normalize_step [] cs"

definition normalize_path :: "string \<Rightarrow> string" where
  "normalize_path p = path_collect (normalize_components (components p))"

definition anchor_abs :: "string \<Rightarrow> string \<Rightarrow> string" where
  "anchor_abs anchor p =
     (if is_absolute p then normalize_path p
      else normalize_path (path_push anchor p))"

definition granted_prefix_is_invalid :: "string \<Rightarrow> bool" where
  "granted_prefix_is_invalid g_prefix =
     (let norm = normalize_path g_prefix
      in norm = [] \<or>
         (case components norm of ParentDir # _ \<Rightarrow> True | _ \<Rightarrow> False))"

subsection \<open>Capabilities and their checks\<close>

datatype credential_provider = Google | BraveSearch | Custom string

datatype capability =
    FsRead string
  | FsWrite string
  | Net "string list" "u16 list"
  | Mcp string "string list"
  | Spawn
  | KbRead string
  | KbWrite string
  | ShellExec
  | Credential credential_provider
  | RunsRead
  | BriefPublish
  | RunJob

definition kb_segment_satisfies :: "string \<Rightarrow> string \<Rightarrow> bool" where
  "kb_segment_satisfies granted required =
     (if granted = [] then False
      else if required = granted then True
      else if prefix granted required then
        (case drop (length granted) required of
           [] \<Rightarrow> False
         | c # _ \<Rightarrow> c = CHR '':'' \<or> c = CHR ''/'')
      else False)"

definition fs_prefix_covers :: "string \<Rightarrow> string \<Rightarrow> string \<Rightarrow> bool" where
  "fs_prefix_covers anchor g_prefix req_path =
     (if granted_prefix_is_invalid g_prefix then False
      else path_starts_with (anchor_abs anchor req_path) (anchor_abs anchor g_prefix))"

fun satisfies :: "string \<Rightarrow> capability list \<Rightarrow> capability \<Rightarrow> bool" where
  "satisfies anchor granted (FsRead req_path) =
     list_ex (\<lambda>g. case g of FsRead g_prefix \<Rightarrow> fs_prefix_covers anchor g_prefix req_path | _ \<Rightarrow> False)
       granted"
| "satisfies anchor granted (FsWrite req_path) =
     list_ex (\<lambda>g. case g of FsWrite g_prefix \<Rightarrow> fs_prefix_covers anchor g_prefix req_path | _ \<Rightarrow> False)
       granted"
| "satisfies anchor granted (Net _ _) = True"
| "satisfies anchor granted (Mcp req_server req_tools) =
     list_ex (\<lambda>g. case g of
         Mcp g_server g_tools \<Rightarrow>
           (if g_server \<noteq> req_server then False
            else g_tools = [] \<or> list_all (\<lambda>t. t \<in> set g_tools) req_tools)
       | _ \<Rightarrow> False) granted"
| "satisfies anchor granted Spawn = list_ex (\<lambda>g. g = Spawn) granted"
| "satisfies anchor granted (KbRead req_seg) =
     (if req_seg = [] then False
      else list_ex (\<lambda>g. case g of KbRead g_seg \<Rightarrow> kb_segment_satisfies g_seg req_seg | _ \<Rightarrow> False)
        granted)"
| "satisfies anchor granted (KbWrite req_seg) =
     (if req_seg = [] then False
      else list_ex (\<lambda>g. case g of KbWrite g_seg \<Rightarrow> kb_segment_satisfies g_seg req_seg | _ \<Rightarrow> False)
        granted)"
| "satisfies anchor granted ShellExec = list_ex (\<lambda>g. g = ShellExec) granted"
| "satisfies anchor granted (Credential req_prov) =
     list_ex (\<lambda>g. case g of Credential gp \<Rightarrow> gp = req_prov | _ \<Rightarrow> False) granted"
| "satisfies anchor granted RunsRead = list_ex (\<lambda>g. g = RunsRead) granted"
| "satisfies anchor granted BriefPublish = list_ex (\<lambda>g. g = BriefPublish) granted"
| "satisfies anchor granted RunJob = list_ex (\<lambda>g. g = RunJob) granted"

definition satisfies_type :: "string \<Rightarrow> capability list \<Rightarrow> capability \<Rightarrow> bool" where
  "satisfies_type anchor granted required =
     (case required of
        FsRead p \<Rightarrow>
          (if p = [] then list_ex (\<lambda>g. case g of FsRead _ \<Rightarrow> True | _ \<Rightarrow> False) granted
           else satisfies anchor granted required)
      | FsWrite p \<Rightarrow>
          (if p = [] then list_ex (\<lambda>g. case g of FsWrite _ \<Rightarrow> True | _ \<Rightarrow> False) granted
           else satisfies anchor granted required)
      | KbRead seg \<Rightarrow>
          (if seg = [] then list_ex (\<lambda>g. case g of KbRead _ \<Rightarrow> True | _ \<Rightarrow> False) granted
           else satisfies anchor granted required)
      | KbWrite seg \<Rightarrow>
          (if seg = [] then list_ex (\<lambda>g. case g of KbWrite _ \<Rightarrow> True | _ \<Rightarrow> False) granted
           else satisfies anchor granted required)
      | Credential (Custom s) \<Rightarrow>
          (if s = [] then list_ex (\<lambda>g. case g of Credential _ \<Rightarrow> True | _ \<Rightarrow> False) granted
           else satisfies anchor granted required)
      | _ \<Rightarrow> satisfies anchor granted required)"

definition list_covers :: "'a list \<Rightarrow> 'a list \<Rightarrow> bool" where
  "list_covers parent child \<longleftrightarrow>
     parent = [] \<or> child \<noteq> [] \<and> list_all (\<lambda>c. c \<in> set parent) child"

definition same_server_tools :: "string \<Rightarrow> capability list \<Rightarrow> string list list" where
  "same_server_tools server parent =
     List.map_filter (\<lambda>p. case p of Mcp ps pt \<Rightarrow> if ps = server then Some pt else None | _ \<Rightarrow> None)
       parent"

definition capability_covered_by :: "string \<Rightarrow> capability list \<Rightarrow> capability \<Rightarrow> bool" where
  "capability_covered_by anchor parent child =
     (case child of
        Net hosts ports \<Rightarrow>
          list_ex (\<lambda>p. case p of
              Net ph pp \<Rightarrow> list_covers ph hosts \<and> list_covers pp ports
            | _ \<Rightarrow> False) parent
      | Mcp server tools \<Rightarrow>
          (let same_server = same_server_tools server parent in
           if same_server = [] then False
           else if list_ex (\<lambda>pt. pt = []) same_server then True
           else if tools = [] then False
           else list_all (\<lambda>t. list_ex (\<lambda>pt. t \<in> set pt) same_server) tools)
      | _ \<Rightarrow> satisfies anchor parent child)"

definition credential_provider_key :: "credential_provider \<Rightarrow> string" where
  "credential_provider_key p =
     (case p of Google \<Rightarrow> ''google'' | BraveSearch \<Rightarrow> ''brave-search'' | Custom s \<Rightarrow> s)"

definition is_bare_agent_segment :: "string \<Rightarrow> bool" where
  "is_bare_agent_segment segment \<longleftrightarrow> segment = ''agent''"

datatype cap_context = AgentCtx | StdioMcp | HttpMcp

datatype legality = Enforced | Inert string

definition tier_legality :: "capability \<Rightarrow> cap_context \<Rightarrow> legality" where
  "tier_legality cap ctx =
     (case ctx of
        HttpMcp \<Rightarrow> Inert ''HTTP MCP transport discards capabilities/isolation''
      | AgentCtx \<Rightarrow>
          (case cap of
             FsRead _ \<Rightarrow> Enforced | FsWrite _ \<Rightarrow> Enforced
           | Mcp _ _ \<Rightarrow> Enforced | Spawn \<Rightarrow> Enforced | KbRead _ \<Rightarrow> Enforced
           | KbWrite _ \<Rightarrow> Enforced | RunsRead \<Rightarrow> Enforced | BriefPublish \<Rightarrow> Enforced
           | RunJob \<Rightarrow> Enforced
           | Net _ _ \<Rightarrow> Inert ''agent-level Net is advisory; native agents have no sandbox''
           | ShellExec \<Rightarrow> Inert ''agent-level ShellExec is not gated; use Mcp { server }''
           | Credential _ \<Rightarrow>
               Inert ''agent-level Credential is not enforced; the broker token is per stdio-server'')
      | StdioMcp \<Rightarrow>
          (case cap of
             FsRead _ \<Rightarrow> Enforced | FsWrite _ \<Rightarrow> Enforced | Net _ _ \<Rightarrow> Enforced
           | Spawn \<Rightarrow> Enforced | ShellExec \<Rightarrow> Enforced | Credential _ \<Rightarrow> Enforced
           | Mcp _ _ \<Rightarrow> Inert ''Mcp grant has no meaning on a server's own sandbox''
           | KbRead _ \<Rightarrow> Inert ''agent-facing capability has no server-sandbox rule''
           | KbWrite _ \<Rightarrow> Inert ''agent-facing capability has no server-sandbox rule''
           | RunsRead \<Rightarrow> Inert ''agent-facing capability has no server-sandbox rule''
           | BriefPublish \<Rightarrow> Inert ''agent-facing capability has no server-sandbox rule''
           | RunJob \<Rightarrow> Inert ''agent-facing capability has no server-sandbox rule''))"

subsection \<open>Path lemmas\<close>

text \<open>
  The normal form: a component other than \<open>RootDir\<close> and \<open>CurDir\<close>, whose name (if it
  has one) could have been cut out of a path by \<open>components\<close>.
\<close>

definition plain_name :: "string \<Rightarrow> bool" where
  "plain_name s \<longleftrightarrow> s \<noteq> '''' \<and> s \<noteq> ''.'' \<and> s \<noteq> ''..'' \<and> CHR ''/'' \<notin> set s"

definition plain_component :: "component \<Rightarrow> bool" where
  "plain_component c = (case c of ParentDir \<Rightarrow> True | Normal s \<Rightarrow> plain_name s | _ \<Rightarrow> False)"

lemma split_char_nonempty [simp]: "split_char d s \<noteq> []"
  by (induction s) (auto split: list.splits)

lemma split_char_segments: "seg \<in> set (split_char d s) \<Longrightarrow> d \<notin> set seg"
  by (induction s arbitrary: seg) (auto split: list.splits if_splits)

lemma split_char_sep: "d \<notin> set s \<Longrightarrow> split_char d (s @ d # t) = s # split_char d t"
  by (induction s) auto

lemma split_char_single: "d \<notin> set s \<Longrightarrow> split_char d s = [s]"
  by (induction s) auto

lemma split_char_join:
  assumes "\<forall>s \<in> set (s # ss). d \<notin> set s"
  shows "split_char d (s @ concat (map (\<lambda>x. d # x) ss)) = s # ss"
  using assms by (induction ss arbitrary: s) (auto simp: split_char_sep split_char_single)

lemma plain_segment_component: "CHR ''/'' \<notin> set seg \<Longrightarrow> list_all plain_component (segment_component seg)"
  by (auto simp: segment_component_def plain_component_def plain_name_def)

lemma segment_component_str:
  "plain_component c \<Longrightarrow> segment_component (component_str c) = [c]"
  by (cases c) (auto simp: segment_component_def plain_component_def plain_name_def)

lemma plain_component_str:
  "plain_component c \<Longrightarrow> component_str c \<noteq> [] \<and> CHR ''/'' \<notin> set (component_str c)
     \<and> component_str c \<noteq> ''.'' \<and> \<not> is_absolute (component_str c)"
  by (cases c) (auto simp: plain_component_def plain_name_def is_absolute_def split: list.splits)

lemma plain_segments:
  "(\<And>seg. seg \<in> set segs \<Longrightarrow> CHR ''/'' \<notin> set seg) \<Longrightarrow>
   list_all plain_component (concat (map segment_component segs))"
  by (induction segs) (auto intro: plain_segment_component)

lemma components_absolute:
  "is_absolute p \<Longrightarrow> \<exists>cs. components p = RootDir # cs \<and> list_all plain_component cs"
  by (auto simp: components_def intro!: plain_segments dest: split_char_segments)

lemma components_relative:
  "\<not> is_absolute p \<Longrightarrow>
     \<exists>cs. list_all plain_component cs \<and> (components p = cs \<or> components p = CurDir # cs)"
proof -
  assume rel: "\<not> is_absolute p"
  obtain seg segs where sp: "split_char CHR ''/'' p = seg # segs"
    using split_char_nonempty by (metis neq_Nil_conv)
  have noslash: "\<And>x. x \<in> set (seg # segs) \<Longrightarrow> CHR ''/'' \<notin> set x"
    using split_char_segments [of _ "CHR ''/''" p] by (simp add: sp)
  have "list_all plain_component (concat (map segment_component segs))"
    by (rule plain_segments) (simp add: noslash)
  moreover have "list_all plain_component (segment_component seg)"
    by (rule plain_segment_component) (simp add: noslash)
  ultimately have "list_all plain_component (segment_component seg @ concat (map segment_component segs))"
    and "list_all plain_component (concat (map segment_component segs))"
    by simp_all
  moreover have "components p = segment_component seg @ concat (map segment_component segs)
      \<or> components p = CurDir # concat (map segment_component segs)"
    using rel by (simp add: components_def sp)
  ultimately show ?thesis by blast
qed

text \<open>\<open>collect()\<close> in closed form, and its inversion by \<open>components\<close>.\<close>

lemma push_plain_tail:
  assumes "list_all plain_component cs" and "buf \<noteq> []" and "last buf \<noteq> CHR ''/''"
  shows "foldl path_push buf (map component_str cs) =
    buf @ concat (map (\<lambda>x. CHR ''/'' # x) (map component_str cs))"
  using assms
proof (induction cs arbitrary: buf)
  case (Cons c cs)
  have c: "component_str c \<noteq> []" "\<not> is_absolute (component_str c)"
    "CHR ''/'' \<notin> set (component_str c)"
    using Cons.prems(1) plain_component_str by auto
  have "last (component_str c) \<noteq> CHR ''/''"
    using c(1,3) by (metis last_in_set)
  with Cons c show ?case by (simp add: path_push_def)
qed simp

lemma path_collect_plain:
  assumes "list_all plain_component (c # cs)"
  shows "path_collect (c # cs) =
      component_str c @ concat (map (\<lambda>x. CHR ''/'' # x) (map component_str cs))"
    and "path_collect (RootDir # c # cs) =
      CHR ''/'' # component_str c @ concat (map (\<lambda>x. CHR ''/'' # x) (map component_str cs))"
proof -
  have c: "component_str c \<noteq> []" "\<not> is_absolute (component_str c)"
    "CHR ''/'' \<notin> set (component_str c)"
    using assms plain_component_str by auto
  then have "last (component_str c) \<noteq> CHR ''/''" by (metis last_in_set)
  with c assms show "path_collect (c # cs) =
      component_str c @ concat (map (\<lambda>x. CHR ''/'' # x) (map component_str cs))"
    and "path_collect (RootDir # c # cs) =
      CHR ''/'' # component_str c @ concat (map (\<lambda>x. CHR ''/'' # x) (map component_str cs))"
    by (simp_all add: path_collect_def path_push_def is_absolute_def push_plain_tail)
qed

lemma concat_segment_component_str:
  "list_all plain_component cs \<Longrightarrow> concat (map segment_component (map component_str cs)) = cs"
  by (induction cs) (auto simp: segment_component_str)

lemma split_join_components:
  assumes "list_all plain_component (c # cs)"
  shows "split_char CHR ''/'' (component_str c @ concat (map (\<lambda>x. CHR ''/'' # x) (map component_str cs)))
         = component_str c # map component_str cs"
  by (rule split_char_join) (use assms plain_component_str in \<open>auto simp: list_all_iff\<close>)

lemma components_path_collect_rel:
  assumes "list_all plain_component cs"
  shows "components (path_collect cs) = cs"
proof (cases cs)
  case Nil
  then show ?thesis
    by (simp add: path_collect_def components_def is_absolute_def segment_component_def)
next
  case (Cons c cs')
  with assms have c: "list_all plain_component (c # cs')" by simp
  then have "component_str c \<noteq> []" "\<not> is_absolute (component_str c)" "component_str c \<noteq> ''.''"
    using plain_component_str by auto
  then have "\<not> is_absolute (path_collect cs)" "component_str c \<noteq> ''.''"
    by (auto simp: Cons path_collect_plain(1) [OF c] is_absolute_def neq_Nil_conv)
  with c show ?thesis
    using concat_segment_component_str [OF c]
    by (simp add: components_def Cons path_collect_plain(1) [OF c] split_join_components [OF c]
        del: map_map)
qed

lemma components_path_collect_abs:
  assumes "list_all plain_component cs"
  shows "components (path_collect (RootDir # cs)) = RootDir # cs"
proof (cases cs)
  case Nil
  then show ?thesis
    by (simp add: path_collect_def components_def is_absolute_def path_push_def segment_component_def)
next
  case (Cons c cs')
  with assms have c: "list_all plain_component (c # cs')" by simp
  then show ?thesis
    using concat_segment_component_str [OF c]
    by (simp add: Cons path_collect_plain(2) [OF c] components_def is_absolute_def
        split_join_components [OF c] del: map_map)
qed

subsection \<open>Normalisation and lexical resolution\<close>

text \<open>
  What the kernel does with a path when no symbolic link is involved: a stack of
  names, where \<open>..\<close> at the root stays at the root. It is the reference the
  normaliser is measured against.
\<close>

definition resolve_step :: "string list \<Rightarrow> component \<Rightarrow> string list" where
  "resolve_step st c =
     (case c of RootDir \<Rightarrow> [] | CurDir \<Rightarrow> st | ParentDir \<Rightarrow> butlast st | Normal s \<Rightarrow> st @ [s])"

definition resolve :: "component list \<Rightarrow> string list" where
  "resolve cs = foldl resolve_step [] cs"

text \<open>The absolute path the process opens for \<open>p\<close> when its working directory is \<open>anchor\<close>.\<close>

definition opened_path :: "string \<Rightarrow> string \<Rightarrow> string" where
  "opened_path anchor p = (if is_absolute p then p else path_push anchor p)"

lemma anchor_abs_opened: "anchor_abs anchor p = normalize_path (opened_path anchor p)"
  by (simp add: anchor_abs_def opened_path_def)

lemma opened_path_absolute: "is_absolute anchor \<Longrightarrow> is_absolute (opened_path anchor p)"
  by (auto simp: opened_path_def path_push_def is_absolute_def split: list.splits)

lemma normalize_step_last:
  "normalize_step acc ParentDir =
     (if acc \<noteq> [] \<and> (\<exists>s. last acc = Normal s) then butlast acc else acc @ [ParentDir])"
  by (cases acc rule: rev_cases) (auto simp: normalize_step_def split: component.splits)

lemma normalize_step_other [simp]:
  "normalize_step acc CurDir = acc"
  "normalize_step acc RootDir = acc @ [RootDir]"
  "normalize_step acc (Normal s) = acc @ [Normal s]"
  by (simp_all add: normalize_step_def)

lemma plain_normalize_step:
  "list_all plain_component acc \<Longrightarrow> plain_component c \<or> c = CurDir \<Longrightarrow>
   list_all plain_component (normalize_step acc c)"
  by (cases c) (auto simp: normalize_step_last list_all_iff plain_component_def dest: in_set_butlastD)

lemma plain_normalize:
  "list_all (\<lambda>c. plain_component c \<or> c = CurDir) cs \<Longrightarrow> list_all plain_component acc \<Longrightarrow>
   list_all plain_component (foldl normalize_step acc cs)"
  by (induction cs arbitrary: acc) (auto intro: plain_normalize_step)

lemma normalize_step_root:
  "plain_component c \<Longrightarrow> normalize_step (RootDir # acc) c = RootDir # normalize_step acc c"
  by (cases c) (auto simp: normalize_step_last plain_component_def)

lemma normalize_root:
  "list_all plain_component cs \<Longrightarrow>
   foldl normalize_step (RootDir # acc) cs = RootDir # foldl normalize_step acc cs"
  by (induction cs arbitrary: acc) (auto simp: normalize_step_root)

lemma plain_imp_plain_or_cur:
  "list_all plain_component cs \<Longrightarrow> list_all (\<lambda>c. plain_component c \<or> c = CurDir) cs"
  by (auto simp: list_all_iff)

lemma components_normalize_abs:
  assumes "is_absolute p"
  obtains cs where "components p = RootDir # cs" and "list_all plain_component cs"
    and "components (normalize_path p) = RootDir # normalize_components cs"
    and "list_all plain_component (normalize_components cs)"
proof -
  obtain cs where cs: "components p = RootDir # cs" "list_all plain_component cs"
    using components_absolute [OF assms] by blast
  have pl: "list_all plain_component (normalize_components cs)"
    unfolding normalize_components_def
    by (rule plain_normalize) (use cs plain_imp_plain_or_cur in auto)
  have "normalize_components (RootDir # cs) = RootDir # normalize_components cs"
    using normalize_root [OF cs(2), of "[]"] by (simp add: normalize_components_def)
  then have "components (normalize_path p) = RootDir # normalize_components cs"
    by (simp add: normalize_path_def cs(1) components_path_collect_abs [OF pl])
  with that cs pl show thesis by blast
qed

lemma components_normalize_rel:
  assumes "\<not> is_absolute p"
  shows "components (normalize_path p) = normalize_components (components p)"
    and "list_all plain_component (normalize_components (components p))"
proof -
  have pc: "list_all (\<lambda>c. plain_component c \<or> c = CurDir) (components p)"
    using components_relative [OF assms] by (auto simp: list_all_iff)
  show pl: "list_all plain_component (normalize_components (components p))"
    unfolding normalize_components_def by (rule plain_normalize) (use pc in auto)
  show "components (normalize_path p) = normalize_components (components p)"
    by (simp add: normalize_path_def components_path_collect_rel [OF pl])
qed

text \<open>Normalisation never changes where a path leads.\<close>

lemma resolve_normalize_step:
  "foldl resolve_step st (normalize_step acc c) = resolve_step (foldl resolve_step st acc) c"
proof (cases c)
  case ParentDir
  show ?thesis
  proof (cases "acc \<noteq> [] \<and> (\<exists>s. last acc = Normal s)")
    case True
    then obtain acc' s where "acc = acc' @ [Normal s]"
      by (metis append_butlast_last_id)
    then show ?thesis by (simp add: ParentDir normalize_step_last resolve_step_def)
  qed (auto simp: ParentDir normalize_step_last resolve_step_def)
qed (simp_all add: resolve_step_def)

lemma resolve_foldl_normalize:
  "foldl resolve_step st (foldl normalize_step acc cs) = foldl resolve_step (foldl resolve_step st acc) cs"
  by (induction cs arbitrary: acc) (auto simp: resolve_normalize_step)

lemma resolve_normalize_components:
  "foldl resolve_step st (normalize_components cs) = foldl resolve_step st cs"
  using resolve_foldl_normalize [of st "[]" cs] by (simp add: normalize_components_def)

text \<open>The normal form: climbing components first, then names.\<close>

definition climb_then_names :: "component list \<Rightarrow> bool" where
  "climb_then_names cs \<longleftrightarrow> (\<exists>k names. cs = replicate k ParentDir @ map Normal names)"

lemma climb_then_names_Nil [simp]: "climb_then_names []"
  unfolding climb_then_names_def by (rule exI [of _ 0]) simp

lemma climb_then_names_step:
  assumes "climb_then_names acc" and "plain_component c \<or> c = CurDir"
  shows "climb_then_names (normalize_step acc c)"
proof -
  obtain k names where acc: "acc = replicate k ParentDir @ map Normal names"
    using assms(1) by (auto simp: climb_then_names_def)
  show ?thesis
  proof (cases c)
    case ParentDir
    show ?thesis
    proof (cases names rule: rev_cases)
      case Nil
      then have "normalize_step acc c = replicate (Suc k) ParentDir @ map Normal []"
        using acc ParentDir
        by (cases k) (simp_all add: normalize_step_last replicate_append_same)
      then show ?thesis unfolding climb_then_names_def by blast
    next
      case (snoc ns n)
      then have "normalize_step acc c = replicate k ParentDir @ map Normal ns"
        using acc ParentDir by (simp add: normalize_step_last butlast_append)
      then show ?thesis unfolding climb_then_names_def by blast
    qed
  next
    case (Normal s)
    then have "normalize_step acc c = replicate k ParentDir @ map Normal (names @ [s])"
      using acc by simp
    then show ?thesis unfolding climb_then_names_def by blast
  qed (use assms in \<open>auto simp: plain_component_def\<close>)
qed

lemma climb_then_names_normalize:
  "list_all (\<lambda>c. plain_component c \<or> c = CurDir) cs \<Longrightarrow> climb_then_names acc \<Longrightarrow>
   climb_then_names (foldl normalize_step acc cs)"
  by (induction cs arbitrary: acc) (auto intro: climb_then_names_step)

lemma climb_then_names_components:
  "list_all plain_component cs \<Longrightarrow> climb_then_names (normalize_components cs)"
  unfolding normalize_components_def
  by (rule climb_then_names_normalize) (auto intro: plain_imp_plain_or_cur)

lemma resolve_names: "foldl resolve_step st (map Normal ns) = st @ ns"
  by (induction ns arbitrary: st) (auto simp: resolve_step_def)

lemma resolve_climbs: "foldl resolve_step [] (replicate k ParentDir) = []"
  by (induction k) (auto simp: resolve_step_def)

lemma resolve_climb_then_names:
  "foldl resolve_step [] (replicate k ParentDir @ map Normal ns) = ns"
  by (simp add: resolve_climbs resolve_names)

lemma prefix_climb_names:
  assumes "prefix (replicate k ParentDir @ map Normal ns) (replicate k' ParentDir @ map Normal ns')"
  shows "prefix ns ns'"
proof (cases ns)
  case (Cons n ns1)
  have "k = k'"
  proof (rule ccontr)
    assume ne: "k \<noteq> k'"
    have len: "k < length (replicate k ParentDir @ map Normal ns)" by (simp add: Cons)
    have nth: "(replicate k ParentDir @ map Normal ns) ! i = (replicate k' ParentDir @ map Normal ns') ! i"
      if "i \<le> k" for i
      using assms len that by (metis le_less_trans prefix_def nth_append)
    show False
    proof (cases "k < k'")
      case True
      then show False using nth [of k] by (simp add: nth_append Cons)
    next
      case False
      with ne have "k' < k" by simp
      moreover have "k' < length (replicate k' ParentDir @ map Normal ns')"
        using prefix_length_le [OF assms] \<open>k' < k\<close> by (cases ns') auto
      ultimately show False using nth [of k'] by (simp add: nth_append)
    qed
  qed
  then have "prefix (map Normal ns) (map Normal ns')" using assms by simp
  then have "map Normal ns' = map Normal ns @ drop (length ns) (map Normal ns')"
    by (metis append_eq_conv_conj length_map prefix_def)
  then have "take (length ns) ns' = ns"
    by (metis (no_types, lifting) append_eq_conv_conj component.inject inj_map_eq_map inj_onI length_map take_map)
  then show ?thesis by (metis append_take_drop_id prefixI)
qed simp

subsection \<open>Grants that compose: the interface of the attenuation proof\<close>

text \<open>
  What the attenuation argument needs of a grant relation: covering composes. Both
  families of prefix grants (file-system prefixes and knowledge-base segments)
  promise it.
\<close>

locale grant_relation =
  fixes covers :: "'g \<Rightarrow> 'g \<Rightarrow> bool"
  assumes covers_trans: "covers g c \<Longrightarrow> covers c r \<Longrightarrow> covers g r"
begin

lemma covered_set_monotone:
  assumes "\<forall>c \<in> set cs. list_ex (\<lambda>g. covers g c) gs" and "list_ex (\<lambda>c. covers c r) cs"
  shows "list_ex (\<lambda>g. covers g r) gs"
  using assms by (auto simp: list_ex_iff intro: covers_trans)

end

lemma fs_prefix_covers_trans:
  "fs_prefix_covers anchor g c \<Longrightarrow> fs_prefix_covers anchor c r \<Longrightarrow> fs_prefix_covers anchor g r"
  by (auto simp: fs_prefix_covers_def path_starts_with_def split: if_splits)

lemma kb_segment_satisfies_iff:
  "kb_segment_satisfies g r \<longleftrightarrow>
     g \<noteq> [] \<and> (r = g \<or> (\<exists>c rest. r = g @ c # rest \<and> (c = CHR '':'' \<or> c = CHR ''/'')))"
  by (auto simp: kb_segment_satisfies_def prefix_def split: list.splits)

lemma kb_segment_satisfies_trans:
  "kb_segment_satisfies g c \<Longrightarrow> kb_segment_satisfies c r \<Longrightarrow> kb_segment_satisfies g r"
  by (auto simp: kb_segment_satisfies_iff)

interpretation fs_grant: grant_relation "fs_prefix_covers anchor" for anchor
  by unfold_locales (rule fs_prefix_covers_trans)

interpretation kb_grant: grant_relation kb_segment_satisfies
  by unfold_locales (rule kb_segment_satisfies_trans)

text \<open>The grants of one kind, read off a capability set.\<close>

definition fs_reads :: "capability list \<Rightarrow> string list" where
  "fs_reads caps = List.map_filter (\<lambda>c. case c of FsRead p \<Rightarrow> Some p | _ \<Rightarrow> None) caps"

definition fs_writes :: "capability list \<Rightarrow> string list" where
  "fs_writes caps = List.map_filter (\<lambda>c. case c of FsWrite p \<Rightarrow> Some p | _ \<Rightarrow> None) caps"

definition kb_reads :: "capability list \<Rightarrow> string list" where
  "kb_reads caps = List.map_filter (\<lambda>c. case c of KbRead p \<Rightarrow> Some p | _ \<Rightarrow> None) caps"

definition kb_writes :: "capability list \<Rightarrow> string list" where
  "kb_writes caps = List.map_filter (\<lambda>c. case c of KbWrite p \<Rightarrow> Some p | _ \<Rightarrow> None) caps"

text \<open>A case split on one constructor, as an existential.\<close>

lemma case_capability_True:
  "(case c of FsRead p \<Rightarrow> P p | _ \<Rightarrow> False) \<longleftrightarrow> (\<exists>p. c = FsRead p \<and> P p)"
  "(case c of FsWrite p \<Rightarrow> P p | _ \<Rightarrow> False) \<longleftrightarrow> (\<exists>p. c = FsWrite p \<and> P p)"
  "(case c of KbRead p \<Rightarrow> P p | _ \<Rightarrow> False) \<longleftrightarrow> (\<exists>p. c = KbRead p \<and> P p)"
  "(case c of KbWrite p \<Rightarrow> P p | _ \<Rightarrow> False) \<longleftrightarrow> (\<exists>p. c = KbWrite p \<and> P p)"
  "(case c of Mcp s t \<Rightarrow> Q s t | _ \<Rightarrow> False) \<longleftrightarrow> (\<exists>s t. c = Mcp s t \<and> Q s t)"
  "(case c of Net h q \<Rightarrow> R h q | _ \<Rightarrow> False) \<longleftrightarrow> (\<exists>h q. c = Net h q \<and> R h q)"
  "(case c of Credential v \<Rightarrow> V v | _ \<Rightarrow> False) \<longleftrightarrow> (\<exists>v. c = Credential v \<and> V v)"
  by (cases c; simp)+

lemma case_capability_Some:
  "(case c of FsRead p \<Rightarrow> Some p | _ \<Rightarrow> None) = Some y \<longleftrightarrow> c = FsRead y"
  "(case c of FsWrite p \<Rightarrow> Some p | _ \<Rightarrow> None) = Some y \<longleftrightarrow> c = FsWrite y"
  "(case c of KbRead p \<Rightarrow> Some p | _ \<Rightarrow> None) = Some y \<longleftrightarrow> c = KbRead y"
  "(case c of KbWrite p \<Rightarrow> Some p | _ \<Rightarrow> None) = Some y \<longleftrightarrow> c = KbWrite y"
  "(case c of Mcp ps pt \<Rightarrow> if ps = s then Some pt else None | _ \<Rightarrow> None) = Some z \<longleftrightarrow> c = Mcp s z"
  by (cases c; simp)+

lemma set_map_filter: "set (List.map_filter f xs) = {y. \<exists>x \<in> set xs. f x = Some y}"
  by (induction xs) (auto simp: List.map_filter_simps split: option.splits)

lemma set_grants [simp]:
  "set (fs_reads caps) = {p. FsRead p \<in> set caps}"
  "set (fs_writes caps) = {p. FsWrite p \<in> set caps}"
  "set (kb_reads caps) = {p. KbRead p \<in> set caps}"
  "set (kb_writes caps) = {p. KbWrite p \<in> set caps}"
  by (simp_all add: fs_reads_def fs_writes_def kb_reads_def kb_writes_def set_map_filter
      case_capability_Some)

lemma set_same_server [simp]: "set (same_server_tools server parent) = {pt. Mcp server pt \<in> set parent}"
  by (simp add: same_server_tools_def set_map_filter case_capability_Some)

lemma satisfies_fs:
  "satisfies anchor granted (FsRead p) = list_ex (\<lambda>g. fs_prefix_covers anchor g p) (fs_reads granted)"
  "satisfies anchor granted (FsWrite p) = list_ex (\<lambda>g. fs_prefix_covers anchor g p) (fs_writes granted)"
  by (auto simp: list_ex_iff case_capability_True)

lemma satisfies_kb:
  "satisfies anchor granted (KbRead p) \<longleftrightarrow>
     p \<noteq> [] \<and> list_ex (\<lambda>g. kb_segment_satisfies g p) (kb_reads granted)"
  "satisfies anchor granted (KbWrite p) \<longleftrightarrow>
     p \<noteq> [] \<and> list_ex (\<lambda>g. kb_segment_satisfies g p) (kb_writes granted)"
  by (auto simp: list_ex_iff case_capability_True)

lemma satisfies_mcp:
  "satisfies anchor granted (Mcp server tools) \<longleftrightarrow>
     (\<exists>pt. Mcp server pt \<in> set granted \<and> (pt = [] \<or> set tools \<subseteq> set pt))"
  by (auto simp: list_ex_iff list_all_iff case_capability_True)

lemma satisfies_plain:
  "satisfies anchor granted Spawn \<longleftrightarrow> Spawn \<in> set granted"
  "satisfies anchor granted ShellExec \<longleftrightarrow> ShellExec \<in> set granted"
  "satisfies anchor granted (Credential pr) \<longleftrightarrow> Credential pr \<in> set granted"
  "satisfies anchor granted RunsRead \<longleftrightarrow> RunsRead \<in> set granted"
  "satisfies anchor granted BriefPublish \<longleftrightarrow> BriefPublish \<in> set granted"
  "satisfies anchor granted RunJob \<longleftrightarrow> RunJob \<in> set granted"
  by (auto simp: list_ex_iff case_capability_True)

lemmas satisfies_iff = satisfies_fs satisfies_kb satisfies_mcp satisfies_plain

declare satisfies.simps [simp del]

lemma covered_mcp:
  "capability_covered_by anchor parent (Mcp server tools) \<longleftrightarrow>
     Mcp server [] \<in> set parent \<or>
     tools \<noteq> [] \<and> (\<forall>t \<in> set tools. \<exists>pt. Mcp server pt \<in> set parent \<and> t \<in> set pt)"
proof -
  have "same_server_tools server parent = [] \<longleftrightarrow> \<not> (\<exists>pt. Mcp server pt \<in> set parent)"
    by (simp flip: set_empty)
  then show ?thesis
    by (auto simp: capability_covered_by_def Let_def list_ex_iff list_all_iff neq_Nil_conv)
qed

lemma covered_net:
  "capability_covered_by anchor parent (Net hosts ports) \<longleftrightarrow>
     (\<exists>ph pp. Net ph pp \<in> set parent \<and> list_covers ph hosts \<and> list_covers pp ports)"
  by (auto simp: capability_covered_by_def list_ex_iff case_capability_True)

lemma covered_other:
  "(\<And>s t. child \<noteq> Mcp s t) \<Longrightarrow> (\<And>h p. child \<noteq> Net h p) \<Longrightarrow>
   capability_covered_by anchor parent child = satisfies anchor parent child"
  by (cases child) (auto simp: capability_covered_by_def)

lemma list_covers_trans: "list_covers p c \<Longrightarrow> list_covers c g \<Longrightarrow> list_covers p g"
  by (auto simp: list_covers_def list_all_iff)

subsection \<open>Properties\<close>

text \<open>
  The capability an invocation requires: every tool names at most one MCP tool
  (\<open>required_capability_for\<close> in \<open>tools/mcp.rs\<close>).
\<close>

definition invocation_requirement :: "capability \<Rightarrow> bool" where
  "invocation_requirement req = (case req of Mcp _ tools \<Rightarrow> length tools \<le> 1 | _ \<Rightarrow> True)"

lemma covered_mcp_invocation:
  assumes "capability_covered_by anchor parent (Mcp server ct)" and "ct = [] \<or> set tools \<subseteq> set ct"
    and "length tools \<le> 1"
  shows "satisfies anchor parent (Mcp server tools)"
  using assms by (cases tools) (auto simp: covered_mcp satisfies_mcp neq_Nil_conv)

lemma covered_satisfies_trans:
  assumes cov: "\<forall>c \<in> set child. capability_covered_by anchor parent c"
    and req: "satisfies anchor child req"
    and "\<And>s t. req \<noteq> Mcp s t"
  shows "satisfies anchor parent req"
proof (cases req)
  case (FsRead p)
  have "\<forall>c \<in> set (fs_reads child). list_ex (\<lambda>g. fs_prefix_covers anchor g c) (fs_reads parent)"
    using cov by (auto simp: covered_other satisfies_fs)
  with req show ?thesis
    unfolding FsRead satisfies_fs by (blast intro: fs_grant.covered_set_monotone)
next
  case (FsWrite p)
  have "\<forall>c \<in> set (fs_writes child). list_ex (\<lambda>g. fs_prefix_covers anchor g c) (fs_writes parent)"
    using cov by (auto simp: covered_other satisfies_fs)
  with req show ?thesis
    unfolding FsWrite satisfies_fs by (blast intro: fs_grant.covered_set_monotone)
next
  case (KbRead p)
  have "\<forall>c \<in> set (kb_reads child). list_ex (\<lambda>g. kb_segment_satisfies g c) (kb_reads parent)"
    using cov by (auto simp: covered_other satisfies_kb)
  with req show ?thesis
    unfolding KbRead satisfies_kb by (blast intro: kb_grant.covered_set_monotone)
next
  case (KbWrite p)
  have "\<forall>c \<in> set (kb_writes child). list_ex (\<lambda>g. kb_segment_satisfies g c) (kb_writes parent)"
    using cov by (auto simp: covered_other satisfies_kb)
  with req show ?thesis
    unfolding KbWrite satisfies_kb by (blast intro: kb_grant.covered_set_monotone)
qed (use assms in \<open>auto simp: satisfies_plain covered_other satisfies.simps(3)\<close>)

text \<open>
  C1. No privilege escalation through attenuation: if every capability handed to a child is
  covered by the parent's set (\<open>capability_covered_by\<close>, the check of \<open>dispatch_spawn\<close> and of
  the operator's narrowing command), then every invocation the child's set allows is one the
  parent's set allows, for every kind of capability.
\<close>

theorem attenuation_sound:
  assumes "\<forall>c \<in> set child. capability_covered_by anchor parent c"
    and "satisfies anchor child req" and "invocation_requirement req"
  shows "satisfies anchor parent req"
proof (cases "\<exists>s t. req = Mcp s t")
  case True
  then obtain server tools where req: "req = Mcp server tools" by blast
  then obtain ct where "Mcp server ct \<in> set child" "ct = [] \<or> set tools \<subseteq> set ct"
    using assms(2) by (auto simp: satisfies_mcp)
  with assms(1,3) show ?thesis
    unfolding req by (auto simp: invocation_requirement_def intro: covered_mcp_invocation)
next
  case False
  with assms(1,2) show ?thesis by (blast intro: covered_satisfies_trans)
qed

theorem attenuation_sound_witness:
  "satisfies ''/srv'' [FsRead ''/workspace'', Spawn] (FsRead ''/workspace/src/../lib/a.rs'')"
  by (rule attenuation_sound [where child = "[FsRead ''/workspace/lib'']"]; code_simp)

lemma capability_covered_by_trans:
  assumes "\<forall>c \<in> set child. capability_covered_by anchor parent c"
    and "capability_covered_by anchor child g"
  shows "capability_covered_by anchor parent g"
proof (cases g)
  case (Net hosts ports)
  then obtain ch cp where c: "Net ch cp \<in> set child" "list_covers ch hosts" "list_covers cp ports"
    using assms(2) by (auto simp: covered_net)
  then obtain ph pp where "Net ph pp \<in> set parent" "list_covers ph ch" "list_covers pp cp"
    using assms(1) covered_net by blast
  with c show ?thesis by (auto simp: Net covered_net intro: list_covers_trans)
next
  case (Mcp server tools)
  have entry: "Mcp server [] \<in> set parent \<or>
      ct \<noteq> [] \<and> (\<forall>t \<in> set ct. \<exists>pt. Mcp server pt \<in> set parent \<and> t \<in> set pt)"
    if "Mcp server ct \<in> set child" for ct
    using assms(1) that covered_mcp by blast
  with assms(2) show ?thesis
    unfolding Mcp covered_mcp by blast
qed (use assms covered_satisfies_trans in \<open>auto simp: covered_other\<close>)

text \<open>
  Attenuation composes over generations: a grandchild's capability covered by the child's
  set is covered by the parent's set whenever the child's set is. This includes the two
  containment rules that are not the runtime check, \<open>Net\<close> per entry and \<open>Mcp\<close> by the union
  of the entries for one server.
\<close>

theorem attenuation_transitive:
  assumes "\<forall>c \<in> set child. capability_covered_by anchor parent c"
    and "capability_covered_by anchor child g"
  shows "capability_covered_by anchor parent g"
  using assms by (rule capability_covered_by_trans)

theorem attenuation_transitive_witness:
  "capability_covered_by ''/srv'' [Mcp ''kb'' [''search''], Mcp ''kb'' [''get'']]
     (Mcp ''kb'' [''get''])"
  by (rule attenuation_transitive [where child = "[Mcp ''kb'' [''get'', ''search'']]"]; code_simp)

lemma path_starts_with_resolve:
  assumes "is_absolute p" and "is_absolute q"
    and "path_starts_with (normalize_path p) (normalize_path q)"
  shows "prefix (resolve (components q)) (resolve (components p))"
proof -
  obtain ps where ps: "components p = RootDir # ps" "list_all plain_component ps"
    "components (normalize_path p) = RootDir # normalize_components ps"
    using components_normalize_abs [OF assms(1)] by metis
  obtain qs where qs: "components q = RootDir # qs" "list_all plain_component qs"
    "components (normalize_path q) = RootDir # normalize_components qs"
    using components_normalize_abs [OF assms(2)] by metis
  obtain k ns k' ns' where
    nq: "normalize_components qs = replicate k ParentDir @ map Normal ns" and
    np: "normalize_components ps = replicate k' ParentDir @ map Normal ns'"
    using climb_then_names_components ps(2) qs(2) unfolding climb_then_names_def by metis
  have "prefix (normalize_components qs) (normalize_components ps)"
    using assms(3) by (simp add: path_starts_with_def ps(3) qs(3))
  then have "prefix ns ns'" unfolding nq np by (rule prefix_climb_names)
  moreover have "resolve (components q) = ns"
    using resolve_normalize_components [of "[]" qs]
    by (simp add: resolve_def qs(1) resolve_step_def nq resolve_climb_then_names del: foldl_append)
  moreover have "resolve (components p) = ns'"
    using resolve_normalize_components [of "[]" ps]
    by (simp add: resolve_def ps(1) resolve_step_def np resolve_climb_then_names del: foldl_append)
  ultimately show ?thesis by simp
qed



lemma normalize_components_climb_then_names:
  "climb_then_names cs \<Longrightarrow> normalize_components cs = cs"
proof -
  have names: "foldl normalize_step acc (map Normal ns) = acc @ map Normal ns" for acc ns
    by (induction ns arbitrary: acc) auto
  have climbs: "foldl normalize_step [] (replicate k ParentDir) = replicate k ParentDir" for k
  proof (induction k)
    case (Suc k)
    have "foldl normalize_step [] (replicate k ParentDir @ [ParentDir]) = replicate k ParentDir @ [ParentDir]"
      using Suc by (cases k) (simp_all add: normalize_step_last)
    then show ?case by (simp add: replicate_append_same)
  qed simp
  assume "climb_then_names cs"
  then show ?thesis
    by (auto simp: climb_then_names_def normalize_components_def names climbs)
qed

lemma climb_then_names_of_path:
  "\<not> is_absolute p \<Longrightarrow> climb_then_names (normalize_components (components p))"
  using components_relative [of p] unfolding normalize_components_def
  by (intro climb_then_names_normalize) (auto simp: list_all_iff)

lemma normalize_path_absolute: "is_absolute p \<Longrightarrow> is_absolute (normalize_path p)"
proof -
  assume "is_absolute p"
  then obtain cs where "components (normalize_path p) = RootDir # normalize_components cs"
    using components_normalize_abs by metis
  then show ?thesis
    using components_relative [of "normalize_path p"] by (fastforce simp: plain_component_def)
qed

lemma normalize_path_relative: "\<not> is_absolute p \<Longrightarrow> \<not> is_absolute (normalize_path p)"
proof
  assume rel: "\<not> is_absolute p" and "is_absolute (normalize_path p)"
  then obtain cs where "components (normalize_path p) = RootDir # cs"
    using components_absolute by blast
  then have "RootDir # cs = normalize_components (components p)"
    using components_normalize_rel(1) [OF rel] by simp
  then show False
    using components_normalize_rel(2) [OF rel] by (auto simp: plain_component_def simp flip: \<open>RootDir # cs = _\<close>)
qed

text \<open>
  \<open>normalize_path\<close> is a normal form: normalising a normalised path changes nothing, an
  absolute path stays absolute and a relative one relative, and the path leads to the same
  directory stack as before.
\<close>

theorem normalize_path_normal_form:
  "normalize_path (normalize_path p) = normalize_path p
   \<and> is_absolute (normalize_path p) = is_absolute p
   \<and> resolve (components (normalize_path p)) = resolve (components p)"
proof (cases "is_absolute p")
  case True
  then obtain cs where cs: "components p = RootDir # cs" "list_all plain_component cs"
    "components (normalize_path p) = RootDir # normalize_components cs"
    using components_normalize_abs by metis
  have "normalize_components (RootDir # normalize_components cs) = RootDir # normalize_components cs"
    using normalize_root [of "normalize_components cs" "[]"]
      plain_normalize [OF plain_imp_plain_or_cur [OF cs(2)], of "[]"]
      normalize_components_climb_then_names [OF climb_then_names_components [OF cs(2)]]
    by (simp add: normalize_components_def)
  moreover have "normalize_components (RootDir # cs) = RootDir # normalize_components cs"
    using normalize_root [OF cs(2), of "[]"] by (simp add: normalize_components_def)
  ultimately have "normalize_path (normalize_path p) = normalize_path p"
    by (simp add: normalize_path_def [of "normalize_path p"] cs(3)) (simp add: normalize_path_def cs(1))
  moreover have "resolve (components (normalize_path p)) = resolve (components p)"
    by (simp add: cs(1,3) resolve_def resolve_normalize_components)
  ultimately show ?thesis using normalize_path_absolute True by simp
next
  case False
  then have eq: "components (normalize_path p) = normalize_components (components p)"
    using components_normalize_rel by simp
  have "normalize_path (normalize_path p) = normalize_path p"
    using normalize_components_climb_then_names [OF climb_then_names_of_path [OF False]]
    by (simp add: normalize_path_def [of "normalize_path p"] eq) (simp add: normalize_path_def)
  moreover have "resolve (components (normalize_path p)) = resolve (components p)"
    by (simp add: eq resolve_def resolve_normalize_components)
  ultimately show ?thesis using normalize_path_relative False by simp
qed

end
