(* ===== verification/Cron.thy ===== *)
theory Cron
  imports Prelude
begin

section \<open>Job schedules (\<open>agentd/src/scheduler_cron.rs\<close>)\<close>

text \<open>
  The arithmetic of native cron scheduling: occurrence identities, schedule fingerprints, the
  strict five-field check in front of the \<open>croner\<close> crate, and the decision to catch up a
  missed fire. \<open>croner\<close> and \<open>chrono\<close>'s timestamp range are the fields of \<open>cron_lib\<close>;
  timestamps are the mathematical values of the \<open>i64\<close> seconds, which this module only compares
  and prints.
\<close>

datatype job_fire_outcome = Fired | Skipped | ShadowLogged | CaughtUp

definition job_fire_outcome_str :: "job_fire_outcome \<Rightarrow> string" where
  "job_fire_outcome_str o' =
     (case o' of
        Fired \<Rightarrow> ''fired''
      | Skipped \<Rightarrow> ''skipped''
      | ShadowLogged \<Rightarrow> ''shadow_logged''
      | CaughtUp \<Rightarrow> ''caught_up'')"

record job_schedule_state =
  js_fingerprint :: string
  next_fire_ts :: int
  last_occurrence_id :: "string option"
  last_outcome :: "job_fire_outcome option"
  last_skip_reason :: "string option"
  pending_catchup :: bool

definition fp_digest :: "string \<Rightarrow> string" where
  "fp_digest fingerprint =
     concat (map (\<lambda>c. if length c = 1 \<and> is_ascii_alphanumeric (hd c) then c else ''_'')
       (utf8_chars fingerprint))"

definition occurrence_id :: "string \<Rightarrow> string \<Rightarrow> int \<Rightarrow> string" where
  "occurrence_id job_id fingerprint intended_fire_ts =
     job_id @ ''-'' @ fp_digest fingerprint @ ''-'' @ show_int intended_fire_ts"

definition fingerprint :: "string \<Rightarrow> string" where
  "fingerprint schedule = str_trim schedule"

record 'c cron_lib =
  cron_from_str :: "string \<Rightarrow> string + 'c"
  find_next_occurrence :: "'c \<Rightarrow> int \<Rightarrow> string + int"
  timestamp_in_range :: "int \<Rightarrow> bool"

definition parse_cron :: "'c cron_lib \<Rightarrow> string \<Rightarrow> string + 'c" where
  "parse_cron L schedule =
     (let field_count = length (split_whitespace schedule) in
      if field_count \<noteq> 5 then
        Inl (''expected exactly 5 fields (minute hour day-of-month month day-of-week), got '' @
             show_nat field_count)
      else cron_from_str L schedule)"

definition next_fire_after :: "'c cron_lib \<Rightarrow> string \<Rightarrow> int \<Rightarrow> string + int" where
  "next_fire_after L schedule after_ts =
     (case parse_cron L schedule of
        Inl e \<Rightarrow> Inl e
      | Inr cron \<Rightarrow>
          if \<not> timestamp_in_range L after_ts then
            Inl (''timestamp '' @ show_int after_ts @ '' out of range'')
          else find_next_occurrence L cron after_ts)"

definition apply_catchup :: "int \<Rightarrow> int option \<Rightarrow> int \<Rightarrow> int" where
  "apply_catchup fresh persisted now =
     (case persisted of
        Some p \<Rightarrow> if p \<le> now then p else fresh
      | None \<Rightarrow> fresh)"

definition describe :: "'c cron_lib \<Rightarrow> string \<Rightarrow> string" where
  "describe L schedule =
     (case parse_cron L schedule of
        Inr _ \<Rightarrow> ''\"'' @ schedule @ ''\" (UTC)''
      | Inl e \<Rightarrow> ''\"'' @ schedule @ ''\" (UTC) '' @ em_dash @ '' WARNING: '' @ e)"

definition validate :: "'c cron_lib \<Rightarrow> string \<Rightarrow> string + unit" where
  "validate L schedule =
     (case parse_cron L schedule of Inl e \<Rightarrow> Inl e | Inr _ \<Rightarrow> Inr ())"

subsection \<open>Identity of an occurrence\<close>

lemma fp_digest_chars: "c \<in> set (fp_digest f) \<Longrightarrow> is_ascii_alphanumeric c \<or> c = CHR ''_''"
proof -
  have one: "c \<in> set ch \<Longrightarrow> length ch = 1 \<Longrightarrow> c = hd ch" for ch
    by (cases ch) auto
  assume "c \<in> set (fp_digest f)"
  then show ?thesis
    using one by (fastforce simp: fp_digest_def split: if_splits)
qed

lemma fp_digest_no_dash: "CHR ''-'' \<notin> set (fp_digest f)"
  using fp_digest_chars [of "CHR ''-''" f] by (auto simp: is_ascii_alphanumeric_def)

lemma show_nat_no_dash: "CHR ''-'' \<notin> set (show_nat n)"
  using digits_show_nat [of n] by (auto simp: is_digit_def)

lemma last_dash_split:
  assumes "c \<notin> set a" "c \<notin> set b"
  shows "x @ c # a = y @ c # b \<longleftrightarrow> x = y \<and> a = b"
proof
  have tail: "rev (takeWhile (\<lambda>d. d \<noteq> c) (rev (z @ c # s))) = s" if "c \<notin> set s" for z s
  proof -
    have "takeWhile (\<lambda>d. d \<noteq> c) (rev s @ c # rev z) = rev s"
      using that by (subst takeWhile_append2) auto
    then show ?thesis by simp
  qed
  assume eq: "x @ c # a = y @ c # b"
  have "a = b" using tail [OF assms(1), of x] tail [OF assms(2), of y] eq by simp
  with eq show "x = y \<and> a = b" by simp
qed simp

text \<open>
  An occurrence identity determines the occurrence: for timestamps from 1970 on, equal
  identities mean the same job, the same fire time and fingerprints that agree once every
  character that is not alphanumeric is folded to an underscore.\<close>

theorem occurrence_id_injective:
  assumes "0 \<le> t" "0 \<le> t'" "occurrence_id j f t = occurrence_id j' f' t'"
  shows "j = j' \<and> t = t' \<and> fp_digest f = fp_digest f'"
proof -
  have *: "occurrence_id j f t = (j @ ''-'' @ fp_digest f) @ CHR ''-'' # show_nat (nat t)"
    if "0 \<le> t" for j f t
    using that by (simp add: occurrence_id_def show_int_def)
  have "j @ ''-'' @ fp_digest f = j' @ ''-'' @ fp_digest f' \<and> show_nat (nat t) = show_nat (nat t')"
    using assms(3) unfolding * [OF assms(1)] * [OF assms(2)]
    by (simp only: last_dash_split [OF show_nat_no_dash show_nat_no_dash])
  then show ?thesis
    using assms(1,2) last_dash_split [OF fp_digest_no_dash fp_digest_no_dash]
    by (auto simp: show_nat_inj)
qed

theorem occurrence_id_injective_witness:
  "''daily'' = ''daily'' \<and> (1700000000 :: int) = 1700000000 \<and>
   fp_digest ''1-5 * * * *'' = fp_digest ''1,5 * * * *''"
proof -
  have "fp_digest ''1-5 * * * *'' = fp_digest ''1,5 * * * *''" by code_simp
  then have "occurrence_id ''daily'' ''1-5 * * * *'' 1700000000 =
      occurrence_id ''daily'' ''1,5 * * * *'' 1700000000"
    by (simp add: occurrence_id_def)
  then show ?thesis by (intro occurrence_id_injective) simp_all
qed

lemma fires_need_five_fields:
  "next_fire_after L s t = Inr n \<Longrightarrow> length (split_whitespace s) = 5"
  by (auto simp: next_fire_after_def parse_cron_def Let_def split: if_splits)

end
