(* ===== verification/Config.thy ===== *)
theory Config
  imports Capability Cron
begin

section \<open>Configuration records (\<open>agentd/src/config.rs\<close>)\<close>

text \<open>
  The operator's declarations that the running system reads: agents, models, the scheduler,
  sealed jobs, and the inputs of the tools that create agents or ask for approval. Reading
  them from TOML or JSON is \<open>serde\<close>.
\<close>

datatype agent_tier = Native | Universal

datatype isolation_mode = IsoNone | IsoGvisor

record agent_config =
  ac_id :: string
  ac_task :: string
  max_turns :: u32
  token_budget :: u64
  ac_priority :: u32
  capabilities :: "capability list option"
  ac_name :: "string option"
  ac_description :: string
  ac_skills :: "string list"
  ac_tier :: agent_tier
  ac_command :: "string option"
  ac_args :: "string list"
  ac_isolation :: isolation_mode
  max_wall_seconds :: u64

definition default_max_turns :: u32 where
  "default_max_turns = 20"

definition default_job_max_turns :: u32 where
  "default_job_max_turns = 1000"

definition default_token_budget :: u64 where
  "default_token_budget = 100000"

record model_config =
  mc_provider :: string
  mc_model :: string
  mc_max_tokens :: u32
  mc_streaming :: bool

definition model_config_default :: model_config where
  "model_config_default =
     \<lparr>mc_provider = ''anthropic'', mc_model = ''claude-sonnet-4-6'', mc_max_tokens = 4096,
      mc_streaming = True\<rparr>"

text \<open>\<open>usize\<close> is 64 bits wide on every target of the workspace.\<close>

record scheduler_config =
  global_token_budget :: u64
  budget_reset_interval :: u64
  max_concurrent_inferences :: nat
  max_spawn_depth :: u32
  checkpoint_interval_turns :: u32
  allow_empty_agents :: bool
  native_cron_shadow :: bool

definition scheduler_config_default :: scheduler_config where
  "scheduler_config_default =
     \<lparr>global_token_budget = 0, budget_reset_interval = 0, max_concurrent_inferences = 0,
      max_spawn_depth = 4, checkpoint_interval_turns = 1, allow_empty_agents = False,
      native_cron_shadow = True\<rparr>"

record spawn_config =
  sc_child_id :: "string option"
  sc_task :: string
  sc_priority :: u32
  sc_token_budget :: "u64 option"
  sc_capabilities :: "capability list option"

record pending_action_request =
  pa_kind :: string
  pa_risk :: string
  pa_summary :: string
  pa_args :: json
  pa_prev_state :: "json option"
  pa_new_state :: "json option"

record job =
  job_id :: string
  job_token_budget :: u64
  job_max_turns :: u32
  job_capabilities :: "capability list"
  job_task :: string
  job_schedule :: "string option"

text \<open>\<open>str::replace\<close>: the occurrences that do not overlap, from the left.\<close>

function str_replace :: "string \<Rightarrow> string \<Rightarrow> string \<Rightarrow> string" where
  "str_replace pat rep [] = []"
| "str_replace pat rep (c # cs) =
     (if pat \<noteq> [] \<and> prefix pat (c # cs) then rep @ str_replace pat rep (drop (length pat) (c # cs))
      else c # str_replace pat rep cs)"
  by pat_completeness auto
termination
  by (relation "measure (\<lambda>(pat, rep, s). length s)") auto

definition job_render :: "job \<Rightarrow> string \<Rightarrow> string \<Rightarrow> string" where
  "job_render j date ts = str_replace ''{ts}'' ts (str_replace ''{date}'' date (job_task j))"

definition validate_schedule :: "'c cron_lib \<Rightarrow> job \<Rightarrow> string + unit" where
  "validate_schedule L j =
     (case job_schedule j of
        None \<Rightarrow> Inr ()
      | Some expr \<Rightarrow>
          (case validate L expr of
             Inr u \<Rightarrow> Inr u
           | Inl e \<Rightarrow>
               Inl (''job \"'' @ job_id j @ ''\": schedule = \"'' @ expr @ ''\" is invalid ('' @ e @
                    ''). Use a 5-field UTC cron expression, e.g. schedule = \"0 8 * * *\" '' @
                    ''(minute hour day-of-month month day-of-week).'')))"

end
