(* ===== verification/Context.thy ===== *)
theory Context
  imports Prelude "HOL-Library.Log_Nat"
begin

section \<open>Conversations and their paging (\<open>inference/mod.rs\<close>, \<open>memory/context.rs\<close>)\<close>

text \<open>
  The message types of the inference layer, and the memory-pressure policy that pages the
  oldest turns out of an agent's context. Serialising blocks and printing JSON is
  \<open>serde_json\<close>, the fields of \<open>msg_codec\<close>. The comparison with the thresholds is the source's
  \<open>f64\<close> arithmetic: values are exact rationals rounded to 53 bits, ties to even, after each
  operation (the operands are 64-bit integers, so neither overflow nor subnormals occur).
\<close>

subsection \<open>Messages\<close>

datatype role = User | Assistant

datatype block =
    Text string
  | ToolUse string string json
  | ToolResult string string bool

record msg =
  role :: role
  blocks :: "block list"

record tool_spec =
  spec_name :: string
  spec_description :: string
  input_schema :: json

datatype stop_reason = EndTurn | StopToolUse | MaxTokens | OtherStop string

record inference_request =
  req_system :: "string option"
  req_messages :: "msg list"
  req_tools :: "tool_spec list"
  req_max_tokens :: u32
  req_streaming :: bool

record inference_response =
  resp_blocks :: "block list"
  stop_reason :: stop_reason
  input_tokens :: u32
  output_tokens :: u32
  transport_retries :: u32

definition stop_from_api_str :: "string \<Rightarrow> stop_reason" where
  "stop_from_api_str s =
     (if s = ''end_turn'' then EndTurn
      else if s = ''tool_use'' then StopToolUse
      else if s = ''max_tokens'' then MaxTokens
      else OtherStop s)"

definition stop_as_str :: "stop_reason \<Rightarrow> string" where
  "stop_as_str r =
     (case r of EndTurn \<Rightarrow> ''end_turn'' | StopToolUse \<Rightarrow> ''tool_use'' | MaxTokens \<Rightarrow> ''max_tokens''
      | OtherStop s \<Rightarrow> s)"

subsection \<open>Double precision\<close>

definition pow2 :: "int \<Rightarrow> rat" where
  "pow2 e = (if 0 \<le> e then 2 ^ nat e else 1 / 2 ^ nat (- e))"

definition floor_log2 :: "rat \<Rightarrow> int" where
  "floor_log2 x =
     (let (p, q) = quotient_of x; l = bitlen p - bitlen q in if pow2 l \<le> x then l else l - 1)"

definition round_half_even :: "rat \<Rightarrow> int" where
  "round_half_even m =
     (let r = \<lfloor>m\<rfloor>; d = m - of_int r in
      if d < 1 / 2 then r else if 1 / 2 < d then r + 1 else if even r then r else r + 1)"

definition f64_round :: "rat \<Rightarrow> rat" where
  "f64_round x =
     (if x \<le> 0 then 0
      else let e = floor_log2 x - 52 in of_int (round_half_even (x / pow2 e)) * pow2 e)"

definition f64_of_u64 :: "u64 \<Rightarrow> rat" where
  "f64_of_u64 w = f64_round (of_nat (unat w))"

definition f64_div :: "rat \<Rightarrow> rat \<Rightarrow> rat" where
  "f64_div a b = f64_round (a / b)"

subsection \<open>Memory pressure\<close>

datatype memory_pressure = PNone | PSoft | PHard

definition SOFT_THRESHOLD :: rat where
  "SOFT_THRESHOLD = f64_round (75 / 100)"

definition HARD_THRESHOLD :: rat where
  "HARD_THRESHOLD = f64_round (90 / 100)"

definition assess :: "u64 \<Rightarrow> u64 \<Rightarrow> memory_pressure" where
  "assess tokens token_budget =
     (if token_budget = 0 then PNone
      else let pct = f64_div (f64_of_u64 tokens) (f64_of_u64 token_budget) in
        if HARD_THRESHOLD \<le> pct then PHard
        else if SOFT_THRESHOLD \<le> pct then PSoft
        else PNone)"

record msg_codec =
  json_to_string :: "json \<Rightarrow> string"
  blocks_to_json :: "block list \<Rightarrow> string + string"

definition block_chars :: "msg_codec \<Rightarrow> block \<Rightarrow> nat" where
  "block_chars M b =
     (case b of
        Text text \<Rightarrow> length text
      | ToolResult _ content _ \<Rightarrow> length content
      | ToolUse _ name input \<Rightarrow> length name + length (json_to_string M input))"

definition estimate_context_tokens :: "msg_codec \<Rightarrow> msg list \<Rightarrow> u64" where
  "estimate_context_tokens M messages =
     of_nat (sum_list (map (block_chars M) (concat (map blocks messages))) div 4)"

definition page_count :: "msg list \<Rightarrow> nat" where
  "page_count messages = (if length messages \<le> 2 then 0 else (length messages - 1) div 4)"

subsection \<open>Paging\<close>

record mem_item =
  mi_turn :: u32
  mi_role :: role
  content_preview :: string
  blocks_json :: string

definition PREVIEW_CHARS :: nat where
  "PREVIEW_CHARS = 200"

text \<open>\<open>truncate_preview\<close> and \<open>agent::truncate\<close> have the same body.\<close>

definition truncate_chars :: "string \<Rightarrow> nat \<Rightarrow> string" where
  "truncate_chars s max_chars =
     (if max_chars < chars_count s then chars_take max_chars s @ ellipsis else chars_take max_chars s)"

definition block_preview :: "block \<Rightarrow> string" where
  "block_preview b =
     (case b of
        Text text \<Rightarrow> truncate_chars text PREVIEW_CHARS
      | ToolResult _ content _ \<Rightarrow> truncate_chars content PREVIEW_CHARS
      | ToolUse _ name _ \<Rightarrow> truncate_chars name PREVIEW_CHARS)"

datatype page_error =
    TooManyPages nat nat
  | NotAssistant
  | SerdeError string

fun page_items :: "msg_codec \<Rightarrow> u32 \<Rightarrow> msg list \<Rightarrow> page_error + mem_item list" where
  "page_items M at_turn [] = Inr []"
| "page_items M at_turn (m # ms) =
     (case blocks_to_json M (blocks m) of
        Inl e \<Rightarrow> Inl (SerdeError e)
      | Inr bj \<Rightarrow>
          (case page_items M at_turn ms of
             Inl e \<Rightarrow> Inl e
           | Inr items \<Rightarrow>
               Inr (\<lparr>mi_turn = at_turn, mi_role = role m,
                     content_preview = (case blocks m of [] \<Rightarrow> [] | b # _ \<Rightarrow> block_preview b),
                     blocks_json = bj\<rparr> # items)))"

definition page_turns :: "msg_codec \<Rightarrow> msg list \<Rightarrow> nat \<Rightarrow> u32 \<Rightarrow> page_error + msg list \<times> mem_item list" where
  "page_turns M messages n at_turn =
     (if n = 0 then Inr (messages, [])
      else
        let to_drain = 2 * n in
        if length messages \<le> to_drain then Inl (TooManyPages to_drain (length messages))
        else if 2 \<le> length messages \<and> role (messages ! 1) \<noteq> Assistant then Inl NotAssistant
        else
          (case page_items M at_turn (take to_drain (drop 1 messages)) of
             Inl e \<Rightarrow> Inl e
           | Inr items \<Rightarrow> Inr (take 1 messages @ drop (1 + to_drain) messages, items)))"

subsection \<open>The rule of the Messages API\<close>

definition tool_use_ids :: "msg \<Rightarrow> string list" where
  "tool_use_ids m = concat (map (\<lambda>b. case b of ToolUse i _ _ \<Rightarrow> [i] | _ \<Rightarrow> []) (blocks m))"

definition tool_result_ids :: "msg \<Rightarrow> string list" where
  "tool_result_ids m = concat (map (\<lambda>b. case b of ToolResult i _ _ \<Rightarrow> [i] | _ \<Rightarrow> []) (blocks m))"

text \<open>
  A request is acceptable when user and assistant turns alternate from a user turn to a user
  turn and every tool call is answered in the very next turn. A history may also end in an
  assistant turn whose calls are still running.
\<close>

fun alternating :: "role \<Rightarrow> msg list \<Rightarrow> bool" where
  "alternating r [] = True"
| "alternating r (m # ms) \<longleftrightarrow>
     role m = r \<and> alternating (case r of User \<Rightarrow> Assistant | Assistant \<Rightarrow> User) ms"

fun paired :: "msg list \<Rightarrow> bool" where
  "paired (m # n # ms) \<longleftrightarrow>
     (role m = Assistant \<longrightarrow> set (tool_use_ids m) \<subseteq> set (tool_result_ids n)) \<and> paired (n # ms)"
| "paired _ = True"

definition history_ok :: "msg list \<Rightarrow> bool" where
  "history_ok ms \<longleftrightarrow> ms \<noteq> [] \<and> alternating User ms \<and> paired ms"

definition request_ok :: "msg list \<Rightarrow> bool" where
  "request_ok ms \<longleftrightarrow> history_ok ms \<and> role (last ms) = User"

definition other_role :: "role \<Rightarrow> role" where
  "other_role r = (case r of User \<Rightarrow> Assistant | Assistant \<Rightarrow> User)"

lemma alternating_Cons [simp]: "alternating r (m # ms) \<longleftrightarrow> role m = r \<and> alternating (other_role r) ms"
  by (simp add: other_role_def)

declare alternating.simps(2) [simp del]

lemma other_role_simps [simp]:
  "other_role User = Assistant" "other_role Assistant = User" "other_role (other_role r) = r"
  by (simp_all add: other_role_def split: role.split)

lemma alternating_append:
  "alternating r (xs @ ys) \<longleftrightarrow>
     alternating r xs \<and> alternating (if even (length xs) then r else other_role r) ys"
  by (induction xs arbitrary: r) auto

lemma alternating_last:
  "alternating r xs \<Longrightarrow> xs \<noteq> [] \<Longrightarrow> role (last xs) = (if odd (length xs) then r else other_role r)"
  by (induction xs arbitrary: r) auto

lemma paired_append:
  "paired (xs @ ys) \<longleftrightarrow>
     paired xs \<and> paired ys \<and>
     (xs \<noteq> [] \<and> ys \<noteq> [] \<and> role (last xs) = Assistant \<longrightarrow>
        set (tool_use_ids (last xs)) \<subseteq> set (tool_result_ids (hd ys)))"
proof (induction xs)
  case (Cons m xs)
  then show ?case by (cases xs; cases ys) auto
qed simp

lemma paired_drop: "paired xs \<Longrightarrow> paired (drop n xs)"
  using paired_append [of "take n xs" "drop n xs"] by simp

lemma page_items_length: "page_items M t ms = Inr items \<Longrightarrow> length items = length ms"
  by (induction M t ms arbitrary: items rule: page_items.induct) (auto split: sum.splits)

lemma page_count_bound: "page_count ms = n \<Longrightarrow> 0 < n \<Longrightarrow> 2 * n + 1 < length ms"
  by (auto simp: page_count_def split: if_splits)

lemma page_turns_keeps:
  assumes ok: "history_ok ms" and r: "page_turns M ms n t = Inr (ms', items)"
  shows "history_ok ms' \<and> hd ms' = hd ms \<and> role (last ms') = role (last ms) \<and>
    length items = 2 * n \<and> length ms = length ms' + 2 * n"
proof (cases "n = 0")
  case True
  with assms show ?thesis by (simp add: page_turns_def)
next
  case False
  with r have len: "2 * n < length ms" and ms': "ms' = take 1 ms @ drop (1 + 2 * n) ms"
    and items: "page_items M t (take (2 * n) (drop 1 ms)) = Inr items"
    by (auto simp: page_turns_def Let_def split: if_splits sum.splits)
  obtain m rest where ms: "ms = m # rest" using len by (cases ms) auto
  have alt: "alternating User ms" "paired ms" using ok by (simp_all add: history_ok_def)
  have len2: "length (take (2 * n) rest) = 2 * n" using len by (simp add: ms)
  have "alternating Assistant (take (2 * n) rest @ drop (2 * n) rest)"
    using alt(1) by (simp add: ms)
  then have "alternating Assistant (drop (2 * n) rest)"
    unfolding alternating_append len2 by simp
  moreover have "role m = User" using alt(1) by (simp add: ms)
  moreover have "paired (drop (2 * n) rest)"
    using paired_drop [OF alt(2), of "2 * n + 1"] by (simp add: ms)
  ultimately have "history_ok (m # drop (2 * n) rest)"
    by (cases "drop (2 * n) rest") (auto simp: history_ok_def)
  moreover have "role (last (m # drop (2 * n) rest)) = role (last ms)"
  proof -
    have "alternating User (m # drop (2 * n) rest)"
      using \<open>history_ok (m # drop (2 * n) rest)\<close> by (simp add: history_ok_def)
    moreover have "odd (length (m # drop (2 * n) rest)) = odd (length ms)"
      using len by (simp add: ms)
    ultimately show ?thesis
      using alternating_last [of User "m # drop (2 * n) rest"] alternating_last [OF alt(1)] ms
      by simp
  qed
  ultimately show ?thesis
    using page_items_length [OF items] len by (simp add: ms' ms)
qed

end
