(* ===== verification/Events.thy ===== *)
theory Events
  imports Prelude
begin

section \<open>Flight-log event kinds (\<open>agentd/src/events.rs\<close>, \<open>flight_recorder.rs\<close>)\<close>

text \<open>
  The closed enumeration of event kinds, its canonical wire strings and its \<open>ALL\<close> table, and
  the flight log as the recorder appends to it. \<open>agentctl\<close> matches events by their wire
  string, so no two kinds may share one and every kind must be in \<open>ALL\<close>.
\<close>

datatype (plugins only: ) event_kind =
    EvAgentSpawned
  | EvToolsRegistered
  | EvPerceive
  | EvInferenceRequest
  | EvInferenceResponse
  | EvToolCall
  | EvToolResult
  | EvObserve
  | EvAgentCompleted
  | EvAgentFailed
  | EvAgentScheduled
  | EvAgentDeferred
  | EvAgentAdmissionDenied
  | EvBudgetExceeded
  | EvBudgetReset
  | EvBudgetSet
  | EvAgentCancelled
  | EvCapabilitiesSet
  | EvMaxTurnsReached
  | EvCapabilityDenied
  | EvAgentSpawnDenied
  | EvAgentChildResultDelivered
  | EvAgentCardRegistered
  | EvAgentCheckpointed
  | EvAgentRestored
  | EvMessageSent
  | EvMessageReceived
  | EvSystemShutdownRequested
  | EvFuseMounted
  | EvFuseUnmounted
  | EvFuseSkipped
  | EvSandboxApplied
  | EvSandboxSkipped
  | EvMemoryRead
  | EvMemoryWrite
  | EvMemoryUnavailable
  | EvMemoryQuarantined
  | EvRunsUnavailable
  | EvBriefWritten
  | EvCapabilitiesResolved
  | EvMemoryPressureAdvisory
  | EvMemoryPaged
  | EvMemoryDistilled
  | EvKbSearch
  | EvMemoryEvicted
  | EvMcpHttpConnected
  | EvMcpHttpError
  | EvMcpPassenvForwarded
  | EvInferenceStreamStarted
  | EvInferenceStreamCompleted
  | EvInferenceStreamDelta
  | EvFuseControlReceived
  | EvFuseControlError
  | EvApprovalRequested
  | EvApprovalGranted
  | EvApprovalRejected
  | EvEgressBrokered
  | EvEgressDenied
  | EvActionReceiptEmitted
  | EvEgressProxyFailed
  | EvUniversalAgentStarted
  | EvUniversalAgentExited
  | EvUniversalAgentIsolationDegraded
  | EvSchedulerStarted
  | EvSchedulerStopped
  | EvInferenceTransportRetried
  | EvManagementStarted
  | EvManagementRequest
  | EvApprovalHttpApproved
  | EvApprovalHttpDenied
  | EvCredentialEgressBrokered
  | EvCredentialAccessed
  | EvCredentialRefreshFailed
  | EvCredentialNotProvisioned
  | EvCredentialDenied
  | EvCredentialCapExceeded
  | EvOrchestratorDispatched
  | EvOrchestratorInjected
  | EvOrchestratorTurnComplete
  | EvOrchestratorExited
  | EvIsolationProbed
  | EvCredentialAttentionRequired
  | EvCredentialRecovered
  | EvJobScheduleDegraded
  | EvJobFired
  | EvJobFireSkipped
  | EvJobManualFired
  | EvJobManualFireRejected
  | EvError

primrec event_kind_str :: "event_kind \<Rightarrow> string" where
  "event_kind_str EvAgentSpawned = ''agent_spawned''"
| "event_kind_str EvToolsRegistered = ''tools_registered''"
| "event_kind_str EvPerceive = ''perceive''"
| "event_kind_str EvInferenceRequest = ''inference_request''"
| "event_kind_str EvInferenceResponse = ''inference_response''"
| "event_kind_str EvToolCall = ''tool_call''"
| "event_kind_str EvToolResult = ''tool_result''"
| "event_kind_str EvObserve = ''observe''"
| "event_kind_str EvAgentCompleted = ''agent_completed''"
| "event_kind_str EvAgentFailed = ''agent_failed''"
| "event_kind_str EvAgentScheduled = ''agent_scheduled''"
| "event_kind_str EvAgentDeferred = ''agent_deferred''"
| "event_kind_str EvAgentAdmissionDenied = ''agent_admission_denied''"
| "event_kind_str EvBudgetExceeded = ''budget_exceeded''"
| "event_kind_str EvBudgetReset = ''budget_reset''"
| "event_kind_str EvBudgetSet = ''budget_set''"
| "event_kind_str EvAgentCancelled = ''agent_cancelled''"
| "event_kind_str EvCapabilitiesSet = ''capabilities_set''"
| "event_kind_str EvMaxTurnsReached = ''max_turns_reached''"
| "event_kind_str EvCapabilityDenied = ''capability_denied''"
| "event_kind_str EvAgentSpawnDenied = ''agent_spawn_denied''"
| "event_kind_str EvAgentChildResultDelivered = ''agent_child_result_delivered''"
| "event_kind_str EvAgentCardRegistered = ''agent_card_registered''"
| "event_kind_str EvAgentCheckpointed = ''agent_checkpointed''"
| "event_kind_str EvAgentRestored = ''agent_restored''"
| "event_kind_str EvMessageSent = ''message_sent''"
| "event_kind_str EvMessageReceived = ''message_received''"
| "event_kind_str EvSystemShutdownRequested = ''system_shutdown_requested''"
| "event_kind_str EvFuseMounted = ''fuse_mounted''"
| "event_kind_str EvFuseUnmounted = ''fuse_unmounted''"
| "event_kind_str EvFuseSkipped = ''fuse_skipped''"
| "event_kind_str EvSandboxApplied = ''sandbox_applied''"
| "event_kind_str EvSandboxSkipped = ''sandbox_skipped''"
| "event_kind_str EvMemoryRead = ''memory_read''"
| "event_kind_str EvMemoryWrite = ''memory_write''"
| "event_kind_str EvMemoryUnavailable = ''memory_unavailable''"
| "event_kind_str EvMemoryQuarantined = ''memory_quarantined''"
| "event_kind_str EvRunsUnavailable = ''runs_unavailable''"
| "event_kind_str EvBriefWritten = ''brief_written''"
| "event_kind_str EvCapabilitiesResolved = ''capabilities_resolved''"
| "event_kind_str EvMemoryPressureAdvisory = ''memory_pressure_advisory''"
| "event_kind_str EvMemoryPaged = ''memory_paged''"
| "event_kind_str EvMemoryDistilled = ''memory_distilled''"
| "event_kind_str EvKbSearch = ''kb_search''"
| "event_kind_str EvMemoryEvicted = ''memory_evicted''"
| "event_kind_str EvMcpHttpConnected = ''mcp_http_connected''"
| "event_kind_str EvMcpHttpError = ''mcp_http_error''"
| "event_kind_str EvMcpPassenvForwarded = ''mcp_passenv_forwarded''"
| "event_kind_str EvInferenceStreamStarted = ''inference_stream_started''"
| "event_kind_str EvInferenceStreamCompleted = ''inference_stream_completed''"
| "event_kind_str EvInferenceStreamDelta = ''inference_stream_delta''"
| "event_kind_str EvFuseControlReceived = ''fuse_control_received''"
| "event_kind_str EvFuseControlError = ''fuse_control_error''"
| "event_kind_str EvApprovalRequested = ''approval_requested''"
| "event_kind_str EvApprovalGranted = ''approval_granted''"
| "event_kind_str EvApprovalRejected = ''approval_rejected''"
| "event_kind_str EvEgressBrokered = ''egress_brokered''"
| "event_kind_str EvEgressDenied = ''egress_denied''"
| "event_kind_str EvActionReceiptEmitted = ''action_receipt_emitted''"
| "event_kind_str EvEgressProxyFailed = ''egress_proxy_failed''"
| "event_kind_str EvUniversalAgentStarted = ''universal_agent_started''"
| "event_kind_str EvUniversalAgentExited = ''universal_agent_exited''"
| "event_kind_str EvUniversalAgentIsolationDegraded = ''universal_agent_isolation_degraded''"
| "event_kind_str EvSchedulerStarted = ''scheduler_started''"
| "event_kind_str EvSchedulerStopped = ''scheduler_stopped''"
| "event_kind_str EvInferenceTransportRetried = ''inference_transport_retried''"
| "event_kind_str EvManagementStarted = ''management_started''"
| "event_kind_str EvManagementRequest = ''management_request''"
| "event_kind_str EvApprovalHttpApproved = ''approval_http_approved''"
| "event_kind_str EvApprovalHttpDenied = ''approval_http_denied''"
| "event_kind_str EvCredentialEgressBrokered = ''credential_egress_brokered''"
| "event_kind_str EvCredentialAccessed = ''credential_accessed''"
| "event_kind_str EvCredentialRefreshFailed = ''credential_refresh_failed''"
| "event_kind_str EvCredentialNotProvisioned = ''credential_not_provisioned''"
| "event_kind_str EvCredentialDenied = ''credential_denied''"
| "event_kind_str EvCredentialCapExceeded = ''credential_cap_exceeded''"
| "event_kind_str EvOrchestratorDispatched = ''orchestrator_dispatched''"
| "event_kind_str EvOrchestratorInjected = ''orchestrator_injected''"
| "event_kind_str EvOrchestratorTurnComplete = ''orchestrator_turn_complete''"
| "event_kind_str EvOrchestratorExited = ''orchestrator_exited''"
| "event_kind_str EvIsolationProbed = ''isolation_probed''"
| "event_kind_str EvCredentialAttentionRequired = ''credential_attention_required''"
| "event_kind_str EvCredentialRecovered = ''credential_recovered''"
| "event_kind_str EvJobScheduleDegraded = ''job_schedule_degraded''"
| "event_kind_str EvJobFired = ''job_fired''"
| "event_kind_str EvJobFireSkipped = ''job_fire_skipped''"
| "event_kind_str EvJobManualFired = ''job_manual_fired''"
| "event_kind_str EvJobManualFireRejected = ''job_manual_fire_rejected''"
| "event_kind_str EvError = ''error''"

definition all_event_kinds :: "event_kind list" where
  "all_event_kinds =
     [EvAgentSpawned,
      EvToolsRegistered,
      EvPerceive,
      EvInferenceRequest,
      EvInferenceResponse,
      EvToolCall,
      EvToolResult,
      EvObserve,
      EvAgentCompleted,
      EvAgentFailed,
      EvAgentScheduled,
      EvAgentDeferred,
      EvAgentAdmissionDenied,
      EvBudgetExceeded,
      EvBudgetReset,
      EvBudgetSet,
      EvAgentCancelled,
      EvCapabilitiesSet,
      EvMaxTurnsReached,
      EvCapabilityDenied,
      EvAgentSpawnDenied,
      EvAgentChildResultDelivered,
      EvAgentCardRegistered,
      EvAgentCheckpointed,
      EvAgentRestored,
      EvMessageSent,
      EvMessageReceived,
      EvSystemShutdownRequested,
      EvFuseMounted,
      EvFuseUnmounted,
      EvFuseSkipped,
      EvSandboxApplied,
      EvSandboxSkipped,
      EvMemoryRead,
      EvMemoryWrite,
      EvMemoryUnavailable,
      EvMemoryQuarantined,
      EvRunsUnavailable,
      EvBriefWritten,
      EvCapabilitiesResolved,
      EvMemoryPressureAdvisory,
      EvMemoryPaged,
      EvMemoryDistilled,
      EvKbSearch,
      EvMemoryEvicted,
      EvMcpHttpConnected,
      EvMcpHttpError,
      EvMcpPassenvForwarded,
      EvInferenceStreamStarted,
      EvInferenceStreamCompleted,
      EvInferenceStreamDelta,
      EvFuseControlReceived,
      EvFuseControlError,
      EvApprovalRequested,
      EvApprovalGranted,
      EvApprovalRejected,
      EvEgressBrokered,
      EvEgressDenied,
      EvActionReceiptEmitted,
      EvEgressProxyFailed,
      EvUniversalAgentStarted,
      EvUniversalAgentExited,
      EvUniversalAgentIsolationDegraded,
      EvSchedulerStarted,
      EvSchedulerStopped,
      EvInferenceTransportRetried,
      EvManagementStarted,
      EvManagementRequest,
      EvApprovalHttpApproved,
      EvApprovalHttpDenied,
      EvCredentialEgressBrokered,
      EvCredentialAccessed,
      EvCredentialRefreshFailed,
      EvCredentialNotProvisioned,
      EvCredentialDenied,
      EvCredentialCapExceeded,
      EvOrchestratorDispatched,
      EvOrchestratorInjected,
      EvOrchestratorTurnComplete,
      EvOrchestratorExited,
      EvIsolationProbed,
      EvCredentialAttentionRequired,
      EvCredentialRecovered,
      EvJobScheduleDegraded,
      EvJobFired,
      EvJobFireSkipped,
      EvJobManualFired,
      EvJobManualFireRejected,
      EvError]"

text \<open>
  A recorded event, without its wall-clock \<open>ts\<close>: the agent, the turn, the kind and the payload
  object. The log lists the events in the order in which the recorder wrote them.
\<close>

record event =
  ev_agent :: string
  ev_turn :: "u32 option"
  ev_kind :: event_kind
  ev_data :: json

type_synonym flight_log = "event list"

definition record_event ::
    "string \<Rightarrow> u32 option \<Rightarrow> event_kind \<Rightarrow> (string \<times> json) list \<Rightarrow> flight_log \<Rightarrow> flight_log" where
  "record_event agent turn kind data lg =
     lg @ [\<lparr>ev_agent = agent, ev_turn = turn, ev_kind = kind, ev_data = JObj data\<rparr>]"

lemma prefix_record_event [simp, intro]: "prefix lg (record_event a t k d lg)"
  by (simp add: record_event_def)

subsection \<open>Wire strings\<close>

lemma distinct_wire_strings: "distinct (map event_kind_str all_event_kinds)"
  by (simp add: all_event_kinds_def)

lemma mem_all_event_kinds: "k \<in> set all_event_kinds"
  by (cases k) (simp_all add: all_event_kinds_def)

lemma event_kind_str_inj: "event_kind_str a = event_kind_str b \<longleftrightarrow> a = b"
  using distinct_wire_strings mem_all_event_kinds by (auto simp: distinct_map dest: inj_onD)

text \<open>Equality of kinds is equality of their wire strings.\<close>

declare event_kind_str.simps [code del]

instantiation event_kind :: equal
begin

definition equal_event_kind :: "event_kind \<Rightarrow> event_kind \<Rightarrow> bool" where
  "equal_event_kind a b \<longleftrightarrow> event_kind_str a = event_kind_str b"

instance
  by standard (simp add: equal_event_kind_def event_kind_str_inj)

end

text \<open>
  The wire strings identify the event kinds: \<open>as_str\<close> is injective, so a filter on the
  string selects exactly one kind, and \<open>ALL\<close> lists every kind exactly once.
\<close>

theorem event_kind_wire_format:
  "(event_kind_str a = event_kind_str b \<longleftrightarrow> a = b) \<and> k \<in> set all_event_kinds \<and> distinct all_event_kinds"
  using distinct_wire_strings by (simp add: event_kind_str_inj mem_all_event_kinds distinct_map)

end
