(* ===== verification/Agent.thy ===== *)
theory Agent
  imports Config Context Events
begin

section \<open>The agent state machine (\<open>agentd/src/agent/mod.rs\<close>)\<close>

text \<open>
  An agent is a pure state machine: \<open>step\<close> names the effect that the scheduler has to perform
  and \<open>provide_inference\<close> and \<open>provide_tool_results\<close> feed its outcome back. Every operation
  takes the flight log and returns it extended. \<open>last_event_at\<close> is the reading of a monotonic
  clock that \<open>mark_event\<close> is given.

  The theorems are about the history an agent builds: every request it sends satisfies the
  rule of the Messages API, paging included, and a conversation restored from a checkpoint is
  repaired to satisfy it again.
\<close>

subsection \<open>State\<close>

record agent_ext = msg_codec +
  parse_spawn :: "json \<Rightarrow> string + spawn_config"
  parse_action :: "json \<Rightarrow> string + pending_action_request"

definition MAX_SHORT_TERM :: nat where
  "MAX_SHORT_TERM = 1000"

definition FNV_OFFSET :: u64 where
  "FNV_OFFSET = 14695981039346656037"

definition FNV_PRIME :: u64 where
  "FNV_PRIME = 1099511628211"

definition hex16 :: "u64 \<Rightarrow> string" where
  "hex16 w =
     map (\<lambda>i. let d = unat w div 16 ^ i mod 16 in if d < 10 then char_of (48 + d) else char_of (87 + d))
       (rev [0..<16])"

definition task_fingerprint :: "string \<Rightarrow> string" where
  "task_fingerprint task =
     hex16 (foldl (\<lambda>h b. (Bit_Operations.semiring_bit_operations_class.xor h (of_nat (of_char b))) * FNV_PRIME)
       FNV_OFFSET task)"

datatype agent_effect =
    Infer inference_request
  | CallTools "block list"
  | SpawnAgent string spawn_config
  | RunJob string string
  | SendMessage string string string
  | RequestApproval string pending_action_request
  | Completed string
  | CompletedTruncated string
  | Failed string

record agent_task =
  agent_id :: string
  cfg :: agent_config
  model_cfg :: model_config
  messages :: "msg list"
  specs :: "tool_spec list"
  tool_names :: "string list"
  total_input :: u64
  total_output :: u64
  window_anchor :: u64
  budget_resettable :: bool
  turn :: u32
  stored_response :: "inference_response option"
  terminal :: bool
  short_term :: "mem_item list"
  last_pressure :: memory_pressure
  task_fp :: string
  last_event_at :: nat
  last_error :: "string option"

record agent_checkpoint =
  cp_agent_id :: string
  cp_cfg :: agent_config
  cp_model_cfg :: model_config
  cp_messages :: "msg list"
  cp_specs :: "tool_spec list"
  cp_total_input :: u64
  cp_total_output :: u64
  cp_turn :: u32
  cp_stored_response :: "inference_response option"
  cp_terminal :: bool
  cp_short_term :: "mem_item list"
  cp_window_anchor :: u64

definition user_text :: "string \<Rightarrow> msg" where
  "user_text s = \<lparr>role = User, blocks = [Text s]\<rparr>"

definition agent_new ::
    "nat \<Rightarrow> string \<Rightarrow> string \<Rightarrow> agent_config \<Rightarrow> model_config \<Rightarrow> tool_spec list \<Rightarrow> agent_task" where
  "agent_new now aid task c mc sp =
     \<lparr>agent_id = aid, cfg = c, model_cfg = mc, messages = [user_text task], specs = sp,
      tool_names = map spec_name sp, total_input = 0, total_output = 0, window_anchor = 0,
      budget_resettable = False, turn = 0, stored_response = None, terminal = False,
      short_term = [], last_pressure = PNone, task_fp = task_fingerprint task,
      last_event_at = now, last_error = None\<rparr>"

definition mark_event :: "nat \<Rightarrow> agent_task \<Rightarrow> agent_task" where
  "mark_event now t = t\<lparr>last_event_at := now\<rparr>"

definition set_budget_resettable :: "bool \<Rightarrow> agent_task \<Rightarrow> agent_task" where
  "set_budget_resettable r t = t\<lparr>budget_resettable := r\<rparr>"

definition set_token_budget :: "u64 \<Rightarrow> agent_task \<Rightarrow> agent_task \<times> u64" where
  "set_token_budget limit t =
     (t\<lparr>cfg := (cfg t)\<lparr>token_budget := limit\<rparr>\<rparr>, token_budget (cfg t))"

definition set_capabilities ::
    "capability list \<Rightarrow> tool_spec list \<Rightarrow> agent_task \<Rightarrow> agent_task \<times> nat" where
  "set_capabilities new_caps new_specs t =
     (t\<lparr>cfg := (cfg t)\<lparr>capabilities := Some new_caps\<rparr>, tool_names := map spec_name new_specs,
        specs := new_specs\<rparr>,
      (case capabilities (cfg t) of None \<Rightarrow> 0 | Some c \<Rightarrow> length c))"

definition accessible_server_names :: "agent_task \<Rightarrow> string list" where
  "accessible_server_names t =
     (case capabilities (cfg t) of
        None \<Rightarrow> []
      | Some caps \<Rightarrow> concat (map (\<lambda>c. case c of Mcp server _ \<Rightarrow> [server] | _ \<Rightarrow> []) caps))"

definition context_tokens :: "agent_task \<Rightarrow> u64" where
  "context_tokens t = total_input t + total_output t"

definition windowed_spent :: "agent_task \<Rightarrow> u64" where
  "windowed_spent t = saturating_sub (context_tokens t) (window_anchor t)"

definition reset_budget_window :: "agent_task \<Rightarrow> agent_task \<times> u64" where
  "reset_budget_window t = (t\<lparr>window_anchor := context_tokens t\<rparr>, windowed_spent t)"

definition cap_short_term :: "agent_task \<Rightarrow> agent_task \<times> nat" where
  "cap_short_term t =
     (let overflow = length (short_term t) - MAX_SHORT_TERM
      in (t\<lparr>short_term := drop overflow (short_term t)\<rparr>, overflow))"

definition task_preview :: "nat \<Rightarrow> agent_task \<Rightarrow> string" where
  "task_preview max_chars t = chars_take max_chars (ac_task (cfg t))"

definition to_checkpoint :: "agent_task \<Rightarrow> agent_checkpoint" where
  "to_checkpoint t =
     \<lparr>cp_agent_id = agent_id t, cp_cfg = cfg t, cp_model_cfg = model_cfg t, cp_messages = messages t,
      cp_specs = specs t, cp_total_input = total_input t, cp_total_output = total_output t,
      cp_turn = turn t, cp_stored_response = stored_response t, cp_terminal = terminal t,
      cp_short_term = short_term t, cp_window_anchor = window_anchor t\<rparr>"

definition first_text :: "msg list \<Rightarrow> string option" where
  "first_text ms =
     (case ms of
        m # _ \<Rightarrow> (case blocks m of Text text # _ \<Rightarrow> Some text | _ \<Rightarrow> None)
      | [] \<Rightarrow> None)"

definition from_checkpoint :: "nat \<Rightarrow> agent_checkpoint \<Rightarrow> tool_spec list \<Rightarrow> agent_task" where
  "from_checkpoint now cp sp =
     \<lparr>agent_id = cp_agent_id cp, cfg = cp_cfg cp, model_cfg = cp_model_cfg cp,
      messages = cp_messages cp, specs = sp, tool_names = map spec_name sp,
      total_input = cp_total_input cp, total_output = cp_total_output cp,
      window_anchor = cp_window_anchor cp, budget_resettable = False, turn = cp_turn cp,
      stored_response = cp_stored_response cp, terminal = cp_terminal cp,
      short_term = cp_short_term cp, last_pressure = PNone,
      task_fp = task_fingerprint (case first_text (cp_messages cp) of None \<Rightarrow> [] | Some s \<Rightarrow> s),
      last_event_at = now, last_error = None\<rparr>"

subsection \<open>Repairing a restored conversation\<close>

fun position :: "('a \<Rightarrow> bool) \<Rightarrow> 'a list \<Rightarrow> nat option" where
  "position p [] = None"
| "position p (x # xs) = (if p x then Some 0 else map_option Suc (position p xs))"

definition is_tool_result :: "block \<Rightarrow> bool" where
  "is_tool_result b = (case b of ToolResult _ _ _ \<Rightarrow> True | _ \<Rightarrow> False)"

definition is_tool_use :: "block \<Rightarrow> bool" where
  "is_tool_use b = (case b of ToolUse _ _ _ \<Rightarrow> True | _ \<Rightarrow> False)"

definition interrupted_note :: string where
  "interrupted_note =
     ''Interrupted by a restart before this tool produced a result. No result is available '' @ em_dash @
     '' do not assume it succeeded; re-run it if the outcome still matters.''"

text \<open>The ids of the assistant turn \<open>m\<close> that the turn after it leaves unanswered.\<close>

definition orphaned_ids :: "string list \<Rightarrow> msg \<Rightarrow> msg option \<Rightarrow> string list" where
  "orphaned_ids live m nxt =
     (let ids = tool_use_ids m in
      if role m \<noteq> Assistant \<or> ids = [] \<or> list_ex (\<lambda>i. i \<in> set live) ids then []
      else
        let answered = (case nxt of
               Some n \<Rightarrow> if role n = User then tool_result_ids n else []
             | None \<Rightarrow> [])
        in filter (\<lambda>i. i \<notin> set answered) ids)"

fun repair_plan :: "string list \<Rightarrow> nat \<Rightarrow> msg list \<Rightarrow> (nat \<times> string list) list" where
  "repair_plan live i [] = []"
| "repair_plan live i (m # ms) =
     (let orphaned = orphaned_ids live m (case ms of [] \<Rightarrow> None | n # _ \<Rightarrow> Some n)
      in (if orphaned = [] then [] else [(i, orphaned)]) @ repair_plan live (Suc i) ms)"

definition result_order :: "string list \<Rightarrow> block \<Rightarrow> nat" where
  "result_order order b =
     (case b of
        ToolResult i _ _ \<Rightarrow> (case position (\<lambda>j. j = i) order of Some k \<Rightarrow> k | None \<Rightarrow> 2 ^ 64 - 1)
      | _ \<Rightarrow> 2 ^ 64 - 1)"

definition repair_merge :: "string list \<Rightarrow> block list \<Rightarrow> msg \<Rightarrow> msg" where
  "repair_merge order synthetic nxt =
     nxt\<lparr>blocks := sort_key (result_order order) (filter is_tool_result (blocks nxt) @ synthetic) @
                   filter (\<lambda>b. \<not> is_tool_result b) (blocks nxt)\<rparr>"

definition repair_one :: "nat \<times> string list \<Rightarrow> msg list \<Rightarrow> msg list" where
  "repair_one p ms =
     (case p of (idx, ids) \<Rightarrow>
        let synthetic = map (\<lambda>i. ToolResult i interrupted_note True) ids in
        if Suc idx < length ms \<and> role (ms ! Suc idx) = User \<and>
           list_ex is_tool_result (blocks (ms ! Suc idx))
        then ms[Suc idx := repair_merge (tool_use_ids (ms ! idx)) synthetic (ms ! Suc idx)]
        else take (Suc idx) ms @ [\<lparr>role = User, blocks = synthetic\<rparr>] @ drop (Suc idx) ms)"

definition repair_dangling_tool_uses :: "msg list \<Rightarrow> string list \<Rightarrow> msg list \<times> string list" where
  "repair_dangling_tool_uses ms live_call_ids =
     (let plan = repair_plan live_call_ids 0 ms
      in (fold repair_one (rev plan) ms, concat (map snd plan)))"

subsection \<open>Feeding results back\<close>

definition find_map :: "('a \<Rightarrow> 'b option) \<Rightarrow> 'a list \<Rightarrow> 'b option" where
  "find_map f xs = (case List.map_filter f xs of [] \<Rightarrow> None | y # _ \<Rightarrow> Some y)"

definition provide_inference ::
    "inference_response \<Rightarrow> agent_task \<Rightarrow> flight_log \<Rightarrow> agent_task \<times> flight_log" where
  "provide_inference response t lg =
     (if terminal t then
        (t, record_event (agent_id t) (Some (turn t)) EvError
              [(''stage'', JStr ''provide_inference''), (''error'', JStr ''called on terminal task'')] lg)
      else
        (t\<lparr>total_input := total_input t + ucast (input_tokens response),
           total_output := total_output t + ucast (output_tokens response),
           stored_response := Some response\<rparr>, lg))"

definition provide_tool_results ::
    "block list \<Rightarrow> agent_task \<Rightarrow> flight_log \<Rightarrow> agent_task \<times> flight_log" where
  "provide_tool_results results t lg =
     (if terminal t then
        (t, record_event (agent_id t) (Some (turn t)) EvError
              [(''stage'', JStr ''provide_tool_results''), (''error'', JStr ''called on terminal task'')] lg)
      else
        let le = (if results = [] then last_error t
                  else find_map (\<lambda>b. case b of
                         ToolResult _ content True \<Rightarrow> Some (chars_take 160 content) | _ \<Rightarrow> None) results)
        in (t\<lparr>last_error := le, messages := messages t @ [\<lparr>role = User, blocks = results\<rparr>],
              turn := turn t + 1\<rparr>,
            record_event (agent_id t) (Some (turn t)) EvObserve
              [(''result_count'', JNat (length results))] lg))"

record mail_message =
  mail_from :: string
  mail_content :: string

fun join :: "string \<Rightarrow> string list \<Rightarrow> string" where
  "join sep [] = []"
| "join sep [x] = x"
| "join sep (x # xs) = x @ sep @ join sep xs"

text \<open>\<open>iter_mut().rev().find(|m| m.role == User)\<close> with the block pushed onto it.\<close>

fun push_to_last_user :: "block \<Rightarrow> msg list \<Rightarrow> msg list option" where
  "push_to_last_user b [] = None"
| "push_to_last_user b (m # ms) =
     (case push_to_last_user b ms of
        Some ms' \<Rightarrow> Some (m # ms')
      | None \<Rightarrow> if role m = User then Some (m\<lparr>blocks := blocks m @ [b]\<rparr> # ms) else None)"

definition mail_text :: "mail_message list \<Rightarrow> string" where
  "mail_text mail =
     join [CHR 0x0A, CHR 0x0A]
       (map (\<lambda>m. ''[Message from '' @ mail_from m @ '']: '' @ mail_content m) mail)"

definition inject_messages ::
    "mail_message list \<Rightarrow> agent_task \<Rightarrow> flight_log \<Rightarrow> agent_task \<times> flight_log" where
  "inject_messages mail t lg =
     (if mail = [] then (t, lg)
      else
        let text = mail_text mail;
            lg' = record_event (agent_id t) (Some (turn t)) EvMessageReceived
              [(''count'', JNat (length mail)), (''preview'', JStr (truncate_chars text PREVIEW_CHARS))] lg
        in (t\<lparr>messages := (case push_to_last_user (Text text) (messages t) of
                 Some ms \<Rightarrow> ms
               | None \<Rightarrow> messages t @ [user_text text])\<rparr>, lg'))"

definition resume_for_orchestration :: "agent_task \<Rightarrow> agent_task" where
  "resume_for_orchestration t = t\<lparr>terminal := False\<rparr>"

definition push_user_turn :: "string \<Rightarrow> agent_task \<Rightarrow> flight_log \<Rightarrow> agent_task \<times> flight_log" where
  "push_user_turn text t lg =
     (t\<lparr>messages := messages t @ [user_text text]\<rparr>,
      record_event (agent_id t) (Some (turn t)) EvMessageReceived
        [(''count'', JNat 1), (''preview'', JStr (truncate_chars text PREVIEW_CHARS))] lg)"

subsection \<open>Asking for an inference\<close>

definition max_turns_failure :: "agent_task \<Rightarrow> flight_log \<Rightarrow> agent_task \<times> flight_log \<times> agent_effect" where
  "max_turns_failure t lg =
     (t\<lparr>terminal := True\<rparr>,
      record_event (agent_id t) (Some (saturating_sub (max_turns (cfg t)) 1)) EvMaxTurnsReached
        [(''max_turns'', JWord (max_turns (cfg t))), (''total_tokens'', JWord (context_tokens t))] lg,
      Failed (''max turns ('' @ show_word (max_turns (cfg t)) @ '') reached without a final answer''))"

text \<open>The budget gate that terminates an agent, when no reset window is active.\<close>

definition over_budget :: "agent_task \<Rightarrow> bool" where
  "over_budget t \<longleftrightarrow>
     \<not> budget_resettable t \<and> token_budget (cfg t) \<noteq> 0 \<and> token_budget (cfg t) \<le> windowed_spent t"

definition budget_failure ::
    "(string \<times> json) list \<Rightarrow> agent_task \<Rightarrow> flight_log \<Rightarrow> agent_task \<times> flight_log \<times> agent_effect" where
  "budget_failure extra t lg =
     (t\<lparr>terminal := True\<rparr>,
      record_event (agent_id t) (Some (turn t)) EvBudgetExceeded
        ([(''windowed_tokens'', JWord (windowed_spent t)), (''budget'', JWord (token_budget (cfg t)))] @ extra) lg,
      Failed (''token budget exceeded ('' @ show_word (windowed_spent t) @ '' >= '' @
              show_word (token_budget (cfg t)) @ '')''))"

definition budget_pct :: "u64 \<Rightarrow> agent_task \<Rightarrow> rat" where
  "budget_pct tokens t =
     (if 0 < token_budget (cfg t) then f64_div (f64_of_u64 tokens) (f64_of_u64 (token_budget (cfg t)))
      else 0)"

definition spend_advisory :: "agent_task \<Rightarrow> flight_log \<Rightarrow> flight_log" where
  "spend_advisory t lg =
     (if assess (windowed_spent t) (token_budget (cfg t)) = PSoft \<and> last_pressure t = PNone then
        record_event (agent_id t) (Some (turn t)) EvMemoryPressureAdvisory
          [(''agent'', JStr (agent_id t)), (''turn'', JWord (turn t)),
           (''tokens_spent_pct'', JNum (budget_pct (windowed_spent t) t)),
           (''soft_threshold'', JNum SOFT_THRESHOLD)] lg
      else lg)"

definition page_error_str :: "page_error \<Rightarrow> string" where
  "page_error_str e =
     (case e of
        TooManyPages d l \<Rightarrow>
          ''page_turns: to_drain='' @ show_nat d @ '' >= messages.len()='' @ show_nat l @
          ''; caller must ensure page_count(messages) == n''
      | NotAssistant \<Rightarrow>
          ''page_turns: messages[1] must be Role::Assistant (alternating-role invariant violated); refusing to page''
      | SerdeError s \<Rightarrow> ''page_turns: serde error for blocks: '' @ s)"

definition page_if_hard ::
    "'x agent_ext_scheme \<Rightarrow> agent_task \<Rightarrow> flight_log \<Rightarrow> agent_task \<times> flight_log" where
  "page_if_hard X t lg =
     (let M = msg_codec.truncate X;
          retained = estimate_context_tokens M (messages t);
          n = page_count (messages t)
      in if assess retained (token_budget (cfg t)) \<noteq> PHard then (t, lg)
         else if 0 < n then
           (case page_turns M (messages t) n (turn t) of
              Inr (ms, items) \<Rightarrow>
                (case cap_short_term (t\<lparr>messages := ms, short_term := short_term t @ items\<rparr>) of
                   (t', evicted) \<Rightarrow>
                     (t', record_event (agent_id t) (Some (turn t)) EvMemoryPaged
                        [(''agent'', JStr (agent_id t)), (''turn'', JWord (turn t)),
                         (''pages_moved'', JNat (length items)),
                         (''short_term_depth'', JNat (length (short_term t'))),
                         (''short_term_evicted'', JNat evicted),
                         (''retained_pct'', JNum (budget_pct retained t)),
                         (''tokens_spent_pct'', JNum (budget_pct (windowed_spent t) t))] lg))
            | Inl e \<Rightarrow>
                (t, record_event (agent_id t) (Some (turn t)) EvError
                      [(''stage'', JStr ''page_turns''), (''error'', JStr (page_error_str e))] lg))
         else if last_pressure t \<noteq> PHard then
           (t, record_event (agent_id t) (Some (turn t)) EvMemoryPressureAdvisory
                 [(''agent'', JStr (agent_id t)), (''turn'', JWord (turn t)),
                  (''retained_pct'', JNum (budget_pct retained t)),
                  (''soft_threshold'', JNum SOFT_THRESHOLD),
                  (''note'', JStr ''hard pressure, context too short to page'')] lg)
         else (t, lg))"

definition perceive :: "agent_task \<Rightarrow> flight_log \<Rightarrow> flight_log" where
  "perceive t lg =
     (if turn t = 0 then
        record_event (agent_id t) None EvPerceive
          [(''source'', JStr ''task''),
           (''preview'', JStr (case first_text (messages t) of
              None \<Rightarrow> [] | Some text \<Rightarrow> truncate_chars text PREVIEW_CHARS))] lg
      else lg)"

definition emit_request ::
    "'x agent_ext_scheme \<Rightarrow> agent_task \<Rightarrow> flight_log \<Rightarrow> agent_task \<times> flight_log \<times> agent_effect" where
  "emit_request X t lg =
     (t, record_event (agent_id t) (Some (turn t)) EvInferenceRequest
           [(''model'', JStr (mc_model (model_cfg t))), (''msg_count'', JNat (length (messages t))),
            (''tool_count'', JNat (length (specs t))),
            (''retained_tokens_est'',
             JWord (estimate_context_tokens (msg_codec.truncate X) (messages t))),
            (''paging_limit'', JWord (token_budget (cfg t))),
            (''paging_limit_source'', JStr ''token_budget'')] lg,
      Infer \<lparr>req_system = None, req_messages = messages t, req_tools = specs t,
             req_max_tokens = mc_max_tokens (model_cfg t), req_streaming = mc_streaming (model_cfg t)\<rparr>)"

definition step_need_infer ::
    "'x agent_ext_scheme \<Rightarrow> agent_task \<Rightarrow> flight_log \<Rightarrow> agent_task \<times> flight_log \<times> agent_effect" where
  "step_need_infer X t lg =
     (if max_turns (cfg t) \<le> turn t then max_turns_failure t lg
      else if over_budget t then budget_failure [(''stage'', JStr ''pre_inference'')] t lg
      else
        let spend_pressure = assess (windowed_spent t) (token_budget (cfg t)) in
        case page_if_hard X t (spend_advisory t lg) of
          (t1, lg1) \<Rightarrow>
            let t2 = t1\<lparr>last_pressure := spend_pressure\<rparr>
            in emit_request X t2 (perceive t2 lg1))"

subsection \<open>Acting on a response\<close>

definition sole_rejection :: "string \<Rightarrow> block \<Rightarrow> block option" where
  "sole_rejection sole_name b =
     (case b of
        ToolUse i name _ \<Rightarrow>
          Some (ToolResult i
            (if name = sole_name then
               ''`'' @ sole_name @ ''` must be the only tool call in a turn. None of this turn's tool calls were executed. Retry with `'' @
               sole_name @ ''` as the sole tool call.''
             else
               ''`'' @ name @ ''` was not executed: it was batched with `'' @ sole_name @
               ''`, which must be called alone. Call it in a separate turn.'') True)
      | _ \<Rightarrow> None)"

definition reject_batched_sole_tool ::
    "'x agent_ext_scheme \<Rightarrow> string \<Rightarrow> block list \<Rightarrow> agent_task \<Rightarrow> flight_log \<Rightarrow>
     agent_task \<times> flight_log \<times> agent_effect" where
  "reject_batched_sole_tool X sole_name call_blocks t lg =
     (case provide_tool_results (List.map_filter (sole_rejection sole_name) call_blocks) t lg of
        (t1, lg1) \<Rightarrow> step_need_infer X t1 lg1)"

text \<open>A call the agent answers itself with one error result before asking again.\<close>

definition answer_and_retry ::
    "'x agent_ext_scheme \<Rightarrow> string \<Rightarrow> string \<Rightarrow> agent_task \<Rightarrow> flight_log \<Rightarrow>
     agent_task \<times> flight_log \<times> agent_effect" where
  "answer_and_retry X call_id content t lg =
     (case provide_tool_results [ToolResult call_id content True] t lg of
        (t1, lg1) \<Rightarrow> step_need_infer X t1 lg1)"

definition named_call :: "string \<Rightarrow> block list \<Rightarrow> (string \<times> json) option" where
  "named_call tool call_blocks =
     find_map (\<lambda>b. case b of ToolUse i name input \<Rightarrow> if name = tool then Some (i, input) else None | _ \<Rightarrow> None)
       call_blocks"

text \<open>The arms that intercept the four sole-call tools, each given the parsed call.\<close>

definition on_spawn_agent ::
    "'x agent_ext_scheme \<Rightarrow> string \<Rightarrow> json \<Rightarrow> agent_task \<Rightarrow> flight_log \<Rightarrow>
     agent_task \<times> flight_log \<times> agent_effect" where
  "on_spawn_agent X call_id input t lg =
     (case parse_spawn X input of
        Inr config \<Rightarrow> (t, lg, SpawnAgent call_id config)
      | Inl e \<Rightarrow> answer_and_retry X call_id (''spawn_agent input could not be parsed: '' @ e) t lg)"

definition on_run_job ::
    "'x agent_ext_scheme \<Rightarrow> string \<Rightarrow> json \<Rightarrow> agent_task \<Rightarrow> flight_log \<Rightarrow>
     agent_task \<times> flight_log \<times> agent_effect" where
  "on_run_job X call_id input t lg =
     (case Option.bind (json_get input ''job_id'') json_as_str of
        Some j \<Rightarrow> (t, lg, RunJob call_id j)
      | None \<Rightarrow> answer_and_retry X call_id ''run_job requires a string `job_id`'' t lg)"

definition on_send_message ::
    "'x agent_ext_scheme \<Rightarrow> string \<Rightarrow> json \<Rightarrow> agent_task \<Rightarrow> flight_log \<Rightarrow>
     agent_task \<times> flight_log \<times> agent_effect" where
  "on_send_message X call_id input t lg =
     (case Option.bind (json_get input ''to'') json_as_str of
        None \<Rightarrow> answer_and_retry X call_id ''send_message requires a `to` string field'' t lg
      | Some to \<Rightarrow>
          (case Option.bind (json_get input ''content'') json_as_str of
             None \<Rightarrow> answer_and_retry X call_id ''send_message requires a `content` string field'' t lg
           | Some content \<Rightarrow> (t, lg, SendMessage call_id to content)))"

definition on_request_approval ::
    "'x agent_ext_scheme \<Rightarrow> string \<Rightarrow> json \<Rightarrow> agent_task \<Rightarrow> flight_log \<Rightarrow>
     agent_task \<times> flight_log \<times> agent_effect" where
  "on_request_approval X call_id input t lg =
     (case parse_action X input of
        Inr action \<Rightarrow> (t, lg, RequestApproval call_id action)
      | Inl e \<Rightarrow> answer_and_retry X call_id (''request_approval input could not be parsed: '' @ e) t lg)"

text \<open>The intercepts in the order of the source; the first tool named in the batch wins.\<close>

definition sole_tools ::
    "'x agent_ext_scheme \<Rightarrow>
     (string \<times> (string \<Rightarrow> json \<Rightarrow> agent_task \<Rightarrow> flight_log \<Rightarrow> agent_task \<times> flight_log \<times> agent_effect)) list" where
  "sole_tools X =
     [(''spawn_agent'', on_spawn_agent X), (''run_job'', on_run_job X),
      (''send_message'', on_send_message X), (''request_approval'', on_request_approval X)]"

fun intercept ::
    "'x agent_ext_scheme \<Rightarrow>
     (string \<times> (string \<Rightarrow> json \<Rightarrow> agent_task \<Rightarrow> flight_log \<Rightarrow> agent_task \<times> flight_log \<times> agent_effect)) list \<Rightarrow>
     block list \<Rightarrow> agent_task \<Rightarrow> flight_log \<Rightarrow> agent_task \<times> flight_log \<times> agent_effect" where
  "intercept X [] call_blocks t lg = (t, lg, CallTools call_blocks)"
| "intercept X ((tool, handler) # rest) call_blocks t lg =
     (case named_call tool call_blocks of
        None \<Rightarrow> intercept X rest call_blocks t lg
      | Some (call_id, input) \<Rightarrow>
          if 1 < length call_blocks then reject_batched_sole_tool X tool call_blocks t lg
          else handler call_id input t lg)"

definition on_tool_use ::
    "'x agent_ext_scheme \<Rightarrow> inference_response \<Rightarrow> agent_task \<Rightarrow> flight_log \<Rightarrow>
     agent_task \<times> flight_log \<times> agent_effect" where
  "on_tool_use X response t lg =
     (if over_budget t then budget_failure [] t lg
      else
        let call_blocks = filter is_tool_use (resp_blocks response) in
        if call_blocks = [] then
          (t\<lparr>terminal := True\<rparr>, lg,
           Failed ''model returned stop_reason=tool_use with no ToolUse blocks'')
        else intercept X (sole_tools X) call_blocks t lg)"

definition on_turn_end ::
    "inference_response \<Rightarrow> agent_task \<Rightarrow> flight_log \<Rightarrow> agent_task \<times> flight_log \<times> agent_effect" where
  "on_turn_end response t lg =
     (let truncated = (stop_reason response = MaxTokens);
          total = context_tokens t;
          lg1 = (if truncated then
                   record_event (agent_id t) (Some (turn t)) EvBudgetExceeded
                     [(''total_tokens'', JWord total), (''budget'', JWord (token_budget (cfg t))),
                      (''recoverable'', JBool True),
                      (''note'', JStr ''max_tokens truncation; resident agent kept resumable (budget_resettable)'')] lg
                 else lg);
          answer = (case find_map (\<lambda>b. case b of Text text \<Rightarrow> Some text | _ \<Rightarrow> None) (resp_blocks response) of
                      None \<Rightarrow> [] | Some s \<Rightarrow> s);
          lg2 = record_event (agent_id t) (Some (turn t)) EvAgentCompleted
                  [(''turns'', JWord (turn t + 1)), (''total_tokens'', JWord total),
                   (''answer_preview'', JStr (truncate_chars answer PREVIEW_CHARS)),
                   (''truncated'', JBool truncated)] lg1
      in (t\<lparr>terminal := True\<rparr>, lg2, if truncated then CompletedTruncated answer else Completed answer))"

definition step_with_response ::
    "'x agent_ext_scheme \<Rightarrow> inference_response \<Rightarrow> agent_task \<Rightarrow> flight_log \<Rightarrow>
     agent_task \<times> flight_log \<times> agent_effect" where
  "step_with_response X response t0 lg0 =
     (let total = context_tokens t0;
          lg = record_event (agent_id t0) (Some (turn t0)) EvInferenceResponse
                 [(''stop_reason'', JStr (stop_as_str (stop_reason response))),
                  (''input_tokens'', JWord (input_tokens response)),
                  (''output_tokens'', JWord (output_tokens response)),
                  (''total_tokens'', JWord total)] lg0;
          t = t0\<lparr>messages := messages t0 @ [\<lparr>role = Assistant, blocks = resp_blocks response\<rparr>]\<rparr>
      in if stop_reason response = StopToolUse then on_tool_use X response t lg
         else if stop_reason response = MaxTokens \<and> \<not> budget_resettable t then
           (t\<lparr>terminal := True\<rparr>,
            record_event (agent_id t) (Some (turn t)) EvBudgetExceeded
              [(''total_tokens'', JWord total), (''budget'', JWord (token_budget (cfg t)))] lg,
            Failed ''model generation hit max_tokens limit (truncated response)'')
         else on_turn_end response t lg)"

definition step ::
    "'x agent_ext_scheme \<Rightarrow> agent_task \<Rightarrow> flight_log \<Rightarrow> agent_task \<times> flight_log \<times> agent_effect" where
  "step X t lg =
     (if terminal t then
        (t, record_event (agent_id t) (Some (turn t)) EvError
              [(''stage'', JStr ''step''), (''error'', JStr ''called on terminal task'')] lg,
         Failed ''step called on terminal task'')
      else
        (case stored_response t of
           Some response \<Rightarrow> step_with_response X response (t\<lparr>stored_response := None\<rparr>) lg
         | None \<Rightarrow> step_need_infer X t lg))"

subsection \<open>Running tools\<close>

text \<open>\<open>invoke\<close> is the tool registry: the outcome of one call, and the events it records.\<close>

fun run_tools_sequential ::
    "'x agent_ext_scheme \<Rightarrow> (string \<Rightarrow> json \<Rightarrow> flight_log \<Rightarrow> flight_log \<times> (string + string)) \<Rightarrow>
     string \<Rightarrow> u32 \<Rightarrow> block list \<Rightarrow> flight_log \<Rightarrow> flight_log \<times> block list" where
  "run_tools_sequential X invoke aid tn [] lg = (lg, [])"
| "run_tools_sequential X invoke aid tn (b # bs) lg =
     (case b of
        ToolUse i name input \<Rightarrow>
          (let lg1 = record_event aid (Some tn) EvToolCall
                 [(''id'', JStr i), (''name'', JStr name),
                  (''input_preview'', JStr (truncate_chars (json_to_string X input) PREVIEW_CHARS))] lg
           in case invoke name input lg1 of
                (lg2, outcome) \<Rightarrow>
                  let preview = (case outcome of
                         Inr s \<Rightarrow> [(''is_error'', JBool False), (''preview'', JStr (truncate_chars s PREVIEW_CHARS))]
                       | Inl e \<Rightarrow> [(''is_error'', JBool True), (''error'', JStr (truncate_chars e PREVIEW_CHARS))]);
                      lg3 = record_event aid (Some tn) EvToolResult
                              ([(''id'', JStr i), (''name'', JStr name)] @ preview) lg2;
                      result = (case outcome of Inr s \<Rightarrow> ToolResult i s False | Inl e \<Rightarrow> ToolResult i e True)
                  in case run_tools_sequential X invoke aid tn bs lg3 of
                       (lg4, rest) \<Rightarrow> (lg4, result # rest))
      | _ \<Rightarrow> run_tools_sequential X invoke aid tn bs lg)"

end
