(* ===== verification/Universal.thy ===== *)
theory Universal
  imports Agent
begin

section \<open>Universal-tier agents (\<open>agentd/src/universal.rs\<close>)\<close>

text \<open>
  An agent of this tier is an external process whose model traffic goes through the egress proxy.
  The operating system is a parameter: the environment of \<open>agentd\<close>, whether \<open>runsc\<close> is on the
  path, and what starting a command gives (its process id, or a failure).
\<close>

record child_command =
  cc_program :: string
  cc_args :: "string list"
  cc_env :: "(string, string) hashmap"

record process_os =
  os_var :: "string \<Rightarrow> string option"
  os_runsc :: bool
  os_start :: "child_command \<Rightarrow> u32 option option"

record universal_agent =
  ua_isolation :: isolation_mode
  ua_cfg :: agent_config
  ephemeral_key :: string

definition inherited_vars :: "string list" where
  "inherited_vars = [''PATH'', ''HOME'', ''USER'', ''LANG'', ''TMPDIR'']"

definition child_env :: "process_os \<Rightarrow> string \<Rightarrow> string \<Rightarrow> (string, string) hashmap" where
  "child_env OS addr key =
     put ''ANTHROPIC_BASE_URL'' (''http://'' @ addr)
       (put ''ANTHROPIC_API_KEY'' key
         (List.map_filter (\<lambda>v. map_option (Pair v) (os_var OS v)) inherited_vars))"

definition build_command :: "process_os \<Rightarrow> agent_config \<Rightarrow> string \<Rightarrow> isolation_mode \<Rightarrow> string \<Rightarrow> string \<Rightarrow> child_command" where
  "build_command OS c command isolation addr key =
     (if isolation = IsoGvisor then
        \<lparr>cc_program = ''runsc'', cc_args = [''do'', ''--network=host'', command] @ ac_args c,
         cc_env = child_env OS addr key\<rparr>
      else
        \<lparr>cc_program = command, cc_args = ac_args c, cc_env = child_env OS addr key\<rparr>)"

definition runsc_missing :: "string \<Rightarrow> string" where
  "runsc_missing i =
     ''agent '' @ [CHR 0x27] @ i @ [CHR 0x27] @ '' requires isolation = \"gvisor\" but '' @ [CHR 0x27] @ ''runsc'' @
     [CHR 0x27] @ '' is not found on PATH.'' @ [CHR 0x0A] @
     ''Install gVisor: https://gvisor.dev/docs/user_guide/install/'' @ [CHR 0x0A] @
     ''Then verify with: runsc --version''"

definition universal_spawn ::
    "process_os \<Rightarrow> agent_config \<Rightarrow> string \<Rightarrow> string \<Rightarrow> flight_log \<Rightarrow> (string + universal_agent) \<times> flight_log" where
  "universal_spawn OS c addr key lg =
     (case ac_command c of
        None \<Rightarrow> (Inl ''universal-tier agent requires `command` to be set'', lg)
      | Some command \<Rightarrow>
          if ac_isolation c = IsoGvisor \<and> \<not> os_runsc OS then
            (Inl (runsc_missing (ac_id c)),
             record_event (ac_id c) None EvUniversalAgentIsolationDegraded
               [(''agent_id'', JStr (ac_id c)), (''reason'', JStr ''runsc_not_found'')] lg)
          else
            (case os_start OS (build_command OS c command (ac_isolation c) addr key) of
               None \<Rightarrow> (Inl (''failed to spawn universal agent '' @ [CHR 0x27] @ ac_id c @ [CHR 0x27]), lg)
             | Some pid \<Rightarrow>
                 (Inr \<lparr>ua_isolation = ac_isolation c, ua_cfg = c, ephemeral_key = key\<rparr>,
                  record_event (ac_id c) None EvUniversalAgentStarted
                    [(''isolation'', JStr (case ac_isolation c of IsoGvisor \<Rightarrow> ''gvisor'' | IsoNone \<Rightarrow> ''none'')),
                     (''pid'', JOpt JWord pid), (''command'', JStr command)] lg)))"

subsection \<open>What a child process can see\<close>

lemma map_of_filter_pairs:
  "map_of (List.map_filter (\<lambda>v. map_option (Pair v) (f v)) vs) v = (if v \<in> set vs then f v else None)"
  by (induction vs) (auto simp: List.map_filter_simps split: option.split)

lemma child_env_get:
  "get (child_env OS addr key) v =
     (if v = ''ANTHROPIC_BASE_URL'' then Some (''http://'' @ addr)
      else if v = ''ANTHROPIC_API_KEY'' then Some key
      else if v \<in> set inherited_vars then os_var OS v else None)"
  unfolding child_env_def get_put map_of_filter_pairs ..

lemma child_env_key [simp]: "get (child_env OS addr key) ''ANTHROPIC_API_KEY'' = Some key"
  by (simp add: child_env_get)

lemma build_command_env [simp]: "cc_env (build_command OS c command isol addr key) = child_env OS addr key"
  by (simp add: build_command_def)

lemma child_env_cong:
  assumes "\<And>v. v \<in> set inherited_vars \<Longrightarrow> os_var A v = os_var B v"
  shows "child_env A addr key = child_env B addr key"
proof -
  have "List.map_filter (\<lambda>v. map_option (Pair v) (os_var A v)) vs = List.map_filter (\<lambda>v. map_option (Pair v) (os_var B v)) vs"
    if "set vs \<subseteq> set inherited_vars" for vs
    using that assms by (induction vs) (simp_all add: List.map_filter_simps split: option.split)
  then show ?thesis by (simp only: child_env_def subset_refl)
qed

text \<open>
  C31. A universal-tier child process sees nothing of the daemon's environment but the five
  variables of the allowlist: two daemons that agree on those (and on the system) start exactly the
  same process, whatever else, such as the real provider key, is in their environments, and the
  key the child is given is its ephemeral one.
\<close>

theorem universal_child_is_sealed:
  assumes "\<forall>v \<in> set inherited_vars. os_var A v = os_var B v"
    and "os_runsc A = os_runsc B" and "os_start A = os_start B"
  shows "universal_spawn A c addr key lg = universal_spawn B c addr key lg \<and>
    get (cc_env (build_command A c command isol addr key)) ''ANTHROPIC_API_KEY'' = Some key"
proof -
  have "build_command A c cmd i addr key = build_command B c cmd i addr key" for cmd i
    using child_env_cong [of A B] assms(1) by (simp only: build_command_def)
  then show ?thesis by (simp only: universal_spawn_def assms(2,3) build_command_env child_env_key)
qed

definition sample_os :: "string \<Rightarrow> process_os" where
  "sample_os secret =
     \<lparr>os_var = (\<lambda>v. if v = ''ANTHROPIC_API_KEY'' then Some secret else if v = ''PATH'' then Some ''/bin'' else None),
      os_runsc = False, os_start = (\<lambda>_. Some (Some 7))\<rparr>"

definition sample_universal :: agent_config where
  "sample_universal =
     \<lparr>ac_id = ''bot'', ac_task = [], max_turns = 1, token_budget = 0, ac_priority = 0, capabilities = None,
      ac_name = None, ac_description = [], ac_skills = [], ac_tier = Universal, ac_command = Some ''/bin/bot'',
      ac_args = [], ac_isolation = IsoNone, max_wall_seconds = 60\<rparr>"

theorem universal_child_is_sealed_witness:
  "universal_spawn (sample_os ''sk-real'') sample_universal ''127.0.0.1:9'' ''ua-bot'' [] =
     universal_spawn (sample_os ''other'') sample_universal ''127.0.0.1:9'' ''ua-bot'' [] \<and>
   get (cc_env (build_command (sample_os ''sk-real'') sample_universal ''/bin/bot'' IsoNone ''127.0.0.1:9'' ''ua-bot''))
     ''ANTHROPIC_API_KEY'' = Some ''ua-bot''"
  by (rule universal_child_is_sealed) (simp_all add: sample_os_def inherited_vars_def)

text \<open>
  Isolation is never dropped silently: an agent that runs has exactly the isolation its
  configuration asks for, and under gVisor the program that was started is \<open>runsc\<close>.
\<close>

theorem isolation_is_not_degraded:
  assumes "universal_spawn OS c addr key lg = (Inr ua, lg')"
  shows "ua_isolation ua = ac_isolation c \<and>
    (\<exists>cmd pid. os_start OS cmd = Some pid \<and> get (cc_env cmd) ''ANTHROPIC_API_KEY'' = Some (ephemeral_key ua) \<and>
       (ac_isolation c = IsoGvisor \<longrightarrow> os_runsc OS \<and> cc_program cmd = ''runsc''))"
proof -
  obtain command pid where "os_start OS (build_command OS c command (ac_isolation c) addr key) = Some pid"
    and "ua = \<lparr>ua_isolation = ac_isolation c, ua_cfg = c, ephemeral_key = key\<rparr>"
    and "ac_isolation c = IsoGvisor \<longrightarrow> os_runsc OS"
    using assms by (auto simp: universal_spawn_def split: option.splits if_splits)
  then show ?thesis
    by (intro conjI exI [of _ "build_command OS c command (ac_isolation c) addr key"] exI [of _ pid])
      (simp_all add: build_command_def)
qed

theorem isolation_is_not_degraded_witness:
  "ua_isolation \<lparr>ua_isolation = IsoNone, ua_cfg = sample_universal, ephemeral_key = ''ua-bot''\<rparr> = IsoNone \<and>
   (\<exists>cmd pid. os_start (sample_os ''sk'') cmd = Some pid \<and> get (cc_env cmd) ''ANTHROPIC_API_KEY'' = Some ''ua-bot'')"
  using isolation_is_not_degraded [of "sample_os ''sk''" sample_universal "''127.0.0.1:9''" "''ua-bot''" "[]"
      "\<lparr>ua_isolation = IsoNone, ua_cfg = sample_universal, ephemeral_key = ''ua-bot''\<rparr>"]
  by (auto simp: universal_spawn_def sample_os_def sample_universal_def)

end
