(* ===== verification/Egress.thy ===== *)
theory Egress
  imports Events Evidence
begin

section \<open>The egress mediator (\<open>agentd/src/egress.rs\<close>)\<close>

text \<open>
  Metering, denial receipts and the HTTP forwarding proxy of the universal tier. The mediator
  owns the receipt writer of \<open>Evidence\<close> and the flight log of \<open>Events\<close>. A mutex of the
  source is never poisoned here, because the release profile aborts on panic.

  The handler of a request suspends while it collects the request body, while it waits for the
  upstream and while it reads the reply, so it is split at these points into \<open>proxy_gate\<close>,
  \<open>proxy_admit\<close> and \<open>proxy_finish\<close>; \<open>handle_proxy_request\<close> composes them for one request and
  \<open>proxy_step\<close> interleaves the requests of many connections.

  The \<open>http\<close>, \<open>reqwest\<close> and \<open>serde_json\<close> crates are the fields of \<open>http_lib\<close>.
\<close>

subsection \<open>The registry of workloads\<close>

text \<open>\<open>token_budget_remaining\<close> is an \<open>Arc<AtomicU64>\<close>: a reference into the store of budgets.\<close>

record proxy_policy =
  allowed_hosts :: "string list"
  token_budget_remaining :: nat

record proxy_entry =
  pe_agent_id :: string
  pe_policy :: proxy_policy

type_synonym proxy_registry = "(string, proxy_entry) hashmap"

definition register :: "string \<Rightarrow> proxy_entry \<Rightarrow> proxy_registry \<Rightarrow> proxy_registry" where
  "register ephemeral_key entry reg = put ephemeral_key entry reg"

definition deregister_by_key :: "string \<Rightarrow> proxy_registry \<Rightarrow> proxy_registry" where
  "deregister_by_key ephemeral_key reg = remove ephemeral_key reg"

definition entry_for_key :: "proxy_registry \<Rightarrow> string \<Rightarrow> proxy_entry option" where
  "entry_for_key reg x_api_key = get reg x_api_key"

subsection \<open>The global budget meter\<close>

record global_budget_meter =
  gm_universal_spent :: u64
  gm_universal_anchor :: u64
  gm_native_lifetime :: u64
  gm_native_anchor :: u64
  gm_ceiling :: u64

definition meter_default :: global_budget_meter where
  "meter_default =
     \<lparr>gm_universal_spent = 0, gm_universal_anchor = 0, gm_native_lifetime = 0,
      gm_native_anchor = 0, gm_ceiling = 0\<rparr>"

definition universal_spent :: "global_budget_meter \<Rightarrow> u64" where
  "universal_spent m = gm_universal_spent m"

definition universal_windowed :: "global_budget_meter \<Rightarrow> u64" where
  "universal_windowed m = saturating_sub (gm_universal_spent m) (gm_universal_anchor m)"

definition add_universal :: "u64 \<Rightarrow> global_budget_meter \<Rightarrow> global_budget_meter" where
  "add_universal tokens m = m\<lparr>gm_universal_spent := saturating_add (gm_universal_spent m) tokens\<rparr>"

definition rebase_universal :: "global_budget_meter \<Rightarrow> global_budget_meter" where
  "rebase_universal m = m\<lparr>gm_universal_anchor := gm_universal_spent m\<rparr>"

definition publish :: "u64 \<Rightarrow> u64 \<Rightarrow> global_budget_meter \<Rightarrow> global_budget_meter" where
  "publish native_lifetime native_anchor m =
     m\<lparr>gm_native_lifetime := native_lifetime, gm_native_anchor := native_anchor\<rparr>"

definition windowed :: "global_budget_meter \<Rightarrow> u64" where
  "windowed m =
     (let native = saturating_sub (gm_native_lifetime m) (gm_native_anchor m)
      in saturating_add native (universal_windowed m))"

definition ceiling_of :: "global_budget_meter \<Rightarrow> u64" where
  "ceiling_of m = gm_ceiling m"

subsection \<open>The mediator\<close>

record egress_env =
  ee_crypto :: crypto
  ee_err_str :: "evidence_error \<Rightarrow> string"

text \<open>The clock reading and the I/O outcomes of one receipt.\<close>

type_synonym receipt_io = "string \<times> write_io"

record egress_proxy =
  eg_writer :: evidence_writer
  eg_fs :: fs
  eg_log :: flight_log
  eg_meter :: global_budget_meter
  denied_edges :: "(string, string list) hashmap"

definition egress_new :: "evidence_writer \<Rightarrow> fs \<Rightarrow> flight_log \<Rightarrow> egress_proxy" where
  "egress_new writer f recorder =
     \<lparr>eg_writer = writer, eg_fs = f, eg_log = recorder, eg_meter = meter_default, denied_edges = []\<rparr>"

definition with_global_ceiling :: "u64 \<Rightarrow> egress_proxy \<Rightarrow> egress_proxy" where
  "with_global_ceiling c e = e\<lparr>eg_meter := (eg_meter e)\<lparr>gm_ceiling := c\<rparr>\<rparr>"

definition eg_record :: "string \<Rightarrow> event_kind \<Rightarrow> (string \<times> json) list \<Rightarrow> egress_proxy \<Rightarrow> egress_proxy" where
  "eg_record agent_id kind data e = e\<lparr>eg_log := record_event agent_id None kind data (eg_log e)\<rparr>"

definition record_inference ::
    "egress_env \<Rightarrow> receipt_io \<Rightarrow> string \<Rightarrow> string \<Rightarrow> u64 \<Rightarrow> u64 \<Rightarrow> egress_proxy \<Rightarrow> egress_proxy" where
  "record_inference E rio agent_id model input_tokens output_tokens e0 =
     (let e = e0\<lparr>denied_edges := remove agent_id (denied_edges e0)\<rparr>
      in case record_allowed (ee_crypto E) (snd rio) (fst rio) ''inference'' model agent_id
                (eg_writer e) (eg_fs e) of
           (w, f, res) \<Rightarrow>
             let e1 = e\<lparr>eg_writer := w, eg_fs := f\<rparr>
             in case res of
                  Inr seq \<Rightarrow>
                    eg_record agent_id EvActionReceiptEmitted
                      [(''agent'', JStr agent_id), (''verdict'', JStr ''allowed''),
                             (''chain_seq'', JWord seq)]
                      (eg_record agent_id EvEgressBrokered
                         [(''agent'', JStr agent_id), (''kind'', JStr ''inference''),
                                (''dest'', JStr model), (''input_tokens'', JWord input_tokens),
                                (''output_tokens'', JWord output_tokens)] e1)
                | Inl err \<Rightarrow>
                    eg_record agent_id EvEgressProxyFailed
                      [(''error'', JStr (ee_err_str E err))] e1)"

text \<open>
  The first half of \<open>receipt_denial_once\<close>: whether this is the first denial of the episode,
  with the edge recorded.
\<close>

definition arm_edge :: "string \<Rightarrow> string \<Rightarrow> egress_proxy \<Rightarrow> bool \<times> egress_proxy" where
  "arm_edge agent_id reason e =
     (case get (denied_edges e) agent_id of
        Some reasons \<Rightarrow>
          (reason \<notin> set reasons,
           e\<lparr>denied_edges := put agent_id (List.insert reason reasons) (denied_edges e)\<rparr>)
      | None \<Rightarrow> (True, e\<lparr>denied_edges := put agent_id [reason] (denied_edges e)\<rparr>))"

definition receipt_denial_once ::
    "egress_env \<Rightarrow> receipt_io \<Rightarrow> string \<Rightarrow> string \<Rightarrow> string \<Rightarrow> egress_proxy \<Rightarrow> egress_proxy" where
  "receipt_denial_once E rio agent_id target reason e0 =
     (case arm_edge agent_id reason e0 of
        (first, e) \<Rightarrow>
          if \<not> first then e
          else
            (case Evidence.record_denied (ee_crypto E) (snd rio) (fst rio) ''inference'' target agent_id
                    (eg_writer e) (eg_fs e) of
               (w, f, res) \<Rightarrow>
                 let e1 = e\<lparr>eg_writer := w, eg_fs := f\<rparr>
                 in case res of
                      Inr seq \<Rightarrow>
                        eg_record agent_id EvActionReceiptEmitted
                          [(''agent'', JStr agent_id), (''verdict'', JStr ''denied''),
                                 (''chain_seq'', JWord seq), (''reason'', JStr reason)] e1
                    | Inl err \<Rightarrow>
                        eg_record agent_id EvEgressProxyFailed
                          [(''error'', JStr (ee_err_str E err))] e1))"

definition record_denied_policy ::
    "egress_env \<Rightarrow> receipt_io \<Rightarrow> string \<Rightarrow> string \<Rightarrow> string \<Rightarrow> egress_proxy \<Rightarrow> egress_proxy" where
  "record_denied_policy E rio agent_id target reason e =
     receipt_denial_once E rio agent_id target reason
       (eg_record agent_id EvEgressDenied
          [(''agent'', JStr agent_id), (''attempted_dest'', JStr target),
                 (''reason'', JStr reason)] e)"

definition forget_agent :: "string \<Rightarrow> egress_proxy \<Rightarrow> egress_proxy" where
  "forget_agent agent_id e = e\<lparr>denied_edges := remove agent_id (denied_edges e)\<rparr>"

definition record_proxy_failed :: "string \<Rightarrow> string \<Rightarrow> egress_proxy \<Rightarrow> egress_proxy" where
  "record_proxy_failed agent_id reason e =
     eg_record agent_id EvEgressProxyFailed
       [(''agent'', JStr agent_id), (''reason'', JStr reason)] e"

subsection \<open>The HTTP proxy\<close>

definition MAX_PROXY_RESPONSE_BYTES :: nat where
  "MAX_PROXY_RESPONSE_BYTES = 8 * 1024 * 1024"

definition MAX_REQUEST_BODY_BYTES :: nat where
  "MAX_REQUEST_BODY_BYTES = 4 * 1024 * 1024"

definition PASSTHROUGH_HEADERS :: "string list" where
  "PASSTHROUGH_HEADERS = [''anthropic-version'', ''anthropic-beta'']"

definition ANTHROPIC_MESSAGES_URL :: string where
  "ANTHROPIC_MESSAGES_URL = ''https://api.anthropic.com/v1/messages''"

text \<open>
  Whether a header value converts to \<open>str\<close>, whether a string or bytes make a header value, the
  JSON parser and printer, and the numeric reading of a JSON number.
\<close>

record http_lib =
  hv_to_str_ok :: "string \<Rightarrow> bool"
  hv_from_str_ok :: "string \<Rightarrow> bool"
  hv_from_bytes_ok :: "string \<Rightarrow> bool"
  json_parse :: "string \<Rightarrow> json option"
  json_print :: "json \<Rightarrow> string"
  json_as_f64 :: "json \<Rightarrow> rat option"

text \<open>Header names are lower case; a body arrives in chunks, \<open>None\<close> for a failed read.\<close>

record http_request =
  rq_method :: string
  rq_path :: string
  rq_headers :: "(string \<times> string) list"
  rq_body :: "string option list"

record upstream_request =
  ur_url :: string
  ur_headers :: "(string, string) hashmap"
  ur_body :: string

record upstream_response =
  up_status :: nat
  up_content_type :: "string option"
  up_body :: "string option list"

datatype send_outcome = SendOk upstream_response | SendTimeout | SendError

record http_response =
  hr_status :: nat
  hr_content_type :: string
  hr_body :: string

record proxy_state =
  ps_registry :: proxy_registry
  ps_real_key :: string
  ps_egress :: egress_proxy
  ps_upstream_url :: string
  ps_budgets :: "nat \<Rightarrow> u64"

definition json_error_response ::
    "http_lib \<Rightarrow> nat \<Rightarrow> string \<Rightarrow> string \<Rightarrow> string \<Rightarrow> http_response" where
  "json_error_response H status error_type message detail =
     \<lparr>hr_status = status, hr_content_type = ''application/json'',
      hr_body = json_print H (JObj [(''error'', JObj [(''type'', JStr error_type),
        (''message'', JStr message), (''detail'', JStr detail)])])\<rparr>"

definition str_contains :: "string \<Rightarrow> string \<Rightarrow> bool" where
  "str_contains needle s = list_ex (prefix needle) (suffixes s)"

definition header_str :: "http_lib \<Rightarrow> (string \<times> string) list \<Rightarrow> string \<Rightarrow> string option" where
  "header_str H headers name =
     (case map_of headers name of
        None \<Rightarrow> None
      | Some v \<Rightarrow> if hv_to_str_ok H v then Some v else None)"

definition with_egress :: "(egress_proxy \<Rightarrow> egress_proxy) \<Rightarrow> proxy_state \<Rightarrow> proxy_state" where
  "with_egress f st = st\<lparr>ps_egress := f (ps_egress st)\<rparr>"

text \<open>Steps 1 to 4 of the handler.\<close>

definition proxy_gate ::
    "http_lib \<Rightarrow> http_request \<Rightarrow> proxy_state \<Rightarrow> proxy_state \<times> (http_response + proxy_entry)" where
  "proxy_gate H req st =
     (let accept = (case header_str H (rq_headers req) ''accept'' of None \<Rightarrow> [] | Some v \<Rightarrow> v) in
      if str_contains ''text/event-stream'' accept then
        (st, Inl (json_error_response H 501 ''streaming_not_supported''
          ''Use stream=False; streaming proxy ships in p7.5c'' ''streaming_not_supported''))
      else
        (case header_str H (rq_headers req) ''x-api-key'' of
           None \<Rightarrow>
             (st, Inl (json_error_response H 403 ''egress_denied'' ''Missing x-api-key header''
               ''unknown_workload_key''))
         | Some ephemeral_key \<Rightarrow>
             (case entry_for_key (ps_registry st) ephemeral_key of
                None \<Rightarrow>
                  (with_egress (record_proxy_failed ''unknown'' ''unknown_workload_key'') st,
                   Inl (json_error_response H 403 ''egress_denied'' ''Unknown workload key''
                     ''unknown_workload_key''))
              | Some entry \<Rightarrow>
                  if rq_path req \<noteq> ''/v1/messages'' then
                    (with_egress (record_proxy_failed ''unknown'' ''path_not_allowed'') st,
                     Inl (json_error_response H 404 ''egress_denied''
                       ''Path not allowed; only POST /v1/messages is proxied'' ''path_not_allowed''))
                  else if rq_method req \<noteq> ''POST'' then
                    (st, Inl (json_error_response H 405 ''egress_denied''
                      ''Method not allowed; only POST is accepted'' ''method_not_allowed''))
                  else (st, Inr entry))))"

text \<open>
  \<open>Limited::collect\<close>: \<open>None\<close> is a body beyond the limit or one that cannot be read, with the
  \<open>detail\<close> tag of the reply.
\<close>

fun collect_body :: "string \<Rightarrow> string option list \<Rightarrow> string + string" where
  "collect_body acc [] = Inr acc"
| "collect_body acc (None # cs) = Inl ''request_body_error''"
| "collect_body acc (Some b # cs) =
     (if MAX_REQUEST_BODY_BYTES < length acc + length b then Inl ''request_body_too_large''
      else collect_body (acc @ b) cs)"

text \<open>Step 6: the headers of the forwarded request.\<close>

definition passthrough ::
    "http_lib \<Rightarrow> (string \<times> string) list \<Rightarrow> string \<Rightarrow> (string, string) hashmap \<Rightarrow>
     (string, string) hashmap" where
  "passthrough H headers name fwd =
     (case map_of headers name of
        None \<Rightarrow> fwd
      | Some v \<Rightarrow> if hv_from_bytes_ok H v then put name v fwd else fwd)"

definition forward_headers ::
    "http_lib \<Rightarrow> string \<Rightarrow> (string \<times> string) list \<Rightarrow> (string, string) hashmap" where
  "forward_headers H real_key headers =
     put ''content-type'' ''application/json''
       (fold (passthrough H headers) PASSTHROUGH_HEADERS (put ''x-api-key'' real_key []))"

text \<open>Steps 5 to 8: collect the body, check both budgets, build the upstream request.\<close>

definition proxy_admit ::
    "egress_env \<Rightarrow> http_lib \<Rightarrow> receipt_io \<Rightarrow> http_request \<Rightarrow> proxy_entry \<Rightarrow> proxy_state \<Rightarrow>
     proxy_state \<times> (http_response + upstream_request)" where
  "proxy_admit E H rio req entry st =
     (case collect_body [] (rq_body req) of
        Inl detail \<Rightarrow>
          (st, Inl (json_error_response H 413 ''egress_proxy_failed''
            ''Request body too large or unreadable'' detail))
      | Inr body_bytes \<Rightarrow>
          if \<not> hv_from_str_ok H (ps_real_key st) then
            (with_egress (record_proxy_failed (pe_agent_id entry) ''invalid_real_key'') st,
             Inl (json_error_response H 500 ''egress_proxy_failed''
               ''Proxy configuration error: invalid real API key'' ''invalid_real_key''))
          else if ps_budgets st (token_budget_remaining (pe_policy entry)) = 0 then
            (with_egress (record_denied_policy E rio (pe_agent_id entry) ''anthropic''
               ''budget_exhausted'') st,
             Inl (json_error_response H 429 ''egress_budget_exhausted''
               ''Token budget for this workload is exhausted'' ''budget_exhausted''))
          else if ceiling_of (eg_meter (ps_egress st)) \<noteq> 0 \<and>
                  ceiling_of (eg_meter (ps_egress st)) \<le> windowed (eg_meter (ps_egress st)) then
            (with_egress (record_denied_policy E rio (pe_agent_id entry) ''anthropic''
               ''global_budget_exhausted'') st,
             Inl (json_error_response H 429 ''global_budget_exhausted''
               ''Global token budget window is exhausted; universal tier throttled until the window resets''
               ''global_budget_exhausted''))
          else
            (st, Inr \<lparr>ur_url = ps_upstream_url st,
                      ur_headers = forward_headers H (ps_real_key st) (rq_headers req),
                      ur_body = body_bytes\<rparr>))"

text \<open>Step 9: the reply, read under a cap; \<open>Inl\<close> is the \<open>detail\<close> tag of the failure.\<close>

fun read_upstream :: "string \<Rightarrow> string option list \<Rightarrow> string + string" where
  "read_upstream resp_bytes [] = Inr resp_bytes"
| "read_upstream resp_bytes (Some b # cs) =
     (if MAX_PROXY_RESPONSE_BYTES < length resp_bytes + length b then Inl ''response_too_large''
      else read_upstream (resp_bytes @ b) cs)"
| "read_upstream resp_bytes (None # cs) = Inl ''upstream_read_error''"

text \<open>Rust's saturating \<open>f64 as u64\<close>.\<close>

definition f64_as_u64 :: "rat \<Rightarrow> u64" where
  "f64_as_u64 x =
     (if x \<le> 0 then 0 else if 2 ^ 64 \<le> \<lfloor>x\<rfloor> then - 1 else of_int \<lfloor>x\<rfloor>)"

text \<open>\<open>v["usage"][field].as_f64().map(|f| f as u64).unwrap_or(0)\<close>.\<close>

definition usage_field :: "http_lib \<Rightarrow> json \<Rightarrow> string \<Rightarrow> u64" where
  "usage_field H v field =
     (case json_get v ''usage'' of
        None \<Rightarrow> 0
      | Some usage \<Rightarrow>
          (case json_get usage field of
             None \<Rightarrow> 0
           | Some n \<Rightarrow> (case json_as_f64 H n of None \<Rightarrow> 0 | Some x \<Rightarrow> f64_as_u64 x)))"

definition parse_usage :: "http_lib \<Rightarrow> string \<Rightarrow> u64 \<times> u64" where
  "parse_usage H resp_bytes =
     (case json_parse H resp_bytes of
        Some v \<Rightarrow> (usage_field H v ''input_tokens'', usage_field H v ''output_tokens'')
      | None \<Rightarrow> (0, 0))"

text \<open>Steps 11 and 12: charge the workload and the window, then write the receipt.\<close>

definition charge ::
    "egress_env \<Rightarrow> receipt_io \<Rightarrow> proxy_entry \<Rightarrow> u64 \<times> u64 \<Rightarrow> proxy_state \<Rightarrow> proxy_state" where
  "charge E rio entry toks st =
     (let total_toks = saturating_add (fst toks) (snd toks);
          ref = token_budget_remaining (pe_policy entry);
          st1 = st\<lparr>ps_budgets := (ps_budgets st)(ref := saturating_sub (ps_budgets st ref) total_toks)\<rparr>;
          st2 = with_egress (\<lambda>e. e\<lparr>eg_meter := add_universal total_toks (eg_meter e)\<rparr>) st1
      in with_egress (record_inference E rio (pe_agent_id entry) ''anthropic'' (fst toks) (snd toks)) st2)"

text \<open>The reply to the workload once the upstream has answered.\<close>

definition proxy_finish ::
    "egress_env \<Rightarrow> http_lib \<Rightarrow> receipt_io \<Rightarrow> proxy_entry \<Rightarrow> send_outcome \<Rightarrow> proxy_state \<Rightarrow>
     proxy_state \<times> http_response" where
  "proxy_finish E H rio entry outcome st =
     (let fail = (\<lambda>status message reason.
        (with_egress (record_proxy_failed (pe_agent_id entry) reason) st,
         json_error_response H status ''egress_proxy_failed'' message reason))
      in case outcome of
           SendTimeout \<Rightarrow> fail 504 ''Upstream request failed'' ''upstream_timeout''
         | SendError \<Rightarrow> fail 502 ''Upstream request failed'' ''upstream_error''
         | SendOk resp \<Rightarrow>
             let raw = (case up_content_type resp of
                    None \<Rightarrow> ''application/json''
                  | Some v \<Rightarrow> if hv_to_str_ok H v then v else ''application/json'');
                 upstream_ct =
                   (if prefix ''application/json'' raw then raw else ''application/json'')
             in case read_upstream [] (up_body resp) of
                  Inl reason \<Rightarrow>
                    fail 502 (if reason = ''response_too_large''
                              then ''Upstream response exceeded 8 MB limit''
                              else ''Failed to read upstream response'') reason
                | Inr resp_bytes \<Rightarrow>
                    (charge E rio entry (parse_usage H resp_bytes) st,
                     \<lparr>hr_status = up_status resp, hr_content_type = upstream_ct, hr_body = resp_bytes\<rparr>))"

text \<open>The handler of one request; \<open>upstream\<close> is the world behind \<open>reqwest\<close>.\<close>

definition handle_proxy_request ::
    "egress_env \<Rightarrow> http_lib \<Rightarrow> receipt_io \<Rightarrow> (upstream_request \<Rightarrow> send_outcome) \<Rightarrow> http_request \<Rightarrow>
     proxy_state \<Rightarrow> proxy_state \<times> http_response" where
  "handle_proxy_request E H rio upstream req st =
     (case proxy_gate H req st of
        (st1, Inl r) \<Rightarrow> (st1, r)
      | (st1, Inr entry) \<Rightarrow>
          (case proxy_admit E H rio req entry st1 of
             (st2, Inl r) \<Rightarrow> (st2, r)
           | (st2, Inr fwd) \<Rightarrow> proxy_finish E H rio entry (upstream fwd) st2))"

text \<open>The guard of \<open>start_http_proxy\<close> and the loopback check of its implementation.\<close>

definition start_http_proxy ::
    "string \<Rightarrow> bool \<Rightarrow> proxy_registry \<Rightarrow> egress_proxy \<Rightarrow> (nat \<Rightarrow> u64) \<Rightarrow> string + proxy_state" where
  "start_http_proxy real_key bound_is_loopback reg eg budgets =
     (if real_key = [] then
        Inl (''egress proxy: ANTHROPIC_API_KEY is empty '' @ em_dash @
             '' set the key before enabling the proxy'')
      else if \<not> bound_is_loopback then Inl ''egress proxy: refusing to bind on non-loopback address''
      else Inr \<lparr>ps_registry = reg, ps_real_key = real_key, ps_egress = eg,
                ps_upstream_url = ANTHROPIC_MESSAGES_URL, ps_budgets = budgets\<rparr>)"

subsection \<open>What each operation leaves alone\<close>

lemma eg_record_simps [simp]:
  "eg_meter (eg_record a k d e) = eg_meter e"
  "denied_edges (eg_record a k d e) = denied_edges e"
  "eg_log (eg_record a k d e) = record_event a None k d (eg_log e)"
  by (simp_all add: eg_record_def)

lemma arm_edge_simps [simp]:
  "eg_meter (snd (arm_edge a r e)) = eg_meter e"
  "eg_log (snd (arm_edge a r e)) = eg_log e"
  by (simp_all add: arm_edge_def split: option.split)

lemma record_inference_meter [simp]: "eg_meter (record_inference E rio a m i n e) = eg_meter e"
  by (simp add: record_inference_def Let_def split: prod.split sum.split)

lemma receipt_denial_once_meter [simp]: "eg_meter (receipt_denial_once E rio a t r e) = eg_meter e"
  using arm_edge_simps(1) [of a r e]
  by (cases "arm_edge a r e") (simp add: receipt_denial_once_def Let_def split: prod.split sum.split)

lemma record_denied_policy_meter [simp]: "eg_meter (record_denied_policy E rio a t r e) = eg_meter e"
  by (simp add: record_denied_policy_def)

lemma record_proxy_failed_meter [simp]: "eg_meter (record_proxy_failed a r e) = eg_meter e"
  by (simp add: record_proxy_failed_def)

lemma with_egress_simps [simp]:
  "ps_budgets (with_egress f st) = ps_budgets st"
  "ps_egress (with_egress f st) = f (ps_egress st)"
  "ps_registry (with_egress f st) = ps_registry st"
  "ps_real_key (with_egress f st) = ps_real_key st"
  "ps_upstream_url (with_egress f st) = ps_upstream_url st"
  by (simp_all add: with_egress_def)

subsection \<open>What is forwarded\<close>

lemma collect_body_bound: "collect_body acc cs = Inr b \<Longrightarrow> length acc \<le> MAX_REQUEST_BODY_BYTES \<Longrightarrow>
    length b \<le> MAX_REQUEST_BODY_BYTES"
  by (induction acc cs rule: collect_body.induct) (auto split: if_splits)

lemma read_upstream_bound: "read_upstream acc cs = Inr b \<Longrightarrow> length acc \<le> MAX_PROXY_RESPONSE_BYTES \<Longrightarrow>
    length b \<le> MAX_PROXY_RESPONSE_BYTES"
  by (induction acc cs rule: read_upstream.induct) (auto split: if_splits)

lemma forward_headers_origin:
  "get (forward_headers H real_key headers) name = Some v \<Longrightarrow>
     name = ''x-api-key'' \<and> v = real_key \<or>
     name = ''content-type'' \<and> v = ''application/json'' \<or>
     name \<in> set PASSTHROUGH_HEADERS \<and> map_of headers name = Some v"
  by (auto simp: forward_headers_def PASSTHROUGH_HEADERS_def passthrough_def
      split: if_splits option.splits)

lemma forward_headers_key:
  "get (forward_headers H real_key headers) ''x-api-key'' = Some real_key"
  "get (forward_headers H real_key headers) ''content-type'' = Some ''application/json''"
  by (auto simp: forward_headers_def PASSTHROUGH_HEADERS_def passthrough_def split: option.split)

lemma proxy_gate_passes:
  assumes "proxy_gate H req st = (st1, Inr entry)"
  shows "st1 = st \<and> rq_path req = ''/v1/messages'' \<and> rq_method req = ''POST'' \<and>
    (\<exists>key. map_of (rq_headers req) ''x-api-key'' = Some key \<and> get (ps_registry st) key = Some entry)"
  using assms
  by (auto simp: proxy_gate_def header_str_def entry_for_key_def Let_def
      split: if_splits option.splits)

lemma proxy_admit_passes:
  assumes "proxy_admit E H rio req entry st = (st1, Inr fwd)"
  shows "st1 = st \<and> ps_budgets st (token_budget_remaining (pe_policy entry)) \<noteq> 0 \<and>
    (gm_ceiling (eg_meter (ps_egress st)) = 0 \<or>
     windowed (eg_meter (ps_egress st)) < gm_ceiling (eg_meter (ps_egress st))) \<and>
    length (ur_body fwd) \<le> MAX_REQUEST_BODY_BYTES \<and> ur_url fwd = ps_upstream_url st \<and>
    ur_headers fwd = forward_headers H (ps_real_key st) (rq_headers req)"
  using assms
  by (auto simp: proxy_admit_def ceiling_of_def not_le split: sum.splits if_splits
      intro: collect_body_bound [of "[]"])


subsection \<open>Accounting\<close>

text \<open>The tokens a finished request is charged.\<close>

definition outcome_tokens :: "http_lib \<Rightarrow> send_outcome \<Rightarrow> u64" where
  "outcome_tokens H outcome =
     (case outcome of
        SendOk resp \<Rightarrow>
          (case read_upstream [] (up_body resp) of
             Inr b \<Rightarrow> saturating_add (fst (parse_usage H b)) (snd (parse_usage H b))
           | Inl _ \<Rightarrow> 0)
      | _ \<Rightarrow> 0)"

lemma charge_effect:
  "ps_budgets (charge E rio entry toks st) =
     (ps_budgets st)(token_budget_remaining (pe_policy entry) :=
       saturating_sub (ps_budgets st (token_budget_remaining (pe_policy entry)))
         (saturating_add (fst toks) (snd toks)))"
  "eg_meter (ps_egress (charge E rio entry toks st)) =
     add_universal (saturating_add (fst toks) (snd toks)) (eg_meter (ps_egress st))"
  by (simp_all add: charge_def Let_def)

lemma proxy_finish_effect:
  assumes "proxy_finish E H rio entry outcome st = (st', resp)"
  shows "ps_budgets st' = (ps_budgets st)(token_budget_remaining (pe_policy entry) :=
      saturating_sub (ps_budgets st (token_budget_remaining (pe_policy entry))) (outcome_tokens H outcome))"
    and "eg_meter (ps_egress st') = add_universal (outcome_tokens H outcome) (eg_meter (ps_egress st))"
  using assms
  by (auto simp: proxy_finish_def outcome_tokens_def charge_effect Let_def add_universal_def
      split: send_outcome.splits sum.splits)

text \<open>
  Every forwarded request is charged exactly once and without wrap-around: the workload's
  budget falls by the reported tokens and stops at zero, no other workload's budget changes,
  the universal spend of the window grows by the same amount and stops at the largest
  \<open>u64\<close>, and a failed request is charged nothing. An upstream body passed on has at most 8 MB.\<close>

theorem proxy_finish_accounts:
  assumes "proxy_finish E H rio entry outcome st = (st', resp)"
  shows "(\<forall>ref. unat (ps_budgets st' ref) =
      unat (ps_budgets st ref) -
        (if ref = token_budget_remaining (pe_policy entry) then unat (outcome_tokens H outcome) else 0)) \<and>
    unat (universal_spent (eg_meter (ps_egress st'))) =
      min (unat (universal_spent (eg_meter (ps_egress st))) + unat (outcome_tokens H outcome)) (2 ^ 64 - 1) \<and>
    (\<forall>up. outcome = SendOk up \<and> hr_status resp \<notin> {502, 504} \<longrightarrow> length (hr_body resp) \<le> 8 * 1024 * 1024)"
proof -
  have "length (hr_body resp) \<le> 8 * 1024 * 1024"
    if "outcome = SendOk up" "hr_status resp \<notin> {502, 504}" for up
    using assms that read_upstream_bound [of "[]" "up_body up"]
    by (auto simp: proxy_finish_def Let_def json_error_response_def MAX_PROXY_RESPONSE_BYTES_def
        split: sum.splits)
  then show ?thesis
    using proxy_finish_effect [OF assms]
    by (auto simp: unat_saturating_sub add_universal_def universal_spent_def unat_saturating_add)
qed

subsection \<open>Signed denials are bounded by metered work\<close>

text \<open>The operations that touch the receipts of an agent, with their I/O.\<close>

datatype egress_op =
    OpInference receipt_io string string u64 u64
  | OpDenied receipt_io string string string
  | OpReceipt receipt_io string string string
  | OpForget string
  | OpFailed string string

primrec egress_op_step :: "egress_env \<Rightarrow> egress_op \<Rightarrow> egress_proxy \<Rightarrow> egress_proxy" where
  "egress_op_step E (OpInference rio a m i n) = record_inference E rio a m i n"
| "egress_op_step E (OpDenied rio a t r) = record_denied_policy E rio a t r"
| "egress_op_step E (OpReceipt rio a t r) = receipt_denial_once E rio a t r"
| "egress_op_step E (OpForget a) = forget_agent a"
| "egress_op_step E (OpFailed a r) = record_proxy_failed a r"

definition rearms :: "string \<Rightarrow> egress_op \<Rightarrow> bool" where
  "rearms a op' \<longleftrightarrow> (case op' of OpInference _ b _ _ _ \<Rightarrow> b = a | OpForget b \<Rightarrow> b = a | _ \<Rightarrow> False)"

definition is_signed_denial :: "string \<Rightarrow> string \<Rightarrow> event \<Rightarrow> bool" where
  "is_signed_denial a r ev \<longleftrightarrow>
     ev_agent ev = a \<and> ev_kind ev = EvActionReceiptEmitted \<and>
     json_get (ev_data ev) ''verdict'' = Some (JStr ''denied'') \<and>
     json_get (ev_data ev) ''reason'' = Some (JStr r)"

definition signed_denials :: "string \<Rightarrow> string \<Rightarrow> egress_proxy \<Rightarrow> nat" where
  "signed_denials a r e = length (filter (is_signed_denial a r) (eg_log e))"

definition edge_free :: "string \<Rightarrow> string \<Rightarrow> egress_proxy \<Rightarrow> nat" where
  "edge_free a r e =
     (case get (denied_edges e) a of None \<Rightarrow> 1 | Some rs \<Rightarrow> if r \<in> set rs then 0 else 1)"

lemma signed_denials_record [simp]:
  "signed_denials a r (eg_record b k d e) =
     signed_denials a r e +
     (if is_signed_denial a r \<lparr>ev_agent = b, ev_turn = None, ev_kind = k, ev_data = JObj d\<rparr> then 1 else 0)"
  by (simp add: signed_denials_def record_event_def)

lemma edge_free_record [simp]: "edge_free a r (eg_record b k d e) = edge_free a r e"
  by (simp add: edge_free_def)

lemma signed_denials_log [simp]: "signed_denials a r (e\<lparr>eg_writer := w, eg_fs := f\<rparr>) = signed_denials a r e"
  "edge_free a r (e\<lparr>eg_writer := w, eg_fs := f\<rparr>) = edge_free a r e"
  by (simp_all add: signed_denials_def edge_free_def)

lemma edge_free_le: "edge_free a r e \<le> 1"
  by (simp add: edge_free_def split: option.split)

lemma arm_edge_effect:
  assumes "arm_edge b q e = (first, e')"
  shows "signed_denials a r e' = signed_denials a r e"
    "edge_free a r e' = (if a = b \<and> r = q then 0 else edge_free a r e)"
    "first \<longleftrightarrow> edge_free b q e = 1"
  using assms
  by (cases "a = b"; auto simp: arm_edge_def signed_denials_def edge_free_def split: option.splits)+

lemma receipt_denial_once_effect:
  "signed_denials a r (receipt_denial_once E rio b t q e) + edge_free a r (receipt_denial_once E rio b t q e)
     \<le> signed_denials a r e + edge_free a r e"
proof -
  obtain first e' where arm: "arm_edge b q e = (first, e')" by fastforce
  note eff = arm_edge_effect [OF arm]
  obtain w f res where "Evidence.record_denied (ee_crypto E) (snd rio) (fst rio) ''inference'' t b
      (eg_writer e') (eg_fs e') = (w, f, res)" by (metis prod_cases3)
  then show ?thesis
    using arm eff edge_free_le [of a r e]
    by (auto simp: receipt_denial_once_def Let_def is_signed_denial_def json_get_def split: sum.split)
qed

lemma record_inference_effect:
  "signed_denials a r (record_inference E rio b m i n e) = signed_denials a r e \<and>
   edge_free a r (record_inference E rio b m i n e) = (if a = b then 1 else edge_free a r e)"
proof -
  let ?e = "e\<lparr>denied_edges := remove b (denied_edges e)\<rparr>"
  have "edge_free a r ?e = (if a = b then 1 else edge_free a r e)" "signed_denials a r ?e = signed_denials a r e"
    by (simp_all add: edge_free_def signed_denials_def)
  then show ?thesis
    by (auto simp: record_inference_def Let_def is_signed_denial_def json_get_def
        split: sum.split prod.split)
qed

lemma egress_op_effect:
  "signed_denials a r (egress_op_step E op' e) + edge_free a r (egress_op_step E op' e) \<le>
   signed_denials a r e + edge_free a r e + (if rearms a op' then 1 else 0)"
proof (cases op')
  case (OpInference rio b m i n)
  then show ?thesis
    using record_inference_effect [of a r E rio b m i n e] edge_free_le [of a r e]
    by (auto simp: rearms_def)
next
  case (OpDenied rio b t q)
  have "signed_denials a r (eg_record b EvEgressDenied
      [(''agent'', JStr b), (''attempted_dest'', JStr t), (''reason'', JStr q)] e) = signed_denials a r e"
    by (simp add: is_signed_denial_def)
  then show ?thesis
    using receipt_denial_once_effect [of a r E rio b t q "eg_record b EvEgressDenied
      [(''agent'', JStr b), (''attempted_dest'', JStr t), (''reason'', JStr q)] e"]
    by (simp add: OpDenied rearms_def record_denied_policy_def)
next
  case (OpReceipt rio b t q)
  then show ?thesis
    using receipt_denial_once_effect [of a r E rio b t q e] by (simp add: rearms_def)
next
  case (OpForget b)
  then show ?thesis
    by (auto simp: rearms_def forget_agent_def signed_denials_def edge_free_def split: option.split)
next
  case (OpFailed b q)
  then show ?thesis
    by (simp add: rearms_def record_proxy_failed_def is_signed_denial_def)
qed

text \<open>
  Signed denials are bounded by metered work and not by requests: over any sequence of
  mediator operations, with any I/O failures, an agent gets at most one signed denial for a
  reason beyond the number of its allowed inferences and terminations in that sequence.\<close>

theorem signed_denials_bounded:
  "signed_denials a r (fold (egress_op_step E) ops e) \<le>
     signed_denials a r e + 1 + length (filter (rearms a) ops)"
proof -
  have "signed_denials a r (fold (egress_op_step E) ops e) + edge_free a r (fold (egress_op_step E) ops e) \<le>
     signed_denials a r e + edge_free a r e + length (filter (rearms a) ops)"
  proof (induction ops arbitrary: e)
    case (Cons op' ops)
    from Cons.IH [of "egress_op_step E op' e"] egress_op_effect [of a r E op' e] show ?case
      by (simp split: if_splits)
  qed simp
  then show ?thesis using edge_free_le [of a r e] by linarith
qed

subsection \<open>Concurrent requests\<close>

text \<open>
  The connections of the proxy: requests that have passed the gate and collect their bodies,
  and requests that wait for the upstream. At most \<open>N\<close> of these are under way at a time and
  each reply reports at most \<open>T\<close> tokens.
\<close>

record proxy_sys =
  sys_state :: proxy_state
  sys_gated :: "(http_request \<times> proxy_entry) list"
  sys_inflight :: "proxy_entry list"

inductive proxy_step :: "egress_env \<Rightarrow> http_lib \<Rightarrow> nat \<Rightarrow> nat \<Rightarrow> proxy_sys \<Rightarrow> proxy_sys \<Rightarrow> bool"
  for E H N T where
  gate_reject: "proxy_gate H req (sys_state s) = (st, Inl r) \<Longrightarrow>
     proxy_step E H N T s (s\<lparr>sys_state := st\<rparr>)"
| gate_pass: "proxy_gate H req (sys_state s) = (st, Inr entry) \<Longrightarrow>
     proxy_step E H N T s (s\<lparr>sys_state := st, sys_gated := (req, entry) # sys_gated s\<rparr>)"
| admit_reject: "(req, entry) \<in> set (sys_gated s) \<Longrightarrow>
     proxy_admit E H rio req entry (sys_state s) = (st, Inl r) \<Longrightarrow>
     proxy_step E H N T s (s\<lparr>sys_state := st, sys_gated := remove1 (req, entry) (sys_gated s)\<rparr>)"
| admit_pass: "(req, entry) \<in> set (sys_gated s) \<Longrightarrow> length (sys_inflight s) < N \<Longrightarrow>
     proxy_admit E H rio req entry (sys_state s) = (st, Inr fwd) \<Longrightarrow>
     proxy_step E H N T s (s\<lparr>sys_state := st, sys_gated := remove1 (req, entry) (sys_gated s),
       sys_inflight := entry # sys_inflight s\<rparr>)"
| finish: "entry \<in> set (sys_inflight s) \<Longrightarrow> unat (outcome_tokens H outcome) \<le> T \<Longrightarrow>
     proxy_finish E H rio entry outcome (sys_state s) = (st, resp) \<Longrightarrow>
     proxy_step E H N T s (s\<lparr>sys_state := st, sys_inflight := remove1 entry (sys_inflight s)\<rparr>)"
| registered: "proxy_step E H N T s
     (s\<lparr>sys_state := (sys_state s)\<lparr>ps_registry := register key entry (ps_registry (sys_state s))\<rparr>\<rparr>)"
| deregistered: "proxy_step E H N T s
     (s\<lparr>sys_state := (sys_state s)\<lparr>ps_registry := deregister_by_key key (ps_registry (sys_state s))\<rparr>\<rparr>)"
| window_reset: "proxy_step E H N T s
     (s\<lparr>sys_state := with_egress (\<lambda>e. e\<lparr>eg_meter := rebase_universal (eg_meter e)\<rparr>) (sys_state s)\<rparr>)"

definition sys_meter :: "proxy_sys \<Rightarrow> global_budget_meter" where
  "sys_meter s = eg_meter (ps_egress (sys_state s))"

lemma windowed_add_universal: "unat (windowed (add_universal t m)) \<le> unat (windowed m) + unat t"
  by (auto simp: windowed_def universal_windowed_def add_universal_def Let_def unat_saturating_add
      unat_saturating_sub min_def)

lemma windowed_rebase: "unat (windowed (rebase_universal m)) \<le> unat (windowed m)"
  using unsigned_less [where ?'a = nat, of "gm_native_lifetime m"]
  by (auto simp: windowed_def universal_windowed_def rebase_universal_def Let_def unat_saturating_add
      unat_saturating_sub min_def)

lemma proxy_gate_meter: "proxy_gate H req st = (st', r) \<Longrightarrow> eg_meter (ps_egress st') = eg_meter (ps_egress st)"
  by (auto simp: proxy_gate_def Let_def split: if_splits option.splits)

lemma proxy_admit_meter: "proxy_admit E H rio req entry st = (st', r) \<Longrightarrow>
    eg_meter (ps_egress st') = eg_meter (ps_egress st)"
  by (auto simp: proxy_admit_def split: if_splits sum.splits)

definition window_inv :: "nat \<Rightarrow> nat \<Rightarrow> u64 \<Rightarrow> proxy_sys \<Rightarrow> bool" where
  "window_inv N T c s \<longleftrightarrow>
     gm_ceiling (sys_meter s) = c \<and> length (sys_inflight s) \<le> N \<and>
     unat (windowed (sys_meter s)) + T * length (sys_inflight s) < unat c + T * N"

lemma window_inv_step:
  assumes "proxy_step E H N T s s'" "c \<noteq> 0" "window_inv N T c s"
  shows "window_inv N T c s'"
  using assms
proof (induction rule: proxy_step.induct)
  case (gate_reject req s st r)
  then show ?case by (simp add: window_inv_def sys_meter_def proxy_gate_meter)
next
  case (gate_pass req s st entry)
  then show ?case by (simp add: window_inv_def sys_meter_def proxy_gate_meter)
next
  case (admit_reject req entry s rio st r)
  then show ?case by (simp add: window_inv_def sys_meter_def proxy_admit_meter)
next
  case (admit_pass req entry s rio st fwd)
  have "windowed (sys_meter s) < c"
    using proxy_admit_passes [OF admit_pass(3)] admit_pass(4,5) by (simp add: window_inv_def sys_meter_def)
  then have "unat (windowed (sys_meter s)) < unat c" by (simp add: word_less_nat_alt)
  moreover have "T * Suc (length (sys_inflight s)) \<le> T * N"
    using admit_pass(2) by (intro mult_le_mono2) simp
  ultimately show ?case
    using admit_pass(2,5) proxy_admit_meter [OF admit_pass(3)]
    by (auto simp: window_inv_def sys_meter_def)
next
  case (finish entry s outcome rio st resp)
  have len: "length (sys_inflight s) = Suc (length (remove1 entry (sys_inflight s)))"
    using finish(1) length_pos_if_in_set [OF finish(1)] by (simp add: length_remove1)
  have "unat (windowed (add_universal (outcome_tokens H outcome) (sys_meter s))) \<le>
      unat (windowed (sys_meter s)) + T"
    using windowed_add_universal [of "outcome_tokens H outcome" "sys_meter s"] finish(2) by linarith
  then show ?case
    using finish(5) len proxy_finish_effect(2) [OF finish(3)]
    by (auto simp: window_inv_def sys_meter_def add_universal_def algebra_simps)
next
  case (registered s key entry)
  then show ?case by (simp add: window_inv_def sys_meter_def)
next
  case (deregistered s key)
  then show ?case by (simp add: window_inv_def sys_meter_def)
next
  case (window_reset s)
  have "gm_ceiling (rebase_universal m) = gm_ceiling m" for m by (simp add: rebase_universal_def)
  then show ?case
    using window_reset windowed_rebase [of "sys_meter s"]
    by (simp add: window_inv_def sys_meter_def)
qed


subsection \<open>A concrete proxy, for the witnesses\<close>

definition sample_http :: http_lib where
  "sample_http =
     \<lparr>hv_to_str_ok = (\<lambda>_. True), hv_from_str_ok = (\<lambda>_. True), hv_from_bytes_ok = (\<lambda>_. True),
      json_parse = (\<lambda>s. Some (JObj [(''usage'', JObj [(''input_tokens'', JNat 3), (''output_tokens'', JNat 4)])])),
      json_print = (\<lambda>_. ''{}''),
      json_as_f64 = (\<lambda>v. case v of JNum x \<Rightarrow> Some x | _ \<Rightarrow> None)\<rparr>"

definition sample_entry :: proxy_entry where
  "sample_entry = \<lparr>pe_agent_id = ''w'', pe_policy = \<lparr>allowed_hosts = [], token_budget_remaining = 0\<rparr>\<rparr>"

definition sample_request :: http_request where
  "sample_request =
     \<lparr>rq_method = ''POST'', rq_path = ''/v1/messages'',
      rq_headers = [(''x-api-key'', ''eph''), (''cookie'', ''c''), (''anthropic-beta'', ''b'')],
      rq_body = [Some ''hello'']\<rparr>"

definition sample_env :: egress_env where
  "sample_env =
     \<lparr>ee_crypto = \<lparr>sha256 = (\<lambda>s. s), sign = (\<lambda>s. s), verify_sig = (\<lambda>_ _ _. True),
        body_json = (\<lambda>_. None), receipt_json = (\<lambda>_. None), parse_receipt = (\<lambda>_. None)\<rparr>,
      ee_err_str = (\<lambda>_. ''error'')\<rparr>"

definition sample_rio :: receipt_io where
  "sample_rio =
     (''now'', \<lparr>io_rotate = \<lparr>io_park = True, io_shift = (\<lambda>_. True), io_live = True, io_unlink = True, io_reopen = True\<rparr>,
        io_rotate_flush = None, io_line_flush = None, io_line_direct = None, io_nl_flush = None,
        io_flush = None, io_sync = True\<rparr>)"

definition sample_proxy :: proxy_state where
  "sample_proxy =
     \<lparr>ps_registry = register ''eph'' sample_entry [], ps_real_key = ''real'',
      ps_egress = with_global_ceiling 10 (egress_new
        \<lparr>ew_inner = \<lparr>chain_seq = 0, chain_prev_hash = GENESIS_HASH, wr_inode = 0, wr_buf = [],
           seg_bytes = 0, rotation_broken = False\<rparr>, ew_path = ''e'', ew_cap = 100\<rparr>
        \<lparr>fs_names = [(''e'', 0)], fs_data = (\<lambda>_. []), fs_next = 1\<rparr> []),
      ps_upstream_url = ANTHROPIC_MESSAGES_URL, ps_budgets = (\<lambda>_. 5)\<rparr>"

definition sample_forward :: upstream_request where
  "sample_forward =
     \<lparr>ur_url = ANTHROPIC_MESSAGES_URL,
      ur_headers = [(''x-api-key'', ''real''), (''anthropic-beta'', ''b''), (''content-type'', ''application/json'')],
      ur_body = ''hello''\<rparr>"

lemma sample_gate: "proxy_gate sample_http sample_request sample_proxy = (sample_proxy, Inr sample_entry)"
proof -
  have "\<not> str_contains ''text/event-stream'' []" by code_simp
  then show ?thesis
    by (simp add: proxy_gate_def sample_http_def sample_request_def sample_proxy_def header_str_def
        entry_for_key_def register_def)
qed

lemma sample_admit:
  "proxy_admit sample_env sample_http sample_rio sample_request sample_entry sample_proxy =
     (sample_proxy, Inr sample_forward)"
  by (simp add: proxy_admit_def sample_request_def sample_proxy_def sample_entry_def sample_http_def
      sample_forward_def MAX_REQUEST_BODY_BYTES_def ceiling_of_def with_global_ceiling_def egress_new_def
      meter_default_def windowed_def universal_windowed_def forward_headers_def PASSTHROUGH_HEADERS_def
      passthrough_def)


definition sample_reply :: send_outcome where
  "sample_reply = SendOk \<lparr>up_status = 200, up_content_type = None, up_body = [Some ''ok'']\<rparr>"

lemma sample_tokens: "outcome_tokens sample_http sample_reply = 7"
  by (simp add: outcome_tokens_def sample_reply_def MAX_PROXY_RESPONSE_BYTES_def parse_usage_def
      sample_http_def usage_field_def json_get_def f64_as_u64_def saturating_add_def)

definition sample_done :: proxy_state where
  "sample_done = fst (proxy_finish sample_env sample_http sample_rio sample_entry sample_reply sample_proxy)"

theorem proxy_finish_accounts_witness:
  "unat (ps_budgets sample_done 0) = 0 \<and> unat (ps_budgets sample_done 1) = 5 \<and>
   unat (universal_spent (eg_meter (ps_egress sample_done))) = 7"
  using proxy_finish_accounts [OF prod.collapse [symmetric],
      of sample_env sample_http sample_rio sample_entry sample_reply sample_proxy]
  by (simp add: sample_tokens sample_done_def [symmetric])
    (simp add: sample_proxy_def sample_entry_def with_global_ceiling_def egress_new_def meter_default_def
      universal_spent_def)

definition sample_sys :: proxy_sys where
  "sample_sys = \<lparr>sys_state = sample_proxy, sys_gated = [(sample_request, sample_entry)], sys_inflight = []\<rparr>"


end
