(* ===== verification/Scheduler.thy ===== *)
theory Scheduler
  imports Universal Egress "HOL-Library.Char_ord" "HOL-Library.List_Lexorder"
begin

section \<open>The scheduler (\<open>agentd/src/scheduler.rs\<close>)\<close>

text \<open>
  The state of a run and the handlers that change it. \<open>SchedulerState\<close> is the record
  \<open>sched_state\<close>: hash maps are association lists in an arbitrary order, hash sets are lists, the
  binary heap of deferred requests is a list whose maximum is popped, and the futures that are
  being polled are the descriptions in \<open>pending\<close>. The flight recorder and the egress mediator
  share one log, the field \<open>flight\<close>.

  \<open>enqueue_or_defer\<close>, \<open>handle_agent_terminal\<close> and the dispatchers call each other. Every handler
  here takes the recursive \<open>enqueue_or_defer\<close> as its first argument; \<open>enq_fuel\<close> ties the knot with
  a depth bound and \<open>enqueue_or_defer\<close> starts it with one that depends on the state only.
  An index into a map that would panic in the source is \<open>Inl Panic\<close>.

  Clocks and the outcomes of disk writes are functions of the position in the flight log at which
  they are read, so that two reads of one handler may differ.
\<close>

subsection \<open>State\<close>

record deferred_infer =
  df_priority :: u32
  df_seq :: u64
  df_agent :: string
  df_request :: inference_request
  df_turn :: u32

text \<open>\<open>Ord for DeferredInfer\<close>: higher priority first, then the lower sequence number.\<close>

definition deferred_less :: "deferred_infer \<Rightarrow> deferred_infer \<Rightarrow> bool" where
  "deferred_less a b \<longleftrightarrow>
     df_priority a < df_priority b \<or> df_priority a = df_priority b \<and> df_seq b < df_seq a"

record awaiting_parent =
  aw_parent :: string
  aw_call :: string
  deliver_content :: bool

record parked_approval =
  pk_agent :: string
  pk_call :: string
  pk_action :: pending_action_request
  pk_created :: nat

datatype pending_fut =
    PendInference string u32 inference_request
  | PendTools string u32 "capability list option" "block list"

datatype run_event =
    RunOpen string "string option" string "u64 option" string
  | RunClose string string "string option" "string option" "u64 option"
  | RunIncrApproval string

type_synonym outcome = "string + string"

record sched_state =
  agents :: "(string, agent_task) hashmap"
  outcomes :: "(string, outcome) hashmap"
  pending :: "pending_fut list"
  deferred :: "deferred_infer list"
  deferred_seq :: u64
  in_flight :: nat
  tokens_spent :: u64
  budget_window_start :: u64
  global_window_anchor :: u64
  ss_budget_resettable :: bool
  awaiting :: "(string, awaiting_parent) hashmap"
  child_seq :: u64
  spawn_depths :: "(string, u32) hashmap"
  parent_map :: "(string, string) hashmap"
  ss_max_spawn_depth :: u32
  mailboxes :: "(string, mail_message list) hashmap"
  shutdown_requested :: bool
  pending_approvals :: "(string, parked_approval) hashmap"
  approval_seq :: u64
  has_control :: bool
  egress :: "egress_proxy option"
  registry_of_keys :: "Egress.proxy_registry option"
  universal_agents :: "(string, universal_agent) hashmap"
  orchestrated :: "string list"
  waiting :: "string list"
  cancel_requested :: "(string, string) hashmap"
  universal_cancel_requested :: "string list"
  run_tracker :: "run_event list option"
  jobs :: "(string, job) hashmap"
  job_schedules :: "(string, job_schedule_state) hashmap"
  ss_native_cron_shadow :: bool
  live_job_runs :: "(string, string list) hashmap"
  child_job :: "(string, string) hashmap"
  flight :: flight_log

text \<open>
  What the handlers take from outside: the tool registry with the capability each tool asks for
  on a null input, the model name of the gateway, Rust's \<open>Debug\<close> output of capabilities and
  strings, and the clocks.
\<close>

record tool_entry =
  te_spec :: tool_spec
  te_probe :: "capability option"

record sched_env = agent_ext +
  se_tools :: "tool_entry list"
  se_anchor :: string
  se_model_id :: string
  se_egress :: egress_env
  se_default_model :: model_config
  debug_cap :: "capability \<Rightarrow> string"
  debug_str :: "string \<Rightarrow> string"
  json_cap :: "capability \<Rightarrow> json"
  rio_at :: "nat \<Rightarrow> receipt_io"
  instant_at :: "nat \<Rightarrow> nat"
  date_at :: "nat \<Rightarrow> string"
  time_at :: "nat \<Rightarrow> string"
  nanos_at :: "nat \<Rightarrow> int"
  secs_at :: "nat \<Rightarrow> u64"
  saved_at :: "nat \<Rightarrow> bool"

datatype stop = OutOfFuel | Panic

type_synonym sched_res = "stop + sched_state"

type_synonym enq =
  "agent_effect \<Rightarrow> string \<Rightarrow> u32 \<Rightarrow> u32 \<Rightarrow> capability list option \<Rightarrow> sched_state \<Rightarrow> sched_res"

definition filtered_specs :: "sched_env \<Rightarrow> capability list option \<Rightarrow> tool_spec list" where
  "filtered_specs E cap_set =
     sort_key spec_name
       (case cap_set of
          None \<Rightarrow> map te_spec (se_tools E)
        | Some caps \<Rightarrow>
            map te_spec (filter (\<lambda>t. case te_probe t of
                None \<Rightarrow> True
              | Some required \<Rightarrow> satisfies_type (se_anchor E) caps required) (se_tools E)))"

definition note_event ::
    "string \<Rightarrow> u32 option \<Rightarrow> event_kind \<Rightarrow> (string \<times> json) list \<Rightarrow> sched_state \<Rightarrow> sched_state" where
  "note_event aid tn kind data s = s\<lparr>flight := record_event aid tn kind data (flight s)\<rparr>"

definition on_egress :: "(egress_proxy \<Rightarrow> egress_proxy) \<Rightarrow> sched_state \<Rightarrow> sched_state" where
  "on_egress f s =
     (case egress s of
        None \<Rightarrow> s
      | Some e \<Rightarrow> let e' = f (e\<lparr>eg_log := flight s\<rparr>) in s\<lparr>egress := Some e', flight := eg_log e'\<rparr>)"

definition run_send :: "run_event \<Rightarrow> sched_state \<Rightarrow> sched_state" where
  "run_send ev s = s\<lparr>run_tracker := map_option (\<lambda>q. q @ [ev]) (run_tracker s)\<rparr>"

subsection \<open>The budget\<close>

definition universal_lifetime_spent :: "sched_state \<Rightarrow> u64" where
  "universal_lifetime_spent s =
     (case egress s of None \<Rightarrow> 0 | Some e \<Rightarrow> universal_spent (eg_meter e))"

definition universal_windowed_spent :: "sched_state \<Rightarrow> u64" where
  "universal_windowed_spent s =
     (case egress s of None \<Rightarrow> 0 | Some e \<Rightarrow> universal_windowed (eg_meter e))"

definition combined_lifetime_spent :: "sched_state \<Rightarrow> u64" where
  "combined_lifetime_spent s = saturating_add (tokens_spent s) (universal_lifetime_spent s)"

definition global_windowed_spent :: "sched_state \<Rightarrow> u64" where
  "global_windowed_spent s =
     saturating_add (saturating_sub (tokens_spent s) (global_window_anchor s))
       (universal_windowed_spent s)"

definition publish_budget :: "sched_state \<Rightarrow> sched_state" where
  "publish_budget s =
     on_egress (\<lambda>e. e\<lparr>eg_meter := publish (tokens_spent s) (global_window_anchor s) (eg_meter e)\<rparr>) s"

definition rebase_universal_window :: "sched_state \<Rightarrow> sched_state" where
  "rebase_universal_window s = on_egress (\<lambda>e. e\<lparr>eg_meter := rebase_universal (eg_meter e)\<rparr>) s"

definition slot_ok :: "scheduler_config \<Rightarrow> sched_state \<Rightarrow> bool" where
  "slot_ok sc s \<longleftrightarrow> max_concurrent_inferences sc = 0 \<or> in_flight s < max_concurrent_inferences sc"

definition global_ok :: "scheduler_config \<Rightarrow> sched_state \<Rightarrow> bool" where
  "global_ok sc s \<longleftrightarrow> global_token_budget sc = 0 \<or> global_windowed_spent s < global_token_budget sc"

definition per_agent_over :: "string \<Rightarrow> sched_state \<Rightarrow> bool" where
  "per_agent_over aid s =
     (case get (agents s) aid of
        None \<Rightarrow> False
      | Some a \<Rightarrow> token_budget (cfg a) \<noteq> 0 \<and> token_budget (cfg a) \<le> windowed_spent a)"

definition BUDGET_REMEDY :: string where
  "BUDGET_REMEDY = ''set [scheduler] budget_reset_interval (e.g. 86400) or POST /api/v1/budget/reset''"

subsection \<open>Feeding an agent\<close>

text \<open>
  The block that every dispatcher repeats: give the agent one tool result, step it, and hand the
  effect on.
\<close>

definition answer_call :: "enq \<Rightarrow> sched_env \<Rightarrow> string \<Rightarrow> string \<Rightarrow> string \<Rightarrow> bool \<Rightarrow> sched_state \<Rightarrow> sched_res" where
  "answer_call enq E aid call content is_error s =
     (case get (agents s) aid of
        None \<Rightarrow> Inl Panic
      | Some a \<Rightarrow>
          case provide_tool_results [ToolResult call content is_error] a (flight s) of
            (a1, lg1) \<Rightarrow>
              case step E a1 lg1 of
                (a2, lg2, effect) \<Rightarrow>
                  enq effect aid (turn a1) (ac_priority (cfg a)) (capabilities (cfg a))
                    (s\<lparr>agents := put aid a2 (agents s), flight := lg2\<rparr>))"

text \<open>The first step of a new agent.\<close>

definition seed_agent :: "enq \<Rightarrow> sched_env \<Rightarrow> string \<Rightarrow> u32 \<Rightarrow> sched_state \<Rightarrow> sched_res" where
  "seed_agent enq E aid priority s =
     (case get (agents s) aid of
        None \<Rightarrow> Inl Panic
      | Some a \<Rightarrow>
          case step E a (flight s) of
            (a', lg', effect) \<Rightarrow>
              enq effect aid (turn a) priority (capabilities (cfg a))
                (s\<lparr>agents := put aid a' (agents s), flight := lg'\<rparr>))"

subsection \<open>The end of an agent\<close>

definition consume_cancel :: "string \<Rightarrow> sched_state \<Rightarrow> sched_state" where
  "consume_cancel aid s =
     (let s1 = s\<lparr>cancel_requested := remove aid (cancel_requested s)\<rparr>
      in case get (cancel_requested s) aid of
           None \<Rightarrow> s1
         | Some cause \<Rightarrow>
             (let s2 = note_event aid None EvAgentCancelled
                    [(''agent_id'', JStr aid), (''cause'', JStr cause)] s1
              in s2\<lparr>deferred := filter (\<lambda>d. df_agent d \<noteq> aid) (deferred s2),
                    pending_approvals := filter (\<lambda>(_, p). pk_agent p \<noteq> aid) (pending_approvals s2)\<rparr>))"

definition leave_orchestration :: "string \<Rightarrow> sched_state \<Rightarrow> sched_state" where
  "leave_orchestration aid s =
     s\<lparr>waiting := removeAll aid (waiting s), orchestrated := removeAll aid (orchestrated s)\<rparr>"

definition release_lease :: "string \<Rightarrow> sched_state \<Rightarrow> sched_state" where
  "release_lease aid s =
     (case get (child_job s) aid of
        None \<Rightarrow> s
      | Some j \<Rightarrow>
          s\<lparr>child_job := remove aid (child_job s),
            live_job_runs :=
              (case get (live_job_runs s) j of
                 None \<Rightarrow> live_job_runs s
               | Some live \<Rightarrow>
                   let live' = removeAll aid live
                   in if live' = [] then remove j (live_job_runs s) else put j live' (live_job_runs s))\<rparr>)"

definition close_run :: "string \<Rightarrow> string option \<Rightarrow> outcome \<Rightarrow> sched_state \<Rightarrow> sched_state" where
  "close_run aid cancel_cause result s =
     (let end_tokens = map_option context_tokens (get (agents s) aid)
      in run_send
           (if cancel_cause \<noteq> None then RunClose aid ''cancelled'' (Some ''operator_cancelled'') None end_tokens
            else
              (case result of
                 Inr _ \<Rightarrow> RunClose aid ''done'' (Some ''completed'') None end_tokens
               | Inl e \<Rightarrow> RunClose aid ''failed'' None (Some e) end_tokens)) s)"

definition detach_child :: "string \<Rightarrow> sched_state \<Rightarrow> sched_state" where
  "detach_child aid s =
     s\<lparr>awaiting := remove aid (awaiting s), spawn_depths := remove aid (spawn_depths s),
       agents := remove aid (agents s)\<rparr>"

definition child_content :: "string \<Rightarrow> bool \<Rightarrow> outcome \<Rightarrow> string" where
  "child_content aid deliver result =
     (case result of
        Inr answer \<Rightarrow> if deliver then answer else ''job '' @ [CHR 0x27] @ aid @ [CHR 0x27] @ '' completed''
      | Inl e \<Rightarrow> if deliver then e else ''job '' @ [CHR 0x27] @ aid @ [CHR 0x27] @ '' failed'')"

definition parent_live :: "string \<Rightarrow> sched_state \<Rightarrow> bool" where
  "parent_live pid s \<longleftrightarrow>
     contains_key (agents s) pid \<and> \<not> contains_key (outcomes s) pid \<and>
     \<not> contains_key (cancel_requested s) pid"

definition deliver_result ::
    "enq \<Rightarrow> sched_env \<Rightarrow> string \<Rightarrow> outcome \<Rightarrow> awaiting_parent \<Rightarrow> sched_state \<Rightarrow> sched_res" where
  "deliver_result enq E aid result aw s0 =
     (let pid = aw_parent aw;
          s = note_event pid None EvAgentChildResultDelivered
                [(''child_id'', JStr aid), (''parent_id'', JStr pid), (''call_id'', JStr (aw_call aw)),
                 (''success'', JBool (\<not> isl result))] s0
      in if parent_live pid s then
           answer_call enq E pid (aw_call aw) (child_content aid (deliver_content aw) result) (isl result) s
         else
           Inr (note_event pid None EvError
             [(''stage'', JStr ''child_result''),
              (''error'', JStr (''parent agent not live (gone, terminal, or cancelled) when delivering child result '' @
                 em_dash @ '' delivery skipped'')),
              (''child_id'', JStr aid), (''parent_id'', JStr pid)] s))"

definition retire :: "string \<Rightarrow> bool \<Rightarrow> outcome \<Rightarrow> sched_state \<Rightarrow> sched_state" where
  "retire aid was_job_child result s =
     (let s1 = (if was_job_child then
                  s\<lparr>agents := remove aid (agents s), spawn_depths := remove aid (spawn_depths s),
                    mailboxes := remove aid (mailboxes s)\<rparr>
                else s)
      in s1\<lparr>outcomes := put aid result (outcomes s1)\<rparr>)"

text \<open>Everything a termination does before it looks for a waiting parent.\<close>

definition wind_up :: "string \<Rightarrow> outcome \<Rightarrow> sched_state \<Rightarrow> sched_state" where
  "wind_up aid result s =
     close_run aid (get (cancel_requested s) aid) result
       (on_egress (forget_agent aid) (release_lease aid (leave_orchestration aid (consume_cancel aid s))))"

definition handle_agent_terminal ::
    "enq \<Rightarrow> sched_env \<Rightarrow> string \<Rightarrow> outcome \<Rightarrow> sched_state \<Rightarrow> sched_res" where
  "handle_agent_terminal enq E aid result s0 =
     (let was_job_child = contains_key (child_job s0) aid;
          s = wind_up aid result s0
      in case get (awaiting s) aid of
           Some aw \<Rightarrow> deliver_result enq E aid result aw (detach_child aid s)
         | None \<Rightarrow> Inr (retire aid was_job_child result s))"

subsection \<open>Admission of an inference\<close>

definition admit ::
    "string \<Rightarrow> u32 \<Rightarrow> inference_request \<Rightarrow> (string \<times> json) list \<Rightarrow> sched_state \<Rightarrow> sched_state" where
  "admit aid tn req reason s =
     (let s1 = s\<lparr>in_flight := in_flight s + 1\<rparr>;
          s2 = note_event aid (Some tn) EvAgentScheduled
                 (reason @ [(''in_flight'', JNat (in_flight s1))]) s1
      in s2\<lparr>pending := pending s2 @ [PendInference aid tn req]\<rparr>)"

definition defer_infer :: "u32 \<Rightarrow> string \<Rightarrow> inference_request \<Rightarrow> u32 \<Rightarrow> sched_state \<Rightarrow> sched_state" where
  "defer_infer priority aid req tn s =
     s\<lparr>deferred_seq := deferred_seq s + 1,
       deferred := \<lparr>df_priority = priority, df_seq = deferred_seq s, df_agent = aid,
                    df_request = req, df_turn = tn\<rparr> # deferred s\<rparr>"

text \<open>\<open>eg.receipt_denial_once(agent, gateway.model_id(), reason)\<close>\<close>

definition receipt_denial :: "sched_env \<Rightarrow> string \<Rightarrow> string \<Rightarrow> sched_state \<Rightarrow> sched_state" where
  "receipt_denial E aid reason s =
     on_egress (receipt_denial_once (se_egress E) (rio_at E (length (flight s))) aid (se_model_id E) reason) s"

definition enqueue_infer ::
    "enq \<Rightarrow> sched_env \<Rightarrow> scheduler_config \<Rightarrow> string \<Rightarrow> u32 \<Rightarrow> u32 \<Rightarrow> inference_request \<Rightarrow>
     sched_state \<Rightarrow> sched_res" where
  "enqueue_infer enq E sc aid tn priority req s =
     (let budget_ok = (global_ok sc s \<and> \<not> per_agent_over aid s) in
      if slot_ok sc s \<and> budget_ok then Inr (admit aid tn req [] s)
      else if \<not> budget_ok then
        let reason = (if \<not> global_ok sc s then ''global_budget_exhausted'' else ''agent_budget_exhausted'');
            s1 = note_event aid (Some tn) EvAgentAdmissionDenied
                   [(''reason'', JStr reason), (''tokens_spent'', JWord (tokens_spent s)),
                    (''remedy'', JStr BUDGET_REMEDY)] s
        in if 0 < budget_reset_interval sc then Inr (defer_infer priority aid req tn s1)
           else handle_agent_terminal enq E aid
                  (Inl (''admission denied: '' @ reason @ '' ('' @ BUDGET_REMEDY @ '')''))
                  (receipt_denial E aid reason s1)
      else
        Inr (defer_infer priority aid req tn
          (note_event aid (Some tn) EvAgentDeferred
             [(''priority'', JWord priority), (''seq'', JWord (deferred_seq s)),
              (''in_flight'', JNat (in_flight s))] s)))"

subsection \<open>Spawning\<close>

definition child_id_byte :: "char \<Rightarrow> bool" where
  "child_id_byte c \<longleftrightarrow> is_ascii_alphanumeric c \<or> c = CHR ''_'' \<or> c = CHR ''-''"

definition validate_segment :: "(string \<Rightarrow> string) \<Rightarrow> string \<Rightarrow> string \<Rightarrow> string + unit" where
  "validate_segment dbg x label =
     (if x = [] then Inl (label @ '' must not be empty'')
      else if 1024 < length x then
        Inl (label @ '' exceeds 1024 bytes (got '' @ show_nat (length x) @ '')'')
      else if \<not> list_all (\<lambda>c. child_id_byte c \<or> c = CHR '':'' \<or> c = CHR ''.'' \<or> c = CHR ''/'') x then
        Inl (label @ '' contains invalid characters; allowed: [a-zA-Z0-9_'' @ [CHR 0x5C] @ ''-:./], got: '' @ dbg x)
      else Inr ())"

definition validate_child_id :: "(string \<Rightarrow> string) \<Rightarrow> string \<Rightarrow> string + unit" where
  "validate_child_id dbg x =
     (case validate_segment dbg x ''child_id'' of
        Inl e \<Rightarrow> Inl e
      | Inr _ \<Rightarrow>
          if list_all child_id_byte x then Inr ()
          else Inl (''child_id must match [a-zA-Z0-9_-]; '' @ [CHR 0x27] @ '':'' @ [CHR 0x27] @ '', '' @
                 [CHR 0x27] @ ''/'' @ [CHR 0x27] @ '', and '' @ [CHR 0x27] @ ''.'' @ [CHR 0x27] @ '' are reserved''))"

text \<open>The configuration of an agent that the scheduler creates.\<close>

definition native_config ::
    "string \<Rightarrow> string \<Rightarrow> u32 \<Rightarrow> u64 \<Rightarrow> u32 \<Rightarrow> capability list option \<Rightarrow> agent_config" where
  "native_config cid task turns budget priority caps =
     \<lparr>ac_id = cid, ac_task = task, max_turns = turns, token_budget = budget, ac_priority = priority,
      capabilities = caps, ac_name = None, ac_description = [], ac_skills = [], ac_tier = Native,
      ac_command = None, ac_args = [], ac_isolation = IsoNone, max_wall_seconds = 0\<rparr>"

definition new_native ::
    "sched_env \<Rightarrow> scheduler_config \<Rightarrow> agent_config \<Rightarrow> model_config \<Rightarrow> sched_state \<Rightarrow> agent_task" where
  "new_native E sc c mc s =
     set_budget_resettable (0 < budget_reset_interval sc)
       (agent_new (instant_at E (length (flight s))) (ac_id c) (ac_task c) c mc
          (filtered_specs E (capabilities c)))"

text \<open>The first requested capability that the parent does not cover.\<close>

definition uncovered :: "string \<Rightarrow> capability list option \<Rightarrow> capability list option \<Rightarrow> capability option" where
  "uncovered anchor requested parent_caps =
     (case (requested, parent_caps) of
        (Some rs, Some ps) \<Rightarrow> find (\<lambda>c. \<not> capability_covered_by anchor ps c) rs
      | _ \<Rightarrow> None)"

definition register_child ::
    "string \<Rightarrow> string \<Rightarrow> u32 \<Rightarrow> string \<Rightarrow> agent_task \<Rightarrow> sched_state \<Rightarrow> sched_state" where
  "register_child pid call parent_depth cid child s =
     (let s1 = s\<lparr>agents := put cid child (agents s)\<rparr>;
          s2 = run_send (RunOpen cid (Some pid) ''child_spawn'' (Some (context_tokens child)) ''native'') s1;
          s3 = s2\<lparr>awaiting := put cid \<lparr>aw_parent = pid, aw_call = call, deliver_content = True\<rparr> (awaiting s2),
                  spawn_depths := put cid (parent_depth + 1) (spawn_depths s2),
                  parent_map := put cid pid (parent_map s2),
                  mailboxes := or_insert cid [] (mailboxes s2)\<rparr>
      in note_event cid None EvAgentSpawned
           [(''parent_id'', JStr pid), (''task_preview'', JStr (truncate_chars (ac_task (cfg child)) PREVIEW_CHARS)),
            (''depth'', JWord (parent_depth + 1))] s3)"

definition spawn_child ::
    "sched_env \<Rightarrow> scheduler_config \<Rightarrow> string \<Rightarrow> spawn_config \<Rightarrow> capability list option \<Rightarrow> string \<Rightarrow>
     sched_state \<Rightarrow> agent_task" where
  "spawn_child E sc pid config parent_caps cid s =
     (let child_caps = (case sc_capabilities config of Some rs \<Rightarrow> Some rs | None \<Rightarrow> parent_caps);
          parent = get (agents s) pid;
          parent_budget = (case parent of Some a \<Rightarrow> token_budget (cfg a) | None \<Rightarrow> default_token_budget);
          budget = (case sc_token_budget config of Some b \<Rightarrow> b | None \<Rightarrow> parent_budget);
          mc = (case parent of Some a \<Rightarrow> model_cfg a | None \<Rightarrow> model_config_default)
      in new_native E sc (native_config cid (sc_task config) default_max_turns budget
           (sc_priority config) child_caps) mc s)"

definition spawn_checked ::
    "enq \<Rightarrow> sched_env \<Rightarrow> scheduler_config \<Rightarrow> string \<Rightarrow> string \<Rightarrow> spawn_config \<Rightarrow> capability list option \<Rightarrow>
     u32 \<Rightarrow> u32 \<Rightarrow> string \<Rightarrow> sched_state \<Rightarrow> sched_res" where
  "spawn_checked enq E sc pid call config parent_caps tn parent_depth cid s =
     (case uncovered (se_anchor E) (sc_capabilities config) parent_caps of
        Some denied \<Rightarrow>
          answer_call enq E pid call
            (''spawn denied: requested capability '' @ debug_cap E denied @
             '' is not covered by the parent'' @ [CHR 0x27] @ ''s capability set'') True
            (note_event pid (Some tn) EvAgentSpawnDenied
               [(''child_id'', JStr cid), (''denied'', JStr (debug_cap E denied))] s)
      | None \<Rightarrow>
          if contains_key (agents s) cid \<or> contains_key (outcomes s) cid then
            answer_call enq E pid call
              (''spawn denied: agent ID '' @ [CHR 0x27] @ cid @ [CHR 0x27] @ '' is already in use'') True
              (note_event pid (Some tn) EvError
                 [(''stage'', JStr ''spawn''), (''error'', JStr ''child ID collision''), (''child_id'', JStr cid)] s)
          else
            seed_agent enq E cid (sc_priority config)
              (register_child pid call parent_depth cid (spawn_child E sc pid config parent_caps cid s) s))"

definition dispatch_spawn ::
    "enq \<Rightarrow> sched_env \<Rightarrow> scheduler_config \<Rightarrow> string \<Rightarrow> string \<Rightarrow> spawn_config \<Rightarrow> capability list option \<Rightarrow>
     u32 \<Rightarrow> sched_state \<Rightarrow> sched_res" where
  "dispatch_spawn enq E sc pid call config parent_caps tn s =
     (let parent_depth = (case get (spawn_depths s) pid of Some d \<Rightarrow> d | None \<Rightarrow> 0) in
      if (case parent_caps of Some caps \<Rightarrow> Spawn \<notin> set caps | None \<Rightarrow> False) then
        answer_call enq E pid call ''capability denied: Spawn capability required to call spawn_agent'' True
          (note_event pid (Some tn) EvCapabilityDenied
             [(''tool'', JStr ''spawn_agent''), (''required'', JStr ''Spawn'')] s)
      else if ss_max_spawn_depth s \<le> parent_depth then
        answer_call enq E pid call
          (''spawn denied: max nesting depth '' @ show_word (ss_max_spawn_depth s) @ '' reached'') True
          (note_event pid (Some tn) EvError
             [(''stage'', JStr ''spawn''), (''error'', JStr ''max spawn depth exceeded''),
              (''depth'', JWord parent_depth), (''limit'', JWord (ss_max_spawn_depth s))] s)
      else
        (case sc_child_id config of
           Some supplied \<Rightarrow>
             (case validate_child_id (debug_str E) supplied of
                Inl reason \<Rightarrow>
                  answer_call enq E pid call
                    (''spawn denied: invalid child_id '' @ debug_str E supplied @ '': '' @ reason) True
                    (note_event pid (Some tn) EvError
                       [(''stage'', JStr ''spawn''), (''error'', JStr ''invalid child_id''),
                        (''child_id'', JStr supplied), (''reason'', JStr reason)] s)
              | Inr _ \<Rightarrow> spawn_checked enq E sc pid call config parent_caps tn parent_depth supplied s)
         | None \<Rightarrow>
             spawn_checked enq E sc pid call config parent_caps tn parent_depth
               (pid @ ''-child-'' @ show_word (child_seq s)) (s\<lparr>child_seq := child_seq s + 1\<rparr>)))"

subsection \<open>Sealed jobs\<close>

definition reject_if_job_already_running :: "string \<Rightarrow> sched_state \<Rightarrow> string + unit" where
  "reject_if_job_already_running j s =
     (case get (live_job_runs s) j of
        Some live \<Rightarrow>
          if live \<noteq> [] then
            Inl (''job '' @ [CHR 0x27] @ j @ [CHR 0x27] @ '' already has a live run in progress ('' @
                 show_nat (length live) @ '' child(ren)); concurrent fire refused'')
          else Inr ()
      | None \<Rightarrow> Inr ())"

definition reserve_job_child_id :: "(string \<Rightarrow> string) \<Rightarrow> string \<Rightarrow> sched_state \<Rightarrow> string + unit" where
  "reserve_job_child_id dbg cid s =
     (case validate_child_id dbg cid of
        Inl reason \<Rightarrow> Inl (''derived child id '' @ dbg cid @ '' invalid: '' @ reason)
      | Inr _ \<Rightarrow>
          if contains_key (agents s) cid \<or> contains_key (outcomes s) cid then
            Inl (''job child '' @ [CHR 0x27] @ cid @ [CHR 0x27] @ '' is already in use'')
          else Inr ())"

definition register_job_child ::
    "string \<Rightarrow> string \<Rightarrow> string option \<Rightarrow> u32 \<Rightarrow> string \<Rightarrow> agent_task \<Rightarrow> sched_state \<Rightarrow> sched_state" where
  "register_job_child j cid parent depth start_reason child s =
     (let s1 = s\<lparr>agents := put cid child (agents s)\<rparr>;
          live = (case get (live_job_runs s1) j of Some l \<Rightarrow> l | None \<Rightarrow> []);
          s2 = s1\<lparr>live_job_runs := put j (List.insert cid live) (live_job_runs s1),
                  child_job := put cid j (child_job s1)\<rparr>;
          s3 = run_send (RunOpen cid parent start_reason (Some (context_tokens child)) ''native'') s2;
          s4 = s3\<lparr>spawn_depths := put cid depth (spawn_depths s3),
                  parent_map := (case parent of Some p \<Rightarrow> put cid p (parent_map s3) | None \<Rightarrow> parent_map s3),
                  mailboxes := or_insert cid [] (mailboxes s3)\<rparr>
      in note_event cid None EvAgentSpawned
           [(''parent_id'', JOpt JStr parent), (''job_id'', JStr j),
            (''task_preview'', JStr (truncate_chars (ac_task (cfg child)) PREVIEW_CHARS)),
            (''depth'', JWord depth)] s4)"

definition job_child ::
    "sched_env \<Rightarrow> scheduler_config \<Rightarrow> job \<Rightarrow> string \<Rightarrow> model_config \<Rightarrow> sched_state \<Rightarrow> agent_task" where
  "job_child E sc jb cid mc s =
     (let task = job_render jb (date_at E (length (flight s))) (time_at E (length (flight s)))
      in new_native E sc (native_config cid task (job_max_turns jb) (job_token_budget jb) 0
           (Some (job_capabilities jb))) mc s)"

definition spawn_job_child ::
    "enq \<Rightarrow> sched_env \<Rightarrow> scheduler_config \<Rightarrow> job \<Rightarrow> string \<Rightarrow> string \<Rightarrow> string option \<Rightarrow> u32 \<Rightarrow> model_config \<Rightarrow>
     string \<Rightarrow> sched_state \<Rightarrow> sched_res" where
  "spawn_job_child enq E sc jb j cid parent depth mc start_reason s =
     seed_agent enq E cid 0
       (register_job_child j cid parent depth start_reason (job_child E sc jb cid mc s) s)"

definition await_signal :: "string \<Rightarrow> string \<Rightarrow> string \<Rightarrow> sched_state \<Rightarrow> sched_state" where
  "await_signal pid call cid s =
     s\<lparr>awaiting := put cid \<lparr>aw_parent = pid, aw_call = call, deliver_content = False\<rparr> (awaiting s)\<rparr>"

definition dispatch_run_job ::
    "enq \<Rightarrow> sched_env \<Rightarrow> scheduler_config \<Rightarrow> string \<Rightarrow> string \<Rightarrow> string \<Rightarrow> capability list option \<Rightarrow> u32 \<Rightarrow>
     sched_state \<Rightarrow> sched_res" where
  "dispatch_run_job enq E sc pid call j parent_caps tn s =
     (if (case parent_caps of Some caps \<Rightarrow> Capability.RunJob \<notin> set caps | None \<Rightarrow> False) then
        answer_call enq E pid call ''capability denied: RunJob capability required to call run_job'' True
          (note_event pid (Some tn) EvCapabilityDenied
             [(''tool'', JStr ''run_job''), (''required'', JStr ''RunJob'')] s)
      else
        (case get (jobs s) j of
           None \<Rightarrow>
             answer_call enq E pid call
               (''run_job denied: no job declared with id '' @ [CHR 0x27] @ j @ [CHR 0x27]) True
               (note_event pid (Some tn) EvAgentSpawnDenied
                  [(''tool'', JStr ''run_job''), (''job_id'', JStr j), (''reason'', JStr ''unknown job id'')] s)
         | Some jb \<Rightarrow>
             (case reject_if_job_already_running j s of
                Inl reason \<Rightarrow>
                  answer_call enq E pid call (''run_job denied: '' @ reason) True
                    (note_event pid (Some tn) EvError
                       [(''stage'', JStr ''run_job''), (''error'', JStr ''job already running''),
                        (''job_id'', JStr j), (''reason'', JStr reason)] s)
              | Inr _ \<Rightarrow>
                  let parent_depth = (case get (spawn_depths s) pid of Some d \<Rightarrow> d | None \<Rightarrow> 0) in
                  if ss_max_spawn_depth s \<le> parent_depth then
                    answer_call enq E pid call
                      (''run_job denied: max nesting depth '' @ show_word (ss_max_spawn_depth s) @ '' reached'') True
                      (note_event pid (Some tn) EvError
                         [(''stage'', JStr ''run_job''), (''error'', JStr ''max spawn depth exceeded''),
                          (''depth'', JWord parent_depth), (''limit'', JWord (ss_max_spawn_depth s))] s)
                  else
                    let cid = j @ ''-'' @ date_at E (length (flight s)) in
                    (case reserve_job_child_id (debug_str E) cid s of
                       Inl reason \<Rightarrow>
                         answer_call enq E pid call (''run_job denied: '' @ reason) True
                           (note_event pid (Some tn) EvError
                              [(''stage'', JStr ''run_job''), (''error'', JStr ''child id reservation failed''),
                               (''child_id'', JStr cid), (''reason'', JStr reason)] s)
                     | Inr _ \<Rightarrow>
                         let mc = (case get (agents s) pid of Some a \<Rightarrow> model_cfg a | None \<Rightarrow> model_config_default)
                         in map_sum id (await_signal pid call cid)
                              (spawn_job_child enq E sc jb j cid (Some pid) (parent_depth + 1) mc ''run_job'' s)))))"

subsection \<open>Messages, approvals and the end of a turn\<close>

definition post_mail :: "string \<Rightarrow> mail_message \<Rightarrow> sched_state \<Rightarrow> sched_state" where
  "post_mail to m s =
     s\<lparr>mailboxes := put to ((case get (mailboxes s) to of Some q \<Rightarrow> q | None \<Rightarrow> []) @ [m]) (mailboxes s)\<rparr>"

definition dispatch_send_message ::
    "enq \<Rightarrow> sched_env \<Rightarrow> string \<Rightarrow> string \<Rightarrow> string \<Rightarrow> string \<Rightarrow> u32 \<Rightarrow> sched_state \<Rightarrow> sched_res" where
  "dispatch_send_message enq E sender call to content tn s =
     (if contains_key (universal_agents s) to then
        answer_call enq E sender call
          (''send_message failed: '' @ [CHR 0x27] @ to @ [CHR 0x27] @
           '' is a universal-tier agent and does not accept messages'') True s
      else if \<not> (contains_key (agents s) to \<or> contains_key (outcomes s) to) then
        answer_call enq E sender call
          (''send_message failed: no agent with id '' @ [CHR 0x27] @ to @ [CHR 0x27]) True
          (note_event sender (Some tn) EvError
             [(''stage'', JStr ''send_message''), (''error'', JStr ''unknown recipient''), (''to'', JStr to)] s)
      else
        answer_call enq E sender call (''message delivered to '' @ to) False
          (note_event sender (Some tn) EvMessageSent
             [(''to'', JStr to), (''preview'', JStr (chars_take 200 content))]
             (post_mail to \<lparr>mail_from = sender, mail_content = content\<rparr> s)))"

definition park_approval ::
    "sched_env \<Rightarrow> string \<Rightarrow> string \<Rightarrow> pending_action_request \<Rightarrow> u32 \<Rightarrow> sched_state \<Rightarrow> sched_state" where
  "park_approval E aid call action tn s =
     (let approval_id = ''act_'' @ show_word (approval_seq s);
          s1 = s\<lparr>approval_seq := approval_seq s + 1\<rparr>;
          s2 = note_event aid (Some tn) EvApprovalRequested
                 [(''agent_id'', JStr aid), (''approval_id'', JStr approval_id),
                  (''kind'', JStr (pa_kind action)), (''risk'', JStr (pa_risk action)),
                  (''summary'', JStr (pa_summary action))] s1;
          s3 = run_send (RunIncrApproval aid) s2
      in s3\<lparr>pending_approvals := put approval_id
             \<lparr>pk_agent = aid, pk_call = call, pk_action = action,
              pk_created = instant_at E (length (flight s3))\<rparr> (pending_approvals s3)\<rparr>)"

definition request_approval ::
    "enq \<Rightarrow> sched_env \<Rightarrow> string \<Rightarrow> string \<Rightarrow> pending_action_request \<Rightarrow> u32 \<Rightarrow> sched_state \<Rightarrow> sched_res" where
  "request_approval enq E aid call action tn s =
     (if \<not> has_control s then
        let s1 = note_event aid (Some tn) EvApprovalRejected
              [(''agent_id'', JStr aid), (''call_id'', JStr call),
               (''reason'', JStr ''no control channel available (FUSE not mounted)'')] s
        in if contains_key (agents s1) aid then
             answer_call enq E aid call
               (''request_approval: no control channel available '' @ em_dash @
                '' start agentd with FUSE mount to enable approvals'') True s1
           else Inr s1
      else Inr (park_approval E aid call action tn s))"

definition answer_preview :: "string \<Rightarrow> string" where
  "answer_preview answer =
     (if 512 < chars_count answer then
        chars_take 512 answer @ [CHR 0x0A] @ ''[output truncated '' @ em_dash @ '' full text streamed above]''
      else answer)"

definition park_orchestrated :: "string \<Rightarrow> string \<Rightarrow> sched_state \<Rightarrow> sched_state" where
  "park_orchestrated aid answer s =
     (let s1 = note_event aid None EvOrchestratorTurnComplete
            [(''agent_id'', JStr aid), (''answer'', JStr (answer_preview answer))] s
      in s1\<lparr>waiting := List.insert aid (waiting s1)\<rparr>)"

subsection \<open>The effect dispatcher\<close>

definition mark_agent :: "sched_env \<Rightarrow> string \<Rightarrow> sched_state \<Rightarrow> sched_state" where
  "mark_agent E aid s =
     s\<lparr>agents := modify aid (mark_event (instant_at E (length (flight s)))) (agents s)\<rparr>"

definition enqueue_body ::
    "enq \<Rightarrow> sched_env \<Rightarrow> scheduler_config \<Rightarrow> agent_effect \<Rightarrow> string \<Rightarrow> u32 \<Rightarrow> u32 \<Rightarrow> capability list option \<Rightarrow>
     sched_state \<Rightarrow> sched_res" where
  "enqueue_body enq E sc effect aid tn priority cap_set s0 =
     (if contains_key (cancel_requested s0) aid then
        handle_agent_terminal enq E aid (Inl ''operator cancelled'') s0
      else
        let s = mark_agent E aid s0 in
        (case effect of
           Infer req \<Rightarrow> enqueue_infer enq E sc aid tn priority req s
         | CallTools bs \<Rightarrow> Inr (s\<lparr>pending := pending s @ [PendTools aid tn cap_set bs]\<rparr>)
         | SpawnAgent call config \<Rightarrow> dispatch_spawn enq E sc aid call config cap_set tn s
         | RunJob call j \<Rightarrow> dispatch_run_job enq E sc aid call j cap_set tn s
         | SendMessage call to content \<Rightarrow> dispatch_send_message enq E aid call to content tn s
         | RequestApproval call action \<Rightarrow> request_approval enq E aid call action tn s
         | Completed answer \<Rightarrow>
             if aid \<in> set (orchestrated s) then Inr (park_orchestrated aid answer s)
             else handle_agent_terminal enq E aid (Inr answer) s
         | CompletedTruncated answer \<Rightarrow>
             if aid \<in> set (orchestrated s) then Inr (park_orchestrated aid answer s)
             else handle_agent_terminal enq E aid
                    (Inl ''model output truncated at max_tokens (partial response discarded)'') s
         | Failed e \<Rightarrow> handle_agent_terminal enq E aid (Inl e) s))"

text \<open>
  The depth of the recursion. A termination hands a result to a waiting parent and so uses up an
  entry of \<open>awaiting\<close>; a dispatched call steps an agent, which either uses up a stored response or
  asks for an inference or fails.
\<close>

definition potential :: "sched_state \<Rightarrow> nat" where
  "potential s =
     length (deferred s) + 2 * length (awaiting s) +
     5 * length (filter (\<lambda>(_, a). stored_response a \<noteq> None) (agents s))"

definition effect_rank :: "agent_effect \<Rightarrow> nat" where
  "effect_rank effect =
     (case effect of
        Infer _ \<Rightarrow> 1
      | SpawnAgent _ _ \<Rightarrow> 4
      | RunJob _ _ \<Rightarrow> 4
      | SendMessage _ _ _ \<Rightarrow> 2
      | RequestApproval _ _ \<Rightarrow> 2
      | _ \<Rightarrow> 0)"

fun enq_fuel ::
    "nat \<Rightarrow> sched_env \<Rightarrow> scheduler_config \<Rightarrow> agent_effect \<Rightarrow> string \<Rightarrow> u32 \<Rightarrow> u32 \<Rightarrow> capability list option \<Rightarrow>
     sched_state \<Rightarrow> sched_res" where
  "enq_fuel 0 E sc effect aid tn priority cap_set s = Inl OutOfFuel"
| "enq_fuel (Suc n) E sc effect aid tn priority cap_set s =
     enqueue_body (enq_fuel n E sc) E sc effect aid tn priority cap_set s"

definition enqueue_or_defer ::
    "sched_env \<Rightarrow> scheduler_config \<Rightarrow> agent_effect \<Rightarrow> string \<Rightarrow> u32 \<Rightarrow> u32 \<Rightarrow> capability list option \<Rightarrow>
     sched_state \<Rightarrow> sched_res" where
  "enqueue_or_defer E sc effect aid tn priority cap_set s =
     enq_fuel (Suc (potential s + effect_rank effect)) E sc effect aid tn priority cap_set s"

definition terminate_agent :: "sched_env \<Rightarrow> scheduler_config \<Rightarrow> string \<Rightarrow> outcome \<Rightarrow> sched_state \<Rightarrow> sched_res" where
  "terminate_agent E sc = handle_agent_terminal (enqueue_or_defer E sc) E"

end
