(* ===== verification/Sched_Checkpoint.thy ===== *)
theory Sched_Checkpoint
  imports Scheduler
begin

section \<open>Checkpoints of the scheduler (\<open>agentd/src/scheduler.rs\<close>, \<open>agentd/src/checkpoint.rs\<close>)\<close>

text \<open>
  What \<open>build_scheduler_checkpoint\<close> writes, and what \<open>Scheduler::new\<close> and the start of \<open>run\<close> make of
  it. The health of credential providers, which belongs to the credential gateway, is left out.
\<close>

subsection \<open>Writing\<close>

record awaiting_entry =
  ae_child :: string
  ae_parent :: string
  ae_call :: string
  ae_deliver :: bool

record parked_entry =
  pe_approval :: string
  pe_agent :: string
  pe_call :: string
  pe_action :: pending_action_request
  pe_seq :: u64

record sched_checkpoint =
  format_version :: u32
  sk_agents :: "agent_checkpoint list"
  sk_awaiting :: "awaiting_entry list"
  sk_mailboxes :: "(string, mail_message list) hashmap"
  sk_tokens_spent :: u64
  sk_child_seq :: u64
  sk_spawn_depths :: "(string, u32) hashmap"
  sk_parent_map :: "(string, string) hashmap"
  sk_pending_approvals :: "parked_entry list"
  sk_approval_seq :: u64
  waiting_agents :: "string list"
  orchestrated_agents :: "string list"
  sk_budget_window_start :: u64
  sk_global_window_anchor :: u64
  sk_job_schedules :: "(string, job_schedule_state) hashmap"
  sk_child_job :: "(string, string) hashmap"

definition FORMAT_VERSION :: u32 where
  "FORMAT_VERSION = 4"

text \<open>The calls that the scheduler has promised to answer.\<close>

definition promised_calls :: "sched_state \<Rightarrow> string list" where
  "promised_calls s =
     map (\<lambda>(_, ap). aw_call ap) (awaiting s) @ map (\<lambda>(_, pa). pk_call pa) (pending_approvals s)"

definition checkpointed :: "sched_state \<Rightarrow> (string \<times> agent_task) list" where
  "checkpointed s = filter (\<lambda>(i, a). \<not> terminal a \<or> i \<in> set (waiting s)) (agents s)"

text \<open>The sealed copy of one agent, with the calls that had to be answered.\<close>

definition seal_agent :: "string list \<Rightarrow> agent_task \<Rightarrow> agent_checkpoint \<times> string list" where
  "seal_agent live a =
     (let cp = to_checkpoint a in
      case repair_dangling_tool_uses (cp_messages cp) live of
        (ms, repaired) \<Rightarrow> (cp\<lparr>cp_messages := ms\<rparr>, repaired))"

definition build_scheduler_checkpoint :: "sched_state \<Rightarrow> sched_checkpoint \<times> (string, string list) hashmap" where
  "build_scheduler_checkpoint s =
     (let sealed = map (\<lambda>(_, a). seal_agent (promised_calls s) a) (checkpointed s) in
      (\<lparr>format_version = FORMAT_VERSION,
        sk_agents = map fst sealed,
        sk_awaiting = map (\<lambda>(c, ap). \<lparr>ae_child = c, ae_parent = aw_parent ap, ae_call = aw_call ap,
                                      ae_deliver = deliver_content ap\<rparr>) (awaiting s),
        sk_mailboxes = mailboxes s,
        sk_tokens_spent = tokens_spent s,
        sk_child_seq = child_seq s,
        sk_spawn_depths = spawn_depths s,
        sk_parent_map = parent_map s,
        sk_pending_approvals =
          map (\<lambda>(i, (k, pa)). \<lparr>pe_approval = k, pe_agent = pk_agent pa, pe_call = pk_call pa,
                               pe_action = pk_action pa, pe_seq = of_nat i\<rparr>)
            (enumerate 0 (pending_approvals s)),
        sk_approval_seq = approval_seq s,
        waiting_agents = waiting s,
        orchestrated_agents = orchestrated s,
        sk_budget_window_start = budget_window_start s,
        sk_global_window_anchor = global_window_anchor s,
        sk_job_schedules = job_schedules s,
        sk_child_job = child_job s\<rparr>,
       fold (\<lambda>(cp, repaired) m. if repaired = [] then m else put (cp_agent_id cp) repaired m) sealed []))"

definition checkpoint_event :: "(string, string list) hashmap \<Rightarrow> agent_checkpoint \<Rightarrow> sched_state \<Rightarrow> sched_state" where
  "checkpoint_event repairs cp s =
     note_event (cp_agent_id cp) (Some (cp_turn cp)) EvAgentCheckpointed
       ([(''turn'', JWord (cp_turn cp)), (''total_tokens'', JWord (cp_total_input cp + cp_total_output cp))] @
        (case get repairs (cp_agent_id cp) of
           None \<Rightarrow> []
         | Some ids \<Rightarrow>
             [(''stage'', JStr ''checkpoint_repair''), (''repaired_ids'', JArr (map JStr ids)),
              (''repaired_count'', JNat (length ids)),
              (''note'', JStr (''in-flight tool call sealed so the PERSISTED transcript '' @
                 ''is well-formed; the live agent is unchanged''))])) s"

definition checkpoint_all :: "sched_env \<Rightarrow> sched_state \<Rightarrow> sched_state" where
  "checkpoint_all E s =
     (if \<not> saved_at E (length (flight s)) then s
      else
        (case build_scheduler_checkpoint s of
           (cp, repairs) \<Rightarrow> fold (checkpoint_event repairs) (sk_agents cp) s))"

subsection \<open>Reading\<close>

definition repair_and_record ::
    "string \<Rightarrow> agent_checkpoint \<Rightarrow> string list \<Rightarrow> flight_log \<Rightarrow> agent_checkpoint \<times> flight_log" where
  "repair_and_record aid cp live lg =
     (case repair_dangling_tool_uses (cp_messages cp) live of
        (ms, repaired) \<Rightarrow>
          let cp' = cp\<lparr>cp_messages := ms\<rparr> in
          if repaired = [] then (cp', lg)
          else (cp', record_event aid (Some (cp_turn cp)) EvAgentRestored
                  [(''stage'', JStr ''restore_repair''),
                   (''reason'', JStr ''interrupted tool calls had no result at checkpoint time''),
                   (''repaired_ids'', JArr (map JStr repaired)), (''repaired_count'', JNat (length repaired))] lg))"

text \<open>The configured agents: each is restored from its checkpoint, or started.\<close>

fun restore_configured ::
    "sched_env \<Rightarrow> model_config \<Rightarrow> string list \<Rightarrow> agent_config list \<Rightarrow> string list \<Rightarrow>
     (string, agent_checkpoint) hashmap \<Rightarrow> (string, agent_task) hashmap \<Rightarrow> flight_log \<Rightarrow>
     (string + (string, agent_checkpoint) hashmap \<times> (string, agent_task) hashmap \<times> agent_config list \<times> flight_log)" where
  "restore_configured E mc live [] universal cps ags lg = Inr (cps, ags, [], lg)"
| "restore_configured E mc live (c # cs) universal cps ags lg =
     (if contains_key ags (ac_id c) \<or> ac_id c \<in> set universal then
        Inl (''duplicate agent id: '' @ ac_id c)
      else if ac_tier c = Universal then
        if ac_command c = None then
          Inl (''universal-tier agent '' @ [CHR 0x27] @ ac_id c @ [CHR 0x27] @ '' requires `command` to be set'')
        else
          (case restore_configured E mc live cs (ac_id c # universal) cps ags lg of
             Inl e \<Rightarrow> Inl e
           | Inr (cps', ags', up, lg') \<Rightarrow> Inr (cps', ags', c # up, lg'))
      else
        let sp = filtered_specs E (capabilities c);
            now = instant_at E (length lg) in
        (case get cps (ac_id c) of
           Some cp \<Rightarrow>
             (case repair_and_record (ac_id c) cp live lg of
                (cp', lg') \<Rightarrow>
                  restore_configured E mc live cs universal (remove (ac_id c) cps)
                    (put (ac_id c) (from_checkpoint now cp' sp) ags) lg')
         | None \<Rightarrow>
             restore_configured E mc live cs universal cps
               (put (ac_id c) (agent_new now (ac_id c) (ac_task c) c mc sp) ags) lg))"

text \<open>The remaining checkpoints: children that were spawned at run time.\<close>

fun restore_children ::
    "sched_env \<Rightarrow> string list \<Rightarrow> (string, agent_checkpoint) hashmap \<Rightarrow> (string, agent_task) hashmap \<Rightarrow> flight_log \<Rightarrow>
     (string + (string, agent_task) hashmap \<times> flight_log)" where
  "restore_children E live [] ags lg = Inr (ags, lg)"
| "restore_children E live ((i, cp) # cps) ags lg =
     (if contains_key ags i then Inl (''duplicate agent id from checkpoint: '' @ i)
      else
        let sp = filtered_specs E (capabilities (cp_cfg cp)) in
        (case repair_and_record i cp live lg of
           (cp', lg') \<Rightarrow>
             restore_children E live cps
               (put i (from_checkpoint (instant_at E (length lg)) cp' sp) ags) lg'))"

definition restore_live_calls :: "agent_config list \<Rightarrow> sched_checkpoint \<Rightarrow> string list" where
  "restore_live_calls cs cp =
     (let will_exist = map cp_agent_id (sk_agents cp) @
            map ac_id (filter (\<lambda>c. ac_tier c \<noteq> Universal) cs)
      in map ae_call (filter (\<lambda>e. ae_child e \<in> set will_exist) (sk_awaiting cp)) @
         map pe_call (sk_pending_approvals cp))"

definition restore_agents ::
    "sched_env \<Rightarrow> model_config \<Rightarrow> agent_config list \<Rightarrow> sched_checkpoint \<Rightarrow> flight_log \<Rightarrow>
     (string + (string, agent_task) hashmap \<times> agent_config list \<times> flight_log)" where
  "restore_agents E mc cs cp lg =
     (let cp_map = fold (\<lambda>a m. put (cp_agent_id a) a m) (sk_agents cp) [];
          live = restore_live_calls cs cp
      in case restore_configured E mc live cs [] cp_map [] lg of
           Inl e \<Rightarrow> Inl e
         | Inr (rest, ags, universal_pending, lg1) \<Rightarrow>
             (case restore_children E live rest ags lg1 of
                Inl e \<Rightarrow> Inl e
              | Inr (ags', lg2) \<Rightarrow> Inr (ags', universal_pending, lg2)))"

definition reconcile_job_leases_after_restore ::
    "(string, agent_task) hashmap \<Rightarrow> (string, string) hashmap \<Rightarrow>
     (string, string list) hashmap \<times> (string, string) hashmap" where
  "reconcile_job_leases_after_restore ags child_jobs =
     fold (\<lambda>(c, j) (live, cj).
         case get ags c of
           Some a \<Rightarrow>
             if terminal a then (live, cj)
             else (put j (List.insert c (case get live j of Some l \<Rightarrow> l | None \<Rightarrow> [])) live, put c j cj)
         | None \<Rightarrow> (live, cj))
       child_jobs ([], [])"

text \<open>The scheduler-level part of a restore, at the start of \<open>run\<close>.\<close>

fun restore_awaiting :: "awaiting_entry list \<Rightarrow> sched_state \<Rightarrow> sched_state" where
  "restore_awaiting [] s = s"
| "restore_awaiting (e # es) s =
     restore_awaiting es
       (if \<not> contains_key (agents s) (ae_child e) then
          note_event (ae_parent e) None EvError
            [(''stage'', JStr ''restore''),
             (''error'', JStr (''awaiting child absent from restored agents '' @ em_dash @ '' dropping dead await'')),
             (''child_id'', JStr (ae_child e)), (''call_id'', JStr (ae_call e))] s
        else
          s\<lparr>awaiting := put (ae_child e) \<lparr>aw_parent = ae_parent e, aw_call = ae_call e,
                                          deliver_content = ae_deliver e\<rparr> (awaiting s)\<rparr>)"

definition restore_state :: "sched_env \<Rightarrow> sched_checkpoint \<Rightarrow> sched_state \<Rightarrow> sched_state" where
  "restore_state E r s =
     (let s1 = s\<lparr>tokens_spent := sk_tokens_spent r, budget_window_start := sk_budget_window_start r,
               global_window_anchor := sk_global_window_anchor r, child_seq := sk_child_seq r,
               spawn_depths := sk_spawn_depths r, parent_map := sk_parent_map r,
               approval_seq := sk_approval_seq r, job_schedules := sk_job_schedules r\<rparr>;
          s2 = restore_awaiting (sk_awaiting r) s1;
          s3 = s2\<lparr>mailboxes := fold (\<lambda>(i, q) m. put i q m) (sk_mailboxes r) (mailboxes s2),
                  pending_approvals := fold (\<lambda>e m. put (pe_approval e)
                      \<lparr>pk_agent = pe_agent e, pk_call = pe_call e, pk_action = pe_action e,
                       pk_created = instant_at E (length (flight s2))\<rparr> m)
                    (sk_pending_approvals r) (pending_approvals s2),
                  orchestrated := fold List.insert (orchestrated_agents r) (orchestrated s2),
                  waiting := fold List.insert (waiting_agents r) (waiting s2)\<rparr>
      in case reconcile_job_leases_after_restore (agents s3) (sk_child_job r) of
           (live, cj) \<Rightarrow> s3\<lparr>live_job_runs := live, child_job := cj\<rparr>)"

text \<open>The native schedule of one job at boot, with the catch-up of a missed fire.\<close>

definition boot_schedule :: "'c cron_lib \<Rightarrow> int \<Rightarrow> job \<Rightarrow> sched_state \<Rightarrow> sched_state" where
  "boot_schedule L now jb s =
     (case job_schedule jb of
        None \<Rightarrow> s
      | Some schedule \<Rightarrow>
          let fp = fingerprint schedule;
              restored = (case get (job_schedules s) (job_id jb) of
                  Some js \<Rightarrow> if js_fingerprint js = fp then Some js else None
                | None \<Rightarrow> None);
              persisted = map_option next_fire_ts restored
          in case next_fire_after L schedule now of
               Inl e \<Rightarrow>
                 note_event ''agentd'' None EvJobScheduleDegraded
                   [(''job_id'', JStr (job_id jb)), (''schedule'', JStr schedule), (''error'', JStr e)] s
             | Inr fresh \<Rightarrow>
                 s\<lparr>job_schedules := put (job_id jb)
                     \<lparr>js_fingerprint = fp,
                      next_fire_ts = apply_catchup fresh persisted now,
                      last_occurrence_id = Option.bind restored last_occurrence_id,
                      last_outcome = Option.bind restored last_outcome,
                      last_skip_reason = Option.bind restored last_skip_reason,
                      pending_catchup = (case persisted of Some p \<Rightarrow> p \<le> now | None \<Rightarrow> False)\<rparr>
                     (job_schedules s)\<rparr>)"

definition boot_schedules :: "'c cron_lib \<Rightarrow> int \<Rightarrow> sched_state \<Rightarrow> sched_state" where
  "boot_schedules L now s = fold (boot_schedule L now) (map snd (jobs s)) s"

end
