(* ===== verification/Sched_Run.thy ===== *)
theory Sched_Run
  imports Sched_Checkpoint
begin

section \<open>The run loop (\<open>agentd/src/scheduler.rs\<close>)\<close>

text \<open>
  What the main loop does around the dispatcher: the deferred queue and its draining, the budget
  windows, the native job schedule, and the arms that take the result of an inference or of a
  batch of tools.
\<close>

subsection \<open>The deferred queue\<close>

text \<open>\<open>BinaryHeap::pop\<close>: a greatest element under \<open>Ord for DeferredInfer\<close>.\<close>

fun heap_top :: "deferred_infer \<Rightarrow> deferred_infer list \<Rightarrow> deferred_infer" where
  "heap_top m [] = m"
| "heap_top m (d # ds) = heap_top (if deferred_less m d then d else m) ds"

definition deferred_pop :: "deferred_infer list \<Rightarrow> (deferred_infer \<times> deferred_infer list) option" where
  "deferred_pop q =
     (case q of
        [] \<Rightarrow> None
      | d # ds \<Rightarrow> let m = heap_top d ds in Some (m, remove1 m q))"

lemma heap_top_mem: "heap_top m ds \<in> insert m (set ds)"
proof (induction m ds rule: heap_top.induct)
  case (2 m d ds)
  then show ?case by (auto split: if_splits)
qed simp

lemma deferred_pop_mem: "deferred_pop q = Some (d, rest) \<Longrightarrow> d \<in> set q \<and> rest = remove1 d q"
  using heap_top_mem by (fastforce simp: deferred_pop_def Let_def split: list.splits)

lemma deferred_pop_length: "deferred_pop q = Some (d, rest) \<Longrightarrow> length rest < length q"
  using deferred_pop_mem by (fastforce simp: length_remove1 dest: length_pos_if_in_set)

text \<open>
  The admission loop: pop while a slot is free; an entry whose agent is over its own budget is set
  aside, to be queued again under a reset window and to be terminated without one.
\<close>

function admit_loop ::
    "scheduler_config \<Rightarrow> sched_state \<Rightarrow> deferred_infer list \<Rightarrow> deferred_infer list \<Rightarrow>
     sched_state \<times> deferred_infer list \<times> deferred_infer list" where
  "admit_loop sc s holdback legacy =
     (if \<not> slot_ok sc s then (s, holdback, legacy)
      else
        (case deferred_pop (deferred s) of
           None \<Rightarrow> (s, holdback, legacy)
         | Some (d, rest) \<Rightarrow>
             (let s1 = s\<lparr>deferred := rest\<rparr> in
              if per_agent_over (df_agent d) s1 then
                if budget_reset_interval sc = 0 then admit_loop sc s1 holdback (legacy @ [d])
                else admit_loop sc s1 (holdback @ [d]) legacy
              else
                admit_loop sc
                  (admit (df_agent d) (df_turn d) (df_request d) [(''reason'', JStr ''slot_opened'')] s1)
                  holdback legacy)))"
  by pat_completeness auto
termination
  by (relation "measure (\<lambda>(sc, s, h, l). length (deferred s))")
    (auto simp: admit_def note_event_def Let_def dest: deferred_pop_length)

declare admit_loop.simps [simp del]

text \<open>\<open>while let Some(d) = state.deferred.pop()\<close> with a termination for each entry.\<close>

fun deny_all ::
    "nat \<Rightarrow> sched_env \<Rightarrow> scheduler_config \<Rightarrow> (deferred_infer \<Rightarrow> sched_state \<Rightarrow> sched_state) \<Rightarrow> string \<Rightarrow>
     sched_state \<Rightarrow> sched_res" where
  "deny_all n E sc note err s =
     (case deferred_pop (deferred s) of
        None \<Rightarrow> Inr s
      | Some (d, rest) \<Rightarrow>
          (case n of
             0 \<Rightarrow> Inl OutOfFuel
           | Suc m \<Rightarrow>
               (case terminate_agent E sc (df_agent d) (Inl err) (note d (s\<lparr>deferred := rest\<rparr>)) of
                  Inl e \<Rightarrow> Inl e
                | Inr s' \<Rightarrow> deny_all m E sc note err s')))"

declare deny_all.simps [simp del]

fun terminate_legacy ::
    "sched_env \<Rightarrow> scheduler_config \<Rightarrow> deferred_infer list \<Rightarrow> sched_state \<Rightarrow> sched_res" where
  "terminate_legacy E sc [] s = Inr s"
| "terminate_legacy E sc (d # ds) s =
     (let aid = df_agent d in
      if contains_key (agents s) aid then
        let s1 = s\<lparr>deferred := filter (\<lambda>e. df_agent e \<noteq> aid) (deferred s)\<rparr>;
            s2 = note_event aid (Some (df_turn d)) EvAgentAdmissionDenied
                   [(''reason'', JStr ''agent_budget_exhausted''), (''remedy'', JStr BUDGET_REMEDY)] s1;
            s3 = receipt_denial E aid ''agent_budget_exhausted'' s2
        in (case terminate_agent E sc aid
                   (Inl (''admission denied: agent_budget_exhausted ('' @ BUDGET_REMEDY @ '')'')) s3 of
              Inl e \<Rightarrow> Inl e
            | Inr s' \<Rightarrow> terminate_legacy E sc ds s')
      else terminate_legacy E sc ds s)"

definition note_shutdown :: "deferred_infer \<Rightarrow> sched_state \<Rightarrow> sched_state" where
  "note_shutdown d s =
     note_event (df_agent d) None EvAgentAdmissionDenied
       [(''reason'', JStr ''shutdown''), (''tokens_spent'', JWord (tokens_spent s))] s"

definition note_exhausted :: "sched_env \<Rightarrow> deferred_infer \<Rightarrow> sched_state \<Rightarrow> sched_state" where
  "note_exhausted E d s =
     receipt_denial E (df_agent d) ''global_budget_exhausted''
       (note_event (df_agent d) None EvAgentAdmissionDenied
          [(''reason'', JStr ''global_budget_exhausted''), (''tokens_spent'', JWord (tokens_spent s)),
           (''remedy'', JStr BUDGET_REMEDY)] s)"

definition drain_deferred :: "sched_env \<Rightarrow> scheduler_config \<Rightarrow> sched_state \<Rightarrow> sched_res" where
  "drain_deferred E sc s =
     (if shutdown_requested s then
        deny_all (potential s) E sc note_shutdown ''admission denied: shutdown'' s
      else if \<not> global_ok sc s then
        if 0 < budget_reset_interval sc then Inr s
        else deny_all (potential s) E sc (note_exhausted E)
               (''admission denied: global token budget exhausted ('' @ BUDGET_REMEDY @ '')'') s
      else
        (case admit_loop sc s [] [] of
           (s1, holdback, legacy) \<Rightarrow>
             terminate_legacy E sc legacy (s1\<lparr>deferred := rev holdback @ deferred s1\<rparr>)))"

subsection \<open>Budget windows\<close>

definition reset_all_windows :: "sched_state \<Rightarrow> sched_state" where
  "reset_all_windows s = s\<lparr>agents := map_values (\<lambda>t. fst (reset_budget_window t)) (agents s)\<rparr>"

text \<open>The rebase that a rollover, a manual reset and the first start share.\<close>

definition rebase_windows :: "sched_state \<Rightarrow> sched_state" where
  "rebase_windows s =
     publish_budget (rebase_universal_window (s\<lparr>global_window_anchor := tokens_spent s\<rparr>))"

definition init_budget_window :: "scheduler_config \<Rightarrow> u64 \<Rightarrow> sched_state \<Rightarrow> sched_state" where
  "init_budget_window sc now s =
     (if budget_reset_interval sc = 0 then s
      else
        let s1 = (if budget_window_start s = 0 then
                    reset_all_windows (rebase_windows (s\<lparr>budget_window_start := now\<rparr>))
                  else if now < budget_window_start s then s\<lparr>budget_window_start := now\<rparr>
                  else s);
            resettable = (0 < budget_reset_interval sc)
        in s1\<lparr>ss_budget_resettable := resettable,
              agents := map_values (set_budget_resettable resettable) (agents s1)\<rparr>)"

definition windows_elapsed :: "u64 \<Rightarrow> u64 \<Rightarrow> u64 \<Rightarrow> u64" where
  "windows_elapsed now_secs window_start interval =
     (if interval = 0 then 0 else saturating_sub now_secs window_start div interval)"

definition maybe_rebase_windows_at ::
    "sched_env \<Rightarrow> scheduler_config \<Rightarrow> u64 \<Rightarrow> sched_state \<Rightarrow> sched_res" where
  "maybe_rebase_windows_at E sc now_secs s =
     (if 0 < budget_reset_interval sc \<and> now_secs < budget_window_start s then
        Inr (s\<lparr>budget_window_start := now_secs\<rparr>)
      else
        let n = windows_elapsed now_secs (budget_window_start s) (budget_reset_interval sc) in
        if n = 0 then Inr s
        else
          let spent_before = global_windowed_spent s;
              s1 = rebase_windows s;
              s2 = s1\<lparr>budget_window_start := saturating_add (budget_window_start s1) (n * budget_reset_interval sc)\<rparr>;
              s3 = reset_all_windows s2
          in drain_deferred E sc
               (note_event ''agentd'' None EvBudgetReset
                  [(''target'', JStr ''global''), (''spent_before'', JWord spent_before),
                   (''window_start'', JWord (budget_window_start s3)),
                   (''interval_secs'', JWord (budget_reset_interval sc)), (''windows_advanced'', JWord n)] s3))"

definition maybe_rebase_windows :: "sched_env \<Rightarrow> scheduler_config \<Rightarrow> sched_state \<Rightarrow> sched_res" where
  "maybe_rebase_windows E sc s = maybe_rebase_windows_at E sc (secs_at E (length (flight s))) s"

subsection \<open>Native job schedule\<close>

definition dispatch_scheduled_job ::
    "sched_env \<Rightarrow> scheduler_config \<Rightarrow> string \<Rightarrow> string \<Rightarrow> string \<Rightarrow> sched_state \<Rightarrow>
     stop + (sched_state \<times> (string + string))" where
  "dispatch_scheduled_job E sc j cid start_reason s =
     (case get (jobs s) j of
        None \<Rightarrow> Inr (s, Inl ''unknown job id (removed from config since scheduling)'')
      | Some jb \<Rightarrow>
          (case reject_if_job_already_running j s of
             Inl e \<Rightarrow> Inr (s, Inl e)
           | Inr _ \<Rightarrow>
               (case reserve_job_child_id (debug_str E) cid s of
                  Inl e \<Rightarrow> Inr (s, Inl e)
                | Inr _ \<Rightarrow>
                    map_sum id (\<lambda>s'. (s', Inr cid))
                      (spawn_job_child (enqueue_or_defer E sc) E sc jb j cid None 0 (se_default_model E)
                         start_reason s))))"

definition on_schedule :: "string \<Rightarrow> (job_schedule_state \<Rightarrow> job_schedule_state) \<Rightarrow> sched_state \<Rightarrow> sched_state" where
  "on_schedule j f s = s\<lparr>job_schedules := modify j f (job_schedules s)\<rparr>"

definition advance_job_schedule :: "'c cron_lib \<Rightarrow> string \<Rightarrow> int \<Rightarrow> sched_state \<Rightarrow> sched_state" where
  "advance_job_schedule L j now s =
     (case Option.bind (get (jobs s) j) job_schedule of
        None \<Rightarrow> s
      | Some schedule \<Rightarrow>
          (case next_fire_after L schedule now of
             Inr next_ts \<Rightarrow> on_schedule j (\<lambda>js. js\<lparr>next_fire_ts := next_ts\<rparr>) s
           | Inl _ \<Rightarrow> s))"

text \<open>One due job of a tick: its id, fingerprint, intended time and whether it is a catch-up.\<close>

definition tick_job ::
    "'c cron_lib \<Rightarrow> sched_env \<Rightarrow> scheduler_config \<Rightarrow> int \<Rightarrow> string \<times> string \<times> int \<times> bool \<Rightarrow> sched_state \<Rightarrow> sched_res" where
  "tick_job L E sc now due s =
     (case due of (j, fp, intended, caught_up) \<Rightarrow>
        let occurrence = occurrence_id j fp intended;
            previous = Option.bind (get (job_schedules s) j) last_occurrence_id
        in if previous = Some occurrence then Inr (advance_job_schedule L j now s)
           else
             let s1 = on_schedule j (\<lambda>js. js\<lparr>last_occurrence_id := Some occurrence, pending_catchup := False\<rparr>) s
             in if native_cron_shadow sc then
                  Inr (advance_job_schedule L j now
                    (on_schedule j (\<lambda>js. js\<lparr>last_outcome := Some ShadowLogged, last_skip_reason := None\<rparr>)
                      (note_event j None EvJobFireSkipped
                         [(''job_id'', JStr j), (''occurrence_id'', JStr occurrence),
                          (''intended_fire_ts'', JNum (of_int intended)), (''reason'', JStr ''shadow_mode''),
                          (''shadow'', JBool True), (''caught_up'', JBool caught_up)] s1)))
                else
                  let cid = j @ ''-'' @ show_int intended in
                  (case dispatch_scheduled_job E sc j cid ''run_job'' s1 of
                     Inl e \<Rightarrow> Inl e
                   | Inr (s2, Inr _) \<Rightarrow>
                       Inr (advance_job_schedule L j now
                         (on_schedule j (\<lambda>js. js\<lparr>last_outcome := Some (if caught_up then CaughtUp else Fired),
                             last_skip_reason := None\<rparr>)
                           (note_event j None EvJobFired
                              [(''job_id'', JStr j), (''occurrence_id'', JStr occurrence), (''child_id'', JStr cid),
                               (''intended_fire_ts'', JNum (of_int intended)), (''caught_up'', JBool caught_up)] s2)))
                   | Inr (s2, Inl reason) \<Rightarrow>
                       let transient = sublist ''already has a live run'' reason;
                           s3 = note_event j None EvJobFireSkipped
                              [(''job_id'', JStr j), (''occurrence_id'', JStr occurrence), (''reason'', JStr reason),
                               (''shadow'', JBool False), (''caught_up'', JBool caught_up)] s2;
                           s4 = on_schedule j (\<lambda>js. js\<lparr>last_outcome := Some Skipped, last_skip_reason := Some reason\<rparr>) s3
                       in if transient then Inr (on_schedule j (\<lambda>js. js\<lparr>last_occurrence_id := previous\<rparr>) s4)
                          else Inr (advance_job_schedule L j now s4)))"

fun tick_jobs ::
    "'c cron_lib \<Rightarrow> sched_env \<Rightarrow> scheduler_config \<Rightarrow> int \<Rightarrow> (string \<times> string \<times> int \<times> bool) list \<Rightarrow> sched_state \<Rightarrow> sched_res" where
  "tick_jobs L E sc now [] s = Inr s"
| "tick_jobs L E sc now (due # ds) s =
     (case tick_job L E sc now due s of
        Inl e \<Rightarrow> Inl e
      | Inr s' \<Rightarrow> tick_jobs L E sc now ds s')"

definition due_jobs :: "int \<Rightarrow> sched_state \<Rightarrow> (string \<times> string \<times> int \<times> bool) list" where
  "due_jobs now s =
     map (\<lambda>(j, js). (j, js_fingerprint js, next_fire_ts js, pending_catchup js))
       (filter (\<lambda>(_, js). next_fire_ts js \<le> now) (job_schedules s))"

definition tick_native_jobs :: "'c cron_lib \<Rightarrow> sched_env \<Rightarrow> scheduler_config \<Rightarrow> sched_state \<Rightarrow> sched_res" where
  "tick_native_jobs L E sc s =
     (let now = sint (secs_at E (length (flight s)))
      in if due_jobs now s = [] then Inr s
         else map_sum id (checkpoint_all E) (tick_jobs L E sc now (due_jobs now s) s))"

definition should_keep_idling :: "scheduler_config \<Rightarrow> sched_state \<Rightarrow> bool" where
  "should_keep_idling sc s \<longleftrightarrow>
     deferred s \<noteq> [] \<and> 0 < budget_reset_interval sc \<or> job_schedules s \<noteq> []"

subsection \<open>The start of a run\<close>

definition seed_one :: "sched_env \<Rightarrow> scheduler_config \<Rightarrow> string list \<Rightarrow> string list \<Rightarrow> string \<Rightarrow> sched_state \<Rightarrow> sched_res" where
  "seed_one E sc parked_agents awaiting_parents aid s =
     (let s1 = s\<lparr>spawn_depths := or_insert aid 0 (spawn_depths s),
                mailboxes := or_insert aid [] (mailboxes s)\<rparr>
      in if aid \<in> set parked_agents \<or> aid \<in> set (waiting s1) \<or> aid \<in> set awaiting_parents then Inr s1
         else
           (case get (agents s1) aid of
              None \<Rightarrow> Inl Panic
            | Some a \<Rightarrow> seed_agent (enqueue_or_defer E sc) E aid (ac_priority (cfg a)) s1))"

fun seed_ids ::
    "sched_env \<Rightarrow> scheduler_config \<Rightarrow> string list \<Rightarrow> string list \<Rightarrow> string list \<Rightarrow> sched_state \<Rightarrow> sched_res" where
  "seed_ids E sc parked_agents awaiting_parents [] s = Inr s"
| "seed_ids E sc parked_agents awaiting_parents (i # is) s =
     (case seed_one E sc parked_agents awaiting_parents i s of
        Inl e \<Rightarrow> Inl e
      | Inr s' \<Rightarrow> seed_ids E sc parked_agents awaiting_parents is s')"

definition seed_loop :: "sched_env \<Rightarrow> scheduler_config \<Rightarrow> sched_state \<Rightarrow> sched_res" where
  "seed_loop E sc s =
     seed_ids E sc (map (\<lambda>(_, p). pk_agent p) (pending_approvals s))
       (map (\<lambda>(_, a). aw_parent a) (awaiting s)) (map fst (agents s)) s"

subsection \<open>Results of effects\<close>

definition drain_mailbox :: "string \<Rightarrow> sched_state \<Rightarrow> sched_state" where
  "drain_mailbox aid s =
     (case get (mailboxes s) aid of
        None \<Rightarrow> s
      | Some mail \<Rightarrow>
          let s1 = s\<lparr>mailboxes := put aid [] (mailboxes s)\<rparr> in
          if mail = [] then s1
          else
            (case get (agents s1) aid of
               None \<Rightarrow> s1
             | Some a \<Rightarrow>
                 (case inject_messages mail a (flight s1) of
                    (a', lg') \<Rightarrow> s1\<lparr>agents := put aid a' (agents s1), flight := lg'\<rparr>)))"

text \<open>
  The end of the future that \<open>make_infer_future\<close> built: retries are logged and the egress
  mediator signs a receipt. The chunks that a streaming request prints are left out;
  \<open>chunks\<close> is their number.
\<close>

definition infer_finished ::
    "sched_env \<Rightarrow> string \<Rightarrow> u32 \<Rightarrow> inference_request \<Rightarrow> nat \<Rightarrow> inference_response \<Rightarrow> sched_state \<Rightarrow> sched_state" where
  "infer_finished E aid tn req chunks resp s =
     (let tn' = (if req_streaming req then Some tn else None);
          s1 = (if req_streaming req then
                  note_event aid (Some tn) EvInferenceStreamCompleted
                    [(''agent_id'', JStr aid), (''text_chunks_emitted'', JNat chunks),
                     (''input_tokens'', JWord (input_tokens resp)), (''output_tokens'', JWord (output_tokens resp)),
                     (''transport_retries'', JWord (transport_retries resp))] s
                else s);
          s2 = (if 0 < transport_retries resp then
                  note_event aid tn' EvInferenceTransportRetried
                    [(''agent_id'', JStr aid), (''model'', JStr (se_model_id E)),
                     (''retries'', JWord (transport_retries resp))] s1
                else s1)
      in on_egress (record_inference (se_egress E) (rio_at E (length (flight s2))) aid (se_model_id E)
           (ucast (input_tokens resp)) (ucast (output_tokens resp))) s2)"

definition effect_missing :: "string \<Rightarrow> string \<Rightarrow> sched_state \<Rightarrow> sched_state" where
  "effect_missing aid site s =
     note_event aid None EvError
       [(''error'', JStr ''effect_agent_missing''), (''site'', JStr site), (''agent'', JStr aid)] s"

definition on_inference_error ::
    "sched_env \<Rightarrow> scheduler_config \<Rightarrow> string \<Rightarrow> string \<Rightarrow> sched_state \<Rightarrow> sched_res" where
  "on_inference_error E sc aid e s =
     (if in_flight s = 0 then Inl Panic
      else
        let s1 = s\<lparr>in_flight := in_flight s - 1\<rparr>;
            s2 = note_event aid None EvError [(''stage'', JStr ''inference''), (''error'', JStr e)] s1;
            s3 = note_event aid None EvAgentFailed [(''reason'', JStr ''inference_error''), (''error'', JStr e)] s2
        in (case terminate_agent E sc aid (Inl e) s3 of
              Inl x \<Rightarrow> Inl x
            | Inr s4 \<Rightarrow> drain_deferred E sc s4))"

definition on_inference ::
    "sched_env \<Rightarrow> scheduler_config \<Rightarrow> string \<Rightarrow> inference_response \<Rightarrow> sched_state \<Rightarrow> sched_res" where
  "on_inference E sc aid resp s0 =
     (if in_flight s0 = 0 then Inl Panic
      else
        let s = s0\<lparr>in_flight := in_flight s0 - 1\<rparr>;
            new_tokens = ucast (input_tokens resp) + ucast (output_tokens resp) in
        (case get (agents s) aid of
           None \<Rightarrow> drain_deferred E sc (effect_missing aid ''inference.provide'' s)
         | Some a \<Rightarrow>
             (case provide_inference resp a (flight s) of
                (a1, lg1) \<Rightarrow>
                  (case step E a1 lg1 of
                     (a2, lg2, effect) \<Rightarrow>
                       let s1 = drain_mailbox aid (s\<lparr>agents := put aid a2 (agents s), flight := lg2\<rparr>);
                           s2 = publish_budget (s1\<lparr>tokens_spent := saturating_add (tokens_spent s1) new_tokens\<rparr>)
                       in (case drain_deferred E sc s2 of
                             Inl x \<Rightarrow> Inl x
                           | Inr s3 \<Rightarrow>
                               enqueue_or_defer E sc effect aid (turn a1) (ac_priority (cfg a))
                                 (capabilities (cfg a2)) s3)))))"

definition maybe_checkpoint :: "sched_env \<Rightarrow> scheduler_config \<Rightarrow> string \<Rightarrow> sched_state \<Rightarrow> sched_state" where
  "maybe_checkpoint E sc aid s =
     (case get (agents s) aid of
        Some a \<Rightarrow>
          if 0 < checkpoint_interval_turns sc \<and> turn a mod checkpoint_interval_turns sc = 0
          then checkpoint_all E s else s
      | None \<Rightarrow> s)"

definition on_tools_done ::
    "sched_env \<Rightarrow> scheduler_config \<Rightarrow> string \<Rightarrow> block list \<Rightarrow> sched_state \<Rightarrow> sched_res" where
  "on_tools_done E sc aid results s =
     (case get (agents s) aid of
        None \<Rightarrow> Inr (effect_missing aid ''tools.provide'' s)
      | Some a \<Rightarrow>
          (case provide_tool_results results a (flight s) of
             (a1, lg1) \<Rightarrow>
               let s1 = drain_mailbox aid (s\<lparr>agents := put aid a1 (agents s), flight := lg1\<rparr>);
                   s2 = maybe_checkpoint E sc aid s1
               in seed_agent (enqueue_or_defer E sc) E aid (ac_priority (cfg a)) s2))"

text \<open>The loop after a shutdown signal or when nothing is left to do.\<close>

definition shut_down :: "sched_env \<Rightarrow> scheduler_config \<Rightarrow> sched_state \<Rightarrow> sched_res" where
  "shut_down E sc s =
     (let s1 = (if shutdown_requested s then checkpoint_all E s else s)\<lparr>shutdown_requested := True\<rparr>
      in deny_all (potential s1) E sc note_shutdown
           ''admission denied: scheduler shut down with pending items'' s1)"

end
