(* ===== verification/Agent_Life.thy ===== *)
theory Agent_Life
  imports Agent
begin

section \<open>Correctness of the agent state machine\<close>

text \<open>
  The conversation an agent builds is acceptable to the provider at every request. The
  theory follows a history through each operation, gives the possible outcomes of a step, and
  closes them under everything a scheduler may do to an agent (\<open>agent_life\<close>). It ends with the
  repair of restored conversations.
\<close>

subsection \<open>Growing a history\<close>

lemma ids_of_append [simp]:
  "tool_use_ids \<lparr>role = r, blocks = a @ b\<rparr> = tool_use_ids \<lparr>role = r, blocks = a\<rparr> @ tool_use_ids \<lparr>role = r, blocks = b\<rparr>"
  "tool_result_ids \<lparr>role = r, blocks = a @ b\<rparr> = tool_result_ids \<lparr>role = r, blocks = a\<rparr> @ tool_result_ids \<lparr>role = r, blocks = b\<rparr>"
  by (simp_all add: tool_use_ids_def tool_result_ids_def)

lemma history_ok_push:
  assumes "history_ok ms" "role (last ms) \<noteq> role m"
    "role m = User \<Longrightarrow> set (tool_use_ids (last ms)) \<subseteq> set (tool_result_ids m)"
  shows "history_ok (ms @ [m])"
proof -
  have ne: "ms \<noteq> []" and alt: "alternating User ms" and p: "paired ms"
    using assms(1) by (auto simp: history_ok_def)
  have "role m = (if even (length ms) then User else Assistant)"
    using alternating_last [OF alt ne] assms(2) by (cases "role m") (auto split: if_splits)
  then have "alternating User (ms @ [m])" using alt by (simp add: alternating_append)
  moreover have "paired (ms @ [m])"
    using p assms(2,3) by (cases "role m") (auto simp: paired_append)
  ultimately show ?thesis using ne by (simp add: history_ok_def)
qed

lemma provide_tool_results_messages:
  "\<not> terminal t \<Longrightarrow> provide_tool_results rs t lg = (t', lg') \<Longrightarrow>
     messages t' = messages t @ [\<lparr>role = User, blocks = rs\<rparr>] \<and> \<not> terminal t' \<and>
     cfg t' = cfg t \<and> short_term t' = short_term t"
  by (auto simp: provide_tool_results_def Let_def)

subsection \<open>One step\<close>

lemma cap_short_term_bound:
  "cap_short_term t = (t', n) \<Longrightarrow> length (short_term t') \<le> MAX_SHORT_TERM \<and> messages t' = messages t \<and>
     cfg t' = cfg t \<and> turn t' = turn t \<and> terminal t' = terminal t \<and> stored_response t' = stored_response t \<and>
     budget_resettable t' = budget_resettable t \<and> windowed_spent t' = windowed_spent t"
  by (auto simp: cap_short_term_def Let_def windowed_spent_def context_tokens_def)

text \<open>What \<open>page_if_hard\<close> can do to an agent.\<close>

lemma page_if_hard_keeps:
  assumes "page_if_hard X t lg = (t', lg')"
  shows "cfg t' = cfg t \<and> turn t' = turn t \<and> terminal t' = terminal t \<and>
    stored_response t' = stored_response t \<and> over_budget t' = over_budget t"
    and "length (short_term t) \<le> MAX_SHORT_TERM \<Longrightarrow> length (short_term t') \<le> MAX_SHORT_TERM"
    and "history_ok (messages t) \<Longrightarrow> history_ok (messages t') \<and> role (last (messages t')) = role (last (messages t)) \<and>
      hd (messages t') = hd (messages t)"
proof -
  consider "t' = t"
    | ms items ev where "page_turns (msg_codec.truncate X) (messages t) (page_count (messages t)) (turn t) = Inr (ms, items)"
      "cap_short_term (t\<lparr>messages := ms, short_term := short_term t @ items\<rparr>) = (t', ev)"
    using assms by (auto simp: page_if_hard_def Let_def split: if_splits sum.splits prod.splits)
  then have "(cfg t' = cfg t \<and> turn t' = turn t \<and> terminal t' = terminal t \<and>
    stored_response t' = stored_response t \<and> over_budget t' = over_budget t) \<and>
    (length (short_term t) \<le> MAX_SHORT_TERM \<longrightarrow> length (short_term t') \<le> MAX_SHORT_TERM) \<and>
    (history_ok (messages t) \<longrightarrow> history_ok (messages t') \<and> role (last (messages t')) = role (last (messages t)) \<and>
      hd (messages t') = hd (messages t))"
  proof cases
    case 2
    note c = cap_short_term_bound [OF 2(2)]
    from c show ?thesis
      using page_turns_keeps [OF _ 2(1)]
      by (auto simp: over_budget_def windowed_spent_def context_tokens_def)
  qed simp
  then show "cfg t' = cfg t \<and> turn t' = turn t \<and> terminal t' = terminal t \<and>
      stored_response t' = stored_response t \<and> over_budget t' = over_budget t"
    "length (short_term t) \<le> MAX_SHORT_TERM \<Longrightarrow> length (short_term t') \<le> MAX_SHORT_TERM"
    "history_ok (messages t) \<Longrightarrow> history_ok (messages t') \<and> role (last (messages t')) = role (last (messages t)) \<and>
      hd (messages t') = hd (messages t)"
    by simp_all
qed

definition failure_of :: "agent_task \<Rightarrow> agent_task \<Rightarrow> agent_effect \<Rightarrow> bool" where
  "failure_of t t' eff \<longleftrightarrow> (\<exists>why. eff = Failed why) \<and> t' = t\<lparr>terminal := True\<rparr>"

lemma max_turns_failure_is: "max_turns_failure t lg = (t', lg', eff) \<Longrightarrow> failure_of t t' eff"
  unfolding max_turns_failure_def failure_of_def by (simp only: prod.inject) blast

lemma budget_failure_is: "budget_failure ex t lg = (t', lg', eff) \<Longrightarrow> failure_of t t' eff"
  unfolding budget_failure_def failure_of_def by (simp only: prod.inject) blast

text \<open>The two ways \<open>step_need_infer\<close> ends.\<close>

lemma step_need_infer_cases:
  assumes "step_need_infer X t lg = (t', lg', eff)"
  obtains (failed) "failure_of t t' eff"
  | (asked) t1 lg1 lg2 req p where "page_if_hard X t lg1 = (t1, lg2)" "t' = t1\<lparr>last_pressure := p\<rparr>"
      "eff = Infer req" "req_messages req = messages t'" "turn t < max_turns (cfg t)" "\<not> over_budget t"
proof (cases "max_turns (cfg t) \<le> turn t \<or> over_budget t")
  case True
  with assms show ?thesis
    by (intro failed)
      (auto simp: step_need_infer_def split: if_splits intro: max_turns_failure_is budget_failure_is)
next
  case False
  obtain t1 lg2 where p: "page_if_hard X t (spend_advisory t lg) = (t1, lg2)" by fastforce
  define t2 where "t2 = t1\<lparr>last_pressure := assess (windowed_spent t) (token_budget (cfg t))\<rparr>"
  have e: "emit_request X t2 (perceive t2 lg2) = (t', lg', eff)"
    using False assms p by (simp add: step_need_infer_def Let_def t2_def)
  then have t': "t' = t2" by (simp add: emit_request_def)
  from e obtain req where "eff = Infer req" "req_messages req = messages t2"
    unfolding emit_request_def by (auto simp del: t2_def)
  with t' False show ?thesis
    by (intro asked [OF p t' [unfolded t2_def]]) (auto simp: not_le)
qed

lemma step_need_infer_request:
  assumes "step_need_infer X t lg = (t', lg', eff)" "request_ok (messages t)"
  shows "failure_of t t' eff \<or>
    (\<exists>req. eff = Infer req \<and> req_messages req = messages t' \<and> request_ok (messages t') \<and>
       turn t' < max_turns (cfg t') \<and> \<not> over_budget t' \<and> terminal t' = terminal t \<and>
       stored_response t' = stored_response t)"
  using assms(1)
proof (cases rule: step_need_infer_cases)
  case (asked t1 lg1 lg2 req p)
  then show ?thesis
    using page_if_hard_keeps [OF asked(1)] assms(2)
    by (auto simp: request_ok_def over_budget_def windowed_spent_def context_tokens_def)
qed simp

text \<open>The call that an effect leaves for the scheduler to answer.\<close>

definition sole_call :: "agent_effect \<Rightarrow> string option" where
  "sole_call eff =
     (case eff of
        SpawnAgent c _ \<Rightarrow> Some c | RunJob c _ \<Rightarrow> Some c | SendMessage c _ _ \<Rightarrow> Some c
      | RequestApproval c _ \<Rightarrow> Some c | _ \<Rightarrow> None)"

abbreviation call_ids :: "block list \<Rightarrow> string list" where
  "call_ids bs \<equiv> tool_use_ids \<lparr>role = Assistant, blocks = bs\<rparr>"

abbreviation answer_ids :: "block list \<Rightarrow> string list" where
  "answer_ids bs \<equiv> tool_result_ids \<lparr>role = User, blocks = bs\<rparr>"

lemma call_ids_filter [simp]: "call_ids (filter is_tool_use bs) = call_ids bs"
  by (induction bs) (auto simp: tool_use_ids_def is_tool_use_def split: block.split)

lemma answer_ids_rejection: "answer_ids (List.map_filter (sole_rejection n) bs) = call_ids bs"
  by (induction bs)
    (auto simp: tool_use_ids_def tool_result_ids_def sole_rejection_def map_filter_simps split: block.split)

lemma answer_ids_single [simp]: "answer_ids [ToolResult i c e] = [i]"
  by (simp add: tool_result_ids_def)

lemma named_call_single:
  assumes "named_call tool bs = Some (i, input)" "\<not> 1 < length bs"
  shows "call_ids bs = [i]"
proof -
  obtain b where "bs = [b]" using assms by (cases bs) (auto simp: named_call_def find_map_def map_filter_simps)
  with assms show ?thesis
    by (auto simp: named_call_def find_map_def map_filter_simps tool_use_ids_def split: block.splits if_splits)
qed

text \<open>
  How the intercepts end: the agent answers every call itself and asks again, or it leaves the
  calls to the scheduler, which has to answer them.
\<close>

definition self_answered ::
    "'x agent_ext_scheme \<Rightarrow> block list \<Rightarrow> agent_task \<Rightarrow> agent_task \<Rightarrow> flight_log \<Rightarrow> agent_effect \<Rightarrow> bool" where
  "self_answered X bs t t' lg' eff \<longleftrightarrow>
     (\<exists>rs lg t1 lg1. answer_ids rs = call_ids bs \<and> provide_tool_results rs t lg = (t1, lg1) \<and>
        step_need_infer X t1 lg1 = (t', lg', eff))"

lemma answer_and_retry_is:
  "answer_and_retry X i c t lg = (t', lg', eff) \<Longrightarrow> call_ids bs = [i] \<Longrightarrow> self_answered X bs t t' lg' eff"
  unfolding answer_and_retry_def self_answered_def
  by (cases "provide_tool_results [ToolResult i c True] t lg")
    (auto intro!: exI [of _ "[ToolResult i c True]"])

lemma reject_batched_is:
  "reject_batched_sole_tool X n bs t lg = (t', lg', eff) \<Longrightarrow> self_answered X bs t t' lg' eff"
  unfolding reject_batched_sole_tool_def self_answered_def
  by (cases "provide_tool_results (List.map_filter (sole_rejection n) bs) t lg")
    (auto simp: answer_ids_rejection intro!: exI [of _ "List.map_filter (sole_rejection n) bs"])

definition left_to_scheduler :: "block list \<Rightarrow> agent_task \<Rightarrow> agent_task \<Rightarrow> agent_effect \<Rightarrow> bool" where
  "left_to_scheduler bs t t' eff \<longleftrightarrow>
     t' = t \<and> (eff = CallTools bs \<or> (\<exists>i. sole_call eff = Some i \<and> call_ids bs = [i]))"

lemma sole_handlers:
  assumes "(tool, h) \<in> set (sole_tools X)" "h i input t lg = (t', lg', eff)" "call_ids bs = [i]"
  shows "self_answered X bs t t' lg' eff \<or> left_to_scheduler bs t t' eff"
proof -
  have retry: "answer_and_retry X i c t lg = (t', lg', eff) \<Longrightarrow> self_answered X bs t t' lg' eff" for c
    using answer_and_retry_is assms(3) by blast
  from assms(1) consider "h = on_spawn_agent X" | "h = on_run_job X" | "h = on_send_message X"
    | "h = on_request_approval X"
    by (auto simp: sole_tools_def)
  then show ?thesis
  proof cases
    case 1
    with assms(2,3) show ?thesis
      by (cases "parse_spawn X input") (auto simp: on_spawn_agent_def left_to_scheduler_def sole_call_def dest: retry)
  next
    case 2
    with assms(2,3) show ?thesis
      by (cases "Option.bind (json_get input ''job_id'') json_as_str")
        (auto simp: on_run_job_def left_to_scheduler_def sole_call_def dest: retry)
  next
    case 3
    with assms(2,3) show ?thesis
      by (cases "Option.bind (json_get input ''to'') json_as_str";
          cases "Option.bind (json_get input ''content'') json_as_str")
        (auto simp: on_send_message_def left_to_scheduler_def sole_call_def dest: retry)
  next
    case 4
    with assms(2,3) show ?thesis
      by (cases "parse_action X input") (auto simp: on_request_approval_def left_to_scheduler_def sole_call_def dest: retry)
  qed
qed

lemma intercept_outcome:
  "intercept X tools bs t lg = (t', lg', eff) \<Longrightarrow> set tools \<subseteq> set (sole_tools X) \<Longrightarrow>
     self_answered X bs t t' lg' eff \<or> left_to_scheduler bs t t' eff"
proof (induction X tools bs t lg rule: intercept.induct)
  case (1 X bs t lg)
  then show ?case by (simp add: left_to_scheduler_def)
next
  case (2 X tool h rest bs t lg)
  show ?case
  proof (cases "named_call tool bs")
    case None
    with 2 show ?thesis by simp
  next
    case (Some c)
    then obtain i input where c: "named_call tool bs = Some (i, input)" by (cases c) auto
    show ?thesis
    proof (cases "1 < length bs")
      case True
      with c 2(2) show ?thesis by (auto dest: reject_batched_is)
    next
      case False
      with c 2(2) have "h i input t lg = (t', lg', eff)" by simp
      with 2(3) named_call_single [OF c False] show ?thesis
        using sole_handlers [of tool h X i input t lg t' lg' eff bs] by simp
    qed
  qed
qed

lemma self_answered_request:
  assumes "self_answered X bs t t' lg' eff" "\<not> terminal t" "history_ok (messages t)"
    "role (last (messages t)) = Assistant" "tool_use_ids (last (messages t)) = call_ids bs"
  shows "(\<exists>why. eff = Failed why \<and> terminal t') \<or>
    (\<exists>req. eff = Infer req \<and> req_messages req = messages t' \<and> request_ok (messages t') \<and>
       turn t' < max_turns (cfg t') \<and> \<not> over_budget t' \<and> \<not> terminal t')"
proof -
  obtain rs lg t1 lg1 where rs: "answer_ids rs = call_ids bs" "provide_tool_results rs t lg = (t1, lg1)"
      "step_need_infer X t1 lg1 = (t', lg', eff)"
    using assms(1) by (auto simp: self_answered_def)
  note p = provide_tool_results_messages [OF assms(2) rs(2)]
  have "request_ok (messages t1)"
    using p history_ok_push [OF assms(3), of "\<lparr>role = User, blocks = rs\<rparr>"] assms(4,5) rs(1)
    by (simp add: request_ok_def)
  from step_need_infer_request [OF rs(3) this] p show ?thesis
    by (auto simp: failure_of_def)
qed

text \<open>One step of an agent that the scheduler may step.\<close>

lemma step_outcome:
  assumes "step X t lg = (t', lg', eff)" "\<not> terminal t" "request_ok (messages t)"
  obtains (ended) "terminal t'" "\<nexists>req. eff = Infer req" "\<nexists>bs. eff = CallTools bs" "sole_call eff = None"
      "(\<exists>why. eff = Failed why) \<or> history_ok (messages t') \<and> role (last (messages t')) = Assistant"
  | (asked) req where "eff = Infer req" "req_messages req = messages t'" "request_ok (messages t')"
      "turn t' < max_turns (cfg t')" "\<not> over_budget t'" "\<not> terminal t'"
  | (calls) bs where "eff = CallTools bs \<or> (\<exists>i. sole_call eff = Some i \<and> call_ids bs = [i])"
      "history_ok (messages t')" "role (last (messages t')) = Assistant"
      "tool_use_ids (last (messages t')) = call_ids bs" "\<not> terminal t'" "stored_response t' = None"
proof (cases "stored_response t")
  case None
  with assms(1,2) have "step_need_infer X t lg = (t', lg', eff)" by (simp add: step_def)
  from step_need_infer_request [OF this assms(3)] show ?thesis
    using assms(2) by (auto simp: failure_of_def sole_call_def intro: ended asked)
next
  case (Some response)
  define t1 where "t1 = t\<lparr>stored_response := None, messages := messages t @ [\<lparr>role = Assistant, blocks = resp_blocks response\<rparr>]\<rparr>"
  have h: "history_ok (messages t1)" "role (last (messages t1)) = Assistant"
      "tool_use_ids (last (messages t1)) = call_ids (resp_blocks response)" "\<not> terminal t1" "stored_response t1 = None"
    using assms(2,3) history_ok_push [of "messages t" "\<lparr>role = Assistant, blocks = resp_blocks response\<rparr>"]
    by (auto simp: t1_def request_ok_def)
  have s: "step_with_response X response (t\<lparr>stored_response := None\<rparr>) lg = (t', lg', eff)"
    using assms(1,2) Some by (simp add: step_def)
  show ?thesis
  proof (cases "stop_reason response = StopToolUse")
    case False
    with s have "t' = t1\<lparr>terminal := True\<rparr> \<and> ((\<exists>why. eff = Failed why) \<or> (\<exists>a. eff = Completed a) \<or> (\<exists>a. eff = CompletedTruncated a))"
      by (auto simp: step_with_response_def on_turn_end_def Let_def t1_def split: if_splits)
    with h show ?thesis
      by (intro ended) (auto simp: sole_call_def)
  next
    case True
    from s True obtain lg1 where o: "on_tool_use X response t1 lg1 = (t', lg', eff)"
      unfolding step_with_response_def Let_def t1_def by auto
    consider "over_budget t1" | "\<not> over_budget t1" "filter is_tool_use (resp_blocks response) = []"
      | "\<not> over_budget t1" "filter is_tool_use (resp_blocks response) \<noteq> []" by blast
    then show ?thesis
    proof cases
      case 1
      with o have "failure_of t1 t' eff" by (auto simp: on_tool_use_def dest: budget_failure_is)
      then show ?thesis by (intro ended) (auto simp: failure_of_def sole_call_def)
    next
      case 2
      with o show ?thesis by (intro ended) (auto simp: on_tool_use_def sole_call_def)
    next
      case 3
      with o have i: "intercept X (sole_tools X) (filter is_tool_use (resp_blocks response)) t1 lg1 = (t', lg', eff)"
        by (simp add: on_tool_use_def Let_def)
      from intercept_outcome [OF i subset_refl] show ?thesis
      proof
        assume "self_answered X (filter is_tool_use (resp_blocks response)) t1 t' lg' eff"
        from self_answered_request [OF this h(4,1,2)] h(3) show ?thesis
          by (auto simp: sole_call_def intro: ended asked)
      next
        assume "left_to_scheduler (filter is_tool_use (resp_blocks response)) t1 t' eff"
        with h show ?thesis
          by (intro calls [of "filter is_tool_use (resp_blocks response)"]) (auto simp: left_to_scheduler_def)
      qed
    qed
  qed
qed

subsection \<open>Answering the calls\<close>

lemma run_tools_answers:
  "run_tools_sequential X invoke aid tn bs lg = (lg', rs) \<Longrightarrow> answer_ids rs = call_ids bs"
proof (induction X invoke aid tn bs lg arbitrary: lg' rs rule: run_tools_sequential.induct)
  case (2 X invoke aid tn b bs lg)
  show ?case
  proof (cases b)
    case (ToolUse i name input)
    obtain lg2 outcome where inv: "invoke name input (record_event aid (Some tn) EvToolCall
        [(''id'', JStr i), (''name'', JStr name),
         (''input_preview'', JStr (truncate_chars (json_to_string X input) PREVIEW_CHARS))] lg) = (lg2, outcome)"
      by fastforce
    from 2 ToolUse inv show ?thesis
      by (auto simp: tool_use_ids_def tool_result_ids_def Let_def split: prod.splits sum.splits)
  qed (use 2 in \<open>auto simp: tool_use_ids_def\<close>)
qed (simp add: tool_use_ids_def tool_result_ids_def)

lemma push_to_last_user_snoc:
  "role m = User \<Longrightarrow> push_to_last_user b (ms @ [m]) = Some (ms @ [m\<lparr>blocks := blocks m @ [b]\<rparr>])"
  by (induction ms) simp_all

lemma request_ok_snoc:
  assumes "request_ok (ms @ [m])" "role m' = User" "set (tool_result_ids m) \<subseteq> set (tool_result_ids m')"
  shows "request_ok (ms @ [m'])"
  using assms
  by (auto simp: request_ok_def history_ok_def alternating_append paired_append split: if_splits)

lemma inject_messages_request:
  assumes "request_ok (messages t)" "inject_messages mail t lg = (t', lg')"
  shows "request_ok (messages t') \<and> terminal t' = terminal t \<and> short_term t' = short_term t"
proof (cases "mail = []")
  case False
  obtain ms m where ms: "messages t = ms @ [m]" "role m = User"
    using assms(1) by (cases "messages t" rule: rev_cases) (auto simp: request_ok_def history_ok_def)
  have sub: "set (tool_result_ids m) \<subseteq> set (tool_result_ids (m\<lparr>blocks := blocks m @ [b]\<rparr>))" for b
    by (auto simp: tool_result_ids_def)
  from False assms(2) ms obtain b where "messages t' = ms @ [m\<lparr>blocks := blocks m @ [b]\<rparr>]"
    "terminal t' = terminal t" "short_term t' = short_term t"
    by (auto simp: inject_messages_def Let_def push_to_last_user_snoc)
  with request_ok_snoc [of ms m] assms(1) ms sub show ?thesis by simp
qed (use assms in \<open>simp add: inject_messages_def\<close>)

subsection \<open>The life of an agent\<close>

text \<open>
  The life of an agent under any scheduler that keeps the contract of the effects: it answers
  an inference with a response, runs the tools it is told to run, answers every call of a sole
  tool exactly once, delivers mail before a step, changes limits and capabilities at will,
  saves and restores, and resumes a finished agent for another turn only when its last answer
  left no call open.
\<close>

inductive agent_life ::
    "'x agent_ext_scheme \<Rightarrow> (string \<Rightarrow> json \<Rightarrow> flight_log \<Rightarrow> flight_log \<times> (string + string)) \<Rightarrow> agent_task \<Rightarrow> bool"
  for X invoke where
  created: "agent_life X invoke (agent_new now aid task c mc sp)"
| inferred: "agent_life X invoke t \<Longrightarrow> step X t lg = (t1, lg1, Infer req) \<Longrightarrow>
     provide_inference response t1 lg2 = (t2, lg3) \<Longrightarrow> agent_life X invoke t2"
| ran_tools: "agent_life X invoke t \<Longrightarrow> step X t lg = (t1, lg1, CallTools bs) \<Longrightarrow>
     run_tools_sequential X invoke (agent_id t1) (turn t1) bs lg2 = (lg3, results) \<Longrightarrow>
     provide_tool_results results t1 lg3 = (t2, lg4) \<Longrightarrow> agent_life X invoke t2"
| answered: "agent_life X invoke t \<Longrightarrow> step X t lg = (t1, lg1, eff) \<Longrightarrow> sole_call eff = Some call_id \<Longrightarrow>
     provide_tool_results [ToolResult call_id content is_err] t1 lg2 = (t2, lg3) \<Longrightarrow> agent_life X invoke t2"
| mail: "agent_life X invoke t \<Longrightarrow> inject_messages ms t lg = (t1, lg1) \<Longrightarrow> agent_life X invoke t1"
| resumed: "agent_life X invoke t \<Longrightarrow> step X t lg = (t1, lg1, eff) \<Longrightarrow>
     eff = Completed answer \<or> eff = CompletedTruncated answer \<Longrightarrow> tool_use_ids (last (messages t1)) = [] \<Longrightarrow>
     \<not> terminal t \<Longrightarrow>
     push_user_turn text (resume_for_orchestration t1) lg2 = (t2, lg3) \<Longrightarrow> agent_life X invoke t2"
| limits: "agent_life X invoke t \<Longrightarrow>
     agent_life X invoke (t\<lparr>cfg := c, specs := sp, tool_names := map spec_name sp, window_anchor := a,
       budget_resettable := r, last_event_at := now\<rparr>)"
| restored: "agent_life X invoke t \<Longrightarrow>
     agent_life X invoke (from_checkpoint now (to_checkpoint t) sp)"

definition agent_inv :: "agent_task \<Rightarrow> bool" where
  "agent_inv t \<longleftrightarrow> (\<not> terminal t \<longrightarrow> request_ok (messages t))"

lemma step_terminal: "step X t lg = (t', lg', eff) \<Longrightarrow> terminal t \<Longrightarrow>
    t' = t \<and> (\<exists>why. eff = Failed why)"
  by (auto simp: step_def)

lemma provide_after_calls:
  assumes "history_ok (messages t)" "role (last (messages t)) = Assistant"
    "set (tool_use_ids (last (messages t))) \<subseteq> set (answer_ids rs)" "\<not> terminal t"
    "provide_tool_results rs t lg = (t', lg')"
  shows "agent_inv t'"
  using provide_tool_results_messages [OF assms(4,5)]
    history_ok_push [OF assms(1), of "\<lparr>role = User, blocks = rs\<rparr>"] assms(2,3)
  by (simp add: agent_inv_def request_ok_def)

lemma agent_life_inv: "agent_life X invoke t \<Longrightarrow> agent_inv t"
proof (induction rule: agent_life.induct)
  case (created now aid task c mc sp)
  then show ?case
    by (simp add: agent_inv_def agent_new_def request_ok_def history_ok_def user_text_def)
next
  case (inferred t lg t1 lg1 req response lg2 t2 lg3)
  then have nt: "\<not> terminal t" using step_terminal by blast
  with inferred have "request_ok (messages t1)"
    by (auto simp: agent_inv_def sole_call_def elim: step_outcome)
  with inferred show ?case
    by (auto simp: agent_inv_def provide_inference_def split: if_splits)
next
  case (ran_tools t lg t1 lg1 bs lg2 lg3 results t2 lg4)
  have nt: "\<not> terminal t" using step_terminal [OF ran_tools(2)] by blast
  with ran_tools have "request_ok (messages t)" by (auto simp: agent_inv_def)
  from ran_tools(2) nt this show ?case
  proof (cases rule: step_outcome)
    case (calls bs')
    with ran_tools run_tools_answers [OF ran_tools(3)] show ?thesis
      by (intro provide_after_calls [of t1 results]) (auto simp: sole_call_def)
  qed auto
next
  case (answered t lg t1 lg1 eff call_id content is_err lg2 t2 lg3)
  have nt: "\<not> terminal t"
    using step_terminal [OF answered(2)] answered(3) by (auto simp: sole_call_def)
  with answered have "request_ok (messages t)" by (auto simp: agent_inv_def)
  from answered(2) nt this show ?case
  proof (cases rule: step_outcome)
    case (calls bs)
    with answered show ?thesis
      by (intro provide_after_calls [of t1 "[ToolResult call_id content is_err]"]) (auto simp: sole_call_def)
  qed (use answered(3) in \<open>auto simp: sole_call_def\<close>)
next
  case (mail t ms lg t1 lg1)
  then show ?case
  proof (cases "terminal t")
    case True
    with mail have "terminal t1" by (auto simp: inject_messages_def Let_def split: if_splits)
    then show ?thesis by (simp add: agent_inv_def)
  next
    case False
    with mail have "request_ok (messages t)" by (simp add: agent_inv_def)
    from inject_messages_request [OF this mail(2)] show ?thesis by (simp add: agent_inv_def)
  qed
next
  case (resumed t lg t1 lg1 eff answer tx lg2 t2 lg3)
  then have "request_ok (messages t)" by (simp add: agent_inv_def)
  from resumed(2,5) this show ?case
  proof (cases rule: step_outcome)
    case ended
    with resumed(3) have "history_ok (messages t1)" "role (last (messages t1)) = Assistant" by auto
    with resumed(4,6) history_ok_push [of "messages t1" "user_text tx"] show ?thesis
      by (auto simp: push_user_turn_def resume_for_orchestration_def agent_inv_def request_ok_def user_text_def)
  qed (use resumed(3) in \<open>auto simp: sole_call_def\<close>)
next
  case (limits t c sp a r now)
  then show ?case by (simp add: agent_inv_def)
next
  case (restored t now sp)
  then show ?case by (simp add: agent_inv_def from_checkpoint_def to_checkpoint_def)
qed


subsection \<open>Predicates that every step keeps\<close>

text \<open>
  A predicate on agents that the elementary updates keep is kept by a whole \<open>step\<close>. The
  locale carries the case analysis of \<open>step\<close> once for all its instances.
\<close>

locale step_closed =
  fixes X :: "'x agent_ext_scheme" and P :: "agent_task \<Rightarrow> bool"
  assumes flag_closed: "P t \<Longrightarrow> P (t\<lparr>terminal := b\<rparr>)"
    and pressure_closed: "P t \<Longrightarrow> P (t\<lparr>last_pressure := p\<rparr>)"
    and response_closed: "P t \<Longrightarrow> P (t\<lparr>stored_response := r\<rparr>)"
    and push_closed: "P t \<Longrightarrow> P (t\<lparr>messages := messages t @ [m]\<rparr>)"
    and observe_closed: "P t \<Longrightarrow> P (t\<lparr>last_error := e, turn := n\<rparr>)"
    and page_closed: "P t \<Longrightarrow> page_if_hard X t lg = (t', lg') \<Longrightarrow> P t'"
begin

lemma results_keep: "P t \<Longrightarrow> provide_tool_results rs t lg = (t', lg') \<Longrightarrow> P t'"
proof -
  assume P: "P t" and r: "provide_tool_results rs t lg = (t', lg')"
  have "t' = t \<or> t' = (t\<lparr>messages := messages t @ [\<lparr>role = User, blocks = rs\<rparr>]\<rparr>)
      \<lparr>last_error := last_error t', turn := turn t'\<rparr>"
    using r by (auto simp: provide_tool_results_def Let_def split: if_splits)
  then show "P t'" using P push_closed observe_closed by metis
qed

lemma need_infer_keeps: "P t \<Longrightarrow> step_need_infer X t lg = (t', lg', eff) \<Longrightarrow> P t'"
proof -
  assume P: "P t"
  assume "step_need_infer X t lg = (t', lg', eff)"
  then show "P t'"
  proof (cases rule: step_need_infer_cases)
    case failed
    with P flag_closed show ?thesis by (auto simp: failure_of_def)
  next
    case (asked t1 lg1 lg2 req p)
    with P page_closed pressure_closed show ?thesis by metis
  qed
qed

lemma tool_use_keeps: "P t \<Longrightarrow> on_tool_use X r t lg = (t', lg', eff) \<Longrightarrow> P t'"
proof -
  let ?bs = "filter is_tool_use (resp_blocks r)"
  assume P: "P t" and o: "on_tool_use X r t lg = (t', lg', eff)"
  consider "t' = t\<lparr>terminal := True\<rparr>" | "intercept X (sole_tools X) ?bs t lg = (t', lg', eff)"
    using o by (auto simp: on_tool_use_def Let_def failure_of_def split: if_splits dest: budget_failure_is)
  then show "P t'"
  proof cases
    case 2
    from intercept_outcome [OF 2 subset_refl] show ?thesis
    proof
      assume "self_answered X ?bs t t' lg' eff"
      then obtain rs lg0 t1 lg1 where "provide_tool_results rs t lg0 = (t1, lg1)"
        "step_need_infer X t1 lg1 = (t', lg', eff)"
        unfolding self_answered_def by blast
      then show ?thesis using P results_keep need_infer_keeps by blast
    qed (simp add: left_to_scheduler_def P)
  qed (use P flag_closed in simp)
qed

lemma step_keeps: "P t \<Longrightarrow> step X t lg = (t', lg', eff) \<Longrightarrow> P t'"
proof -
  assume P: "P t" and s: "step X t lg = (t', lg', eff)"
  show "P t'"
  proof (cases "terminal t \<or> stored_response t = None")
    case True
    with s P need_infer_keeps show ?thesis by (auto simp: step_def split: if_splits)
  next
    case False
    then obtain r where r: "stored_response t = Some r" "\<not> terminal t" by auto
    with s have w: "step_with_response X r (t\<lparr>stored_response := None\<rparr>) lg = (t', lg', eff)"
      by (simp add: step_def)
    define t1 where "t1 = (t\<lparr>stored_response := None\<rparr>)\<lparr>messages :=
        messages (t\<lparr>stored_response := None\<rparr>) @ [\<lparr>role = Assistant, blocks = resp_blocks r\<rparr>]\<rparr>"
    have P1: "P t1" unfolding t1_def by (intro push_closed response_closed P)
    consider lg1 where "on_tool_use X r t1 lg1 = (t', lg', eff)" | "t' = t1\<lparr>terminal := True\<rparr>"
      using w unfolding step_with_response_def on_turn_end_def Let_def t1_def by (auto split: if_splits)
    then show ?thesis using P1 tool_use_keeps flag_closed by cases auto
  qed
qed

end

interpretation short_term_kept: step_closed X "\<lambda>t. length (short_term t) \<le> MAX_SHORT_TERM"
  by unfold_locales (auto dest: page_if_hard_keeps(2))

text \<open>What the checkpoint does not store but recomputes from what it stores.\<close>

definition stamped :: "agent_task \<Rightarrow> bool" where
  "stamped t \<longleftrightarrow>
     tool_names t = map spec_name (specs t) \<and>
     (\<exists>s. first_text (messages t) = Some s \<and> task_fp t = task_fingerprint s)"

lemma first_text_append: "first_text ms = Some s \<Longrightarrow> first_text (ms @ ns) = Some s"
  by (auto simp: first_text_def split: list.splits)

lemma stamped_cong:
  "stamped t \<Longrightarrow> tool_names t' = tool_names t \<Longrightarrow> specs t' = specs t \<Longrightarrow> task_fp t' = task_fp t \<Longrightarrow>
   (\<And>s. first_text (messages t) = Some s \<Longrightarrow> first_text (messages t') = Some s) \<Longrightarrow> stamped t'"
  by (auto simp: stamped_def)

lemma page_if_hard_stamped: "stamped t \<Longrightarrow> page_if_hard X t lg = (t', lg') \<Longrightarrow> stamped t'"
proof -
  assume st: "stamped t" and p: "page_if_hard X t lg = (t', lg')"
  consider "t' = t"
    | ms items ev where "page_turns (msg_codec.truncate X) (messages t) (page_count (messages t)) (turn t) = Inr (ms, items)"
      "cap_short_term (t\<lparr>messages := ms, short_term := short_term t @ items\<rparr>) = (t', ev)"
    using p by (auto simp: page_if_hard_def Let_def split: if_splits sum.splits prod.splits)
  then show "stamped t'"
  proof cases
    case 2
    have "first_text (messages t) = Some s \<Longrightarrow> first_text ms = Some s" for s
      using 2(1) first_text_append [of "take 1 (messages t)"]
      by (cases "messages t")
        (auto simp: page_turns_def Let_def first_text_def split: if_splits sum.splits list.splits)
    moreover have "t' = t\<lparr>messages := ms, short_term := drop ev (short_term t @ items)\<rparr>"
      using 2(2) by (auto simp: cap_short_term_def Let_def)
    ultimately show ?thesis using st by (auto simp: stamped_def)
  qed (simp add: st)
qed

interpretation stamp_kept: step_closed X stamped
proof unfold_locales
  show "stamped t \<Longrightarrow> stamped (t\<lparr>messages := messages t @ [m]\<rparr>)" for t m
    by (auto simp: stamped_def intro: first_text_append)
  show "stamped t \<Longrightarrow> page_if_hard X t lg = (t', lg') \<Longrightarrow> stamped t'" for t lg t' lg'
    by (rule page_if_hard_stamped)
qed (auto simp: stamped_def)

lemma provide_inference_fields:
  "provide_inference r t lg = (t', lg') \<Longrightarrow> short_term t' = short_term t \<and> (stamped t \<longrightarrow> stamped t')"
  by (auto simp: provide_inference_def stamped_def split: if_splits)

lemma push_to_last_user_first_text:
  "push_to_last_user b ms = Some ms' \<Longrightarrow> first_text ms = Some s \<Longrightarrow> first_text ms' = Some s"
  by (cases ms) (auto simp: first_text_def split: option.splits list.splits if_splits)

lemma inject_messages_fields:
  "inject_messages ms t lg = (t', lg') \<Longrightarrow> short_term t' = short_term t \<and> (stamped t \<longrightarrow> stamped t')"
proof (cases "ms = []")
  case False
  assume "inject_messages ms t lg = (t', lg')"
  with False have t': "t' = t\<lparr>messages := (case push_to_last_user (Text (mail_text ms)) (messages t) of
      Some ms \<Rightarrow> ms | None \<Rightarrow> messages t @ [user_text (mail_text ms)])\<rparr>"
    by (auto simp: inject_messages_def Let_def)
  have "stamped t'" if "stamped t"
    by (rule stamped_cong [OF that])
      (auto simp: t' intro: first_text_append push_to_last_user_first_text split: option.split)
  then show ?thesis by (simp add: t')
qed (simp add: inject_messages_def)

text \<open>
  The buffer of paged-out turns never holds more than 1000 entries, however long an agent
  lives.\<close>

theorem short_term_bounded:
  assumes "agent_life X invoke t"
  shows "length (short_term t) \<le> 1000"
proof -
  from assms have "length (short_term t) \<le> MAX_SHORT_TERM"
  proof (induction rule: agent_life.induct)
    case (created now aid task c mc sp)
    then show ?case by (simp add: agent_new_def)
  next
    case (resumed t lg t1 lg1 eff answer tx lg2 t2 lg3)
    with short_term_kept.step_keeps [OF _ resumed(2)] show ?case
      by (auto simp: push_user_turn_def resume_for_orchestration_def)
  qed (auto simp: from_checkpoint_def to_checkpoint_def
      dest!: provide_inference_fields inject_messages_fields
      elim: short_term_kept.step_keeps short_term_kept.results_keep [rotated])
  then show ?thesis by (simp add: MAX_SHORT_TERM_def)
qed

lemma agent_life_stamped: "agent_life X invoke t \<Longrightarrow> stamped t"
proof (induction rule: agent_life.induct)
  case (created now aid task c mc sp)
  then show ?case by (simp add: agent_new_def stamped_def first_text_def user_text_def)
next
  case (inferred t lg t1 lg1 req response lg2 t2 lg3)
  then show ?case using stamp_kept.step_keeps provide_inference_fields by metis
next
  case (ran_tools t lg t1 lg1 bs lg2 lg3 results t2 lg4)
  then show ?case using stamp_kept.step_keeps stamp_kept.results_keep by metis
next
  case (answered t lg t1 lg1 eff call_id content is_err lg2 t2 lg3)
  then show ?case using stamp_kept.step_keeps stamp_kept.results_keep by metis
next
  case (mail t ms lg t1 lg1)
  then show ?case using inject_messages_fields by metis
next
  case (resumed t lg t1 lg1 eff answer tx lg2 t2 lg3)
  then have "stamped t1" using stamp_kept.step_keeps by metis
  then show ?case
    by (rule stamped_cong)
      (use resumed(6) in \<open>auto simp: push_user_turn_def resume_for_orchestration_def intro: first_text_append\<close>)
next
  case (limits t c sp a r now)
  then show ?case by (auto simp: stamped_def)
next
  case (restored t now sp)
  then show ?case by (auto simp: stamped_def from_checkpoint_def to_checkpoint_def)
qed

text \<open>
  Restoring a checkpoint gives back the agent: every durable field is as it was, the cached
  tool names and the task fingerprint are recomputed to the same values, and only the
  runtime-only fields are reset.\<close>

theorem checkpoint_roundtrip:
  assumes "agent_life X invoke t"
  shows "from_checkpoint now (to_checkpoint t) (specs t) =
    t\<lparr>budget_resettable := False, last_pressure := PNone, last_event_at := now, last_error := None\<rparr>"
  using agent_life_stamped [OF assms]
  by (auto simp: stamped_def from_checkpoint_def to_checkpoint_def)

subsection \<open>The repair\<close>

fun repair_rec :: "string list \<Rightarrow> msg list \<Rightarrow> msg list" where
  "repair_rec live [] = []"
| "repair_rec live (m # ms) =
     (let orphaned = orphaned_ids live m (case ms of [] \<Rightarrow> None | n # _ \<Rightarrow> Some n);
          ms' = repair_rec live ms
      in if orphaned = [] then m # ms' else repair_one (0, orphaned) (m # ms'))"

lemma repair_one_shift: "repair_one (length pre + i, ids) (pre @ ms) = pre @ repair_one (i, ids) ms"
proof -
  have l: "Suc (length pre + i) = length pre + Suc i" by simp
  show ?thesis
    unfolding repair_one_def prod.case Let_def l
    by (auto simp: nth_append list_update_append)
qed

lemma repair_fold:
  "fold repair_one (rev (repair_plan live (length pre) ms)) (pre @ ms) = pre @ repair_rec live ms"
proof (induction ms arbitrary: pre)
  case (Cons m ms)
  have IH: "fold repair_one (rev (repair_plan live (Suc (length pre)) ms)) (pre @ m # ms) = pre @ m # repair_rec live ms"
    using Cons.IH [of "pre @ [m]"] by simp
  show ?case
    using IH repair_one_shift [of pre 0] by (simp add: Let_def)
qed simp

lemma repair_is_rec: "fst (repair_dangling_tool_uses ms live) = repair_rec live ms"
  using repair_fold [of live "[]" ms] by (simp add: repair_dangling_tool_uses_def Let_def)

lemma repair_rec_hd: "hd (repair_rec live (m # ms)) = m \<and> repair_rec live (m # ms) \<noteq> []"
  by (auto simp: Let_def repair_one_def nth_Cons' hd_append)

text \<open>Every call of an assistant turn that nobody still works on is answered in the next turn.\<close>

fun calls_answered :: "string list \<Rightarrow> msg list \<Rightarrow> bool" where
  "calls_answered live [] = True"
| "calls_answered live (m # ms) \<longleftrightarrow>
     (role m = Assistant \<and> tool_use_ids m \<noteq> [] \<and> set (tool_use_ids m) \<inter> set live = {} \<longrightarrow>
        (case ms of [] \<Rightarrow> False
         | n # _ \<Rightarrow> role n = User \<and> set (tool_use_ids m) \<subseteq> set (tool_result_ids n))) \<and>
     calls_answered live ms"

lemma orphaned_none:
  "orphaned_ids live m nxt = [] \<Longrightarrow> role m = Assistant \<Longrightarrow> tool_use_ids m \<noteq> [] \<Longrightarrow>
   set (tool_use_ids m) \<inter> set live = {} \<Longrightarrow>
   (case nxt of None \<Rightarrow> False | Some n \<Rightarrow> role n = User \<and> set (tool_use_ids m) \<subseteq> set (tool_result_ids n))"
  by (auto simp: orphaned_ids_def Let_def filter_empty_conv list_ex_iff split: option.splits if_splits)

lemma calls_answered_user: "role n = User \<Longrightarrow> calls_answered live (n # ms) = calls_answered live ms"
  by simp

lemma merge_ids:
  "set (tool_result_ids (repair_merge order syn n)) = set (tool_result_ids n) \<union> set (answer_ids syn)"
  "role (repair_merge order syn n) = role n"
  by (auto simp: repair_merge_def tool_result_ids_def is_tool_result_def split: block.splits)

lemma orphaned_cover:
  assumes "orphaned_ids live m nxt \<noteq> []"
  shows "role m = Assistant"
    "set (tool_use_ids m) \<subseteq> set (orphaned_ids live m nxt) \<union>
       (case nxt of Some n \<Rightarrow> if role n = User then set (tool_result_ids n) else {} | None \<Rightarrow> {})"
  using assms by (auto simp: orphaned_ids_def Let_def split: if_splits option.splits)

lemma no_results: "\<not> list_ex is_tool_result (blocks n) \<Longrightarrow> tool_result_ids n = []"
  by (auto simp: tool_result_ids_def is_tool_result_def list_ex_iff split: block.splits)

lemma answer_ids_synthetic [simp]: "answer_ids (map (\<lambda>i. ToolResult i c e) ids) = ids"
  by (induction ids) (simp_all add: tool_result_ids_def)

lemma calls_answered_repair: "calls_answered live (repair_rec live ms)"
proof (induction ms)
  case (Cons m ms)
  let ?nxt = "case ms of [] \<Rightarrow> None | n # _ \<Rightarrow> Some n"
  let ?o = "orphaned_ids live m ?nxt"
  have hd: "case ms of [] \<Rightarrow> repair_rec live ms = [] | n # _ \<Rightarrow> \<exists>rest. repair_rec live ms = n # rest"
    using repair_rec_hd [of live] by (cases ms) (auto simp del: repair_rec.simps(2), metis list.collapse)
  show ?case
  proof (cases "?o = []")
    case True
    with Cons orphaned_none [OF True] hd show ?thesis
      by (cases ms) (auto simp: Let_def)
  next
    case False
    note cov = orphaned_cover [OF False]
    show ?thesis
    proof (cases "\<exists>n rest. repair_rec live ms = n # rest \<and> role n = User \<and> list_ex is_tool_result (blocks n)")
      case True
      then obtain n rest where n: "repair_rec live ms = n # rest" "role n = User" "list_ex is_tool_result (blocks n)" by blast
      with hd have "?nxt = Some n" by (cases ms) auto
      with cov n Cons False show ?thesis
        by (auto simp: Let_def repair_one_def merge_ids)
    next
      case none: False
      have "set (tool_use_ids m) \<subseteq> set ?o"
        using cov(2) none hd no_results by (cases ms) (auto split: if_splits)
      with none Cons False show ?thesis
        by (cases "repair_rec live ms") (auto simp: Let_def repair_one_def)
    qed
  qed
qed simp

lemma repair_plan_nothing: "calls_answered live ms \<Longrightarrow> repair_plan live i ms = []"
proof (induction ms arbitrary: i)
  case (Cons m ms)
  have "orphaned_ids live m (case ms of [] \<Rightarrow> None | n # _ \<Rightarrow> Some n) = []"
    using Cons.prems
    by (cases ms) (auto simp: orphaned_ids_def Let_def list_ex_iff filter_empty_conv)
  with Cons show ?case by (simp add: Let_def)
qed simp

text \<open>
  After the repair of a restored conversation every call of an assistant turn without a live
  call is answered in the turn right after it, whatever the conversation was; repairing again
  changes nothing.\<close>

theorem repair_answers_every_call:
  "calls_answered live (fst (repair_dangling_tool_uses ms live)) \<and>
   repair_dangling_tool_uses (fst (repair_dangling_tool_uses ms live)) live =
     (fst (repair_dangling_tool_uses ms live), [])"
  using calls_answered_repair [of live ms] repair_plan_nothing [of live "repair_rec live ms" 0]
  by (simp add: repair_is_rec) (simp add: repair_dangling_tool_uses_def)

text \<open>
  The repair can break the alternation of roles: where the turn after an unanswered call is a
  plain user message, the synthetic results are inserted as a second user turn before it.\<close>

theorem repair_breaks_alternation:
  "let ms = [user_text ''task'', \<lparr>role = Assistant, blocks = [ToolUse ''c1'' ''fs_read'' JNull]\<rparr>, user_text ''go on'']
   in alternating User ms \<and> \<not> alternating User (fst (repair_dangling_tool_uses ms []))"
  by code_simp

subsection \<open>A concrete agent, for the witnesses\<close>

definition sample_ext :: agent_ext where
  "sample_ext =
     \<lparr>json_to_string = (\<lambda>_. ''{}''), blocks_to_json = (\<lambda>_. Inr ''[]''),
      parse_spawn = (\<lambda>_. Inl ''missing field''), parse_action = (\<lambda>_. Inl ''missing field'')\<rparr>"

definition sample_cfg :: agent_config where
  "sample_cfg =
     \<lparr>ac_id = ''a'', ac_task = ''task'', max_turns = 20, token_budget = 0, ac_priority = 0,
      capabilities = None, ac_name = None, ac_description = [], ac_skills = [], ac_tier = Native,
      ac_command = None, ac_args = [], ac_isolation = IsoNone, max_wall_seconds = 0\<rparr>"

definition sample_agent :: agent_task where
  "sample_agent = agent_new 0 ''a'' ''task'' sample_cfg
     \<lparr>mc_provider = ''p'', mc_model = ''m'', mc_max_tokens = 4096, mc_streaming = False\<rparr> []"

definition sample_response :: inference_response where
  "sample_response =
     \<lparr>resp_blocks = [Text ''hm'', ToolUse ''c1'' ''spawn_agent'' JNull, ToolUse ''c2'' ''fs_read'' JNull],
      stop_reason = StopToolUse, input_tokens = 10, output_tokens = 5, transport_retries = 0\<rparr>"

definition sample_invoke :: "string \<Rightarrow> json \<Rightarrow> flight_log \<Rightarrow> flight_log \<times> (string + string)" where
  "sample_invoke name input lg = (lg, Inl ''no such tool'')"

lemma assess_unlimited [simp]: "assess n 0 = PNone"
  by (simp add: assess_def)

lemma sample_first_step:
  "\<exists>t lg req. step sample_ext sample_agent [] = (t, lg, Infer req) \<and> t = sample_agent"
  by (simp add: step_def step_need_infer_def sample_agent_def agent_new_def sample_cfg_def over_budget_def
      page_if_hard_def Let_def emit_request_def)

definition sample_agent2 :: agent_task where
  "sample_agent2 = fst (provide_inference sample_response sample_agent [])"

lemma sample_agent2_life: "agent_life sample_ext sample_invoke sample_agent2"
proof -
  obtain lg req where s: "step sample_ext sample_agent [] = (sample_agent, lg, Infer req)"
    using sample_first_step by blast
  have "agent_life sample_ext sample_invoke sample_agent"
    unfolding sample_agent_def by (rule agent_life.created)
  from agent_life.inferred [OF this s, of sample_response "[]"] show ?thesis
    by (simp add: sample_agent2_def) (metis prod.collapse)
qed

lemma sample_second_step:
  "\<exists>t lg req. step sample_ext sample_agent2 [] = (t, lg, Infer req) \<and> length (req_messages req) = 3"
  by (simp add: sample_agent2_def sample_response_def provide_inference_def step_def step_with_response_def
      on_tool_use_def step_need_infer_def sample_agent_def agent_new_def sample_cfg_def over_budget_def
      page_if_hard_def Let_def emit_request_def sole_tools_def named_call_def find_map_def map_filter_simps
      is_tool_use_def reject_batched_sole_tool_def provide_tool_results_def sole_rejection_def word_le_nat_alt)


theorem short_term_bounded_witness: "length (short_term sample_agent2) \<le> 1000"
  by (rule short_term_bounded [OF sample_agent2_life])

theorem checkpoint_roundtrip_witness:
  "from_checkpoint 7 (to_checkpoint sample_agent2) (specs sample_agent2) =
     sample_agent2\<lparr>budget_resettable := False, last_pressure := PNone, last_event_at := 7, last_error := None\<rparr>"
  by (rule checkpoint_roundtrip [OF sample_agent2_life])

end
