(* ===== verification/Sched_Core.thy ===== *)
theory Sched_Core
  imports Sched_Run Agent_Life
begin

section \<open>The dispatcher returns\<close>

subsection \<open>What a step leaves of the agent\<close>

interpretation config_kept: step_closed X "\<lambda>t. cfg t = c"
  by unfold_locales (auto simp: page_if_hard_def cap_short_term_def Let_def split: if_splits sum.splits)

lemma step_cfg: "step X t lg = (t', lg', eff) \<Longrightarrow> cfg t' = cfg t"
  by (rule config_kept.step_keeps [OF refl])

lemma provide_tool_results_fields:
  "provide_tool_results rs t lg = (t', lg') \<Longrightarrow> cfg t' = cfg t \<and> stored_response t' = stored_response t"
  by (auto simp: provide_tool_results_def Let_def split: if_splits)

lemma page_if_hard_stored: "page_if_hard X t lg = (t', lg') \<Longrightarrow> stored_response t' = stored_response t"
  by (auto simp: page_if_hard_def cap_short_term_def Let_def split: if_splits sum.splits)

lemma step_need_infer_rank:
  "step_need_infer X t lg = (t', lg', eff) \<Longrightarrow> stored_response t' = stored_response t \<and> effect_rank eff \<le> 1"
  by (auto simp: step_need_infer_def max_turns_failure_def budget_failure_def emit_request_def effect_rank_def
      Let_def page_if_hard_stored split: if_splits prod.splits)

lemma effect_rank_le: "effect_rank eff \<le> 4"
  by (cases eff) (simp_all add: effect_rank_def)

lemma answered_stored:
  assumes "provide_tool_results rs t lg = (t1, lg1)" and "step_need_infer X t1 lg1 = (t', lg', eff)"
  shows "stored_response t' = stored_response t"
  using provide_tool_results_fields [OF assms(1)] step_need_infer_rank [OF assms(2)] by simp

lemma answer_and_retry_stored:
  "answer_and_retry X call content t lg = (t', lg', eff) \<Longrightarrow> stored_response t' = stored_response t"
  by (auto simp: answer_and_retry_def answered_stored split: prod.splits)

lemma handler_stored:
  assumes "(tool, h) \<in> set (sole_tools X)" and "h call input t lg = (t', lg', eff)"
  shows "stored_response t' = stored_response t"
  using assms answer_and_retry_stored
  by (fastforce simp: sole_tools_def on_spawn_agent_def on_run_job_def on_send_message_def
      on_request_approval_def split: sum.splits option.splits)

lemma intercept_stored:
  "set ts \<subseteq> set (sole_tools X) \<Longrightarrow> intercept X ts bs t lg = (t', lg', eff) \<Longrightarrow>
   stored_response t' = stored_response t"
proof (induction X ts bs t lg rule: intercept.induct)
  case (2 X tool handler rest call_blocks t lg)
  then have "(tool, handler) \<in> set (sole_tools X)" by simp
  with 2 show ?case
    by (auto simp: reject_batched_sole_tool_def answered_stored split: option.splits prod.splits if_splits
        dest: handler_stored)
qed auto

lemma on_tool_use_stored:
  "on_tool_use X r t lg = (t', lg', eff) \<Longrightarrow> stored_response t' = stored_response t"
  by (auto simp: on_tool_use_def budget_failure_def Let_def split: if_splits
      dest: intercept_stored [OF subset_refl])

lemma step_rank:
  assumes "step X t lg = (t', lg', eff)"
  shows "5 * of_bool (stored_response t' \<noteq> None) + effect_rank eff
         \<le> 5 * of_bool (stored_response t \<noteq> None) + (1::nat)"
proof (cases "terminal t \<or> stored_response t = None")
  case True
  with assms show ?thesis
    by (auto simp: step_def effect_rank_def split: if_splits dest: step_need_infer_rank)
next
  case False
  then obtain r where r: "stored_response t = Some r" "\<not> terminal t" by auto
  with assms have "step_with_response X r (t\<lparr>stored_response := None\<rparr>) lg = (t', lg', eff)"
    by (simp add: step_def)
  then have "stored_response t' = None"
    by (auto simp: step_with_response_def on_turn_end_def Let_def split: if_splits
        dest: on_tool_use_stored)
  with r show ?thesis using effect_rank_le [of eff] by simp
qed

subsection \<open>The potential\<close>

definition stored_count :: "(string, agent_task) hashmap \<Rightarrow> nat" where
  "stored_count m = length (filter (\<lambda>(_, a). stored_response a \<noteq> None) m)"

lemma stored_count_put:
  "stored_count (put k a m) + of_bool (\<exists>b. get m k = Some b \<and> stored_response b \<noteq> None)
   = stored_count m + of_bool (stored_response a \<noteq> None)"
  by (induction m) (auto simp: stored_count_def)

lemma stored_count_remove: "stored_count (remove k m) \<le> stored_count m"
  by (induction m) (auto simp: stored_count_def)

lemma length_put_le: "length (put k v m) \<le> Suc (length m)"
  by (induction m) auto

lemma length_remove_le: "length (remove k m) \<le> length m"
  by (induction m) auto

lemma length_remove_less: "get m k = Some v \<Longrightarrow> length (remove k m) < length m"
  by (induction m) (auto simp: less_Suc_eq_le length_remove_le split: if_splits)

lemma stored_count_modify:
  assumes "\<And>a. stored_response (f a) = stored_response a"
  shows "stored_count (modify k f m) = stored_count m"
proof (cases "get m k")
  case (Some a)
  then show ?thesis using stored_count_put [of k "f a" m] assms by (simp add: modify_def)
qed (simp add: modify_def)

lemma potential_alt: "potential s = length (deferred s) + 2 * length (awaiting s) + 5 * stored_count (agents s)"
  by (simp add: potential_def stored_count_def)

named_theorems sched_defs \<open>the updates of the scheduler state\<close>

declare note_event_def [sched_defs] run_send_def [sched_defs] consume_cancel_def [sched_defs]
  leave_orchestration_def [sched_defs] release_lease_def [sched_defs] close_run_def [sched_defs]
  detach_child_def [sched_defs] retire_def [sched_defs] wind_up_def [sched_defs] admit_def [sched_defs]
  defer_infer_def [sched_defs] register_child_def [sched_defs] register_job_child_def [sched_defs]
  await_signal_def [sched_defs] post_mail_def [sched_defs] park_approval_def [sched_defs]
  park_orchestrated_def [sched_defs] mark_agent_def [sched_defs] receipt_denial_def [sched_defs]

lemma on_egress_simps [simp]:
  "agents (on_egress f s) = agents s" "outcomes (on_egress f s) = outcomes s"
  "pending (on_egress f s) = pending s" "deferred (on_egress f s) = deferred s"
  "in_flight (on_egress f s) = in_flight s" "awaiting (on_egress f s) = awaiting s"
  "spawn_depths (on_egress f s) = spawn_depths s" "ss_max_spawn_depth (on_egress f s) = ss_max_spawn_depth s"
  "cancel_requested (on_egress f s) = cancel_requested s" "jobs (on_egress f s) = jobs s"
  "live_job_runs (on_egress f s) = live_job_runs s" "child_job (on_egress f s) = child_job s"
  "job_schedules (on_egress f s) = job_schedules s" "tokens_spent (on_egress f s) = tokens_spent s"
  "global_window_anchor (on_egress f s) = global_window_anchor s" "waiting (on_egress f s) = waiting s"
  "budget_window_start (on_egress f s) = budget_window_start s" "parent_map (on_egress f s) = parent_map s"
  "pending_approvals (on_egress f s) = pending_approvals s" "mailboxes (on_egress f s) = mailboxes s"
  "deferred_seq (on_egress f s) = deferred_seq s" "orchestrated (on_egress f s) = orchestrated s"
  by (simp_all add: on_egress_def Let_def split: option.splits)

lemma note_event_simps [simp]:
  "agents (note_event aid tn k d s) = agents s" "outcomes (note_event aid tn k d s) = outcomes s"
  "cancel_requested (note_event aid tn k d s) = cancel_requested s"
  "spawn_depths (note_event aid tn k d s) = spawn_depths s" "jobs (note_event aid tn k d s) = jobs s"
  "in_flight (note_event aid tn k d s) = in_flight s" "child_job (note_event aid tn k d s) = child_job s"
  by (simp_all add: note_event_def)

lemma potential_note [simp]: "potential (note_event aid tn k d s) = potential s"
  by (simp add: note_event_def potential_def)

lemma potential_wind_up: "potential (wind_up aid r s) \<le> potential s"
  by (auto simp: potential_def sched_defs Let_def intro: le_trans [OF length_filter_le] split: option.splits)

lemma wind_up_simps [simp]:
  "agents (wind_up aid r s) = agents s" "outcomes (wind_up aid r s) = outcomes s"
  "awaiting (wind_up aid r s) = awaiting s" "cancel_requested (wind_up aid r s) = remove aid (cancel_requested s)"
  by (auto simp: sched_defs Let_def split: option.splits)

lemma potential_detach:
  assumes "get (awaiting s) aid = Some aw"
  shows "potential (detach_child aid s) + 2 \<le> potential s"
  using length_remove_less [OF assms] stored_count_remove [of aid "agents s"]
  by (simp add: potential_alt detach_child_def)

lemma potential_retire: "potential (retire aid b r s) \<le> potential s"
  using stored_count_remove [of aid "agents s"] by (simp add: potential_alt retire_def Let_def)

lemma potential_step:
  assumes "get (agents s) aid = Some a" and "stored_response a1 = stored_response a"
    and "step X a1 lg1 = (a2, lg2, eff)"
  shows "potential (s\<lparr>agents := put aid a2 (agents s), flight := lg\<rparr>) + effect_rank eff \<le> potential s + 1"
  using stored_count_put [of aid a2 "agents s"] step_rank [OF assms(3)] assms(1,2)
  by (simp add: potential_alt split: if_splits)

lemma mark_agent_simps [simp]:
  "potential (mark_agent E aid s) = potential s"
  "get (agents (mark_agent E aid s)) k = (if k = aid then map_option (mark_event (instant_at E (length (flight s)))) (get (agents s) k) else get (agents s) k)"
  by (simp_all add: mark_agent_def potential_alt stored_count_modify mark_event_def)

lemma new_native_stored [simp]: "stored_response (new_native E sc c mc s) = None"
  by (simp add: new_native_def set_budget_resettable_def agent_new_def)

lemma spawned_stored [simp]:
  "stored_response (spawn_child E sc pid config caps cid s) = None"
  "stored_response (job_child E sc jb cid mc s) = None"
  by (simp_all add: spawn_child_def job_child_def Let_def)

lemma potential_register_child:
  assumes "stored_response child = None"
  shows "potential (register_child pid call d cid child s) \<le> potential s + 2"
  using stored_count_put [of cid child "agents s"] assms
    length_put_le [of cid "\<lparr>aw_parent = pid, aw_call = call, deliver_content = True\<rparr>" "awaiting s"]
  by (simp add: potential_alt register_child_def run_send_def note_event_def Let_def)

lemma potential_register_job_child:
  assumes "stored_response child = None"
  shows "potential (register_job_child j cid p d r child s) \<le> potential s"
  using stored_count_put [of cid child "agents s"] assms
  by (simp add: potential_alt register_job_child_def run_send_def note_event_def Let_def)

subsection \<open>The dispatcher returns\<close>

text \<open>
  A handler returns a state whose potential is within a bound. It may panic unless \<open>ok\<close>, the
  presence of the agent that it indexes; it never runs out of depth.
\<close>

definition ends_within :: "bool \<Rightarrow> nat \<Rightarrow> sched_res \<Rightarrow> bool" where
  "ends_within ok b r = (case r of Inr s' \<Rightarrow> potential s' \<le> b | Inl e \<Rightarrow> e = Panic \<and> \<not> ok)"

lemma ends_within_simps [simp]:
  "ends_within ok b (Inr s') \<longleftrightarrow> potential s' \<le> b" "ends_within ok b (Inl Panic) \<longleftrightarrow> \<not> ok"
  by (simp_all add: ends_within_def)

lemma ends_within_mono: "ends_within ok b r \<Longrightarrow> (ok' \<Longrightarrow> ok) \<Longrightarrow> b \<le> c \<Longrightarrow> ends_within ok' c r"
  by (auto simp: ends_within_def split: sum.splits)

lemma ends_withinD: "ends_within True b r \<Longrightarrow> \<exists>s'. r = Inr s' \<and> potential s' \<le> b"
  by (auto simp: ends_within_def split: sum.splits)

lemma ends_within_fuel: "ends_within ok b r \<Longrightarrow> r \<noteq> Inl OutOfFuel"
  by (auto simp: ends_within_def)

lemma ends_within_await:
  assumes "ends_within ok b r"
  shows "ends_within ok (b + 2) (map_sum id (await_signal pid call cid) r)"
proof (cases r)
  case (Inr s')
  have "length (awaiting (await_signal pid call cid s')) \<le> Suc (length (awaiting s'))"
    by (simp add: await_signal_def length_put_le)
  then have "potential (await_signal pid call cid s') \<le> potential s' + 2"
    by (simp add: potential_alt) (simp add: await_signal_def)
  with Inr assms show ?thesis by simp
qed (use assms in \<open>simp add: ends_within_def\<close>)

text \<open>
  What a handler may rely on when it calls the dispatcher recursively with depth \<open>n\<close>: the
  potential grows by no more than the rank of the effect.
\<close>

locale enq_total =
  fixes n :: nat and enq :: enq
  assumes returns: "potential s + effect_rank eff < n \<Longrightarrow>
      ends_within (2 \<le> effect_rank eff \<longrightarrow> contains_key (agents s) aid)
        (potential s + effect_rank eff) (enq eff aid tn pr caps s)"
begin

lemma step_returns:
  assumes "get (agents s) aid = Some a" and "stored_response a1 = stored_response a"
    and "step E a1 lg1 = (a2, lg2, eff)" and "potential s + 1 < n"
  shows "ends_within True (potential s + 1)
           (enq eff aid tn pr caps (s\<lparr>agents := put aid a2 (agents s), flight := lg2\<rparr>))"
proof -
  have p: "potential (s\<lparr>agents := put aid a2 (agents s), flight := lg2\<rparr>) + effect_rank eff \<le> potential s + 1"
    using assms(1-3) by (rule potential_step)
  then show ?thesis using assms(4) by (intro ends_within_mono [OF returns]) auto
qed

lemma answer_call_returns:
  assumes "potential s + 1 < n"
  shows "ends_within (contains_key (agents s) aid) (potential s + 1) (answer_call enq E aid call content err s)"
proof (cases "get (agents s) aid")
  case (Some a)
  obtain a1 lg1 where p: "provide_tool_results [ToolResult call content err] a (flight s) = (a1, lg1)"
    by (metis surj_pair)
  obtain a2 lg2 eff where st: "step E a1 lg1 = (a2, lg2, eff)" by (metis prod_cases3)
  have "stored_response a1 = stored_response a" using provide_tool_results_fields [OF p] by simp
  from step_returns [OF Some this st assms] show ?thesis
    by (simp add: answer_call_def Some p st)
qed (simp add: answer_call_def)

lemma answer_within:
  assumes "ok \<Longrightarrow> contains_key (agents s1) aid" and "potential s1 = potential s" and "potential s + 1 < n"
    and "potential s + 1 \<le> b"
  shows "ends_within ok b (answer_call enq E aid call content err s1)"
  using assms by (intro ends_within_mono [OF answer_call_returns]) simp_all

lemma seed_agent_returns:
  assumes "contains_key (agents s) aid" and "potential s + 1 < n"
  shows "ends_within True (potential s + 1) (seed_agent enq E aid pr s)"
proof -
  obtain a where a: "get (agents s) aid = Some a" using assms(1) by auto
  obtain a2 lg2 eff where st: "step E a (flight s) = (a2, lg2, eff)" by (metis prod_cases3)
  from step_returns [OF a refl st assms(2)] show ?thesis by (simp add: seed_agent_def a st)
qed

lemma deliver_result_returns:
  assumes "potential s + 1 < n"
  shows "ends_within True (potential s + 1) (deliver_result enq E aid r aw s)"
  unfolding deliver_result_def Let_def
  using assms by (auto simp: parent_live_def intro!: answer_within [where s = s])

lemma terminal_returns:
  assumes "potential s \<le> n"
  shows "ends_within True (potential s) (handle_agent_terminal enq E aid r s)"
proof (cases "get (awaiting s) aid")
  case None
  then show ?thesis
    using potential_wind_up [of aid r s] potential_retire [of aid "contains_key (child_job s) aid" r "wind_up aid r s"]
    by (simp add: handle_agent_terminal_def)
next
  case (Some aw)
  let ?d = "detach_child aid (wind_up aid r s)"
  have d: "potential ?d + 2 \<le> potential s"
    using potential_detach [of "wind_up aid r s" aid aw] potential_wind_up [of aid r s] Some by simp
  then have "ends_within True (potential s) (deliver_result enq E aid r aw ?d)"
    using assms by (intro ends_within_mono [OF deliver_result_returns]) simp_all
  with Some show ?thesis by (simp add: handle_agent_terminal_def)
qed

lemma terminal_within:
  "potential s1 = potential s \<Longrightarrow> potential s \<le> n \<Longrightarrow> potential s \<le> b \<Longrightarrow>
   ends_within ok b (handle_agent_terminal enq E aid r s1)"
  by (rule ends_within_mono [OF terminal_returns]) simp_all

lemma infer_returns:
  assumes "potential s + 1 \<le> n"
  shows "ends_within True (potential s + 1) (enqueue_infer enq E sc aid tn pr req s)"
  unfolding enqueue_infer_def Let_def
  using assms by (auto intro!: terminal_within [where s = s]
      simp: potential_def admit_def defer_infer_def note_event_def receipt_denial_def Let_def)

lemma spawn_checked_returns:
  assumes "potential s + 4 \<le> n"
  shows "ends_within (contains_key (agents s) pid) (potential s + 4)
           (spawn_checked enq E sc pid call config caps tn d cid s)"
proof -
  have seed: "ends_within (contains_key (agents s) pid) (potential s + 4)
      (seed_agent enq E cid pr (register_child pid call d cid child s))"
    if "stored_response child = None" for child pr
  proof -
    let ?r = "register_child pid call d cid child s"
    have "contains_key (agents ?r) cid"
      by (simp add: register_child_def Let_def run_send_def note_event_def)
    moreover have "potential ?r \<le> potential s + 2" by (rule potential_register_child [OF that])
    ultimately show ?thesis using assms by (intro ends_within_mono [OF seed_agent_returns]) auto
  qed
  show ?thesis
    unfolding spawn_checked_def Let_def
    using assms seed [of "spawn_child E sc pid config caps cid s"]
    by (auto intro!: answer_within [where s = s] split: option.split)
qed

lemma spawn_returns:
  assumes "potential s + 4 \<le> n"
  shows "ends_within (contains_key (agents s) pid) (potential s + 4)
           (dispatch_spawn enq E sc pid call config caps tn s)"
proof -
  define ok where "ok = contains_key (agents s) pid"
  have checked: "ends_within ok (potential s + 4) (spawn_checked enq E sc pid call config cs tn dp cid s)" for dp cid cs
    unfolding ok_def by (rule spawn_checked_returns [OF assms])
  have fresh: "ends_within ok (potential s + 4) (spawn_checked enq E sc pid call config cs tn dp cid (s\<lparr>child_seq := q\<rparr>))"
    for dp cid q cs
    using spawn_checked_returns [of "s\<lparr>child_seq := q\<rparr>" pid] assms by (simp add: potential_def ok_def)
  have ans: "ends_within ok (potential s + 4) (answer_call enq E pid call content err (note_event a t k d s))"
    for content err a t k d
    using assms by (intro answer_within [where s = s]) (simp_all add: ok_def)
  show ?thesis
    unfolding dispatch_spawn_def Let_def ok_def [symmetric]
    by (simp add: fresh ans checked split: option.split sum.split)
qed

lemma job_child_returns:
  assumes "potential s + 4 \<le> n"
  shows "ends_within True (potential s + 1) (spawn_job_child enq E sc jb j cid parent dp mc r s)"
proof -
  let ?r = "register_job_child j cid parent dp r (job_child E sc jb cid mc s) s"
  have "contains_key (agents ?r) cid"
    by (simp add: register_job_child_def Let_def run_send_def note_event_def)
  moreover have "potential ?r \<le> potential s"
    by (rule potential_register_job_child) simp
  ultimately show ?thesis
    unfolding spawn_job_child_def using assms by (intro ends_within_mono [OF seed_agent_returns]) auto
qed

lemma run_job_returns:
  assumes "potential s + 4 \<le> n"
  shows "ends_within (contains_key (agents s) pid) (potential s + 4)
           (dispatch_run_job enq E sc pid call j caps tn s)"
proof -
  define ok where "ok = contains_key (agents s) pid"
  have ans: "ends_within ok (potential s + 4) (answer_call enq E pid call content err (note_event a t k d s))"
    for content err a t k d
    using assms by (intro answer_within [where s = s]) (simp_all add: ok_def)
  have seed: "ends_within ok (potential s + 4) (map_sum id (await_signal pid call cid)
        (spawn_job_child enq E sc jb j cid parent dp mc r s))" for cid jb parent dp mc r
    by (rule ends_within_mono [OF ends_within_await [OF job_child_returns [OF assms]]]) simp_all
  show ?thesis
    unfolding dispatch_run_job_def Let_def ok_def [symmetric]
    by (simp add: ans seed split: option.split sum.split)
qed

lemma send_message_returns:
  assumes "potential s + 2 \<le> n"
  shows "ends_within (contains_key (agents s) aid) (potential s + 2)
           (dispatch_send_message enq E aid call to content tn s)"
proof -
  have mail: "agents (post_mail to m s) = agents s" "potential (post_mail to m s) = potential s" for m
    by (simp_all add: post_mail_def potential_def)
  define b ok where "b = potential s + 2" and "ok = contains_key (agents s) aid"
  have ans: "ends_within ok b (answer_call enq E aid call c err s1)"
    if "agents s1 = agents s" "potential s1 = potential s" for c err s1
    using assms that by (intro answer_within [where s = s]) (simp_all add: b_def ok_def)
  show ?thesis
    unfolding dispatch_send_message_def b_def [symmetric] ok_def [symmetric] by (simp add: ans mail)
qed

lemma approval_returns:
  assumes "potential s + 2 \<le> n"
  shows "ends_within True (potential s + 2) (request_approval enq E aid call action tn s)"
proof -
  define b where "b = potential s + 2"
  have ans: "ends_within True b (answer_call enq E aid call c err (note_event a t k d s))"
    if "contains_key (agents s) aid" for c err a t k d
    using assms that by (intro answer_within [where s = s]) (simp_all add: b_def)
  have "potential (park_approval E aid call action tn s) = potential s"
    by (simp add: park_approval_def Let_def run_send_def note_event_def potential_def)
  moreover have "potential s \<le> b" by (simp add: b_def)
  ultimately show ?thesis
    unfolding request_approval_def Let_def b_def [symmetric] using ans by simp
qed

lemma body_returns:
  assumes "potential s + effect_rank eff \<le> n"
  shows "ends_within (2 \<le> effect_rank eff \<longrightarrow> contains_key (agents s) aid) (potential s + effect_rank eff)
           (enqueue_body enq E sc eff aid tn pr caps s)"
proof -
  let ?m = "mark_agent E aid s"
  have m: "potential ?m = potential s" "contains_key (agents ?m) aid \<longleftrightarrow> contains_key (agents s) aid"
    by simp_all
  have fin: "ends_within ok (potential s + k) (handle_agent_terminal enq E aid r s1)"
    if "potential s1 = potential s" for r s1 k ok
    using that assms(1) by (intro terminal_within [where s = s]) simp_all
  have park: "potential (park_orchestrated aid answer ?m) = potential s" for answer
    using m(1) by (simp add: park_orchestrated_def note_event_def Let_def potential_def)
  have push: "potential (?m\<lparr>pending := p\<rparr>) = potential s" for p
    using m(1) by (simp add: potential_def)
  show ?thesis
  proof (cases "contains_key (cancel_requested s) aid")
    case True
    then show ?thesis using fin [of s _ "effect_rank eff"] by (simp add: enqueue_body_def)
  next
    case False
    then show ?thesis
      using assms infer_returns [of ?m] spawn_returns [of ?m aid] run_job_returns [of ?m aid]
        send_message_returns [of ?m aid] ends_within_mono [OF approval_returns [of ?m]] fin [of _ _ 0]
      by (cases eff) (simp_all add: enqueue_body_def Let_def effect_rank_def m park push)
  qed
qed

end

lemma enq_fuel_total: "enq_total n (enq_fuel n E sc)"
proof (induction n)
  case 0
  show ?case by unfold_locales simp
next
  case (Suc n)
  show ?case
    by unfold_locales (use enq_total.body_returns [OF Suc] in simp)
qed

interpretation fuelled: enq_total n "enq_fuel n E sc" for n E sc
  by (rule enq_fuel_total)

subsection \<open>The depth bound does not show\<close>

text \<open>
  One dispatcher extends another when it agrees with it wherever the other does not run out of
  depth. Every handler calls the dispatcher at most once and passes its result on, so it
  extends along with it.
\<close>

definition extends :: "sched_res \<Rightarrow> sched_res \<Rightarrow> bool" where
  "extends r r' \<longleftrightarrow> (r \<noteq> Inl OutOfFuel \<longrightarrow> r' = r)"

lemma extends_refl [simp]: "extends r r"
  by (simp add: extends_def)

lemma extends_map: "extends r r' \<Longrightarrow> extends (map_sum id f r) (map_sum id f r')"
  by (cases r) (auto simp: extends_def)

locale enq_extends =
  fixes enq enq' :: enq
  assumes enq_ext: "extends (enq eff aid tn pr caps s) (enq' eff aid tn pr caps s)"
begin

lemma answer_ext: "extends (answer_call enq E aid call c err s) (answer_call enq' E aid call c err s)"
  by (auto simp: answer_call_def enq_ext split: option.split prod.split)

lemma seed_ext: "extends (seed_agent enq E aid pr s) (seed_agent enq' E aid pr s)"
  by (auto simp: seed_agent_def enq_ext split: option.split prod.split)

lemma terminal_ext: "extends (handle_agent_terminal enq E aid r s) (handle_agent_terminal enq' E aid r s)"
  by (auto simp: handle_agent_terminal_def deliver_result_def Let_def answer_ext split: option.split)

lemma spawn_checked_ext:
  "extends (spawn_checked enq E sc pid call config caps tn d cid s) (spawn_checked enq' E sc pid call config caps tn d cid s)"
  unfolding spawn_checked_def by (auto simp: answer_ext seed_ext split: option.split)

lemma spawn_ext:
  "extends (dispatch_spawn enq E sc pid call config caps tn s) (dispatch_spawn enq' E sc pid call config caps tn s)"
  unfolding dispatch_spawn_def Let_def
  by (simp add: answer_ext spawn_checked_ext split: option.split sum.split)

lemma run_job_ext:
  "extends (dispatch_run_job enq E sc pid call j caps tn s) (dispatch_run_job enq' E sc pid call j caps tn s)"
  unfolding dispatch_run_job_def Let_def spawn_job_child_def
  by (simp add: answer_ext extends_map seed_ext split: option.split sum.split)

lemma body_ext:
  "extends (enqueue_body enq E sc eff aid tn pr caps s) (enqueue_body enq' E sc eff aid tn pr caps s)"
  by (cases eff)
    (simp_all add: enqueue_body_def Let_def terminal_ext enqueue_infer_def spawn_ext run_job_ext
      dispatch_send_message_def request_approval_def answer_ext)

end

lemma enq_fuel_extends: "n \<le> m \<Longrightarrow> enq_extends (enq_fuel n E sc) (enq_fuel m E sc)"
proof (induction n arbitrary: m)
  case 0
  show ?case by unfold_locales (simp add: extends_def)
next
  case (Suc n)
  then obtain k where "m = Suc k" "n \<le> k" by (cases m) auto
  with Suc.IH [of k] show ?case by unfold_locales (simp add: enq_extends.body_ext)
qed

interpretation deeper: enq_extends "enq_fuel n E sc" "enq_fuel (n + m) E sc" for n m E sc
  by (rule enq_fuel_extends) simp

lemma enq_fuel_agree:
  assumes "enq_fuel n E sc eff aid tn pr caps s \<noteq> Inl OutOfFuel" and "enq_fuel m E sc eff aid tn pr caps s \<noteq> Inl OutOfFuel"
  shows "enq_fuel n E sc eff aid tn pr caps s = enq_fuel m E sc eff aid tn pr caps s"
proof (cases "n \<le> m")
  case True
  with assms deeper.enq_ext [of n E sc eff aid tn pr caps s "m - n"] show ?thesis by (simp add: extends_def)
next
  case False
  with assms deeper.enq_ext [of m E sc eff aid tn pr caps s "n - m"] show ?thesis by (simp add: extends_def)
qed

lemma enqueue_returns:
  "ends_within (2 \<le> effect_rank eff \<longrightarrow> contains_key (agents s) aid) (potential s + effect_rank eff)
     (enqueue_or_defer E sc eff aid tn pr caps s)"
  unfolding enqueue_or_defer_def by (rule fuelled.returns) simp

lemma enqueue_fuel_any:
  assumes "enq_fuel n E sc eff aid tn pr caps s \<noteq> Inl OutOfFuel"
  shows "enqueue_or_defer E sc eff aid tn pr caps s = enq_fuel n E sc eff aid tn pr caps s"
  unfolding enqueue_or_defer_def
  by (rule enq_fuel_agree [OF _ assms]) (rule ends_within_fuel [OF fuelled.returns [OF lessI]])

lemma enqueue_unfold:
  "enqueue_or_defer E sc eff aid tn pr caps s = enqueue_body (enqueue_or_defer E sc) E sc eff aid tn pr caps s"
proof -
  let ?k = "potential s + effect_rank eff"
  have "enq_extends (enq_fuel ?k E sc) (enqueue_or_defer E sc)"
    by unfold_locales (auto simp: extends_def enqueue_fuel_any)
  then have "extends (enqueue_or_defer E sc eff aid tn pr caps s)
      (enqueue_body (enqueue_or_defer E sc) E sc eff aid tn pr caps s)"
    using enq_extends.body_ext [of "enq_fuel ?k E sc" "enqueue_or_defer E sc"]
    by (simp add: enqueue_or_defer_def [of E sc eff aid tn pr caps s])
  with ends_within_fuel [OF enqueue_returns] show ?thesis by (simp add: extends_def)
qed

interpretation dispatcher: enq_total n "enqueue_or_defer E sc" for n E sc
  by unfold_locales (rule enqueue_returns)

subsection \<open>Draining returns\<close>

lemma terminate_returns: "ends_within True (potential s) (terminate_agent E sc aid r s)"
  unfolding terminate_agent_def by (rule dispatcher.terminal_returns [OF order_refl])

lemma potential_pop:
  "deferred_pop (deferred s) = Some (d, rest) \<Longrightarrow> potential (s\<lparr>deferred := rest\<rparr>) < potential s"
  using deferred_pop_length [of "deferred s" d rest] by (simp add: potential_def)

lemma deny_all_returns:
  assumes "\<And>d s. potential (note d s) = potential s"
  shows "potential s \<le> n \<Longrightarrow> ends_within True (potential s) (deny_all n E sc note err s)"
proof (induction n arbitrary: s)
  case 0
  then have "deferred_pop (deferred s) = None" by (simp add: potential_def deferred_pop_def)
  then show ?case by (simp add: deny_all.simps)
next
  case (Suc n)
  show ?case
  proof (cases "deferred_pop (deferred s)")
    case None
    then show ?thesis by (simp add: deny_all.simps)
  next
    case (Some p)
    obtain d rest where p: "p = (d, rest)" by fastforce
    let ?s1 = "note d (s\<lparr>deferred := rest\<rparr>)"
    have less: "potential ?s1 < potential s" using potential_pop Some p assms by simp
    obtain s' where s': "terminate_agent E sc (df_agent d) (Inl err) ?s1 = Inr s'" "potential s' \<le> potential ?s1"
      using ends_withinD [OF terminate_returns] by blast
    have "ends_within True (potential s) (deny_all n E sc note err s')"
      by (rule ends_within_mono [OF Suc.IH]) (use s' less Suc.prems in simp_all)
    then show ?thesis by (subst deny_all.simps) (simp add: Some p s')
  qed
qed

lemma potential_receipt [simp]: "potential (receipt_denial E aid r s) = potential s"
  by (simp add: receipt_denial_def potential_def)

lemma terminate_legacy_returns: "ends_within True (potential s) (terminate_legacy E sc ds s)"
proof (induction ds arbitrary: s)
  case (Cons d ds)
  show ?case
  proof (cases "contains_key (agents s) (df_agent d)")
    case True
    let ?s1 = "receipt_denial E (df_agent d) ''agent_budget_exhausted''
        (note_event (df_agent d) (Some (df_turn d)) EvAgentAdmissionDenied
           [(''reason'', JStr ''agent_budget_exhausted''), (''remedy'', JStr BUDGET_REMEDY)]
           (s\<lparr>deferred := filter (\<lambda>e. df_agent e \<noteq> df_agent d) (deferred s)\<rparr>))"
    have p: "potential ?s1 \<le> potential s" by simp (simp add: potential_def)
    obtain s' where s': "terminate_agent E sc (df_agent d)
        (Inl (''admission denied: agent_budget_exhausted ('' @ BUDGET_REMEDY @ '')'')) ?s1 = Inr s'"
      "potential s' \<le> potential ?s1"
      using ends_withinD [OF terminate_returns] by blast
    have "ends_within True (potential s) (terminate_legacy E sc ds s')"
      by (rule ends_within_mono [OF Cons.IH]) (use s' p in simp_all)
    then show ?thesis using True s'(1) by (simp add: Let_def)
  next
    case False
    then show ?thesis using Cons.IH by simp
  qed
qed simp

lemma admit_loop_step:
  assumes "slot_ok sc s" and "deferred_pop (deferred s) = Some (d, rest)"
  shows "admit_loop sc s h l =
    (if per_agent_over (df_agent d) (s\<lparr>deferred := rest\<rparr>)
     then if budget_reset_interval sc = 0 then admit_loop sc (s\<lparr>deferred := rest\<rparr>) h (l @ [d])
          else admit_loop sc (s\<lparr>deferred := rest\<rparr>) (h @ [d]) l
     else admit_loop sc (admit (df_agent d) (df_turn d) (df_request d) [(''reason'', JStr ''slot_opened'')]
            (s\<lparr>deferred := rest\<rparr>)) h l)"
  using assms by (subst admit_loop.simps) (simp add: Let_def)

lemma admit_loop_stop:
  "\<not> slot_ok sc s \<or> deferred_pop (deferred s) = None \<Longrightarrow> admit_loop sc s h l = (s, h, l)"
  by (subst admit_loop.simps) auto

text \<open>A predicate that the three ways round the loop keep holds at its end.\<close>

lemma admit_loop_rule:
  assumes "admit_loop sc s h l = (s', h', l')" and "P s h l"
    and legacy: "\<And>s d rest h l. P s h l \<Longrightarrow> slot_ok sc s \<Longrightarrow> deferred_pop (deferred s) = Some (d, rest) \<Longrightarrow>
      per_agent_over (df_agent d) s \<Longrightarrow> budget_reset_interval sc = 0 \<Longrightarrow> P (s\<lparr>deferred := rest\<rparr>) h (l @ [d])"
    and held: "\<And>s d rest h l. P s h l \<Longrightarrow> slot_ok sc s \<Longrightarrow> deferred_pop (deferred s) = Some (d, rest) \<Longrightarrow>
      per_agent_over (df_agent d) s \<Longrightarrow> budget_reset_interval sc \<noteq> 0 \<Longrightarrow> P (s\<lparr>deferred := rest\<rparr>) (h @ [d]) l"
    and admitted: "\<And>s d rest h l. P s h l \<Longrightarrow> slot_ok sc s \<Longrightarrow> deferred_pop (deferred s) = Some (d, rest) \<Longrightarrow>
      \<not> per_agent_over (df_agent d) s \<Longrightarrow> P (admit (df_agent d) (df_turn d) (df_request d) [(''reason'', JStr ''slot_opened'')] (s\<lparr>deferred := rest\<rparr>)) h l"
  shows "P s' h' l' \<and> (slot_ok sc s' \<longrightarrow> deferred s' = [])"
  using assms(1,2)
proof (induction "length (deferred s)" arbitrary: s h l rule: less_induct)
  case less
  show ?case
  proof (cases "slot_ok sc s \<and> deferred_pop (deferred s) \<noteq> None")
    case False
    then have "admit_loop sc s h l = (s, h, l)" by (intro admit_loop_stop) blast
    moreover have "deferred_pop (deferred s) = None \<Longrightarrow> deferred s = []"
      by (cases "deferred s") (simp_all add: deferred_pop_def Let_def)
    ultimately show ?thesis using less.prems False by (cases "deferred_pop (deferred s)") auto
  next
    case True
    then obtain d rest where slot: "slot_ok sc s" and p: "deferred_pop (deferred s) = Some (d, rest)" by auto
    let ?s2 = "admit (df_agent d) (df_turn d) (df_request d) [(''reason'', JStr ''slot_opened'')] (s\<lparr>deferred := rest\<rparr>)"
    have len: "length (deferred (s\<lparr>deferred := rest\<rparr>)) < length (deferred s)" "length (deferred ?s2) < length (deferred s)"
      using deferred_pop_length [OF p] by (simp_all add: admit_def note_event_def Let_def)
    have over: "per_agent_over a (s\<lparr>deferred := rest\<rparr>) = per_agent_over a s" for a by (simp add: per_agent_over_def)
    note kept = legacy [OF less.prems(2) slot p] held [OF less.prems(2) slot p] admitted [OF less.prems(2) slot p]
    show ?thesis
      using less.prems(1) admit_loop_step [OF slot p, of h l, unfolded over]
        less.hyps [OF len(1) _ kept(1)] less.hyps [OF len(1) _ kept(2)] less.hyps [OF len(2) _ kept(3)]
      by (simp split: if_splits)
  qed
qed

lemma admit_loop_potential:
  assumes "admit_loop sc s h l = (s', h', l')"
  shows "potential s' + length h' + length l' \<le> potential s + length h + length l"
proof -
  let ?P = "\<lambda>s' h' l'. potential s' + length h' + length l' \<le> potential s + length h + length l"
  have adm: "potential (admit a t r x s1) = potential s1" for a t r x s1
    by (simp add: admit_def note_event_def Let_def potential_def)
  show ?thesis
    by (rule admit_loop_rule [OF assms, of ?P, THEN conjunct1]) (use potential_pop in \<open>fastforce simp: adm\<close>)+
qed

lemma drain_returns: "ends_within True (potential s) (drain_deferred E sc s)"
proof -
  have kept: "potential (note_shutdown d s) = potential s" "potential (note_exhausted E d s) = potential s" for d s
    by (simp_all add: note_shutdown_def note_exhausted_def)
  obtain s1 h l where l: "admit_loop sc s [] [] = (s1, h, l)" by (metis prod_cases3)
  have "potential (s1\<lparr>deferred := rev h @ deferred s1\<rparr>) = potential s1 + length h" by (simp add: potential_def)
  then have "ends_within True (potential s) (terminate_legacy E sc l (s1\<lparr>deferred := rev h @ deferred s1\<rparr>))"
    using admit_loop_potential [OF l] by (intro ends_within_mono [OF terminate_legacy_returns]) simp_all
  then show ?thesis
    unfolding drain_deferred_def
    using deny_all_returns [of note_shutdown] deny_all_returns [of "note_exhausted E"] by (simp add: kept l)
qed

subsection \<open>The deferred queue as a priority queue\<close>

lemma deferred_less_trans: "deferred_less a b \<Longrightarrow> deferred_less b c \<Longrightarrow> deferred_less a c"
  by (auto simp: deferred_less_def)

lemma deferred_less_total:
  "\<not> deferred_less a b \<Longrightarrow> \<not> deferred_less b a \<Longrightarrow> df_priority a = df_priority b \<and> df_seq a = df_seq b"
  by (auto simp: deferred_less_def)

lemma not_deferred_less_trans: "\<not> deferred_less a b \<Longrightarrow> \<not> deferred_less b c \<Longrightarrow> \<not> deferred_less a c"
  by (auto simp: deferred_less_def)

lemma heap_top_greatest: "x \<in> insert m (set ds) \<Longrightarrow> \<not> deferred_less (heap_top m ds) x"
proof (induction m ds arbitrary: x rule: heap_top.induct)
  case (1 m)
  then show ?case by (simp add: deferred_less_def)
next
  case (2 m d ds)
  let ?m = "if deferred_less m d then d else m"
  have top: "\<not> deferred_less (heap_top ?m ds) ?m" by (rule 2) simp
  have "\<not> deferred_less ?m m" "\<not> deferred_less ?m d" by (auto simp: deferred_less_def)
  with top have "\<not> deferred_less (heap_top ?m ds) m" "\<not> deferred_less (heap_top ?m ds) d"
    using not_deferred_less_trans by blast+
  with 2 show ?case by auto
qed

lemma deferred_pop_greatest:
  assumes "deferred_pop q = Some (d, rest)" and "x \<in> set q"
  shows "\<not> deferred_less d x"
proof (cases q)
  case (Cons y ys)
  with assms heap_top_greatest [of x y ys] show ?thesis by (auto simp: deferred_pop_def Let_def)
qed (use assms in simp)

end
