(* ===== verification/Sched_Universal.thy ===== *)
theory Sched_Universal
  imports Scheduler
begin

section \<open>Universal agents under the scheduler (\<open>agentd/src/scheduler.rs\<close>)\<close>

text \<open>
  Starting, polling and cancelling the processes of the universal tier. Each has an ephemeral key
  that the egress proxy accepts while it is registered. What \<open>try_wait\<close> and the clock report of a
  process is a parameter of each poll; signals and the grace period of \<open>kill\<close> change nothing of
  the scheduler's state.
\<close>

datatype wait_status = Exited "int option" | StillRunning | WaitError string

record process_table =
  pt_pid :: "string \<Rightarrow> u32 option"
  pt_wall :: "string \<Rightarrow> u64"
  pt_wait :: "string \<Rightarrow> wait_status"

subsection \<open>The registered keys\<close>

definition revoke_key :: "string \<Rightarrow> sched_state \<Rightarrow> sched_state" where
  "revoke_key key s = s\<lparr>registry_of_keys := map_option (deregister_by_key key) (registry_of_keys s)\<rparr>"

definition grant_key :: "string \<Rightarrow> proxy_entry \<Rightarrow> sched_state \<Rightarrow> sched_state" where
  "grant_key key entry s = s\<lparr>registry_of_keys := map_option (register key entry) (registry_of_keys s)\<rparr>"

definition fresh_key :: "string \<Rightarrow> u64 \<Rightarrow> string" where
  "fresh_key i ts = ''ua-'' @ i @ ''-'' @ hex16 ts"

subsection \<open>Starting\<close>

text \<open>\<open>cell\<close> is the shared counter that \<open>Arc::new\<close> allocates for the agent's budget.\<close>

definition start_universal ::
    "process_os \<Rightarrow> sched_env \<Rightarrow> string option \<Rightarrow> (string \<Rightarrow> nat) \<Rightarrow> agent_config \<Rightarrow> sched_state \<Rightarrow> sched_state" where
  "start_universal OS E egress_addr cell c s =
     (let failed = (\<lambda>e s1.
            (note_event (ac_id c) None EvAgentFailed
               [(''reason'', JStr ''universal_spawn_failed''), (''error'', JStr e)] s1)
              \<lparr>outcomes := put (ac_id c) (Inl (''universal spawn failed: '' @ e)) (outcomes s1)\<rparr>)
      in case egress_addr of
           None \<Rightarrow> failed ''egress proxy not configured'' s
         | Some addr \<Rightarrow>
             (let key = fresh_key (ac_id c) (word_of_int (nanos_at E (length (flight s))));
                  s1 = grant_key key \<lparr>pe_agent_id = ac_id c,
                         pe_policy = \<lparr>allowed_hosts = [], token_budget_remaining = cell (ac_id c)\<rparr>\<rparr> s
              in case universal_spawn OS c addr key (flight s1) of
                   (Inr ua, lg) \<Rightarrow>
                     run_send (RunOpen (ac_id c) None ''universal_spawn'' None ''universal'')
                       (s1\<lparr>flight := lg, universal_agents := put (ac_id c) ua (universal_agents s1)\<rparr>)
                 | (Inl e, lg) \<Rightarrow> failed e (revoke_key key (s1\<lparr>flight := lg\<rparr>))))"

definition start_universals ::
    "process_os \<Rightarrow> sched_env \<Rightarrow> string option \<Rightarrow> (string \<Rightarrow> nat) \<Rightarrow> agent_config list \<Rightarrow> sched_state \<Rightarrow> sched_state" where
  "start_universals OS E egress_addr cell cs s = fold (start_universal OS E egress_addr cell) cs s"

subsection \<open>Polling\<close>

text \<open>The end of a process: its entry and its key go, its run is closed and its outcome is set.\<close>

definition finish_universal ::
    "string \<Rightarrow> universal_agent \<Rightarrow> string \<Rightarrow> string \<Rightarrow> outcome \<Rightarrow> sched_state \<Rightarrow> sched_state" where
  "finish_universal u ua status stop result s =
     (let s1 = revoke_key (ephemeral_key ua) (s\<lparr>universal_agents := remove u (universal_agents s)\<rparr>);
          s2 = run_send (RunClose u status (Some stop)
                 (case result of Inl e \<Rightarrow> Some e | Inr _ \<Rightarrow> None) None) s1
      in s2\<lparr>outcomes := put u result (outcomes s2)\<rparr>)"

definition exit_result :: "int option \<Rightarrow> string \<times> string \<times> outcome" where
  "exit_result code =
     (case code of
        Some n \<Rightarrow>
          if n = 0 then (''done'', ''exit_0'', Inr [])
          else (''failed'', ''exit_'' @ show_int n, Inl (''universal agent exited with code '' @ show_int n))
      | None \<Rightarrow> (''failed'', ''signal'', Inl ''universal agent killed by signal''))"

definition poll_universal :: "process_table \<Rightarrow> string \<Rightarrow> sched_state \<Rightarrow> sched_state" where
  "poll_universal P u s =
     (case get (universal_agents s) u of
        None \<Rightarrow> s
      | Some ua \<Rightarrow>
          let limit = max_wall_seconds (ua_cfg ua); wall = pt_wall P u in
          if 0 < limit \<and> limit < wall then
            finish_universal u ua ''failed'' ''wall_timeout'' (Inl ''universal agent wall timeout exceeded'')
              (note_event u None EvUniversalAgentExited
                 [(''pid'', JOpt JWord (pt_pid P u)), (''exit_code'', JNull), (''wall_seconds'', JWord wall),
                  (''reason'', JStr ''wall_timeout'')] s)
          else
            (case pt_wait P u of
               StillRunning \<Rightarrow> s
             | Exited code \<Rightarrow>
                 (case exit_result code of
                    (status, stop, result) \<Rightarrow>
                      finish_universal u ua status stop result
                        (note_event u None EvUniversalAgentExited
                           [(''pid'', JOpt JWord (pt_pid P u)), (''exit_code'', JOpt (\<lambda>n. JNum (of_int n)) code),
                            (''wall_seconds'', JWord wall)] s))
             | WaitError e \<Rightarrow>
                 finish_universal u ua ''failed'' ''poll_error'' (Inl (''universal agent poll error: '' @ e))
                   (note_event u None EvError
                      [(''stage'', JStr ''universal_poll''), (''error'', JStr e)] s)))"

definition poll_universal_agents :: "process_table \<Rightarrow> sched_state \<Rightarrow> sched_state" where
  "poll_universal_agents P s = fold (poll_universal P) (map fst (universal_agents s)) s"

subsection \<open>Cancelling\<close>

text \<open>\<open>drain_universal_cancels\<close>: the key goes before the process does.\<close>

definition cancel_universal :: "string \<Rightarrow> sched_state \<Rightarrow> sched_state" where
  "cancel_universal u s =
     (case get (universal_agents s) u of
        None \<Rightarrow> s
      | Some ua \<Rightarrow>
          let s1 = revoke_key (ephemeral_key ua) (s\<lparr>universal_agents := remove u (universal_agents s)\<rparr>);
              s2 = note_event u None EvAgentCancelled
                     [(''agent_id'', JStr u), (''cause'', JStr ''operator''), (''tier'', JStr ''universal'')] s1;
              s3 = note_event u None EvUniversalAgentExited
                     [(''agent_id'', JStr u), (''reason'', JStr ''cancelled'')] s2;
              s4 = s3\<lparr>outcomes := or_insert u (Inl ''operator cancelled'') (outcomes s3)\<rparr>
          in run_send (RunClose u ''cancelled'' (Some ''operator_cancelled'') None None) s4)"

definition drain_universal_cancels :: "sched_state \<Rightarrow> sched_state" where
  "drain_universal_cancels s =
     fold cancel_universal (universal_cancel_requested s) (s\<lparr>universal_cancel_requested := []\<rparr>)"

subsection \<open>Keys belong to live agents\<close>

definition registered :: "string \<Rightarrow> sched_state \<Rightarrow> bool" where
  "registered key s \<longleftrightarrow> (case registry_of_keys s of None \<Rightarrow> False | Some reg \<Rightarrow> contains_key reg key)"

definition keys_live :: "sched_state \<Rightarrow> bool" where
  "keys_live s \<longleftrightarrow>
     (\<forall>key. registered key s \<longrightarrow> (\<exists>u ua. get (universal_agents s) u = Some ua \<and> ephemeral_key ua = key))"

definition overdue :: "process_table \<Rightarrow> string \<Rightarrow> universal_agent \<Rightarrow> bool" where
  "overdue P u ua \<longleftrightarrow> 0 < max_wall_seconds (ua_cfg ua) \<and> max_wall_seconds (ua_cfg ua) < pt_wall P u"

lemma keys_live_revoked:
  assumes "keys_live s" and "get (universal_agents s) u = Some ua"
    and "universal_agents s' = remove u (universal_agents s)"
    and "registry_of_keys s' = map_option (deregister_by_key (ephemeral_key ua)) (registry_of_keys s)"
  shows "keys_live s'"
  unfolding keys_live_def
proof (intro allI impI)
  fix key
  assume "registered key s'"
  then have "registered key s" and other: "key \<noteq> ephemeral_key ua"
    using assms(4) by (auto simp: registered_def deregister_by_key_def split: option.splits if_splits)
  then obtain w wa where "get (universal_agents s) w = Some wa" "ephemeral_key wa = key"
    using assms(1) by (auto simp: keys_live_def)
  with other assms(2,3) show "\<exists>u ua. get (universal_agents s') u = Some ua \<and> ephemeral_key ua = key"
    by (intro exI [of _ w] exI [of _ wa]) auto
qed

lemma finish_universal_simps [simp]:
  "universal_agents (finish_universal u ua st sp r s) = remove u (universal_agents s)"
  "registry_of_keys (finish_universal u ua st sp r s) = map_option (deregister_by_key (ephemeral_key ua)) (registry_of_keys s)"
  by (simp_all add: finish_universal_def revoke_key_def run_send_def)

lemma note_event_universal [simp]:
  "universal_agents (note_event a t k d s) = universal_agents s"
  "registry_of_keys (note_event a t k d s) = registry_of_keys s"
  by (simp_all add: note_event_def)

text \<open>What polling and cancelling share: at most one agent goes, and its key with it.\<close>

locale process_op =
  fixes f :: "string \<Rightarrow> sched_state \<Rightarrow> sched_state"
    and stays :: "string \<Rightarrow> universal_agent \<Rightarrow> bool"
  assumes gone: "get (universal_agents s) u = Some ua \<Longrightarrow> \<not> stays u ua \<Longrightarrow>
      universal_agents (f u s) = remove u (universal_agents s) \<and>
      registry_of_keys (f u s) = map_option (deregister_by_key (ephemeral_key ua)) (registry_of_keys s)"
    and kept: "get (universal_agents s) u = None \<or> get (universal_agents s) u = Some ua \<and> stays u ua \<Longrightarrow> f u s = s"
begin

lemma keeps_keys: "keys_live s \<Longrightarrow> keys_live (f u s)"
  using gone kept keys_live_revoked by (cases "get (universal_agents s) u") (simp_all, metis)

lemma only_removes:
  assumes "get (universal_agents (f u s)) w = Some wa"
  shows "get (universal_agents s) w = Some wa \<and> (w = u \<longrightarrow> stays u wa)"
proof (cases "\<exists>ua. get (universal_agents s) u = Some ua \<and> \<not> stays u ua")
  case True
  then obtain ua where "get (universal_agents s) u = Some ua" "\<not> stays u ua" by blast
  from gone [OF this] assms show ?thesis by (simp split: if_splits)
next
  case False
  then have "f u s = s" using kept [of s u] by (cases "get (universal_agents s) u") auto
  with False assms show ?thesis by auto
qed

lemma fold_keeps_keys: "keys_live s \<Longrightarrow> keys_live (fold f us s)"
  by (induction us arbitrary: s) (simp_all add: keeps_keys)

lemma fold_survivors:
  "get (universal_agents (fold f us s)) w = Some wa \<Longrightarrow>
   get (universal_agents s) w = Some wa \<and> (w \<in> set us \<longrightarrow> stays w wa)"
proof (induction us arbitrary: s)
  case (Cons u us)
  from Cons.prems have "get (universal_agents (fold f us (f u s))) w = Some wa" by simp
  note rest = Cons.IH [OF this]
  with only_removes [of u s w wa] show ?case by simp
qed simp

end

interpretation polling: process_op "poll_universal P" "\<lambda>u ua. \<not> overdue P u ua \<and> pt_wait P u = StillRunning" for P
proof
  fix s :: sched_state and u ua
  assume "get (universal_agents s) u = Some ua" and "\<not> (\<not> overdue P u ua \<and> pt_wait P u = StillRunning)"
  then show "universal_agents (poll_universal P u s) = remove u (universal_agents s) \<and>
      registry_of_keys (poll_universal P u s) = map_option (deregister_by_key (ephemeral_key ua)) (registry_of_keys s)"
    unfolding poll_universal_def Let_def overdue_def
    by (auto split: wait_status.split prod.split)
qed (auto simp: poll_universal_def overdue_def Let_def)

interpretation cancelling: process_op cancel_universal "\<lambda>_ _. False"
  by unfold_locales (auto simp: cancel_universal_def revoke_key_def run_send_def note_event_def Let_def)

text \<open>
  C32. No key outlives its process. When every key that the egress proxy accepts belongs to a running
  universal agent, the same holds after a poll of the processes and after the cancellations that
  operators asked for; and every agent that a poll leaves has not exited and is within its
  wall-clock limit.
\<close>

theorem keys_die_with_their_process:
  assumes "keys_live s"
  shows "keys_live (poll_universal_agents P s) \<and> keys_live (drain_universal_cancels s) \<and>
    (get (universal_agents (poll_universal_agents P s)) u = Some ua \<longrightarrow>
       pt_wait P u = StillRunning \<and> \<not> overdue P u ua)"
proof -
  have "keys_live (s\<lparr>universal_cancel_requested := []\<rparr>)" using assms by (simp add: keys_live_def registered_def)
  then have "keys_live (drain_universal_cancels s)"
    unfolding drain_universal_cancels_def by (rule cancelling.fold_keeps_keys)
  moreover have "u \<in> set (map fst (universal_agents s))" if "get (universal_agents s) u = Some ua"
    using map_of_SomeD [OF that] by force
  ultimately show ?thesis
    using polling.fold_keeps_keys [OF assms] polling.fold_survivors [of P]
    unfolding poll_universal_agents_def by blast
qed

end
