(* ===== verification/Sched_Start.thy ===== *)
theory Sched_Start
  imports Sched_Run Sched_Universal
begin

section \<open>The start of a run (\<open>Scheduler::run\<close>)\<close>

text \<open>
  The state that \<open>run\<close> builds, and everything it does before the main loop: the restore, the job
  schedules, the budget window, the run records, the universal agents, and the first step of every
  native agent.
\<close>

definition initial_state ::
    "scheduler_config \<Rightarrow> (string, agent_task) hashmap \<Rightarrow> job list \<Rightarrow> bool \<Rightarrow> egress_proxy option \<Rightarrow>
     Egress.proxy_registry option \<Rightarrow> run_event list option \<Rightarrow> flight_log \<Rightarrow> sched_state" where
  "initial_state sc ags js control eg reg tracker lg =
     \<lparr>agents = ags, outcomes = [], pending = [], deferred = [], deferred_seq = 0, in_flight = 0,
      tokens_spent = 0, budget_window_start = 0, global_window_anchor = 0, ss_budget_resettable = False,
      awaiting = [], child_seq = 0, spawn_depths = [], parent_map = [],
      ss_max_spawn_depth = max_spawn_depth sc, mailboxes = [], shutdown_requested = False,
      pending_approvals = [], approval_seq = 0, has_control = control, egress = eg,
      registry_of_keys = reg, universal_agents = [], orchestrated = [], waiting = [],
      cancel_requested = [], universal_cancel_requested = [], run_tracker = tracker,
      jobs = fold (\<lambda>j m. put (job_id j) j m) js [], job_schedules = [],
      ss_native_cron_shadow = native_cron_shadow sc, live_job_runs = [], child_job = [],
      flight = lg\<rparr>"

definition open_runs :: "sched_state \<Rightarrow> sched_state" where
  "open_runs s =
     fold (\<lambda>(i, a). run_send (RunOpen i (get (parent_map s) i) ''config_seed'' (Some (context_tokens a)) ''native''))
       (agents s) s"

definition start_run ::
    "'c cron_lib \<Rightarrow> process_os \<Rightarrow> sched_env \<Rightarrow> scheduler_config \<Rightarrow> string option \<Rightarrow> (string \<Rightarrow> nat) \<Rightarrow>
     agent_config list \<Rightarrow> sched_checkpoint option \<Rightarrow> sched_state \<Rightarrow> sched_res" where
  "start_run L OS E sc egress_addr cell universal_pending restored s =
     (let s1 = (case restored of Some r \<Rightarrow> restore_state E r s | None \<Rightarrow> s);
          s2 = boot_schedules L (sint (secs_at E (length (flight s1)))) s1;
          s3 = publish_budget (init_budget_window sc (secs_at E (length (flight s2))) s2);
          s4 = start_universals OS E egress_addr cell universal_pending (open_runs s3)
      in seed_loop E sc s4)"

end
