(* ===== verification/Sched_Control.thy ===== *)
theory Sched_Control
  imports Sched_Start
begin

section \<open>Operator commands (\<open>agentd/src/control.rs\<close>, \<open>agentd/src/scheduler.rs\<close>)\<close>

text \<open>
  The commands of the control surface and their dispatch. The channel on which the HTTP surface
  waits for an answer is the flag \<open>confirm\<close>; the answer is the second component of the result.
\<close>

subsection \<open>Commands\<close>

record operator_spawn =
  os_task :: string
  os_id :: "string option"
  os_max_turns :: "u32 option"
  os_token_budget :: "u64 option"
  os_priority :: "u32 option"
  os_capabilities :: "capability list option"
  os_orchestrated :: bool
  os_confirm :: bool

datatype budget_target = GlobalBudget | AgentBudget string

datatype control_command =
    CtlSpawn operator_spawn
  | CtlApprove string "json option" "string option"
  | CtlReject string "string option"
  | CtlInject string string
  | CtlResetBudget budget_target bool
  | CtlSetBudget budget_target u64 bool
  | CtlCancel string bool
  | CtlSetCaps string "capability list" bool
  | CtlRunJobNow string bool

datatype control_reply =
    NoReply
  | SpawnedReply string
  | BudgetReply "string + u64 \<times> u64"
  | CancelReply "string + nat"
  | CapsReply "string + nat \<times> nat"
  | JobReply "string + string"

type_synonym control_res = "stop + sched_state \<times> control_reply"

definition reply_with :: "control_reply \<Rightarrow> sched_res \<Rightarrow> control_res" where
  "reply_with r = map_sum id (\<lambda>s. (s, r))"

definition control_error :: "string \<Rightarrow> sched_state \<Rightarrow> sched_state" where
  "control_error e s = note_event ''agentd'' None EvFuseControlError [(''error'', JStr e), (''is_error'', JBool True)] s"

text \<open>The checks of \<open>parse_control_command\<close> on a command that serde has read.\<close>

definition check_command :: "control_command \<Rightarrow> string + control_command" where
  "check_command cmd =
     (let bad = (case cmd of
          CtlSpawn req \<Rightarrow> if os_task req = [] then Some ''control command: task must not be empty'' else None
        | CtlApprove i _ _ \<Rightarrow> if i = [] then Some ''approve: id must not be empty'' else None
        | CtlReject i _ \<Rightarrow> if i = [] then Some ''reject: id must not be empty'' else None
        | CtlInject i t \<Rightarrow>
            if i = [] then Some ''inject: agent_id must not be empty''
            else if t = [] then Some ''inject: text must not be empty''
            else if 65536 < length t then Some ''inject text too large (max 64 KiB)''
            else None
        | CtlResetBudget (AgentBudget i) _ \<Rightarrow>
            if i = [] then Some ''reset_budget: agent id must not be empty'' else None
        | CtlSetBudget (AgentBudget i) _ _ \<Rightarrow>
            if i = [] then Some ''set_budget: agent id must not be empty'' else None
        | CtlCancel i _ \<Rightarrow> if i = [] then Some ''cancel: agent_id must not be empty'' else None
        | CtlSetCaps i _ _ \<Rightarrow> if i = [] then Some ''set_caps: agent_id must not be empty'' else None
        | CtlRunJobNow i _ \<Rightarrow> if i = [] then Some ''run_job: job_id must not be empty'' else None
        | _ \<Rightarrow> None)
      in case bad of Some e \<Rightarrow> Inl e | None \<Rightarrow> Inr cmd)"

text \<open>Reading with serde: a JSON value, the tagged format, and a bare spawn request.\<close>

record command_reader =
  read_value :: "string \<Rightarrow> string + json"
  read_tagged :: "json \<Rightarrow> control_command option"
  read_spawn :: "json \<Rightarrow> string + operator_spawn"

definition parse_control_command :: "command_reader \<Rightarrow> string \<Rightarrow> string + control_command" where
  "parse_control_command R bytes =
     (case read_value R bytes of
        Inl e \<Rightarrow> Inl (''invalid control JSON: '' @ e)
      | Inr v \<Rightarrow>
          (case read_tagged R v of
             Some cmd \<Rightarrow> check_command cmd
           | None \<Rightarrow>
               (case read_spawn R v of
                  Inl e \<Rightarrow> Inl (''invalid control JSON: '' @ e)
                | Inr req \<Rightarrow> check_command (CtlSpawn req))))"

subsection \<open>Approvals\<close>

definition approve ::
    "sched_env \<Rightarrow> scheduler_config \<Rightarrow> string \<Rightarrow> json option \<Rightarrow> string option \<Rightarrow> sched_state \<Rightarrow> sched_res" where
  "approve E sc approval_id edits kind s =
     (case get (pending_approvals s) approval_id of
        None \<Rightarrow> Inr (control_error (''no pending approval with id '' @ [CHR 0x27] @ approval_id @ [CHR 0x27]) s)
      | Some pk \<Rightarrow>
          let s1 = s\<lparr>pending_approvals := remove approval_id (pending_approvals s)\<rparr>;
              aid = pk_agent pk;
              result_args = (case edits of Some j \<Rightarrow> j | None \<Rightarrow> pa_args (pk_action pk));
              s2 = note_event aid None EvApprovalGranted
                     [(''agent_id'', JStr aid), (''approval_id'', JStr approval_id),
                      (''edits_applied'', JBool (result_args \<noteq> pa_args (pk_action pk))),
                      (''auto_approve_kind'', JOpt JStr kind)] s1
          in if contains_key (agents s2) aid then
               answer_call (enqueue_or_defer E sc) E aid (pk_call pk) (json_to_string E result_args) False s2
             else Inr (control_error (''agent '' @ [CHR 0x27] @ aid @ [CHR 0x27] @ '' not found after approval'') s2))"

definition reject ::
    "sched_env \<Rightarrow> scheduler_config \<Rightarrow> string \<Rightarrow> string option \<Rightarrow> sched_state \<Rightarrow> sched_res" where
  "reject E sc approval_id reason s =
     (case get (pending_approvals s) approval_id of
        None \<Rightarrow> Inr (control_error (''no pending approval with id '' @ [CHR 0x27] @ approval_id @ [CHR 0x27]) s)
      | Some pk \<Rightarrow>
          let s1 = s\<lparr>pending_approvals := remove approval_id (pending_approvals s)\<rparr>;
              aid = pk_agent pk;
              s2 = note_event aid None EvApprovalRejected
                     [(''agent_id'', JStr aid), (''approval_id'', JStr approval_id), (''reason'', JOpt JStr reason)] s1
          in if contains_key (agents s2) aid then
               answer_call (enqueue_or_defer E sc) E aid (pk_call pk)
                 (''approval rejected: '' @ (case reason of Some r \<Rightarrow> r | None \<Rightarrow> ''operator rejected the action'')) True s2
             else Inr (control_error (''agent '' @ [CHR 0x27] @ aid @ [CHR 0x27] @ '' not found after rejection'') s2))"

subsection \<open>New agents and new turns\<close>

definition operator_child :: "sched_env \<Rightarrow> scheduler_config \<Rightarrow> operator_spawn \<Rightarrow> string \<Rightarrow> sched_state \<Rightarrow> agent_task" where
  "operator_child E sc req aid s =
     new_native E sc
       (native_config aid (os_task req)
          (case os_max_turns req of Some n \<Rightarrow> n | None \<Rightarrow> default_max_turns)
          (case os_token_budget req of Some b \<Rightarrow> b | None \<Rightarrow> default_token_budget)
          (case os_priority req of Some p \<Rightarrow> p | None \<Rightarrow> 0) (os_capabilities req))
       (se_default_model E) s"

definition register_operator :: "string \<Rightarrow> agent_task \<Rightarrow> sched_state \<Rightarrow> sched_state" where
  "register_operator aid task s =
     (let s1 = run_send (RunOpen aid None ''operator_spawn'' (Some (context_tokens task)) ''native'')
                 (s\<lparr>agents := put aid task (agents s)\<rparr>);
          s2 = s1\<lparr>spawn_depths := put aid 0 (spawn_depths s1),
                  mailboxes := or_insert aid [] (mailboxes s1),
                  parent_map := put aid ''operator'' (parent_map s1)\<rparr>;
          preview = JStr (truncate_chars (ac_task (cfg task)) PREVIEW_CHARS);
          s3 = note_event aid None EvFuseControlReceived [(''task_preview'', preview), (''id'', JStr aid)] s2
      in note_event aid None EvAgentSpawned
           [(''parent_id'', JStr ''operator''), (''task_preview'', preview), (''depth'', JNat 0)] s3)"

text \<open>The first step of an operator's agent, with the orchestration mark between step and dispatch.\<close>

definition seed_operator ::
    "sched_env \<Rightarrow> scheduler_config \<Rightarrow> bool \<Rightarrow> string \<Rightarrow> u32 \<Rightarrow> sched_state \<Rightarrow> sched_res" where
  "seed_operator E sc orchestrate aid priority s =
     (case get (agents s) aid of
        None \<Rightarrow> Inl Panic
      | Some a \<Rightarrow>
          case step E a (flight s) of
            (a', lg', effect) \<Rightarrow>
              let s1 = s\<lparr>agents := put aid a' (agents s), flight := lg'\<rparr>;
                  s2 = (if orchestrate then
                          note_event aid None EvOrchestratorDispatched
                            [(''task_preview'', JStr (truncate_chars (ac_task (cfg a)) PREVIEW_CHARS)),
                             (''agent_id'', JStr aid)]
                            (s1\<lparr>orchestrated := List.insert aid (orchestrated s1)\<rparr>)
                        else s1)
              in enqueue_or_defer E sc effect aid (turn a) priority (capabilities (cfg a)) s2)"

definition dispatch_operator_spawn ::
    "sched_env \<Rightarrow> scheduler_config \<Rightarrow> operator_spawn \<Rightarrow> sched_state \<Rightarrow> control_res" where
  "dispatch_operator_spawn E sc req s =
     (let place = (\<lambda>aid s1.
            if contains_key (agents s1) aid \<or> contains_key (outcomes s1) aid then
              Inr (control_error (''agent ID '' @ [CHR 0x27] @ aid @ [CHR 0x27] @ '' already in use'') s1, NoReply)
            else
              reply_with (if os_confirm req then SpawnedReply aid else NoReply)
                (seed_operator E sc (os_orchestrated req) aid (case os_priority req of Some p \<Rightarrow> p | None \<Rightarrow> 0)
                   (register_operator aid (operator_child E sc req aid s1) s1)))
      in case os_id req of
           Some i \<Rightarrow>
             (case validate_child_id (debug_str E) i of
                Inl e \<Rightarrow> Inr (control_error e s, NoReply)
              | Inr _ \<Rightarrow> place i s)
         | None \<Rightarrow> place (''operator-'' @ show_word (child_seq s)) (s\<lparr>child_seq := child_seq s + 1\<rparr>))"

definition inject ::
    "sched_env \<Rightarrow> scheduler_config \<Rightarrow> string \<Rightarrow> string \<Rightarrow> sched_state \<Rightarrow> sched_res" where
  "inject E sc aid text s =
     (case get (agents s) aid of
        None \<Rightarrow>
          Inr (note_event ''agentd'' None EvOrchestratorExited
            [(''agent_id'', JStr aid), (''reason'', JStr ''agent_not_found'')] s)
      | Some a \<Rightarrow>
          if aid \<notin> set (waiting s) then
            Inr (note_event ''agentd'' None EvOrchestratorExited
              [(''agent_id'', JStr aid), (''reason'', JStr ''agent_not_waiting'')] s)
          else
            (case push_user_turn text (resume_for_orchestration a) (flight s) of
               (a1, lg1) \<Rightarrow>
                 (case step E a1 lg1 of
                    (a2, lg2, effect) \<Rightarrow>
                      enqueue_or_defer E sc effect aid (turn a1) (ac_priority (cfg a)) (capabilities (cfg a))
                        (note_event aid None EvOrchestratorInjected
                           [(''agent_id'', JStr aid), (''text_len'', JNat (length text))]
                           (s\<lparr>waiting := removeAll aid (waiting s), agents := put aid a2 (agents s),
                              flight := lg2\<rparr>)))))"

subsection \<open>Budgets\<close>

definition budget_reset_event :: "string \<Rightarrow> scheduler_config \<Rightarrow> string \<Rightarrow> u64 \<Rightarrow> u64 \<Rightarrow> sched_state \<Rightarrow> sched_state" where
  "budget_reset_event who sc target old start s =
     note_event who None EvBudgetReset
       [(''target'', JStr target), (''spent_before'', JWord old), (''window_start'', JWord start),
        (''interval_secs'', JWord (budget_reset_interval sc)), (''windows_advanced'', JNat 0)] s"

text \<open>An error is answered on the channel, or logged when there is none.\<close>

definition settle :: "bool \<Rightarrow> (string + 'a \<Rightarrow> control_reply) \<Rightarrow> string + 'a \<Rightarrow> sched_state \<Rightarrow> sched_state \<times> control_reply" where
  "settle confirm mk result s =
     (if confirm then (s, mk result)
      else (case result of Inl e \<Rightarrow> (control_error e s, NoReply) | Inr _ \<Rightarrow> (s, NoReply)))"

definition reset_budget ::
    "sched_env \<Rightarrow> scheduler_config \<Rightarrow> budget_target \<Rightarrow> bool \<Rightarrow> sched_state \<Rightarrow> control_res" where
  "reset_budget E sc target confirm s =
     (case target of
        GlobalBudget \<Rightarrow>
          let old = global_windowed_spent s;
              s1 = rebase_windows s;
              now = secs_at E (length (flight s1));
              s2 = reset_all_windows (s1\<lparr>budget_window_start := now\<rparr>);
              s3 = budget_reset_event ''agentd'' sc ''global'' old now s2
          in map_sum id (settle confirm BudgetReply (Inr (old, now))) (drain_deferred E sc s3)
      | AgentBudget i \<Rightarrow>
          (case get (agents s) i of
             None \<Rightarrow> Inr (settle confirm BudgetReply (Inl (''agent '' @ [CHR 0x27] @ i @ [CHR 0x27] @ '' not found'')) s)
           | Some a \<Rightarrow>
               let old = snd (reset_budget_window a);
                   s1 = s\<lparr>agents := put i (fst (reset_budget_window a)) (agents s)\<rparr>;
                   s2 = budget_reset_event i sc i old (budget_window_start s) s1
               in map_sum id (settle confirm BudgetReply (Inr (old, budget_window_start s))) (drain_deferred E sc s2)))"

definition set_budget ::
    "sched_env \<Rightarrow> scheduler_config \<Rightarrow> budget_target \<Rightarrow> u64 \<Rightarrow> bool \<Rightarrow> sched_state \<Rightarrow> control_res" where
  "set_budget E sc target limit confirm s =
     (case target of
        GlobalBudget \<Rightarrow> Inr (settle confirm BudgetReply (Inl ''global budget is not runtime-settable'') s)
      | AgentBudget i \<Rightarrow>
          (case get (agents s) i of
             None \<Rightarrow> Inr (settle confirm BudgetReply (Inl (''agent '' @ [CHR 0x27] @ i @ [CHR 0x27] @ '' not found'')) s)
           | Some a \<Rightarrow>
               (case set_token_budget limit a of
                  (a', old) \<Rightarrow>
                    let has_room = (limit = 0 \<or> windowed_spent a' < limit);
                        s1 = note_event i None EvBudgetSet
                          [(''target'', JStr i), (''old_budget'', JWord old), (''new_budget'', JWord limit)]
                          (s\<lparr>agents := put i a' (agents s)\<rparr>)
                    in map_sum id (settle confirm BudgetReply (Inr (old, limit)))
                         (if has_room then drain_deferred E sc s1 else Inr s1))))"

subsection \<open>Cancelling\<close>

text \<open>
  The subtree of an agent: a worklist over \<open>parent_map\<close>, in which every live child that is not yet
  listed is appended and visited later.
\<close>

definition live_child :: "sched_state \<Rightarrow> string \<Rightarrow> bool" where
  "live_child s child \<longleftrightarrow> child \<noteq> ''operator'' \<and> contains_key (agents s) child"

definition visit_one ::
    "sched_state \<Rightarrow> string \<Rightarrow> string \<times> string \<Rightarrow> string list \<times> string list \<Rightarrow> string list \<times> string list" where
  "visit_one s parent entry acc =
     (case (entry, acc) of
        ((child, p), (subtree, frontier)) \<Rightarrow>
          if p = parent \<and> live_child s child \<and> child \<notin> set subtree
          then (subtree @ [child], child # frontier) else (subtree, frontier))"

lemma visit_fold:
  "\<exists>new. fold (visit_one s parent) m (st, fr) = (st @ new, rev new @ fr) \<and> distinct new \<and>
     set new = {c. (c, parent) \<in> set m \<and> live_child s c} - set st"
proof (induction m arbitrary: st fr)
  case (Cons cp m)
  obtain c p where cp: "cp = (c, p)" by fastforce
  show ?case
  proof (cases "p = parent \<and> live_child s c \<and> c \<notin> set st")
    case True
    obtain new where new:
      "fold (visit_one s parent) m (st @ [c], c # fr) = ((st @ [c]) @ new, rev new @ c # fr)" "distinct new"
      "set new = {c. (c, parent) \<in> set m \<and> live_child s c} - set (st @ [c])"
      using Cons.IH by blast
    have "fold (visit_one s parent) (cp # m) (st, fr) = (st @ (c # new), rev (c # new) @ fr)"
      using new(1) True by (simp add: cp visit_one_def)
    moreover have "distinct (c # new)" using new(2,3) by simp
    moreover have "set (c # new) = {c. (c, parent) \<in> set (cp # m) \<and> live_child s c} - set st"
      using new(3) True by (auto simp: cp)
    ultimately show ?thesis by blast
  next
    case False
    then have "fold (visit_one s parent) (cp # m) (st, fr) = fold (visit_one s parent) m (st, fr)"
      by (auto simp: cp visit_one_def)
    moreover have "{c. (c, parent) \<in> set (cp # m) \<and> live_child s c} - set st =
        {c. (c, parent) \<in> set m \<and> live_child s c} - set st"
      using False by (auto simp: cp)
    ultimately show ?thesis using Cons.IH [of st fr] by presburger
  qed
qed simp

function cancel_closure :: "sched_state \<Rightarrow> string list \<Rightarrow> string list \<Rightarrow> string list" where
  "cancel_closure s subtree [] = subtree"
| "cancel_closure s subtree (p # frontier) =
     (case fold (visit_one s p) (parent_map s) (subtree, frontier) of
        (subtree', frontier') \<Rightarrow> cancel_closure s subtree' frontier')"
  by pat_completeness auto

lemma visit_decreases:
  assumes "fold (visit_one s p) (parent_map s) (st, fr) = (st', fr')"
  shows "2 * card (fst ` set (parent_map s) - set st') + length fr'
         \<le> 2 * card (fst ` set (parent_map s) - set st) + length fr"
proof -
  let ?K = "fst ` set (parent_map s)"
  obtain new where new: "st' = st @ new" "fr' = rev new @ fr" "distinct new"
    and mem: "set new = {c. (c, p) \<in> set (parent_map s) \<and> live_child s c} - set st"
    using visit_fold [of s p "parent_map s" st fr] assms by auto
  have sub: "set new \<subseteq> ?K - set st" unfolding mem by force
  have "?K - set st' = (?K - set st) - set new" using new by auto
  then have "card (?K - set st') = card (?K - set st) - length new"
    using sub new(3) by (simp add: card_Diff_subset distinct_card)
  moreover have "length new \<le> card (?K - set st)"
    using card_mono [OF _ sub] new(3) by (simp add: distinct_card)
  ultimately show ?thesis using new by simp
qed

termination cancel_closure
  by (relation "measure (\<lambda>(s, st, fr). 2 * card (fst ` set (parent_map s) - set st) + length fr)")
    (auto simp: less_Suc_eq_le split: prod.split dest: visit_decreases)

definition flag_cancels :: "string \<Rightarrow> string list \<Rightarrow> sched_state \<Rightarrow> sched_state" where
  "flag_cancels aid subtree s =
     s\<lparr>cancel_requested := fold (\<lambda>node m. put node
           (if node = aid then ''operator'' else ''cascade from '' @ aid) m) subtree (cancel_requested s)\<rparr>"

definition parked :: "string \<Rightarrow> sched_state \<Rightarrow> bool" where
  "parked node s \<longleftrightarrow>
     list_ex (\<lambda>d. df_agent d = node) (deferred s) \<or> node \<in> set (waiting s) \<or>
     list_ex (\<lambda>(_, v). aw_parent v = node) (awaiting s) \<or>
     list_ex (\<lambda>(_, p). pk_agent p = node) (pending_approvals s)"

fun funnel_parked :: "sched_env \<Rightarrow> scheduler_config \<Rightarrow> string list \<Rightarrow> sched_state \<Rightarrow> sched_res" where
  "funnel_parked E sc [] s = Inr s"
| "funnel_parked E sc (node # nodes) s =
     (if parked node s then
        (case terminate_agent E sc node (Inl ''operator cancelled'') s of
           Inl e \<Rightarrow> Inl e
         | Inr s' \<Rightarrow> funnel_parked E sc nodes s')
      else funnel_parked E sc nodes s)"

definition flag_universal :: "string \<Rightarrow> string list \<Rightarrow> sched_state \<Rightarrow> sched_state \<times> nat" where
  "flag_universal aid subtree s =
     (let new = filter (\<lambda>u. (u = aid \<or> (case get (parent_map s) u of Some p \<Rightarrow> p \<in> set subtree | None \<Rightarrow> False)) \<and>
                            u \<notin> set (universal_cancel_requested s)) (map fst (universal_agents s))
      in (s\<lparr>universal_cancel_requested := rev new @ universal_cancel_requested s\<rparr>, length new))"

definition cancel ::
    "sched_env \<Rightarrow> scheduler_config \<Rightarrow> string \<Rightarrow> bool \<Rightarrow> sched_state \<Rightarrow> control_res" where
  "cancel E sc aid confirm s =
     (let is_native = contains_key (agents s) aid;
          is_universal = contains_key (universal_agents s) aid in
      if \<not> is_native \<and> \<not> is_universal then
        Inr (settle confirm CancelReply (Inl (''agent '' @ [CHR 0x27] @ aid @ [CHR 0x27] @ '' not found'')) s)
      else
        let roots = (if is_native then [aid] else []);
            subtree = cancel_closure s roots roots
        in (case funnel_parked E sc subtree (flag_cancels aid subtree s) of
              Inl e \<Rightarrow> Inl e
            | Inr s1 \<Rightarrow>
                (case flag_universal aid subtree s1 of
                   (s2, n) \<Rightarrow> Inr (settle confirm CancelReply (Inr (length subtree + n)) s2))))"

subsection \<open>Capabilities and jobs\<close>

definition set_caps ::
    "sched_env \<Rightarrow> string \<Rightarrow> capability list \<Rightarrow> bool \<Rightarrow> sched_state \<Rightarrow> sched_state \<times> control_reply" where
  "set_caps E aid caps confirm s =
     (case get (agents s) aid of
        None \<Rightarrow> settle confirm CapsReply (Inl (''agent '' @ [CHR 0x27] @ aid @ [CHR 0x27] @ '' not found'')) s
      | Some a \<Rightarrow>
          if \<not> (case capabilities (cfg a) of
                 None \<Rightarrow> True
               | Some cur \<Rightarrow> list_all (capability_covered_by (se_anchor E) cur) caps) then
            settle confirm CapsReply (Inl ''SetCaps is narrow-only; to widen, respawn'') s
          else
            (case find (\<lambda>c. case tier_legality c AgentCtx of Inert _ \<Rightarrow> True | Enforced \<Rightarrow> False) caps of
               Some inert \<Rightarrow>
                 settle confirm CapsReply
                   (Inl (''capability '' @ debug_cap E inert @ '' is inert in agent context (narrowing it is a no-op)'')) s
             | None \<Rightarrow>
                 (case set_capabilities caps (filtered_specs E (Some caps)) a of
                    (a', old_len) \<Rightarrow>
                      settle confirm CapsReply (Inr (old_len, length caps))
                        (note_event aid None EvCapabilitiesSet
                           [(''target'', JStr aid),
                            (''old'', JArr (map (json_cap E)
                               (case capabilities (cfg a) of Some cs \<Rightarrow> cs | None \<Rightarrow> []))),
                            (''new'', JArr (map (json_cap E) caps))]
                           (s\<lparr>agents := put aid a' (agents s)\<rparr>)))))"

definition manual_job_child_id :: "sched_env \<Rightarrow> string \<Rightarrow> sched_state \<Rightarrow> string" where
  "manual_job_child_id E j s = j @ ''-manual-'' @ show_int (nanos_at E (length (flight s)))"

definition run_job_now ::
    "sched_env \<Rightarrow> scheduler_config \<Rightarrow> string \<Rightarrow> bool \<Rightarrow> sched_state \<Rightarrow> control_res" where
  "run_job_now E sc j confirm s =
     (let via = (if confirm then ''http'' else ''fuse'') in
      map_sum id (\<lambda>(s1, result).
          ((case result of
              Inr cid \<Rightarrow> note_event j None EvJobManualFired
                 [(''job_id'', JStr j), (''child_id'', JStr cid), (''via'', JStr via)] s1
            | Inl reason \<Rightarrow> note_event j None EvJobManualFireRejected
                 [(''job_id'', JStr j), (''reason'', JStr reason), (''via'', JStr via)] s1),
           if confirm then JobReply result else NoReply))
        (dispatch_scheduled_job E sc j (manual_job_child_id E j s) ''manual_fire'' s))"

definition dispatch_control_command ::
    "sched_env \<Rightarrow> scheduler_config \<Rightarrow> control_command \<Rightarrow> sched_state \<Rightarrow> control_res" where
  "dispatch_control_command E sc cmd s =
     (case cmd of
        CtlSpawn req \<Rightarrow> dispatch_operator_spawn E sc req s
      | CtlApprove i edits kind \<Rightarrow> reply_with NoReply (approve E sc i edits kind s)
      | CtlReject i reason \<Rightarrow> reply_with NoReply (reject E sc i reason s)
      | CtlInject i t \<Rightarrow> reply_with NoReply (inject E sc i t s)
      | CtlResetBudget target confirm \<Rightarrow> reset_budget E sc target confirm s
      | CtlSetBudget target limit confirm \<Rightarrow> set_budget E sc target limit confirm s
      | CtlCancel i confirm \<Rightarrow> cancel E sc i confirm s
      | CtlSetCaps i caps confirm \<Rightarrow> Inr (set_caps E i caps confirm s)
      | CtlRunJobNow j confirm \<Rightarrow> run_job_now E sc j confirm s)"

subsection \<open>The main loop\<close>

text \<open>
  What can happen between two points at which the loop waits: the timed work at its top, a
  command, or the result of one of the pending futures, in any order. \<open>grants\<close> are the
  capability sets that the operator gives to agents of their own.
\<close>

definition drop_pending :: "nat \<Rightarrow> sched_state \<Rightarrow> sched_state" where
  "drop_pending i s = s\<lparr>pending := take i (pending s) @ drop (Suc i) (pending s)\<rparr>"

inductive loop_step ::
    "'c cron_lib \<Rightarrow> sched_env \<Rightarrow> scheduler_config \<Rightarrow> (capability list option \<Rightarrow> bool) \<Rightarrow> sched_state \<Rightarrow> sched_state \<Rightarrow> bool"
  for L E sc grants where
  rebase: "maybe_rebase_windows E sc s = Inr s' \<Longrightarrow> loop_step L E sc grants s s'"
| tick: "tick_native_jobs L E sc s = Inr s' \<Longrightarrow> loop_step L E sc grants s s'"
| poll: "loop_step L E sc grants s (poll_universal_agents P s)"
| command: "dispatch_control_command E sc cmd s = Inr (s', r) \<Longrightarrow>
    (\<And>req. cmd = CtlSpawn req \<Longrightarrow> grants (os_capabilities req)) \<Longrightarrow>
    loop_step L E sc grants s (drain_universal_cancels s')"
| inference: "i < length (pending s) \<Longrightarrow> pending s ! i = PendInference aid tn req \<Longrightarrow>
    on_inference E sc aid resp (infer_finished E aid tn req chunks resp (drop_pending i s)) = Inr s' \<Longrightarrow>
    loop_step L E sc grants s s'"
| inference_error: "i < length (pending s) \<Longrightarrow> pending s ! i = PendInference aid tn req \<Longrightarrow>
    on_inference_error E sc aid e (drop_pending i s) = Inr s' \<Longrightarrow> loop_step L E sc grants s s'"
| tools: "i < length (pending s) \<Longrightarrow> pending s ! i = PendTools aid tn caps bs \<Longrightarrow>
    run_tools_sequential E invoke aid tn bs (flight s) = (lg, results) \<Longrightarrow>
    on_tools_done E sc aid results ((drop_pending i s)\<lparr>flight := lg\<rparr>) = Inr s' \<Longrightarrow>
    loop_step L E sc grants s s'"

abbreviation loop_run ::
    "'c cron_lib \<Rightarrow> sched_env \<Rightarrow> scheduler_config \<Rightarrow> (capability list option \<Rightarrow> bool) \<Rightarrow> sched_state \<Rightarrow> sched_state \<Rightarrow> bool" where
  "loop_run L E sc grants \<equiv> (loop_step L E sc grants)\<^sup>*\<^sup>*"

end
