(* ===== verification/Sched_Inv.thy ===== *)
theory Sched_Inv
  imports Sched_Core Sched_Control
begin

section \<open>Invariants of the scheduler\<close>

text \<open>
  An invariant that depends only on the core of the state and is kept by the few operations that
  change it is kept by the whole dispatcher, by draining, and by every arm of the run loop. The
  locale carries that argument once; its instances are the concurrency limit, the nesting limit,
  the job leases and the authority of agents.
\<close>

subsection \<open>The core of the state\<close>

definition core :: "sched_state \<Rightarrow> _" where
  "core s = (agents s, spawn_depths s, ss_max_spawn_depth s, pending s, in_flight s,
     live_job_runs s, child_job s, jobs s)"

lemma core_on_egress [simp]: "core (on_egress f s) = core s"
  by (simp add: core_def)

lemma core_simps [simp]:
  "core (note_event aid tn k d s) = core s" "core (run_send ev s) = core s"
  "core (defer_infer pr aid req tn2 s) = core s" "core (await_signal pid call cid s) = core s"
  "core (post_mail to m s) = core s" "core (park_approval E aid call action tn2 s) = core s"
  "core (park_orchestrated aid ans s) = core s" "core (receipt_denial E aid r s) = core s"
  "core (consume_cancel aid s) = core s" "core (leave_orchestration aid s) = core s"
  "core (close_run aid c res s) = core s"
  by (simp_all add: sched_defs Let_def core_def split: option.splits)

lemma core_update_simps [simp]:
  "core (s\<lparr>deferred := q\<rparr>) = core s" "core (s\<lparr>child_seq := n\<rparr>) = core s" "core (s\<lparr>flight := lg\<rparr>) = core s"
  "core (s\<lparr>mailboxes := mb\<rparr>) = core s" "core (s\<lparr>tokens_spent := t\<rparr>) = core s"
  "core (s\<lparr>global_window_anchor := t\<rparr>) = core s" "core (s\<lparr>budget_window_start := t\<rparr>) = core s"
  "core (s\<lparr>job_schedules := js\<rparr>) = core s" "core (s\<lparr>cancel_requested := c\<rparr>) = core s"
  "core (s\<lparr>waiting := w\<rparr>) = core s" "core (s\<lparr>orchestrated := w\<rparr>) = core s"
  "core (s\<lparr>pending_approvals := pa\<rparr>) = core s" "core (s\<lparr>shutdown_requested := b\<rparr>) = core s"
  "core (s\<lparr>universal_cancel_requested := u\<rparr>) = core s" "core (s\<lparr>outcomes := oc\<rparr>) = core s"
  "core (s\<lparr>ss_budget_resettable := b\<rparr>) = core s"
  by (simp_all add: core_def)

definition keeps :: "(sched_state \<Rightarrow> bool) \<Rightarrow> sched_res \<Rightarrow> bool" where
  "keeps P r = (case r of Inr s \<Rightarrow> P s | Inl _ \<Rightarrow> True)"

lemma keeps_simps [simp]: "keeps P (Inr s) \<longleftrightarrow> P s" "keeps P (Inl e)"
  by (simp_all add: keeps_def)

lemma keepsD: "keeps P r \<Longrightarrow> r = Inr s \<Longrightarrow> P s"
  by (simp add: keeps_def)

lemma keeps_bind:
  "keeps P r \<Longrightarrow> (\<And>s. P s \<Longrightarrow> keeps P (f s)) \<Longrightarrow> keeps P (case r of Inl e \<Rightarrow> Inl e | Inr s \<Rightarrow> f s)"
  by (cases r) auto

lemma keeps_map: "keeps P r \<Longrightarrow> (\<And>s. P s \<Longrightarrow> P (f s)) \<Longrightarrow> keeps P (map_sum id f r)"
  by (cases r) (auto simp: keeps_def)

definition ckeeps :: "(sched_state \<Rightarrow> bool) \<Rightarrow> control_res \<Rightarrow> bool" where
  "ckeeps P r = (case r of Inr p \<Rightarrow> P (fst p) | Inl _ \<Rightarrow> True)"

lemma ckeeps_simps [simp]: "ckeeps P (Inr p) \<longleftrightarrow> P (fst p)" "ckeeps P (Inl e)"
  by (simp_all add: ckeeps_def)

lemma ckeeps_reply [simp]: "ckeeps P (reply_with x r) \<longleftrightarrow> keeps P r"
  by (cases r) (simp_all add: reply_with_def)

locale sched_invariant =
  fixes E :: sched_env and sc :: scheduler_config
    and Inv :: "sched_state \<Rightarrow> bool" and CapOk :: "capability list option \<Rightarrow> bool"
  assumes frame: "Inv s \<Longrightarrow> core s' = core s \<Longrightarrow> Inv s'"
    and agent_caps: "Inv s \<Longrightarrow> get (agents s) aid = Some a \<Longrightarrow> CapOk (capabilities (cfg a))"
    and job_caps: "Inv s \<Longrightarrow> get (jobs s) j = Some jb \<Longrightarrow> CapOk (Some (job_capabilities jb))"
    and spawn_caps: "CapOk pc \<Longrightarrow> uncovered (se_anchor E) asked pc = None \<Longrightarrow>
      CapOk (case asked of Some rs \<Rightarrow> Some rs | None \<Rightarrow> pc)"
    and stepped: "Inv s \<Longrightarrow> contains_key (agents s) aid \<Longrightarrow> CapOk (capabilities (cfg a')) \<Longrightarrow>
      Inv (s\<lparr>agents := put aid a' (agents s)\<rparr>)"
    and remapped: "Inv s \<Longrightarrow> (\<And>a. capabilities (cfg (f a)) = capabilities (cfg a)) \<Longrightarrow>
      Inv (s\<lparr>agents := map_values f (agents s)\<rparr>)"
    and released: "Inv s \<Longrightarrow> Inv (release_lease aid s)"
    and detached: "Inv s \<Longrightarrow> get (child_job s) aid = None \<Longrightarrow> Inv (detach_child aid s)"
    and retired: "Inv s \<Longrightarrow> get (child_job s) aid = None \<Longrightarrow> Inv (retire aid b r s)"
    and admitted: "Inv s \<Longrightarrow> slot_ok sc s \<Longrightarrow>
      Inv (s\<lparr>in_flight := in_flight s + 1, pending := pending s @ [PendInference aid tn req]\<rparr>)"
    and tooled: "Inv s \<Longrightarrow> Inv (s\<lparr>pending := pending s @ [PendTools aid tn caps bs]\<rparr>)"
    and spawned: "Inv s \<Longrightarrow> get (agents s) cid = None \<Longrightarrow> d \<le> ss_max_spawn_depth s \<Longrightarrow> CapOk (capabilities (cfg child)) \<Longrightarrow>
      Inv (s\<lparr>agents := put cid child (agents s), spawn_depths := put cid d (spawn_depths s)\<rparr>)"
    and leased: "Inv s \<Longrightarrow> get (agents s) cid = None \<Longrightarrow> d \<le> ss_max_spawn_depth s \<Longrightarrow> CapOk (capabilities (cfg child)) \<Longrightarrow>
      (get (live_job_runs s) j = None \<or> get (live_job_runs s) j = Some []) \<Longrightarrow>
      Inv (s\<lparr>agents := put cid child (agents s), spawn_depths := put cid d (spawn_depths s),
             live_job_runs := put j [cid] (live_job_runs s), child_job := put cid j (child_job s)\<rparr>)"
begin

lemma noted: "Inv s \<Longrightarrow> Inv (note_event aid tn k d s)"
  by (rule frame) simp_all

lemma stepped_log:
  assumes "Inv s" and "get (agents s) aid = Some a" and "cfg a' = cfg a"
  shows "Inv (s\<lparr>agents := put aid a' (agents s), flight := lg\<rparr>)"
proof -
  have "Inv (s\<lparr>agents := put aid a' (agents s)\<rparr>)"
    using assms agent_caps [OF assms(1,2)] by (intro stepped) simp_all
  then show ?thesis by (rule frame) (simp add: core_def)
qed

lemma marked: "Inv s \<Longrightarrow> Inv (mark_agent E aid s)"
proof (cases "get (agents s) aid")
  case (Some a)
  then show "Inv s \<Longrightarrow> Inv (mark_agent E aid s)"
    using stepped_log [OF _ Some, of "mark_event (instant_at E (length (flight s))) a" "flight s"]
    by (simp add: mark_agent_def modify_def mark_event_def)
qed (simp add: mark_agent_def modify_def)

lemma admits: "Inv s \<Longrightarrow> slot_ok sc s \<Longrightarrow> Inv (admit aid tn req x s)"
  by (rule frame [OF admitted]) (simp_all add: admit_def note_event_def Let_def core_def)

lemma wound_up: "Inv s \<Longrightarrow> Inv (wind_up aid r s)"
proof -
  assume "Inv s"
  then have "Inv (leave_orchestration aid (consume_cancel aid s))" by (rule frame) simp
  then have "Inv (release_lease aid (leave_orchestration aid (consume_cancel aid s)))" by (rule released)
  then show "Inv (wind_up aid r s)" unfolding wind_up_def by (rule frame) simp
qed

lemma wind_up_released: "get (child_job (wind_up aid r s)) aid = None"
  by (simp add: wind_up_def close_run_def run_send_def release_lease_def leave_orchestration_def
      consume_cancel_def note_event_def Let_def split: option.splits)

lemma registered:
  assumes "Inv s" and "get (agents s) cid = None"
    and "d < ss_max_spawn_depth s" and "CapOk (capabilities (cfg child))"
  shows "Inv (register_child pid call d cid child s)"
proof -
  have "d + 1 \<le> ss_max_spawn_depth s" using assms(3) by (rule inc_le)
  from spawned [OF assms(1,2) this assms(4)] show ?thesis
    by (rule frame) (simp add: register_child_def run_send_def note_event_def Let_def core_def)
qed

lemma job_registered:
  assumes "Inv s" and "get (agents s) cid = None"
    and "d \<le> ss_max_spawn_depth s" and "CapOk (capabilities (cfg child))"
    and "reject_if_job_already_running j s = Inr u"
  shows "Inv (register_job_child j cid p d r child s)"
proof -
  have live: "get (live_job_runs s) j = None \<or> get (live_job_runs s) j = Some []"
    using assms(5) by (auto simp: reject_if_job_already_running_def split: option.splits if_splits)
  from leased [OF assms(1-4) this] show ?thesis
    by (rule frame)
      (use live in \<open>auto simp: register_job_child_def run_send_def note_event_def Let_def core_def\<close>)
qed

end

text \<open>The handlers, for a recursive dispatcher that keeps the invariant.\<close>

locale sched_invariant_enq = sched_invariant +
  fixes enq :: enq
  assumes enq_keeps: "Inv s \<Longrightarrow> CapOk caps \<Longrightarrow> keeps Inv (enq eff aid tn pr caps s)"
begin

lemma answer_keeps:
  assumes "Inv s"
  shows "keeps Inv (answer_call enq E aid call c err s)"
proof (cases "get (agents s) aid")
  case (Some a)
  obtain a1 lg1 where p: "provide_tool_results [ToolResult call c err] a (flight s) = (a1, lg1)"
    by (metis surj_pair)
  obtain a2 lg2 eff where st: "step E a1 lg1 = (a2, lg2, eff)" by (metis prod_cases3)
  have "cfg a2 = cfg a" using step_cfg [OF st] provide_tool_results_fields [OF p] by simp
  then show ?thesis
    using enq_keeps [OF stepped_log [OF assms Some] agent_caps [OF assms Some]]
    by (simp add: answer_call_def Some p st)
qed (simp add: answer_call_def)

lemma answer_noted: "Inv s \<Longrightarrow> keeps Inv (answer_call enq E aid call c err (note_event a t k d s))"
  by (rule answer_keeps) (rule noted)

lemma seed_keeps:
  assumes "Inv s"
  shows "keeps Inv (seed_agent enq E aid pr s)"
proof (cases "get (agents s) aid")
  case (Some a)
  obtain a2 lg2 eff where st: "step E a (flight s) = (a2, lg2, eff)" by (metis prod_cases3)
  show ?thesis
    using enq_keeps [OF stepped_log [OF assms Some step_cfg [OF st]] agent_caps [OF assms Some]]
    by (simp add: seed_agent_def Some st)
qed (simp add: seed_agent_def)

lemma terminal_keeps:
  assumes "Inv s"
  shows "keeps Inv (handle_agent_terminal enq E aid r s)"
proof -
  let ?w = "wind_up aid r s"
  have w: "Inv ?w" by (rule wound_up [OF assms])
  have d: "Inv (detach_child aid ?w)" by (rule detached [OF w wind_up_released])
  have "keeps Inv (deliver_result enq E aid r aw (detach_child aid ?w))" for aw
    unfolding deliver_result_def Let_def using answer_noted [OF d] noted [OF noted [OF d]] by simp
  moreover have "Inv (retire aid b r ?w)" for b by (rule retired [OF w wind_up_released])
  ultimately show ?thesis by (simp add: handle_agent_terminal_def Let_def split: option.split)
qed

lemma infer_keeps:
  assumes "Inv s"
  shows "keeps Inv (enqueue_infer enq E sc aid tn pr req s)"
proof -
  have "Inv (receipt_denial E aid r (note_event a t k d s))" for r a t k d
    by (rule frame [OF assms]) simp
  moreover have "Inv (defer_infer p1 a1 r1 t1 (note_event a t k d s))" for p1 a1 r1 t1 a t k d
    by (rule frame [OF assms]) simp
  ultimately show ?thesis
    unfolding enqueue_infer_def Let_def using terminal_keeps admits [OF assms] by simp
qed

lemma spawn_checked_keeps:
  assumes "Inv s" and "CapOk caps" and "d < ss_max_spawn_depth s"
  shows "keeps Inv (spawn_checked enq E sc pid call config caps tn d cid s)"
proof (cases "uncovered (se_anchor E) (sc_capabilities config) caps")
  case None
  let ?child = "spawn_child E sc pid config caps cid s"
  have "CapOk (capabilities (cfg ?child))"
    using spawn_caps [OF assms(2) None]
    by (simp add: spawn_child_def Let_def new_native_def native_config_def agent_new_def set_budget_resettable_def)
  then have "Inv (register_child pid call d cid ?child s)"
    if "get (agents s) cid = None"
    using that assms(1,3) by (intro registered)
  then show ?thesis
    unfolding spawn_checked_def using None answer_noted [OF assms(1)] seed_keeps by auto
qed (simp add: spawn_checked_def answer_noted [OF assms(1)])

lemma spawn_keeps:
  assumes "Inv s" and "CapOk caps"
  shows "keeps Inv (dispatch_spawn enq E sc pid call config caps tn s)"
proof -
  define depth where "depth = (case get (spawn_depths s) pid of Some d \<Rightarrow> d | None \<Rightarrow> 0)"
  have fresh: "keeps Inv (spawn_checked enq E sc pid call config caps tn depth cid (s\<lparr>child_seq := q\<rparr>))"
    if "depth < ss_max_spawn_depth s" for cid q
    using frame [OF assms(1)] that assms(2) by (intro spawn_checked_keeps) simp_all
  have checked: "keeps Inv (spawn_checked enq E sc pid call config caps tn depth cid s)"
    if "depth < ss_max_spawn_depth s" for cid
    using assms that by (intro spawn_checked_keeps)
  show ?thesis
    unfolding dispatch_spawn_def Let_def depth_def [symmetric]
    by (rule if_split [THEN iffD2], intro conjI impI answer_noted [OF assms(1)], rule if_split [THEN iffD2],
        intro conjI impI answer_noted [OF assms(1)])
      (auto simp: fresh checked answer_noted [OF assms(1)] not_le split: option.split sum.split)
qed

lemma job_child_keeps:
  assumes "Inv s" and "get (jobs s) j = Some jb" and "reject_if_job_already_running j s = Inr u"
    and "reserve_job_child_id dbg cid s = Inr v" and "d \<le> ss_max_spawn_depth s"
  shows "keeps Inv (spawn_job_child enq E sc jb j cid parent d mc r s)"
proof -
  let ?child = "job_child E sc jb cid mc s"
  have "get (agents s) cid = None"
    using assms(4) by (auto simp: reserve_job_child_id_def split: sum.splits if_splits)
  moreover have "CapOk (capabilities (cfg ?child))"
    using job_caps [OF assms(1,2)]
    by (simp add: job_child_def Let_def new_native_def native_config_def agent_new_def set_budget_resettable_def)
  ultimately have "Inv (register_job_child j cid parent d r ?child s)"
    using assms by (intro job_registered)
  then show ?thesis unfolding spawn_job_child_def by (rule seed_keeps)
qed

lemma run_job_keeps:
  assumes "Inv s"
  shows "keeps Inv (dispatch_run_job enq E sc pid call j caps tn s)"
proof -
  define depth where "depth = (case get (spawn_depths s) pid of Some d \<Rightarrow> d | None \<Rightarrow> 0)"
  have sealed: "keeps Inv (map_sum id (await_signal pid call cid) (spawn_job_child enq E sc jb j cid (Some pid) (depth + 1) mc r s))"
    if "get (jobs s) j = Some jb" "reject_if_job_already_running j s = Inr u"
      "reserve_job_child_id (debug_str E) cid s = Inr v" "depth < ss_max_spawn_depth s" for jb u v cid mc r
  proof (rule keeps_map [OF job_child_keeps [OF assms that(1-3)]])
    show "depth + 1 \<le> ss_max_spawn_depth s" using that(4) by (rule inc_le)
  qed (rule frame, simp_all)
  show ?thesis
    unfolding dispatch_run_job_def Let_def depth_def [symmetric]
    by (rule if_split [THEN iffD2], intro conjI impI answer_noted [OF assms])
      (auto simp: answer_noted [OF assms] sealed not_le split: option.split sum.split)
qed

lemma body_keeps:
  assumes "Inv s" and "CapOk caps"
  shows "keeps Inv (enqueue_body enq E sc eff aid tn pr caps s)"
proof -
  let ?m = "mark_agent E aid s"
  have m: "Inv ?m" by (rule marked [OF assms(1)])
  have send: "keeps Inv (dispatch_send_message enq E aid call to c tn ?m)" for call to c
  proof -
    have "Inv (note_event a t k d (post_mail to msg ?m))" for a t k d msg by (rule frame [OF m]) simp
    then show ?thesis unfolding dispatch_send_message_def using answer_keeps answer_noted [OF m] m by simp
  qed
  have ask: "keeps Inv (request_approval enq E aid call act tn ?m)" for call act
  proof -
    have "Inv (park_approval E aid call act tn ?m)" by (rule frame [OF m]) simp
    then show ?thesis unfolding request_approval_def Let_def using answer_noted [OF m] noted [OF m] by simp
  qed
  have park: "Inv (park_orchestrated aid ans ?m)" for ans by (rule frame [OF m]) simp
  show ?thesis
    unfolding enqueue_body_def Let_def
    using terminal_keeps [OF assms(1)] terminal_keeps [OF m] infer_keeps [OF m] spawn_keeps [OF m assms(2)]
      run_job_keeps [OF m] tooled [OF m]
    by (cases eff) (simp_all add: send ask park)
qed

end

context sched_invariant
begin

lemma fuel_keeps: "Inv s \<Longrightarrow> CapOk caps \<Longrightarrow> keeps Inv (enq_fuel n E sc eff aid tn pr caps s)"
proof (induction n arbitrary: s caps eff aid tn pr)
  case (Suc n)
  have "sched_invariant_enq E sc Inv CapOk (enq_fuel n E sc)"
    by unfold_locales (rule Suc.IH)
  from sched_invariant_enq.body_keeps [OF this Suc.prems] show ?case by simp
qed simp

lemma enqueue_keeps: "Inv s \<Longrightarrow> CapOk caps \<Longrightarrow> keeps Inv (enqueue_or_defer E sc eff aid tn pr caps s)"
  unfolding enqueue_or_defer_def by (rule fuel_keeps)

end

sublocale sched_invariant \<subseteq> run: sched_invariant_enq E sc Inv CapOk "enqueue_or_defer E sc"
  by unfold_locales (rule enqueue_keeps)

subsection \<open>Draining and the arms of the loop\<close>

context sched_invariant
begin

lemma terminate_keeps: "Inv s \<Longrightarrow> keeps Inv (terminate_agent E sc aid r s)"
  unfolding terminate_agent_def by (rule run.terminal_keeps)

lemma deny_all_keeps:
  assumes "\<And>d s. core (note d s) = core s"
  shows "Inv s \<Longrightarrow> keeps Inv (deny_all n E sc note err s)"
proof (induction n arbitrary: s)
  case 0
  then show ?case by (subst deny_all.simps) (simp split: option.split)
next
  case (Suc n)
  show ?case
  proof (cases "deferred_pop (deferred s)")
    case None
    then show ?thesis using Suc.prems by (subst deny_all.simps) simp
  next
    case (Some p)
    obtain d rest where p: "p = (d, rest)" by fastforce
    have "Inv (note d (s\<lparr>deferred := rest\<rparr>))" by (rule frame [OF Suc.prems]) (simp add: assms)
    from keeps_bind [OF terminate_keeps [OF this] Suc.IH] show ?thesis
      by (subst deny_all.simps) (simp add: Some p)
  qed
qed

lemma terminate_legacy_keeps: "Inv s \<Longrightarrow> keeps Inv (terminate_legacy E sc ds s)"
proof (induction ds arbitrary: s)
  case (Cons d ds)
  have "Inv (receipt_denial E a r (note_event a2 t k x (s\<lparr>deferred := q\<rparr>)))" for a r a2 t k x q
    by (rule frame [OF Cons.prems]) simp
  from keepsD [OF terminate_keeps [OF this]] Cons show ?case
    by (auto simp: Let_def split: sum.split)
qed simp

lemma drain_keeps:
  assumes "Inv s"
  shows "keeps Inv (drain_deferred E sc s)"
proof -
  obtain s1 h l where l: "admit_loop sc s [] [] = (s1, h, l)" by (metis prod_cases3)
  have pop: "Inv (t\<lparr>deferred := q\<rparr>)" if "Inv t" for t q by (rule frame [OF that]) simp
  have slot: "slot_ok sc (t\<lparr>deferred := q\<rparr>) = slot_ok sc t" for t q by (simp add: slot_ok_def)
  have "Inv s1"
    by (rule admit_loop_rule [OF l, of "\<lambda>s _ _. Inv s", THEN conjunct1]) (use assms pop admits slot in auto)
  then have "keeps Inv (terminate_legacy E sc l (s1\<lparr>deferred := rev h @ deferred s1\<rparr>))"
    by (intro terminate_legacy_keeps pop)
  moreover have "core (note_shutdown d t) = core t" "core (note_exhausted E d t) = core t" for d t
    by (simp_all add: note_shutdown_def note_exhausted_def)
  ultimately show ?thesis
    unfolding drain_deferred_def using assms deny_all_keeps by (simp add: l)
qed

lemma windows_reset: "Inv s \<Longrightarrow> Inv (reset_all_windows s)"
  unfolding reset_all_windows_def by (rule remapped) (simp_all add: reset_budget_window_def)

lemma rebased: "Inv s \<Longrightarrow> Inv (rebase_windows s)"
  by (rule frame) (simp_all add: rebase_windows_def publish_budget_def rebase_universal_window_def)

lemma rebase_keeps:
  assumes "Inv s"
  shows "keeps Inv (maybe_rebase_windows E sc s)"
proof -
  have start: "Inv (t\<lparr>budget_window_start := n\<rparr>)" if "Inv t" for t n by (rule frame [OF that]) simp
  show ?thesis
    unfolding maybe_rebase_windows_def maybe_rebase_windows_at_def Let_def
    using assms start drain_keeps [OF noted [OF windows_reset [OF start [OF rebased [OF assms]]]]] by simp
qed

lemma mailbox_drained:
  assumes "Inv s"
  shows "Inv (drain_mailbox aid s)"
proof -
  have s1: "Inv (s\<lparr>mailboxes := m\<rparr>)" for m by (rule frame [OF assms]) simp
  have "cfg a' = cfg a" if "inject_messages ms a lg = (a', lg')" for ms a lg a' lg'
    using that by (auto simp: inject_messages_def Let_def split: if_splits)
  then show ?thesis
    unfolding drain_mailbox_def Let_def
    using assms s1 stepped_log [OF s1] by (auto split: option.split prod.split)
qed

lemma checkpointed_all: "Inv s \<Longrightarrow> Inv (checkpoint_all E s)"
proof -
  have "core (fold (checkpoint_event r) cps t) = core t" for r cps t
    by (induction cps arbitrary: t) (simp_all add: checkpoint_event_def)
  then show "Inv s \<Longrightarrow> Inv (checkpoint_all E s)"
    by (auto simp: checkpoint_all_def elim: frame split: prod.split)
qed

lemma inference_keeps:
  assumes "Inv (s\<lparr>in_flight := in_flight s - 1\<rparr>)"
  shows "keeps Inv (on_inference E sc aid resp s)"
proof (cases "get (agents s) aid")
  case None
  then show ?thesis
    unfolding on_inference_def effect_missing_def Let_def using drain_keeps [OF noted [OF assms]] by simp
next
  case (Some a)
  let ?s = "s\<lparr>in_flight := in_flight s - 1\<rparr>"
  obtain a1 lg1 where p: "provide_inference resp a (flight s) = (a1, lg1)" by (metis surj_pair)
  obtain a2 lg2 eff where st: "step E a1 lg1 = (a2, lg2, eff)" by (metis prod_cases3)
  have "cfg a1 = cfg a" using p by (auto simp: provide_inference_def split: if_splits)
  then have c: "cfg a2 = cfg a" using step_cfg [OF st] by simp
  have "Inv (drain_mailbox aid (?s\<lparr>agents := put aid a2 (agents ?s), flight := lg2\<rparr>))"
    using Some by (intro mailbox_drained stepped_log [OF assms]) (simp_all add: c)
  then have "Inv (publish_budget (t\<lparr>tokens_spent := n\<rparr>))"
    if "t = drain_mailbox aid (?s\<lparr>agents := put aid a2 (agents ?s), flight := lg2\<rparr>)" for t n
    unfolding that publish_budget_def by (rule frame) simp
  then have "keeps Inv (drain_deferred E sc (publish_budget (t\<lparr>tokens_spent := n\<rparr>)))"
    if "t = drain_mailbox aid (?s\<lparr>agents := put aid a2 (agents ?s), flight := lg2\<rparr>)" for t n
    using that by (intro drain_keeps)
  moreover have "CapOk (capabilities (cfg a2))" using agent_caps [OF assms] Some c by simp
  ultimately show ?thesis
    unfolding on_inference_def Let_def using keeps_bind enqueue_keeps
    by (auto simp: Some p st intro!: keeps_bind)
qed

lemma inference_error_keeps:
  assumes "Inv (s\<lparr>in_flight := in_flight s - 1\<rparr>)"
  shows "keeps Inv (on_inference_error E sc aid e s)"
  unfolding on_inference_error_def Let_def
  using keepsD [OF terminate_keeps [OF noted [OF noted [OF assms]]]] drain_keeps by (auto split: sum.split)

lemma tools_keep:
  assumes "Inv s"
  shows "keeps Inv (on_tools_done E sc aid results s)"
proof (cases "get (agents s) aid")
  case None
  then show ?thesis using noted [OF assms] by (simp add: on_tools_done_def effect_missing_def)
next
  case (Some a)
  obtain a1 lg1 where p: "provide_tool_results results a (flight s) = (a1, lg1)" by (metis surj_pair)
  have "Inv (drain_mailbox aid (s\<lparr>agents := put aid a1 (agents s), flight := lg1\<rparr>))"
    using provide_tool_results_fields [OF p] by (intro mailbox_drained stepped_log [OF assms Some]) simp
  then have "Inv (maybe_checkpoint E sc aid (drain_mailbox aid (s\<lparr>agents := put aid a1 (agents s), flight := lg1\<rparr>)))"
    by (auto simp: maybe_checkpoint_def checkpointed_all split: option.split)
  from run.seed_keeps [OF this] show ?thesis by (simp add: on_tools_done_def Some p Let_def)
qed

lemma scheduled_keeps:
  assumes "Inv s" and "dispatch_scheduled_job E sc j cid r s = Inr (s', res)"
  shows "Inv s'"
proof -
  have "keeps Inv (spawn_job_child (enqueue_or_defer E sc) E sc jb j cid None 0 (se_default_model E) r s)"
    if "get (jobs s) j = Some jb" "reject_if_job_already_running j s = Inr u" "reserve_job_child_id (debug_str E) cid s = Inr v"
    for jb u v
    using run.job_child_keeps [OF assms(1) that] by simp
  then show ?thesis
    using assms by (auto simp: dispatch_scheduled_job_def keeps_def split: option.splits sum.splits)
qed

lemma schedule_kept: "Inv s \<Longrightarrow> Inv (on_schedule j f s)" "Inv s \<Longrightarrow> Inv (advance_job_schedule L j now s)"
proof -
  show f: "Inv s \<Longrightarrow> Inv (on_schedule j f s)" for j f by (rule frame) (simp_all add: on_schedule_def)
  show "Inv s \<Longrightarrow> Inv (advance_job_schedule L j now s)"
    by (auto simp: advance_job_schedule_def f split: option.split sum.split)
qed

lemma tick_job_keeps:
  assumes "Inv s"
  shows "keeps Inv (tick_job L E sc now due s)"
proof -
  obtain j fp ts cu where due: "due = (j, fp, ts, cu)" by (metis prod_cases4)
  have "Inv (note_event a t k d s2)" if "dispatch_scheduled_job E sc j cid r (on_schedule j f s) = Inr (s2, res)"
    for a t k d s2 cid r f res
    using noted scheduled_keeps [OF schedule_kept(1) [OF assms] that] .
  then show ?thesis
    using assms
    by (auto simp: due tick_job_def Let_def schedule_kept noted split: sum.split prod.split)
qed

lemma tick_keeps:
  assumes "Inv s"
  shows "keeps Inv (tick_native_jobs L E sc s)"
proof -
  have "keeps Inv (tick_jobs L E sc now ds s)" if "Inv s" for now ds s
    using that
  proof (induction ds arbitrary: s)
    case (Cons d ds)
    show ?case using keeps_bind [OF tick_job_keeps [OF Cons.prems] Cons.IH] by simp
  qed simp
  then show ?thesis
    using assms by (auto simp: tick_native_jobs_def Let_def intro: keeps_map checkpointed_all)
qed

lemma error_noted: "Inv s \<Longrightarrow> Inv (control_error e s)"
  unfolding control_error_def by (rule noted)

lemma settled: "Inv s \<Longrightarrow> Inv (fst (settle c mk r s))"
  by (auto simp: settle_def error_noted split: sum.splits)

lemma settled_map: "keeps Inv r \<Longrightarrow> ckeeps Inv (map_sum id (settle c mk x) r)"
  using settled by (cases r) auto

lemma approve_keeps: "Inv s \<Longrightarrow> keeps Inv (approve E sc i edits kind s)"
proof -
  assume s: "Inv s"
  have n: "Inv (note_event a t k d (s\<lparr>pending_approvals := p\<rparr>))" for a t k d p by (rule frame [OF s]) simp
  show "keeps Inv (approve E sc i edits kind s)"
    unfolding approve_def Let_def using run.answer_keeps [OF n] error_noted [OF n] error_noted [OF s]
    by (simp split: option.split)
qed

lemma reject_keeps: "Inv s \<Longrightarrow> keeps Inv (reject E sc i reason s)"
proof -
  assume s: "Inv s"
  have n: "Inv (note_event a t k d (s\<lparr>pending_approvals := p\<rparr>))" for a t k d p by (rule frame [OF s]) simp
  show "keeps Inv (reject E sc i reason s)"
    unfolding reject_def Let_def using run.answer_keeps [OF n] error_noted [OF n] error_noted [OF s]
    by (simp split: option.split)
qed

lemma stepped_noted:
  assumes "Inv s" and "get (agents s) aid = Some a" and "cfg a' = cfg a"
  shows "Inv (note_event x tn k d (s\<lparr>agents := put aid a' (agents s), flight := lg, orchestrated := w\<rparr>))"
    "Inv (note_event x tn k d (s\<lparr>waiting := w, agents := put aid a' (agents s), flight := lg\<rparr>))"
  by (rule frame [OF stepped_log [OF assms, of lg]], simp only: core_simps, simp add: core_def)+

lemma inject_keeps:
  assumes "Inv s"
  shows "keeps Inv (inject E sc aid t s)"
proof (cases "get (agents s) aid")
  case (Some a)
  obtain a1 lg1 where p: "push_user_turn t (resume_for_orchestration a) (flight s) = (a1, lg1)" by (metis surj_pair)
  obtain a2 lg2 eff where st: "step E a1 lg1 = (a2, lg2, eff)" by (metis prod_cases3)
  have "cfg a1 = cfg a" using p by (auto simp: push_user_turn_def resume_for_orchestration_def)
  then have "cfg a2 = cfg a" using step_cfg [OF st] by simp
  from enqueue_keeps [OF stepped_noted(2) [OF assms Some this] agent_caps [OF assms Some]] show ?thesis
    using noted [OF assms] by (simp add: inject_def Some p st)
qed (simp add: inject_def noted [OF assms])

lemma changed_noted:
  assumes "Inv s" and "get (agents s) i = Some a" and "capabilities (cfg a') = capabilities (cfg a)"
  shows "Inv (note_event x tn k d (s\<lparr>agents := put i a' (agents s)\<rparr>))"
  using noted [OF stepped [OF assms(1)]] agent_caps [OF assms(1,2)] assms(2,3) by simp

lemma reset_budget_keeps:
  assumes "Inv s"
  shows "ckeeps Inv (reset_budget E sc target c s)"
proof -
  have "Inv (note_event x tn k d (reset_all_windows ((rebase_windows s)\<lparr>budget_window_start := n\<rparr>)))" for x tn k d n
    by (rule noted, rule windows_reset, rule frame [OF rebased [OF assms]]) simp
  note all = settled_map [OF drain_keeps [OF this]]
  show ?thesis
  proof (cases target)
    case GlobalBudget
    then show ?thesis unfolding reset_budget_def budget_reset_event_def by (simp add: all Let_def)
  next
    case (AgentBudget i)
    show ?thesis
    proof (cases "get (agents s) i")
      case (Some a)
      have "Inv (budget_reset_event i sc i x y (s\<lparr>agents := put i (fst (reset_budget_window a)) (agents s)\<rparr>))" for x y
        unfolding budget_reset_event_def by (rule changed_noted [OF assms Some]) (simp add: reset_budget_window_def)
      from settled_map [OF drain_keeps [OF this]] show ?thesis by (simp add: reset_budget_def AgentBudget Some Let_def)
    qed (simp add: reset_budget_def AgentBudget settled [OF assms])
  qed
qed

lemma set_budget_keeps:
  assumes "Inv s"
  shows "ckeeps Inv (set_budget E sc target limit c s)"
proof -
  have "ckeeps Inv (set_budget E sc (AgentBudget i) limit c s)" for i
  proof (cases "get (agents s) i")
    case (Some a)
    obtain a' old where a': "set_token_budget limit a = (a', old)" by (metis surj_pair)
    then have "Inv (note_event x tn k d (s\<lparr>agents := put i a' (agents s)\<rparr>))" for x tn k d
      by (intro changed_noted [OF assms Some]) (auto simp: set_token_budget_def)
    then show ?thesis
      by (simp add: set_budget_def Some a' Let_def settled settled_map [OF drain_keeps])
  qed (simp add: set_budget_def settled [OF assms])
  then show ?thesis
    by (cases target) (simp_all add: set_budget_def settled [OF assms])
qed

lemma funnel_keeps: "Inv s \<Longrightarrow> keeps Inv (funnel_parked E sc ns s)"
proof (induction ns arbitrary: s)
  case (Cons n ns)
  show ?case using keeps_bind [OF terminate_keeps [OF Cons.prems] Cons.IH] Cons by simp
qed simp

lemma cancel_keeps:
  assumes "Inv s"
  shows "ckeeps Inv (cancel E sc aid c s)"
proof -
  have flagged: "keeps Inv (funnel_parked E sc ns (flag_cancels aid ns s))" for ns
    by (rule funnel_keeps, rule frame [OF assms]) (simp add: flag_cancels_def)
  have universal: "Inv t'" if "Inv t" "flag_universal aid ns t = (t', n)" for ns t t' n
    by (rule frame [OF that(1)]) (use that(2) in \<open>auto simp: flag_universal_def Let_def\<close>)
  have "ckeeps Inv (case funnel_parked E sc ns (flag_cancels aid ns s) of Inl e \<Rightarrow> Inl e
      | Inr s1 \<Rightarrow> (case flag_universal aid ns s1 of (s2, n) \<Rightarrow> Inr (settle c CancelReply (f n) s2)))" for ns f
  proof (cases "funnel_parked E sc ns (flag_cancels aid ns s)")
    case (Inr s1)
    obtain s2 n where s2: "flag_universal aid ns s1 = (s2, n)" by (metis surj_pair)
    have "Inv s2" using universal [OF keepsD [OF flagged Inr] s2] .
    then show ?thesis by (simp add: Inr s2 settled)
  qed simp
  note closed = this
  show ?thesis
  proof (cases "\<not> contains_key (agents s) aid \<and> \<not> contains_key (universal_agents s) aid")
    case False
    show ?thesis unfolding cancel_def Let_def if_not_P [OF False] by (rule closed)
  qed (simp add: cancel_def settled [OF assms])
qed

lemma set_caps_keeps:
  assumes "Inv s"
  shows "Inv (fst (set_caps E aid caps c s))"
proof (cases "get (agents s) aid")
  case (Some a)
  define narrow where "narrow = (case capabilities (cfg a) of None \<Rightarrow> True
    | Some cur \<Rightarrow> list_all (capability_covered_by (se_anchor E) cur) caps)"
  have "CapOk (Some caps)" if narrow
    using spawn_caps [OF agent_caps [OF assms Some], of "Some caps"] that
    by (simp add: narrow_def uncovered_def find_None_iff list_all_iff split: option.splits)
  then have one: "Inv (note_event x tn k d (s\<lparr>agents := put aid (a\<lparr>cfg := (cfg a)\<lparr>capabilities := Some caps\<rparr>,
        tool_names := map spec_name sp, specs := sp\<rparr>) (agents s)\<rparr>))" if narrow for x tn k d sp
    using noted [OF stepped [OF assms]] that Some by simp
  show ?thesis
    unfolding set_caps_def set_capabilities_def narrow_def [symmetric]
    by (simp add: Some settled [OF assms] settled [OF one] narrow_def [symmetric] split: option.split)
qed (simp add: set_caps_def settled [OF assms])

lemma operator_spawn_keeps:
  assumes "Inv s" and "CapOk (os_capabilities req)"
  shows "ckeeps Inv (dispatch_operator_spawn E sc req s)"
proof -
  have placed: "keeps Inv (seed_operator E sc b aid pr (register_operator aid (operator_child E sc req aid t) t))"
    if "Inv t" "get (agents t) aid = None" for t aid b pr
  proof -
    let ?c = "operator_child E sc req aid t"
    have caps: "CapOk (capabilities (cfg ?c))"
      using assms(2) by (simp add: operator_child_def new_native_def native_config_def agent_new_def set_budget_resettable_def)
    have reg: "Inv (register_operator aid ?c t)"
      by (rule frame [OF spawned [OF that _ caps, of 0]])
        (simp_all add: register_operator_def run_send_def note_event_def Let_def core_def)
    obtain a where a: "get (agents (register_operator aid ?c t)) aid = Some a"
      by (simp add: register_operator_def run_send_def note_event_def Let_def)
    obtain a2 lg2 eff where st: "step E a (flight (register_operator aid ?c t)) = (a2, lg2, eff)" by (metis prod_cases3)
    show ?thesis
      using enqueue_keeps [OF stepped_noted(1) [OF reg a step_cfg [OF st]] agent_caps [OF reg a]]
        enqueue_keeps [OF stepped_log [OF reg a step_cfg [OF st]] agent_caps [OF reg a]]
      by (simp add: seed_operator_def a st Let_def)
  qed
  have t: "Inv (s\<lparr>child_seq := n\<rparr>)" for n by (rule frame [OF assms(1)]) simp
  show ?thesis
    unfolding dispatch_operator_spawn_def Let_def
    using placed [OF assms(1)] placed [OF t] error_noted [OF assms(1)] error_noted [OF t]
    by (auto split: option.split sum.split)
qed

lemma run_job_now_keeps:
  assumes "Inv s"
  shows "ckeeps Inv (run_job_now E sc j c s)"
proof (cases "dispatch_scheduled_job E sc j (manual_job_child_id E j s) ''manual_fire'' s")
  case (Inr p)
  then show ?thesis
    using noted [OF scheduled_keeps [OF assms]]
    by (cases p) (auto simp: run_job_now_def Let_def split: sum.split)
qed (simp add: run_job_now_def)

lemma command_keeps:
  assumes "Inv s" and "\<And>req. cmd = CtlSpawn req \<Longrightarrow> CapOk (os_capabilities req)"
  shows "ckeeps Inv (dispatch_control_command E sc cmd s)"
  unfolding dispatch_control_command_def
  using assms operator_spawn_keeps approve_keeps reject_keeps inject_keeps reset_budget_keeps set_budget_keeps
    cancel_keeps set_caps_keeps run_job_now_keeps
  by (simp split: control_command.split)

lemma polled: "Inv s \<Longrightarrow> Inv (poll_universal_agents P s)"
proof -
  have "core (fold (poll_universal P) us t) = core t" for us t
  proof (induction us arbitrary: t)
    case (Cons u us)
    have "core (finish_universal u ua st sp r t) = core t" for u ua st sp r t
      by (simp add: finish_universal_def revoke_key_def run_send_def Let_def core_def)
    then have "core (poll_universal P u t) = core t"
      by (simp add: poll_universal_def Let_def split: option.split wait_status.split prod.split)
    with Cons show ?case by simp
  qed simp
  then show "Inv s \<Longrightarrow> Inv (poll_universal_agents P s)"
    by (auto simp: poll_universal_agents_def elim: frame)
qed

lemma universal_drained: "Inv s \<Longrightarrow> Inv (drain_universal_cancels s)"
proof -
  have "core (fold cancel_universal us t) = core t" for us t
  proof (induction us arbitrary: t)
    case (Cons u us)
    have "core (cancel_universal u t) = core t"
      by (simp add: cancel_universal_def revoke_key_def Let_def note_event_def run_send_def core_def split: option.split)
    with Cons show ?case by simp
  qed simp
  then show "Inv s \<Longrightarrow> Inv (drain_universal_cancels s)"
    by (auto simp: drain_universal_cancels_def elim: frame)
qed

end

subsection \<open>Every step of the loop\<close>

text \<open>
  A future that has finished leaves \<open>pending\<close>; the slot of an inference is given back by the arm
  that takes its result.
\<close>

locale sched_loop = sched_invariant +
  assumes inferred: "Inv s \<Longrightarrow> i < length (pending s) \<Longrightarrow> pending s ! i = PendInference aid tn req \<Longrightarrow>
      Inv ((drop_pending i s)\<lparr>in_flight := in_flight s - 1\<rparr>)"
    and seeded: "Inv s \<Longrightarrow> Inv (s\<lparr>spawn_depths := or_insert aid 0 (spawn_depths s)\<rparr>)"
    and tools_ran: "Inv s \<Longrightarrow> i < length (pending s) \<Longrightarrow> pending s ! i = PendTools aid tn caps bs \<Longrightarrow>
      Inv (drop_pending i s)"
begin

lemma step_keeps:
  assumes "loop_step L E sc CapOk s s'" and "Inv s"
  shows "Inv s'"
  using assms
proof (induction rule: loop_step.induct)
  case (rebase s s')
  then show ?case using keepsD [OF rebase_keeps] by blast
next
  case (tick s s')
  then show ?case using keepsD [OF tick_keeps] by blast
next
  case (poll s P)
  then show ?case by (simp add: polled)
next
  case (command cmd s s' r)
  then have "ckeeps Inv (dispatch_control_command E sc cmd s)" by (intro command_keeps) auto
  with command.hyps(1) show ?case by (simp add: universal_drained)
next
  case (inference i s aid tn req resp chunks s')
  have "Inv ((infer_finished E aid tn req chunks resp (drop_pending i s))\<lparr>in_flight := in_flight s - 1\<rparr>)"
    by (rule frame [OF inferred [OF inference.prems inference.hyps(1,2)]])
      (simp add: infer_finished_def note_event_def Let_def core_def)
  moreover have "in_flight (infer_finished E aid tn req chunks resp (drop_pending i s)) = in_flight s"
    by (simp add: infer_finished_def note_event_def Let_def drop_pending_def)
  ultimately show ?case using keepsD [OF inference_keeps inference.hyps(3)] by simp
next
  case (inference_error i s aid tn req e s')
  have "in_flight (drop_pending i s) = in_flight s" by (simp add: drop_pending_def)
  then show ?case
    using keepsD [OF inference_error_keeps inference_error.hyps(3)]
      inferred [OF inference_error.prems inference_error.hyps(1,2)] by simp
next
  case (tools i s aid tn caps bs invoke lg results s')
  have "Inv ((drop_pending i s)\<lparr>flight := lg\<rparr>)"
    by (rule frame [OF tools_ran [OF tools.prems tools.hyps(1,2)]]) simp
  then show ?case using keepsD [OF tools_keep tools.hyps(4)] by simp
qed

lemma run_keeps: "loop_run L E sc CapOk s s' \<Longrightarrow> Inv s \<Longrightarrow> Inv s'"
  by (induction rule: rtranclp_induct) (auto intro: step_keeps)

lemma boot_keeps: "Inv s \<Longrightarrow> Inv (boot_schedules L now s)"
proof -
  have "core (boot_schedule L now jb t) = core t" for jb t
    by (simp add: boot_schedule_def Let_def split: option.split sum.split)
  then have "core (fold (boot_schedule L now) js t) = core t" for js t
    by (induction js arbitrary: t) simp_all
  then show "Inv s \<Longrightarrow> Inv (boot_schedules L now s)"
    by (auto simp: boot_schedules_def elim: frame)
qed

lemma budget_window_keeps: "Inv s \<Longrightarrow> Inv (init_budget_window sc now s)"
proof -
  assume s: "Inv s"
  have start: "Inv (t\<lparr>budget_window_start := now\<rparr>)" if "Inv t" for t by (rule frame [OF that]) simp
  have mark: "Inv (t\<lparr>ss_budget_resettable := b, agents := map_values (set_budget_resettable b) (agents t)\<rparr>)"
    if "Inv t" for t b
    by (rule frame [OF remapped [OF that, of "set_budget_resettable b"]])
      (simp_all add: set_budget_resettable_def core_def)
  show "Inv (init_budget_window sc now s)"
    unfolding init_budget_window_def Let_def
    using s mark [OF s] mark [OF start [OF s]] mark [OF windows_reset [OF rebased [OF start [OF s]]]]
    by (simp split: if_splits)
qed

lemma universals_started: "Inv s \<Longrightarrow> Inv (start_universals OS E addr cell cs s)"
proof -
  have "core (start_universal OS E addr cell c t) = core t" for c t
    by (simp add: start_universal_def Let_def grant_key_def revoke_key_def note_event_def run_send_def core_def
        split: option.split prod.split sum.split)
  then have "core (fold (start_universal OS E addr cell) cs t) = core t" for t
    by (induction cs arbitrary: t) simp_all
  then show "Inv s \<Longrightarrow> Inv (start_universals OS E addr cell cs s)"
    by (auto simp: start_universals_def elim: frame)
qed

lemma runs_opened: "Inv s \<Longrightarrow> Inv (open_runs s)"
proof -
  assume s: "Inv s"
  have sent: "core (fold (\<lambda>(i, a). run_send (g i a)) xs t) = core t" for g xs t
    by (induction xs arbitrary: t) (auto split: prod.split)
  show "Inv (open_runs s)" unfolding open_runs_def by (rule frame [OF s]) (rule sent)
qed

lemma seed_loop_keeps: "Inv s \<Longrightarrow> keeps Inv (seed_loop E sc s)"
proof -
  have one: "keeps Inv (seed_one E sc pa ap aid t)" if "Inv t" for pa ap aid t
  proof -
    have "Inv (t\<lparr>spawn_depths := or_insert aid 0 (spawn_depths t), mailboxes := m\<rparr>)" for m
      by (rule frame [OF seeded [OF that]]) (simp add: core_def)
    then show ?thesis using run.seed_keeps by (simp add: seed_one_def Let_def split: option.split)
  qed
  have "keeps Inv (seed_ids E sc pa ap is t)" if "Inv t" for pa ap "is" t
    using that
  proof (induction "is" arbitrary: t)
    case (Cons i "is")
    show ?case using keeps_bind [OF one [OF Cons.prems] Cons.IH] by simp
  qed simp
  then show "Inv s \<Longrightarrow> keeps Inv (seed_loop E sc s)" by (simp add: seed_loop_def)
qed

lemma start_keeps:
  assumes "Inv (case restored of Some r \<Rightarrow> restore_state E r s | None \<Rightarrow> s)"
  shows "keeps Inv (start_run L OS E sc addr cell up restored s)"
proof -
  have published: "Inv (publish_budget t)" if "Inv t" for t
    by (rule frame [OF that]) (simp add: publish_budget_def)
  show ?thesis
    unfolding start_run_def Let_def
    by (intro seed_loop_keeps universals_started runs_opened published budget_window_keeps boot_keeps assms)
qed

end

end
