(* ===== verification/Sched_Laws.thy ===== *)
theory Sched_Laws
  imports Sched_Inv
begin

section \<open>What holds in every reachable state of the scheduler\<close>

text \<open>
  Four instances of the invariant locale, each from the state that \<open>run\<close> builds through every
  interleaving of results, timers and operator commands.
\<close>

subsection \<open>Concurrent inferences\<close>

definition is_inference :: "pending_fut \<Rightarrow> bool" where
  "is_inference p = (case p of PendInference _ _ _ \<Rightarrow> True | PendTools _ _ _ _ \<Rightarrow> False)"

lemma is_inference_simps [simp]: "is_inference (PendInference a t r)" "\<not> is_inference (PendTools a t c b)"
  by (simp_all add: is_inference_def)

definition slots_inv :: "scheduler_config \<Rightarrow> sched_state \<Rightarrow> bool" where
  "slots_inv sc s \<longleftrightarrow>
     in_flight s = length (filter is_inference (pending s)) \<and>
     (max_concurrent_inferences sc \<noteq> 0 \<longrightarrow> in_flight s \<le> max_concurrent_inferences sc)"

lemma filter_drop_nth:
  assumes "i < length xs"
  shows "length (filter P (take i xs)) + length (filter P (drop (Suc i) xs)) = length (filter P xs) - of_bool (P (xs ! i))"
proof -
  have "filter P xs = filter P (take i xs @ xs ! i # drop (Suc i) xs)" using id_take_nth_drop [OF assms] by simp
  then show ?thesis by simp
qed

interpretation slots: sched_loop E sc "slots_inv sc" "\<lambda>_. True" for E sc
proof
  fix s s' :: sched_state
  show "slots_inv sc s \<Longrightarrow> core s' = core s \<Longrightarrow> slots_inv sc s'" by (auto simp: slots_inv_def core_def)
qed (auto simp: slots_inv_def slot_ok_def release_lease_def detach_child_def retire_def drop_pending_def Let_def filter_drop_nth
    split: option.split)

subsection \<open>Nesting\<close>

definition depth_inv :: "scheduler_config \<Rightarrow> sched_state \<Rightarrow> bool" where
  "depth_inv sc s \<longleftrightarrow>
     ss_max_spawn_depth s = max_spawn_depth sc \<and>
     (\<forall>aid d. get (spawn_depths s) aid = Some d \<longrightarrow> d \<le> max_spawn_depth sc)"

interpretation depths: sched_loop E sc "depth_inv sc" "\<lambda>_. True" for E sc
proof
  fix s s' :: sched_state
  show "depth_inv sc s \<Longrightarrow> core s' = core s \<Longrightarrow> depth_inv sc s'" by (simp add: depth_inv_def core_def)
qed (auto simp: depth_inv_def release_lease_def detach_child_def retire_def drop_pending_def Let_def
    split: option.splits if_splits)

subsection \<open>Job leases\<close>

definition distinct_keys :: "('k, 'v) hashmap \<Rightarrow> bool" where
  "distinct_keys m \<longleftrightarrow> distinct (map fst m)"

lemma distinct_keys_simps [simp]: "distinct_keys []" "distinct_keys m \<Longrightarrow> distinct_keys (put k v m)"
  "distinct_keys m \<Longrightarrow> distinct_keys (remove k m)"
  by (simp_all add: distinct_keys_def distinct_update distinct_delete)

definition lease_inv :: "sched_state \<Rightarrow> bool" where
  "lease_inv s \<longleftrightarrow>
     (\<forall>c j. get (child_job s) c = Some j \<longleftrightarrow> get (live_job_runs s) j = Some [c]) \<and>
     (\<forall>j live. get (live_job_runs s) j = Some live \<longrightarrow> (\<exists>c. live = [c])) \<and>
     (\<forall>c. contains_key (child_job s) c \<longrightarrow> contains_key (agents s) c) \<and>
     distinct_keys (child_job s)"

lemma lease_invI:
  assumes "\<And>c j. get (child_job s) c = Some j \<Longrightarrow> get (live_job_runs s) j = Some [c] \<and> contains_key (agents s) c"
    and "\<And>j live. get (live_job_runs s) j = Some live \<Longrightarrow> \<exists>c. live = [c] \<and> get (child_job s) c = Some j"
    and "distinct_keys (child_job s)"
  shows "lease_inv s"
  using assms unfolding lease_inv_def by (metis list.inject not_None_eq)

lemma lease_invD:
  assumes "lease_inv s"
  shows "get (child_job s) c = Some j \<Longrightarrow> get (live_job_runs s) j = Some [c]"
    and "get (child_job s) c = Some j \<Longrightarrow> contains_key (agents s) c"
    and "get (live_job_runs s) j = Some live \<Longrightarrow> \<exists>c. live = [c] \<and> get (child_job s) c = Some j"
    and "distinct_keys (child_job s)"
proof -
  show "get (child_job s) c = Some j \<Longrightarrow> contains_key (agents s) c"
    using assms unfolding lease_inv_def by (metis option.distinct(1))
qed (use assms in \<open>auto simp: lease_inv_def\<close>)

lemma lease_released: "lease_inv s \<Longrightarrow> lease_inv (release_lease aid s)"
proof (cases "get (child_job s) aid")
  case (Some j)
  assume inv: "lease_inv s"
  note live = lease_invD(1) [OF inv Some]
  let ?s = "s\<lparr>child_job := remove aid (child_job s), live_job_runs := remove j (live_job_runs s)\<rparr>"
  have "lease_inv ?s"
  proof (rule lease_invI)
    fix c k assume "get (child_job ?s) c = Some k"
    then have c: "c \<noteq> aid" "get (child_job s) c = Some k" by (auto split: if_splits)
    moreover have "k \<noteq> j" using lease_invD(1) [OF inv c(2)] live c(1) by auto
    ultimately show "get (live_job_runs ?s) k = Some [c] \<and> contains_key (agents ?s) c"
      using lease_invD(1,2) [OF inv c(2)] by simp
  next
    fix k l assume "get (live_job_runs ?s) k = Some l"
    then have k: "k \<noteq> j" "get (live_job_runs s) k = Some l" by (auto split: if_splits)
    from lease_invD(3) [OF inv k(2)] obtain c where "l = [c]" "get (child_job s) c = Some k" by blast
    with Some k(1) show "\<exists>c. l = [c] \<and> get (child_job ?s) c = Some k" by (intro exI [of _ c]) auto
  qed (simp add: lease_invD(4) [OF inv])
  then show ?thesis by (simp add: release_lease_def Some live)
qed (simp add: release_lease_def)

lemma lease_taken:
  assumes inv: "lease_inv s" and cid: "get (agents s) cid = None"
    and j: "get (live_job_runs s) j = None \<or> get (live_job_runs s) j = Some []"
  shows "lease_inv (s\<lparr>agents := put cid child (agents s), spawn_depths := sd,
           live_job_runs := put j [cid] (live_job_runs s), child_job := put cid j (child_job s)\<rparr>)" (is "lease_inv ?s")
proof (rule lease_invI)
  fix c k assume c: "get (child_job ?s) c = Some k"
  show "get (live_job_runs ?s) k = Some [c] \<and> contains_key (agents ?s) c"
  proof (cases "c = cid")
    case False
    with c have "get (child_job s) c = Some k" by simp
    from lease_invD(1,2) [OF inv this] j False show ?thesis by (cases "k = j") auto
  qed (use c in simp)
next
  fix k l assume l: "get (live_job_runs ?s) k = Some l"
  show "\<exists>c. l = [c] \<and> get (child_job ?s) c = Some k"
  proof (cases "k = j")
    case False
    with l have "get (live_job_runs s) k = Some l" by simp
    from lease_invD(3) [OF inv this] obtain c where c: "l = [c]" "get (child_job s) c = Some k" by blast
    with lease_invD(2) [OF inv c(2)] cid show ?thesis by (intro exI [of _ c]) auto
  qed (use l in \<open>auto intro: exI [of _ cid]\<close>)
qed (simp add: lease_invD(4) [OF inv])

lemma lease_agents:
  assumes inv: "lease_inv s" and "\<And>c. contains_key (child_job s) c \<Longrightarrow> contains_key (agents s) c \<Longrightarrow> contains_key (agents s') c"
    and "child_job s' = child_job s" "live_job_runs s' = live_job_runs s"
  shows "lease_inv s'"
  using assms(2-4) lease_invD [OF inv] by (intro lease_invI) auto

interpretation leases: sched_loop E sc lease_inv "\<lambda>_. True" for E sc
proof
  fix s s' :: sched_state
  show "lease_inv s \<Longrightarrow> core s' = core s \<Longrightarrow> lease_inv s'" by (rule lease_agents) (simp_all add: core_def)
next
  fix s aid
  show "lease_inv s \<Longrightarrow> lease_inv (release_lease aid s)" by (rule lease_released)
next
  fix s cid d child j
  assume "lease_inv s" "get (agents s) cid = None" "get (live_job_runs s) j = None \<or> get (live_job_runs s) j = Some []"
  then show "lease_inv (s\<lparr>agents := put cid child (agents s), spawn_depths := put cid d (spawn_depths s),
           live_job_runs := put j [cid] (live_job_runs s), child_job := put cid j (child_job s)\<rparr>)"
    by (rule lease_taken)
next
  fix s aid b r
  assume s: "lease_inv s" and n: "get (child_job s) aid = None"
  show "lease_inv (detach_child aid s)"
    by (rule lease_agents [OF s]) (use n in \<open>auto simp: detach_child_def\<close>)
  show "lease_inv (retire aid b r s)"
    by (rule lease_agents [OF s]) (use n in \<open>auto simp: retire_def\<close>)
qed (simp_all, (rule lease_agents, assumption, simp_all add: drop_pending_def)+)

subsection \<open>Authority\<close>

definition confined :: "string \<Rightarrow> capability list \<Rightarrow> capability list option \<Rightarrow> bool" where
  "confined anchor bound caps =
     (case caps of None \<Rightarrow> False | Some cs \<Rightarrow> list_all (capability_covered_by anchor bound) cs)"

definition authority_inv :: "string \<Rightarrow> capability list \<Rightarrow> sched_state \<Rightarrow> bool" where
  "authority_inv anchor bound s \<longleftrightarrow>
     (\<forall>aid a. get (agents s) aid = Some a \<longrightarrow> confined anchor bound (capabilities (cfg a))) \<and>
     (\<forall>j jb. get (jobs s) j = Some jb \<longrightarrow> confined anchor bound (Some (job_capabilities jb)))"

lemma confined_spawn:
  assumes "confined anchor bound pc" and "uncovered anchor asked pc = None"
  shows "confined anchor bound (case asked of Some rs \<Rightarrow> Some rs | None \<Rightarrow> pc)"
proof (cases asked)
  case (Some rs)
  obtain ps where "pc = Some ps" "\<forall>c \<in> set ps. capability_covered_by anchor bound c"
    using assms(1) by (auto simp: confined_def list_all_iff split: option.splits)
  moreover from this(1) have "\<forall>c \<in> set rs. capability_covered_by anchor ps c"
    using assms(2) by (simp add: uncovered_def Some find_None_iff)
  ultimately show ?thesis
    by (auto simp: confined_def Some list_all_iff intro: capability_covered_by_trans)
qed (use assms in simp)

interpretation authority: sched_loop E sc "authority_inv (se_anchor E) bound" "confined (se_anchor E) bound" for E sc bound
proof
  fix s s' :: sched_state
  show "authority_inv (se_anchor E) bound s \<Longrightarrow> core s' = core s \<Longrightarrow> authority_inv (se_anchor E) bound s'"
    by (simp add: authority_inv_def core_def)
next
  fix pc asked
  show "confined (se_anchor E) bound pc \<Longrightarrow> uncovered (se_anchor E) asked pc = None \<Longrightarrow>
    confined (se_anchor E) bound (case asked of Some rs \<Rightarrow> Some rs | None \<Rightarrow> pc)"
    by (rule confined_spawn)
qed (auto simp: authority_inv_def release_lease_def detach_child_def retire_def drop_pending_def Let_def
    split: option.splits if_splits)

subsection \<open>The first state\<close>

lemma restore_awaiting_simps [simp]:
  "agents (restore_awaiting es s) = agents s" "pending (restore_awaiting es s) = pending s"
  "in_flight (restore_awaiting es s) = in_flight s" "spawn_depths (restore_awaiting es s) = spawn_depths s"
  "ss_max_spawn_depth (restore_awaiting es s) = ss_max_spawn_depth s" "jobs (restore_awaiting es s) = jobs s"
  by (induction es arbitrary: s) (simp_all add: note_event_def)

lemma restore_state_simps [simp]:
  "agents (restore_state E r s) = agents s" "pending (restore_state E r s) = pending s"
  "in_flight (restore_state E r s) = in_flight s" "spawn_depths (restore_state E r s) = sk_spawn_depths r"
  "ss_max_spawn_depth (restore_state E r s) = ss_max_spawn_depth s" "jobs (restore_state E r s) = jobs s"
  "live_job_runs (restore_state E r s) = fst (reconcile_job_leases_after_restore (agents s) (sk_child_job r))"
  "child_job (restore_state E r s) = snd (reconcile_job_leases_after_restore (agents s) (sk_child_job r))"
  by (simp_all add: restore_state_def Let_def split: prod.split)

definition running :: "(string, agent_task) hashmap \<Rightarrow> string \<Rightarrow> bool" where
  "running ags c = (case get ags c of None \<Rightarrow> False | Some a \<Rightarrow> \<not> terminal a)"

text \<open>No two children in the saved leases work on the same job.\<close>

definition exclusive :: "(string, string) hashmap \<Rightarrow> bool" where
  "exclusive m \<longleftrightarrow> distinct_keys m \<and> distinct (map snd m)"

lemma reconcile_spec:
  assumes "exclusive m" and "reconcile_job_leases_after_restore ags m = (live, cj)"
  shows "(\<forall>c. get cj c = (if running ags c then get m c else None)) \<and>
    (\<forall>j l. get live j = Some l \<longleftrightarrow> (\<exists>c. l = [c] \<and> get cj c = Some j)) \<and> distinct_keys cj"
  using assms
proof (induction m arbitrary: live cj rule: rev_induct)
  case Nil
  then show ?case by (simp add: reconcile_job_leases_after_restore_def)
next
  case (snoc x m)
  obtain c0 j0 where x: "x = (c0, j0)" by fastforce
  obtain live' cj' where r: "reconcile_job_leases_after_restore ags m = (live', cj')" by fastforce
  have ex: "exclusive m" using snoc.prems by (simp add: exclusive_def distinct_keys_def)
  note IH = snoc.IH [OF ex r]
  have eq: "(live, cj) = (if running ags c0 then (put j0 (List.insert c0 (case get live' j0 of Some l \<Rightarrow> l | None \<Rightarrow> [])) live',
      put c0 j0 cj') else (live', cj'))"
    using snoc.prems(2) r by (auto simp: reconcile_job_leases_after_restore_def x running_def split: option.splits)
  have c0: "get m c0 = None" using snoc.prems(1) by (auto simp: exclusive_def distinct_keys_def x map_of_eq_None_iff)
  have n: "get m c \<noteq> Some j0" for c using snoc.prems(1) by (force simp: exclusive_def x dest: map_of_SomeD)
  then have j0: "get live' j0 = None" using IH by (metis not_Some_eq option.distinct(1))
  have "get (m @ [x]) c = (if c = c0 then Some j0 else get m c)" for c
    using c0 by (simp add: x map_add_def split: option.split)
  then have m: "get (m @ [x]) = (get m)(c0 \<mapsto> j0)" by auto
  show ?case
  proof (cases "running ags c0")
    case True
    with eq j0 have lc: "live = put j0 [c0] live'" "cj = put c0 j0 cj'" by simp_all
    have "get cj' c0 = None" and "get cj' c \<noteq> Some j0" for c using IH c0 n by simp_all
    moreover have "get live' j = Some l \<longleftrightarrow> (\<exists>c. l = [c] \<and> get cj' c = Some j)" for j l using IH by blast
    ultimately have "get live j = Some l \<longleftrightarrow> (\<exists>c. l = [c] \<and> get cj c = Some j)" for j l
      unfolding lc get_put by (metis list.inject option.distinct(1) option.inject)
    moreover have "get cj c = (if running ags c then get (m @ [x]) c else None)" for c
      using IH True unfolding lc m by simp
    ultimately show ?thesis using IH unfolding lc by simp
  next
    case False
    with eq IH m show ?thesis by auto
  qed
qed

lemma lease_exclusive: "lease_inv s \<Longrightarrow> exclusive (child_job s)"
proof -
  assume s: "lease_inv s"
  have d: "distinct (map fst (child_job s))" using lease_invD(4) [OF s] by (simp add: distinct_keys_def)
  have "inj_on snd (set (child_job s))"
  proof (rule inj_onI)
    fix p q assume p: "p \<in> set (child_job s)" and q: "q \<in> set (child_job s)" and eq: "snd p = snd q"
    have "get (child_job s) (fst p) = Some (snd p)" "get (child_job s) (fst q) = Some (snd q)"
      using d p q by (simp_all add: map_of_is_SomeI)
    from this [THEN lease_invD(1) [OF s]] eq show "p = q" by (simp add: prod_eq_iff)
  qed
  with d show "exclusive (child_job s)" by (simp add: exclusive_def distinct_keys_def distinct_map)
qed

lemma lease_restored:
  assumes "exclusive (sk_child_job r)"
  shows "lease_inv (restore_state E r s)"
proof -
  obtain live cj where rc: "reconcile_job_leases_after_restore (agents s) (sk_child_job r) = (live, cj)" by fastforce
  note spec = reconcile_spec [OF assms rc]
  show ?thesis
  proof (rule lease_invI)
    fix c j assume "get (child_job (restore_state E r s)) c = Some j"
    then have "get cj c = Some j" by (simp add: rc)
    moreover from this have "running (agents s) c" using spec by (metis option.distinct(1))
    ultimately show "get (live_job_runs (restore_state E r s)) j = Some [c] \<and> contains_key (agents (restore_state E r s)) c"
      using spec by (auto simp: rc running_def split: option.splits)
  next
    fix j l assume "get (live_job_runs (restore_state E r s)) j = Some l"
    then show "\<exists>c. l = [c] \<and> get (child_job (restore_state E r s)) c = Some j"
      using spec unfolding restore_state_simps rc fst_conv snd_conv by blast
  next
    show "distinct_keys (child_job (restore_state E r s))"
      using spec unfolding restore_state_simps rc snd_conv by blast
  qed
qed

lemma initial_invs:
  "slots_inv sc (initial_state sc ags js ctl eg reg tr lg)" "depth_inv sc (initial_state sc ags js ctl eg reg tr lg)"
  "lease_inv (initial_state sc ags js ctl eg reg tr lg)"
  by (simp_all add: slots_inv_def depth_inv_def lease_inv_def initial_state_def)

lemma slots_restored: "slots_inv sc (restore_state E r s) \<longleftrightarrow> slots_inv sc s"
  by (simp add: slots_inv_def)

lemma depth_restored:
  "(\<And>aid d. get (sk_spawn_depths r) aid = Some d \<Longrightarrow> d \<le> max_spawn_depth sc) \<Longrightarrow>
   ss_max_spawn_depth s = max_spawn_depth sc \<Longrightarrow> depth_inv sc (restore_state E r s)"
  by (auto simp: depth_inv_def)

lemma authority_restored: "authority_inv an b (restore_state E r s) \<longleftrightarrow> authority_inv an b s"
  by (simp add: authority_inv_def)

lemma jobs_collected: "get (fold (\<lambda>j m. put (job_id j) j m) js m) k = Some jb \<Longrightarrow> jb \<in> set js \<or> get m k = Some jb"
proof (induction js arbitrary: m)
  case (Cons a js)
  have "jb \<in> set js \<or> get (put (job_id a) a m) k = Some jb"
    by (rule Cons.IH) (use Cons.prems in \<open>simp only: fold_simps\<close>)
  then show ?case by (auto split: if_splits)
qed simp

subsection \<open>A concrete run, for the witnesses\<close>

definition sample_sched :: sched_env where
  "sample_sched = agent_ext.extend sample_ext
     (sched_env.fields [] ''/srv'' ''mock'' sample_env model_config_default (\<lambda>_. ''cap'') (\<lambda>x. x) (\<lambda>_. JNull)
        (\<lambda>_. sample_rio) (\<lambda>_. 0) (\<lambda>_. ''2026-01-01'') (\<lambda>_. ''2026-01-01T00:00:00'') (\<lambda>_. 0) (\<lambda>_. 1000) (\<lambda>_. False))"

definition sample_cron :: "unit cron_lib" where
  "sample_cron = \<lparr>cron_from_str = (\<lambda>_. Inr ()), find_next_occurrence = (\<lambda>_ t. Inr (t + 60)), timestamp_in_range = (\<lambda>_. True)\<rparr>"

definition sample_limits :: scheduler_config where
  "sample_limits = scheduler_config_default\<lparr>max_concurrent_inferences := 1\<rparr>"

definition capped_agent :: agent_task where
  "capped_agent = sample_agent\<lparr>cfg := sample_cfg\<lparr>capabilities := Some [Spawn]\<rparr>\<rparr>"

definition sample_init :: sched_state where
  "sample_init = initial_state sample_limits [(''a'', capped_agent)] [] True None None None []"

definition sample_start :: sched_res where
  "sample_start = start_run sample_cron (sample_os []) sample_sched sample_limits None (\<lambda>_. 0) [] None sample_init"

lemma sample_steps: "\<exists>lg' req. step sample_sched capped_agent lg = (capped_agent, lg', Infer req)"
  by (simp add: step_def step_need_infer_def capped_agent_def sample_agent_def agent_new_def sample_cfg_def
      over_budget_def page_if_hard_def Let_def emit_request_def)

lemma sample_started:
  "\<exists>s req. sample_start = Inr s \<and> pending s = [PendInference ''a'' 0 req] \<and> in_flight s = 1 \<and>
     child_job s = [] \<and> spawn_depths s = [(''a'', 0)] \<and> jobs s = [] \<and>
     (\<exists>a. agents s = [(''a'', a)] \<and> capabilities (cfg a) = Some [Spawn])"
proof -
  obtain lg req where st: "step sample_sched capped_agent [] = (capped_agent, lg, Infer req)"
    using sample_steps by blast
  have f: "turn capped_agent = 0" "capabilities (cfg capped_agent) = Some [Spawn]" "token_budget (cfg capped_agent) = 0"
    by (simp_all add: capped_agent_def sample_agent_def agent_new_def sample_cfg_def)
  show ?thesis
    by (simp add: sample_start_def sample_init_def start_run_def initial_state_def boot_schedules_def init_budget_window_def
        sample_limits_def scheduler_config_default_def publish_budget_def on_egress_def start_universals_def open_runs_def
        run_send_def seed_loop_def seed_one_def Let_def or_insert_def seed_agent_def st enqueue_unfold enqueue_body_def
        mark_agent_def modify_def enqueue_infer_def slot_ok_def global_ok_def per_agent_over_def admit_def note_event_def
        mark_event_def f)
qed

definition sample_checkpoint :: sched_checkpoint where
  "sample_checkpoint =
     \<lparr>format_version = FORMAT_VERSION, sk_agents = [], sk_awaiting = [], sk_mailboxes = [], sk_tokens_spent = 0,
      sk_child_seq = 0, sk_spawn_depths = [(''a'', 3)], sk_parent_map = [], sk_pending_approvals = [], sk_approval_seq = 0,
      waiting_agents = [], orchestrated_agents = [], sk_budget_window_start = 0, sk_global_window_anchor = 0,
      sk_job_schedules = [], sk_child_job = [(''a'', ''j'')]\<rparr>"

definition sample_restart :: sched_res where
  "sample_restart =
     start_run sample_cron (sample_os []) sample_sched sample_limits None (\<lambda>_. 0) [] (Some sample_checkpoint) sample_init"

lemma sample_restarted:
  "\<exists>s. sample_restart = Inr s \<and> child_job s = [(''a'', ''j'')] \<and> spawn_depths s = [(''a'', 3)]"
proof -
  obtain lg req where st: "step sample_sched capped_agent [] = (capped_agent, lg, Infer req)"
    using sample_steps by blast
  have f: "turn capped_agent = 0" "capabilities (cfg capped_agent) = Some [Spawn]" "token_budget (cfg capped_agent) = 0"
    "\<not> terminal capped_agent"
    by (simp_all add: capped_agent_def sample_agent_def agent_new_def sample_cfg_def)
  show ?thesis
    by (simp add: sample_restart_def sample_init_def start_run_def initial_state_def boot_schedules_def init_budget_window_def
        sample_limits_def scheduler_config_default_def publish_budget_def on_egress_def start_universals_def open_runs_def
        run_send_def seed_loop_def seed_one_def Let_def or_insert_def seed_agent_def st enqueue_unfold enqueue_body_def
        mark_agent_def modify_def enqueue_infer_def slot_ok_def global_ok_def per_agent_over_def admit_def note_event_def
        mark_event_def f restore_state_def sample_checkpoint_def reconcile_job_leases_after_restore_def)
qed

subsection \<open>The laws\<close>

text \<open>
  C11. The concurrency limit. In every state that a run reaches, from a fresh start or from a
  checkpoint and through any interleaving of results, errors, timers and operator commands, the
  count of inferences in flight is the number of inference futures that are pending, and it does
  not exceed \<open>max_concurrent_inferences\<close> unless that is 0 (unlimited).
\<close>

theorem inference_slots_bounded:
  assumes "start_run L OS E sc addr cell up restored (initial_state sc ags js ctl eg reg tr lg) = Inr s0"
    and "loop_run L E sc (\<lambda>_. True) s0 s"
  shows "in_flight s = length (filter is_inference (pending s)) \<and>
    (max_concurrent_inferences sc \<noteq> 0 \<longrightarrow> in_flight s \<le> max_concurrent_inferences sc)"
proof -
  have "slots_inv sc (case restored of Some r \<Rightarrow> restore_state E r (initial_state sc ags js ctl eg reg tr lg)
      | None \<Rightarrow> initial_state sc ags js ctl eg reg tr lg)"
    by (simp add: initial_invs slots_restored split: option.split)
  then have "slots_inv sc s0" using keepsD [OF slots.start_keeps assms(1)] by blast
  from slots.run_keeps [OF assms(2) this] show ?thesis unfolding slots_inv_def .
qed

theorem inference_slots_bounded_witness:
  "\<exists>s. sample_start = Inr s \<and> in_flight s = 1 \<and> in_flight s \<le> max_concurrent_inferences sample_limits"
proof -
  obtain s where s: "sample_start = Inr s" "in_flight s = 1" using sample_started by blast
  have "loop_run sample_cron sample_sched sample_limits (\<lambda>_. True) s s" by simp
  from inference_slots_bounded [OF s(1) [unfolded sample_start_def sample_init_def] this] s show ?thesis
    by (auto simp: sample_limits_def)
qed

text \<open>
  C28. The nesting limit. When the depths of a restored checkpoint respect the limit, every spawn
  depth of every reachable state does: no chain of spawns, job runs and operator commands creates
  an agent deeper than \<open>max_spawn_depth\<close>.
\<close>

theorem spawn_depth_bounded:
  assumes "start_run L OS E sc addr cell up restored (initial_state sc ags js ctl eg reg tr lg) = Inr s0"
    and "\<And>r aid d. restored = Some r \<Longrightarrow> get (sk_spawn_depths r) aid = Some d \<Longrightarrow> d \<le> max_spawn_depth sc"
    and "loop_run L E sc (\<lambda>_. True) s0 s"
    and "get (spawn_depths s) aid = Some d"
  shows "d \<le> max_spawn_depth sc"
proof -
  have "depth_inv sc (case restored of Some r \<Rightarrow> restore_state E r (initial_state sc ags js ctl eg reg tr lg)
      | None \<Rightarrow> initial_state sc ags js ctl eg reg tr lg)"
    using assms(2) initial_invs(2)
    by (auto intro!: depth_restored split: option.split) (simp add: initial_state_def)
  then have "depth_inv sc s0" using keepsD [OF depths.start_keeps assms(1)] by blast
  from depths.run_keeps [OF assms(3) this] assms(4) show ?thesis by (auto simp: depth_inv_def)
qed

theorem spawn_depth_bounded_witness:
  "\<exists>s. sample_restart = Inr s \<and> get (spawn_depths s) ''a'' = Some 3 \<and> 3 \<le> max_spawn_depth sample_limits"
proof -
  obtain s where s: "sample_restart = Inr s" "spawn_depths s = [(''a'', 3)]" using sample_restarted by blast
  have "loop_run sample_cron sample_sched sample_limits (\<lambda>_. True) s s" by simp
  moreover have "d \<le> max_spawn_depth sample_limits" if "get (sk_spawn_depths sample_checkpoint) aid = Some d" for aid d
    using that by (simp add: sample_checkpoint_def sample_limits_def scheduler_config_default_def split: if_splits)
  ultimately show ?thesis
    using spawn_depth_bounded [OF s(1) [unfolded sample_restart_def sample_init_def], of s "''a''" 3] s by auto
qed

text \<open>
  C12. One live run per job. In every reachable state a child that works on a job is an existing
  agent, it is the only child leased to that job, and a further fire of the job, by schedule, by an
  agent or by an operator, is refused. Leases restored from a checkpoint need to be exclusive in it.
\<close>

theorem one_live_run_per_job:
  assumes "start_run L OS E sc addr cell up restored (initial_state sc ags js ctl eg reg tr lg) = Inr s0"
    and "\<And>r. restored = Some r \<Longrightarrow> exclusive (sk_child_job r)"
    and "loop_run L E sc (\<lambda>_. True) s0 s"
    and "get (child_job s) c = Some j"
  shows "contains_key (agents s) c \<and> get (live_job_runs s) j = Some [c] \<and>
    (\<forall>c'. get (child_job s) c' = Some j \<longrightarrow> c' = c) \<and> isl (reject_if_job_already_running j s)"
proof -
  have "lease_inv (case restored of Some r \<Rightarrow> restore_state E r (initial_state sc ags js ctl eg reg tr lg)
      | None \<Rightarrow> initial_state sc ags js ctl eg reg tr lg)"
    using assms(2) by (auto simp: initial_invs intro!: lease_restored split: option.split)
  then have "lease_inv s0" using keepsD [OF leases.start_keeps assms(1)] by blast
  note inv = leases.run_keeps [OF assms(3) this]
  have live: "get (live_job_runs s) j = Some [c]" by (rule lease_invD(1) [OF inv assms(4)])
  moreover have "c' = c" if "get (child_job s) c' = Some j" for c'
    using lease_invD(1) [OF inv that] live by simp
  ultimately show ?thesis
    using lease_invD(2) [OF inv assms(4)] by (auto simp: reject_if_job_already_running_def)
qed

theorem one_live_run_per_job_witness:
  "\<exists>s. sample_restart = Inr s \<and> get (child_job s) ''a'' = Some ''j'' \<and> isl (reject_if_job_already_running ''j'' s)"
proof -
  obtain s where s: "sample_restart = Inr s" "child_job s = [(''a'', ''j'')]" using sample_restarted by blast
  have "loop_run sample_cron sample_sched sample_limits (\<lambda>_. True) s s" by simp
  moreover have "exclusive (sk_child_job sample_checkpoint)"
    by (simp add: exclusive_def distinct_keys_def sample_checkpoint_def)
  ultimately show ?thesis
    using one_live_run_per_job [OF s(1) [unfolded sample_restart_def sample_init_def], of s "''a''" "''j''"] s by auto
qed

text \<open>
  C2. Authority is confined. When every configured or restored agent, every declared job and every
  capability set that an operator grants lies within a bound, every capability of every agent of
  every reachable state is covered by that bound: spawning, sealed jobs and narrowing never widen
  what the system as a whole may do.
\<close>

theorem authority_is_confined:
  assumes "start_run L OS E sc addr cell up restored (initial_state sc ags js ctl eg reg tr lg) = Inr s0"
    and "\<And>aid a. get ags aid = Some a \<Longrightarrow> confined (se_anchor E) bound (capabilities (cfg a))"
    and "\<forall>jb \<in> set js. confined (se_anchor E) bound (Some (job_capabilities jb))"
    and "loop_run L E sc (confined (se_anchor E) bound) s0 s"
    and "get (agents s) aid = Some a"
  shows "\<exists>caps. capabilities (cfg a) = Some caps \<and> (\<forall>c \<in> set caps. capability_covered_by (se_anchor E) bound c)"
proof -
  have "authority_inv (se_anchor E) bound (initial_state sc ags js ctl eg reg tr lg)"
    using assms(2,3) by (auto simp: authority_inv_def initial_state_def dest!: jobs_collected)
  then have "authority_inv (se_anchor E) bound (case restored of Some r \<Rightarrow> restore_state E r (initial_state sc ags js ctl eg reg tr lg)
      | None \<Rightarrow> initial_state sc ags js ctl eg reg tr lg)"
    by (simp add: authority_restored split: option.split)
  then have "authority_inv (se_anchor E) bound s0" using keepsD [OF authority.start_keeps assms(1)] by blast
  from authority.run_keeps [OF assms(4) this] assms(5) have "confined (se_anchor E) bound (capabilities (cfg a))"
    unfolding authority_inv_def by blast
  then show ?thesis by (auto simp: confined_def list_all_iff split: option.splits)
qed

theorem authority_is_confined_witness:
  "\<exists>s a. sample_start = Inr s \<and> get (agents s) ''a'' = Some a \<and>
     (\<exists>caps. capabilities (cfg a) = Some caps \<and>
        (\<forall>c \<in> set caps. capability_covered_by (se_anchor sample_sched) [Spawn, Capability.RunJob] c))"
proof -
  obtain s a where s: "sample_start = Inr s" "agents s = [(''a'', a)]" using sample_started by blast
  have "loop_run sample_cron sample_sched sample_limits (confined (se_anchor sample_sched) [Spawn, Capability.RunJob]) s s" by simp
  moreover have "confined (se_anchor sample_sched) [Spawn, Capability.RunJob] (capabilities (cfg a))"
    if "get [(''a'', capped_agent)] aid = Some a" for aid a
    using that by (auto simp: capped_agent_def confined_def capability_covered_by_def satisfies.simps split: if_splits)
  ultimately show ?thesis
    using authority_is_confined [OF s(1) [unfolded sample_start_def sample_init_def], of "[Spawn, Capability.RunJob]" s "''a''" a] s
    by auto
qed

end
