(* ===== verification/Sched_Props.thy ===== *)
theory Sched_Props
  imports Sched_Laws "HOL-Library.Multiset"
begin

section \<open>What the scheduler's operations achieve\<close>

text \<open>
  Termination of the mutually recursive dispatcher, the order and the fairness of the deferred
  queue, the sealing of jobs, the budget window, cancellation, and what a checkpoint preserves.
\<close>

subsection \<open>Termination\<close>

text \<open>
  C3. The dispatcher terminates. \<open>enqueue_or_defer\<close>, \<open>handle_agent_terminal\<close> and the dispatchers of
  spawns, jobs and messages call each other; every such cascade ends after finitely many calls,
  and it returns a state unless the agent whose effect it dispatches does not exist. The measure
  that bounds it grows by no more than the rank of the effect.
\<close>

theorem dispatcher_terminates:
  "(\<exists>s'. enqueue_or_defer E sc eff aid tn pr caps s = Inr s' \<and> potential s' \<le> potential s + effect_rank eff) \<or>
   enqueue_or_defer E sc eff aid tn pr caps s = Inl Panic \<and> \<not> contains_key (agents s) aid"
  using enqueue_returns [of eff s aid E sc tn pr caps]
  by (cases "enqueue_or_defer E sc eff aid tn pr caps s") (auto simp: ends_within_def)

text \<open>
  The depth bound of the model is not observable: the dispatcher satisfies the recursive
  equation of the source, in which every nested dispatch is a call of \<open>enqueue_or_defer\<close> itself.
\<close>

theorem dispatcher_equation:
  "enqueue_or_defer E sc eff aid tn pr caps s =
     enqueue_body (enqueue_or_defer E sc) E sc eff aid tn pr caps s"
  by (rule enqueue_unfold)

lemma deferred_pop_None: "deferred_pop q = None \<longleftrightarrow> q = []"
  by (cases q) (simp_all add: deferred_pop_def Let_def)

lemma deny_all_empties: "deny_all n E sc note err s = Inr s' \<Longrightarrow> deferred s' = []"
proof (induction n arbitrary: s)
  case 0
  then show ?case
    by (cases "deferred_pop (deferred s)") (simp_all add: deny_all.simps [of 0] deferred_pop_None split: prod.splits)
next
  case (Suc n)
  show ?case
  proof (cases "deferred_pop (deferred s)")
    case None
    with Suc.prems show ?thesis by (simp add: deny_all.simps [of "Suc n"] deferred_pop_None)
  next
    case (Some p)
    obtain d rest where p: "p = (d, rest)" by fastforce
    obtain s1 where "terminate_agent E sc (df_agent d) (Inl err) (note d (s\<lparr>deferred := rest\<rparr>)) = Inr s1"
      "deny_all n E sc note err s1 = Inr s'"
      using Suc.prems by (auto simp: deny_all.simps [of "Suc n"] Some p split: sum.splits)
    with Suc.IH show ?thesis by blast
  qed
qed

text \<open>
  C30. Shutting down always ends: every queued inference is denied, whatever the denials wake up and
  queue in turn, and the queue is empty afterwards.
\<close>

theorem shutdown_drains_the_queue:
  "\<exists>s'. shut_down E sc s = Inr s' \<and> deferred s' = []"
proof -
  let ?s1 = "(if shutdown_requested s then checkpoint_all E s else s)\<lparr>shutdown_requested := True\<rparr>"
  have "potential (note_shutdown d t) = potential t" for d t by (simp add: note_shutdown_def)
  then obtain s' where "deny_all (potential ?s1) E sc note_shutdown
      ''admission denied: scheduler shut down with pending items'' ?s1 = Inr s'"
    using ends_withinD [OF deny_all_returns [OF _ order_refl]] by blast
  with deny_all_empties show ?thesis by (auto simp: shut_down_def Let_def)
qed

subsection \<open>The deferred queue\<close>

text \<open>A queue that gives out a greatest element of its contents.\<close>

locale priority_queue =
  fixes pop :: "'q \<Rightarrow> ('a \<times> 'q) option" and content :: "'q \<Rightarrow> 'a multiset" and less :: "'a \<Rightarrow> 'a \<Rightarrow> bool"
  assumes pop_None: "pop q = None \<Longrightarrow> content q = {#}"
    and pop_content: "pop q = Some (a, q') \<Longrightarrow> content q = add_mset a (content q')"
    and pop_greatest: "pop q = Some (a, q') \<Longrightarrow> b \<in># content q \<Longrightarrow> \<not> less a b"
begin

lemma pop_dominates: "pop q = Some (a, q') \<Longrightarrow> b \<in># content q' \<Longrightarrow> \<not> less a b"
  using pop_content pop_greatest by fastforce

end

interpretation deferred: priority_queue deferred_pop mset deferred_less
proof
  fix q a q'
  show "deferred_pop q = None \<Longrightarrow> mset q = {#}" by (simp add: deferred_pop_None)
  assume p: "deferred_pop q = Some (a, q')"
  then have "a \<in> set q" "q' = remove1 a q" by (auto dest: deferred_pop_mem)
  then show "mset q = add_mset a (mset q')" by simp
  show "b \<in># mset q \<Longrightarrow> \<not> deferred_less a b" for b using deferred_pop_greatest [OF p] by simp
qed

definition as_future :: "deferred_infer \<Rightarrow> pending_fut" where
  "as_future d = PendInference (df_agent d) (df_turn d) (df_request d)"

definition served :: "sched_state \<Rightarrow> sched_state \<Rightarrow> deferred_infer list \<Rightarrow> deferred_infer list \<Rightarrow> deferred_infer list \<Rightarrow> bool" where
  "served s0 s h l ds \<longleftrightarrow>
     pending s = pending s0 @ map as_future ds \<and> agents s = agents s0 \<and>
     sorted_wrt (\<lambda>a b. \<not> deferred_less a b) ds \<and>
     (\<forall>d \<in> set ds. \<forall>x \<in> set (deferred s). \<not> deferred_less d x) \<and>
     (\<forall>d \<in> set h. per_agent_over (df_agent d) s0) \<and> (\<forall>d \<in> set ds. \<not> per_agent_over (df_agent d) s0) \<and>
     mset (deferred s0) = mset ds + mset h + mset l + mset (deferred s)"

lemma admit_loop_serves:
  assumes "admit_loop sc s0 [] [] = (s', h, l)"
  shows "(\<exists>ds. served s0 s' h l ds) \<and> (slot_ok sc s' \<longrightarrow> deferred s' = []) \<and> (budget_reset_interval sc \<noteq> 0 \<longrightarrow> l = [])"
proof -
  let ?P = "\<lambda>s h l. (\<exists>ds. served s0 s h l ds) \<and> (budget_reset_interval sc \<noteq> 0 \<longrightarrow> l = [])"
  have over: "per_agent_over a s = per_agent_over a s0" if "agents s = agents s0" for a s
    using that by (simp add: per_agent_over_def)
  have taken: "mset (deferred s) = add_mset d (mset rest)" "\<And>x. x \<in> set rest \<Longrightarrow> x \<in> set (deferred s)"
    "\<And>x. x \<in> set rest \<Longrightarrow> \<not> deferred_less d x"
    if p: "deferred_pop (deferred s) = Some (d, rest)" for s d rest
  proof -
    show m: "mset (deferred s) = add_mset d (mset rest)" by (rule deferred.pop_content [OF p])
    show "x \<in> set rest \<Longrightarrow> x \<in> set (deferred s)" for x
      by (metis m insert_iff set_mset_add_mset_insert set_mset_mset)
    show "x \<in> set rest \<Longrightarrow> \<not> deferred_less d x" for x using deferred.pop_dominates [OF p] by simp
  qed
  have top: "d \<in> set (deferred s)" if "deferred_pop (deferred s) = Some (d, rest)" for s d rest
    using deferred_pop_mem [OF that] by blast
  have "served s0 s0 [] [] []" by (simp add: served_def)
  then have start: "?P s0 [] []" by blast
  have aside: "served s0 (s\<lparr>deferred := rest\<rparr>) h (l @ [d]) ds"
    if "served s0 s h l ds" "deferred_pop (deferred s) = Some (d, rest)" for s d rest h l ds
    using that(1) taken [OF that(2)] by (auto simp: served_def)
  have held: "served s0 (s\<lparr>deferred := rest\<rparr>) (h @ [d]) l ds"
    if "served s0 s h l ds" "deferred_pop (deferred s) = Some (d, rest)" "per_agent_over (df_agent d) s" for s d rest h l ds
    using that(1,3) taken [OF that(2)] over [of s] by (auto simp: served_def)
  have given: "served s0 (admit (df_agent d) (df_turn d) (df_request d) x (s\<lparr>deferred := rest\<rparr>)) h l (ds @ [d])"
    if "served s0 s h l ds" "deferred_pop (deferred s) = Some (d, rest)" "\<not> per_agent_over (df_agent d) s" for s d rest h l ds x
    using that(1,3) taken [OF that(2)] top [OF that(2)] over [of s]
    by (auto simp: served_def admit_def note_event_def Let_def as_future_def sorted_wrt_append)
  have "?P s' h l \<and> (slot_ok sc s' \<longrightarrow> deferred s' = [])"
    by (rule admit_loop_rule [OF assms, of ?P]) (use start aside held given in blast)+
  then show ?thesis by blast
qed


definition sample_window :: scheduler_config where
  "sample_window = sample_limits\<lparr>budget_reset_interval := 60\<rparr>"

definition sample_queue :: "inference_request \<Rightarrow> sched_state" where
  "sample_queue req = sample_init\<lparr>deferred :=
     [\<lparr>df_priority = 1, df_seq = 0, df_agent = ''a'', df_request = req, df_turn = 0\<rparr>,
      \<lparr>df_priority = 5, df_seq = 1, df_agent = ''a'', df_request = req, df_turn = 0\<rparr>]\<rparr>"

lemma sample_queue_ready:
  "\<not> shutdown_requested (sample_queue req)" "global_ok sample_window (sample_queue req)" "budget_reset_interval sample_window \<noteq> 0"
  by (simp_all add: sample_queue_def sample_init_def initial_state_def sample_window_def sample_limits_def
      scheduler_config_default_def global_ok_def)




subsection \<open>Sealed jobs\<close>

lemma close_run_answer: "close_run aid c (Inr x) s = close_run aid c (Inr y) s"
  by (simp add: close_run_def Let_def)

lemma close_run_untracked: "run_tracker s = None \<Longrightarrow> close_run aid c r s = s"
  by (simp add: close_run_def run_send_def Let_def)

lemma wind_up_awaiting: "awaiting (wind_up aid r s) = awaiting s"
  by (simp add: sched_defs Let_def split: option.splits)

lemma wind_up_answer: "wind_up aid (Inr x) s = wind_up aid (Inr y) s"
  unfolding wind_up_def by (rule close_run_answer)

lemma wind_up_untracked:
  assumes "run_tracker s = None"
  shows "wind_up aid r s = wind_up aid r' s"
proof -
  let ?t = "on_egress (forget_agent aid) (release_lease aid (leave_orchestration aid (consume_cancel aid s)))"
  have "run_tracker ?t = None"
    using assms by (simp add: on_egress_def release_lease_def leave_orchestration_def consume_cancel_def note_event_def
        Let_def split: option.split)
  then show ?thesis by (simp add: wind_up_def close_run_untracked)
qed

lemma deliver_sealed:
  assumes "\<not> deliver_content aw" and "isl r = isl r'"
  shows "deliver_result enq E aid r aw s = deliver_result enq E aid r' aw s"
proof -
  have "child_content aid (deliver_content aw) r = child_content aid (deliver_content aw) r'"
    using assms by (cases r; cases r') (simp_all add: child_content_def)
  then show ?thesis by (simp only: deliver_result_def assms(2))
qed

text \<open>
  C21. A sealed job leaks nothing to the agent that started it. When the awaiting entry of a child
  says that its content is not to be delivered, the scheduler's whole state after the child's
  termination, the parent's conversation and every later decision included, is the same for any
  two answers of the child; and, unless a run record is kept, for any two error texts.
\<close>

theorem sealed_job_does_not_leak:
  assumes "get (awaiting s) aid = Some aw" and "\<not> deliver_content aw"
  shows "terminate_agent E sc aid (Inr x) s = terminate_agent E sc aid (Inr y) s \<and>
    (run_tracker s = None \<longrightarrow> terminate_agent E sc aid (Inl e) s = terminate_agent E sc aid (Inl e') s)"
proof -
  have ok: "terminate_agent E sc aid r s =
      deliver_result (enqueue_or_defer E sc) E aid r aw (detach_child aid (wind_up aid r s))" for r
    using assms(1) by (simp add: terminate_agent_def handle_agent_terminal_def wind_up_awaiting)
  show ?thesis
    unfolding ok using wind_up_answer [of aid x s y] wind_up_untracked [of s aid "Inl e" "Inl e'"]
      deliver_sealed [OF assms(2)] by auto
qed

theorem sealed_job_does_not_leak_witness:
  "terminate_agent sample_sched sample_limits ''j-1'' (Inr ''secret'')
     (await_signal ''a'' ''c1'' ''j-1'' sample_init) =
   terminate_agent sample_sched sample_limits ''j-1'' (Inr ''other'')
     (await_signal ''a'' ''c1'' ''j-1'' sample_init)"
  using sealed_job_does_not_leak [of "await_signal ''a'' ''c1'' ''j-1'' sample_init" "''j-1''"
      "\<lparr>aw_parent = ''a'', aw_call = ''c1'', deliver_content = False\<rparr>"]
  by (simp add: await_signal_def)

subsection \<open>The budget window\<close>

lemma windows_elapsed_bounds:
  assumes "interval \<noteq> 0" and "start \<le> now"
  shows "unat start + unat (windows_elapsed now start interval) * unat interval \<le> unat now \<and>
    unat now < unat start + (unat (windows_elapsed now start interval) + 1) * unat interval"
proof -
  have i: "0 < unat interval" using assms(1) by (simp add: unat_gt_0)
  have e: "unat (windows_elapsed now start interval) = (unat now - unat start) div unat interval"
    using assms(1) by (simp add: windows_elapsed_def unat_div_distrib unat_saturating_sub)
  have le: "unat start \<le> unat now" using assms(2) by (simp add: word_le_nat_alt)
  have "(unat now - unat start) div unat interval * unat interval \<le> unat now - unat start" by simp
  moreover have "unat now - unat start < ((unat now - unat start) div unat interval + 1) * unat interval"
    using i by (metis add.commute dividend_less_div_times mult.commute mult_Suc_right plus_1_eq_Suc)
  ultimately show ?thesis using le unfolding e by linarith
qed

lemma rebased_window:
  "global_windowed_spent (rebase_windows s) = 0" "tokens_spent (rebase_windows s) = tokens_spent s"
  "budget_window_start (rebase_windows s) = budget_window_start s"
  by (simp_all add: rebase_windows_def publish_budget_def rebase_universal_window_def on_egress_def
      global_windowed_spent_def universal_windowed_spent_def universal_windowed_def rebase_universal_def publish_def Let_def
      split: option.split)

lemma agent_window_reset: "windowed_spent (fst (reset_budget_window a)) = 0"
  by (simp add: windowed_spent_def reset_budget_window_def context_tokens_def)

text \<open>
  A window rollover is exact. When at least one whole interval has passed, the scheduler opens
  the window that contains the current time (it starts no later than now and ends after it, however
  many intervals were missed), with nothing spent in it by the system or by any agent and no token
  of the lifetime count lost, and only then drains the queue.
\<close>

theorem rollover_opens_the_current_window:
  assumes "budget_reset_interval sc \<noteq> 0" and "budget_window_start s \<le> now"
    and "windows_elapsed now (budget_window_start s) (budget_reset_interval sc) \<noteq> 0"
  shows "\<exists>s1. maybe_rebase_windows_at E sc now s = drain_deferred E sc s1 \<and>
    unat (budget_window_start s1) \<le> unat now \<and>
    unat now < unat (budget_window_start s1) + unat (budget_reset_interval sc) \<and>
    global_windowed_spent s1 = 0 \<and> tokens_spent s1 = tokens_spent s \<and>
    (\<forall>i a. get (agents s1) i = Some a \<longrightarrow> windowed_spent a = 0)"
proof -
  let ?i = "budget_reset_interval sc"
  let ?n = "windows_elapsed now (budget_window_start s) ?i"
  let ?start = "saturating_add (budget_window_start s) (?n * ?i)"
  note b = windows_elapsed_bounds [OF assms(1,2)]
  have "unat now < 2 ^ 64" using unsigned_less [of now] by simp
  with b have "unat ?n * unat ?i < 2 ^ 64" and sum: "unat (budget_window_start s) + unat ?n * unat ?i < 2 ^ 64" by linarith+
  then have "unat (?n * ?i) = unat ?n * unat ?i" by (simp add: unat_word_ariths)
  with sum have start: "unat ?start = unat (budget_window_start s) + unat ?n * unat ?i"
    by (simp add: unat_saturating_add)
  let ?s3 = "reset_all_windows ((rebase_windows s)\<lparr>budget_window_start := ?start\<rparr>)"
  have frame: "global_windowed_spent (reset_all_windows (t\<lparr>budget_window_start := w\<rparr>)) = global_windowed_spent t"
    "tokens_spent (reset_all_windows (t\<lparr>budget_window_start := w\<rparr>)) = tokens_spent t"
    "budget_window_start (reset_all_windows (t\<lparr>budget_window_start := w\<rparr>)) = w" for t w
    by (simp_all add: reset_all_windows_def global_windowed_spent_def universal_windowed_spent_def)
  have noted: "global_windowed_spent (note_event a t k d u) = global_windowed_spent u" for a t k d u
    by (simp add: note_event_def global_windowed_spent_def universal_windowed_spent_def)
  have agents: "windowed_spent a = 0" if "get (agents ?s3) i = Some a" for i a
    using that by (auto simp: reset_all_windows_def agent_window_reset)
  define s1 where "s1 = note_event ''agentd'' None EvBudgetReset
        [(''target'', JStr ''global''), (''spent_before'', JWord (global_windowed_spent s)),
         (''window_start'', JWord (budget_window_start ?s3)),
         (''interval_secs'', JWord ?i), (''windows_advanced'', JWord ?n)] ?s3"
  have "\<not> now < budget_window_start s" using assms(2) by simp
  then have eq: "maybe_rebase_windows_at E sc now s = drain_deferred E sc s1"
    using assms(3) by (simp add: maybe_rebase_windows_at_def Let_def rebased_window s1_def)
  have s1: "budget_window_start s1 = ?start" "global_windowed_spent s1 = 0" "tokens_spent s1 = tokens_spent s"
    by (simp_all add: s1_def noted frame rebased_window) (simp_all add: note_event_def frame rebased_window)
  have "windowed_spent a = 0" if "get (agents s1) i = Some a" for i a
    using that by (intro agents) (simp add: s1_def)
  moreover have "unat now < unat ?start + unat ?i" using b unfolding start by (simp add: algebra_simps)
  moreover have "unat ?start \<le> unat now" using b unfolding start by simp
  ultimately show ?thesis using eq s1 by (intro exI [of _ s1]) simp
qed

theorem rollover_opens_the_current_window_witness:
  "\<exists>s1. maybe_rebase_windows_at sample_sched sample_window 1000 sample_init = drain_deferred sample_sched sample_window s1 \<and>
     unat (budget_window_start s1) \<le> 1000 \<and> 1000 < unat (budget_window_start s1) + 60"
proof -
  have i: "budget_reset_interval sample_window = 60" by (simp add: sample_window_def)
  have s: "budget_window_start sample_init = 0" by (simp add: sample_init_def initial_state_def)
  have "windows_elapsed 1000 0 60 \<noteq> 0" by (simp add: windows_elapsed_def saturating_sub_def)
  then show ?thesis
    using rollover_opens_the_current_window [of sample_window sample_init 1000 sample_sched] unfolding i s by auto
qed

subsection \<open>Cancelling\<close>

definition child_of :: "sched_state \<Rightarrow> string \<Rightarrow> string \<Rightarrow> bool" where
  "child_of s p c \<longleftrightarrow> (c, p) \<in> set (parent_map s) \<and> live_child s c"

definition spanned :: "sched_state \<Rightarrow> string \<Rightarrow> string list \<Rightarrow> string list \<Rightarrow> bool" where
  "spanned s r st fr \<longleftrightarrow>
     distinct st \<and> r \<in> set st \<and> set fr \<subseteq> set st \<and> (\<forall>c \<in> set st. (child_of s)\<^sup>*\<^sup>* r c) \<and>
     (\<forall>p \<in> set st - set fr. \<forall>c. child_of s p c \<longrightarrow> c \<in> set st)"

lemma spannedD:
  assumes "spanned s r st fr"
  shows "distinct st" and "r \<in> set st" and "set fr \<subseteq> set st" and "c \<in> set st \<Longrightarrow> (child_of s)\<^sup>*\<^sup>* r c"
    and "p \<in> set st \<Longrightarrow> p \<notin> set fr \<Longrightarrow> child_of s p c \<Longrightarrow> c \<in> set st"
  using assms unfolding spanned_def by blast+

lemma visit_spans:
  assumes "spanned s r st (p # fr)" and "fold (visit_one s p) (parent_map s) (st, fr) = (st', fr')"
  shows "spanned s r st' fr'"
proof -
  obtain new where new: "st' = st @ new" "fr' = rev new @ fr" "distinct new"
    and mem: "set new = {c. (c, p) \<in> set (parent_map s) \<and> live_child s c} - set st"
    using visit_fold [of s p "parent_map s" st fr] assms(2) by auto
  have reach: "(child_of s)\<^sup>*\<^sup>* r c" if "c \<in> set new" for c
  proof -
    have "(child_of s)\<^sup>*\<^sup>* r p" using spannedD(3,4) [OF assms(1)] by simp
    moreover have "child_of s p c" using that mem by (auto simp: child_of_def)
    ultimately show ?thesis by simp
  qed
  have closed: "c \<in> set st'" if q: "q \<in> set st' - set fr'" "child_of s q c" for q c
  proof (cases "q = p")
    case True
    with q(2) mem show ?thesis by (auto simp: new(1) child_of_def)
  next
    case False
    with q(1) have "q \<in> set st" "q \<notin> set (p # fr)" by (auto simp: new)
    from spannedD(5) [OF assms(1) this q(2)] show ?thesis by (simp add: new(1))
  qed
  have "distinct st'" "set fr' \<subseteq> set st'" "r \<in> set st'"
    using spannedD(1-3) [OF assms(1)] new mem by auto
  moreover have "(child_of s)\<^sup>*\<^sup>* r c" if "c \<in> set st'" for c
    using that reach spannedD(4) [OF assms(1)] by (cases "c \<in> set st") (simp_all add: new(1))
  ultimately show ?thesis using closed unfolding spanned_def by blast
qed

lemma closure_spans: "spanned s r st fr \<Longrightarrow> spanned s r (cancel_closure s st fr) []"
proof (induction s st fr rule: cancel_closure.induct)
  case (2 s st p fr)
  obtain st' fr' where v: "fold (visit_one s p) (parent_map s) (st, fr) = (st', fr')" by fastforce
  from "2.IH" [OF v [symmetric] visit_spans [OF "2.prems" v]] v show ?case by simp
qed simp

lemma closure_descendants:
  assumes "cl = cancel_closure s [r] [r]"
  shows "set cl = {c. (child_of s)\<^sup>*\<^sup>* r c}" "distinct cl"
proof -
  have "spanned s r [r] [r]" by (simp add: spanned_def)
  then have sp: "spanned s r cl []" unfolding assms by (rule closure_spans)
  have "c \<in> set cl" if "(child_of s)\<^sup>*\<^sup>* r c" for c
    using that
  proof (induction rule: rtranclp_induct)
    case base
    show ?case by (rule spannedD(2) [OF sp])
  next
    case (step p c)
    from spannedD(5) [OF sp step.IH _ step.hyps(2)] show ?case by simp
  qed
  with spannedD(4) [OF sp] show "set cl = {c. (child_of s)\<^sup>*\<^sup>* r c}" by blast
  show "distinct cl" by (rule spannedD(1) [OF sp])
qed

lemma get_fold_put: "get (fold (\<lambda>k. put k (f k)) ks m) k = (if k \<in> set ks then Some (f k) else get m k)"
  by (induction ks arbitrary: m) auto

text \<open>
  A cancel reaches exactly the subtree. The nodes that a cancel of an agent flags are the agent
  and its live descendants, each once: everything that live parent links lead to and nothing else.
  The root is marked as the operator's doing, the others as a cascade, and flags of other agents
  are left as they were.
\<close>

theorem cancel_flags_the_subtree:
  "get (cancel_requested (flag_cancels aid (cancel_closure s [aid] [aid]) s)) c =
     (if (child_of s)\<^sup>*\<^sup>* aid c then Some (if c = aid then ''operator'' else ''cascade from '' @ aid)
      else get (cancel_requested s) c) \<and>
   distinct (cancel_closure s [aid] [aid])"
proof -
  define cl where "cl = cancel_closure s [aid] [aid]"
  note d = closure_descendants [OF cl_def]
  have "c \<in> set cl \<longleftrightarrow> (child_of s)\<^sup>*\<^sup>* aid c" unfolding d(1) by simp
  with d(2) show ?thesis unfolding cl_def [symmetric] by (simp add: flag_cancels_def get_fold_put)
qed

subsection \<open>Checkpoints\<close>

lemma get_fold_entries:
  assumes "distinct_keys m"
  shows "get (fold (\<lambda>(k, v). put k (f k v)) m m0) k = (case get m k of Some v \<Rightarrow> Some (f k v) | None \<Rightarrow> get m0 k)"
  using assms
proof (induction m arbitrary: m0)
  case (Cons kv m)
  obtain k0 v0 where kv: "kv = (k0, v0)" by fastforce
  have "get m k0 = None" "distinct_keys m"
    using Cons.prems by (auto simp: distinct_keys_def kv map_of_eq_None_iff)
  with Cons.IH show ?case by (auto simp: kv split: option.split)
qed simp

definition await_entry :: "string \<times> awaiting_parent \<Rightarrow> awaiting_entry" where
  "await_entry p = \<lparr>ae_child = fst p, ae_parent = aw_parent (snd p), ae_call = aw_call (snd p),
     ae_deliver = deliver_content (snd p)\<rparr>"

lemma await_entry_simps [simp]:
  "ae_child (await_entry (k, v)) = k" "ae_parent (await_entry (k, v)) = aw_parent v"
  "ae_call (await_entry (k, v)) = aw_call v" "ae_deliver (await_entry (k, v)) = deliver_content v"
  by (simp_all add: await_entry_def)

lemma note_event_awaiting:
  "awaiting (note_event a p k d s) = awaiting s" "agents (note_event a p k d s) = agents s"
  by (simp_all add: note_event_def)

lemma awaiting_restored:
  assumes "distinct_keys m"
  shows "get (awaiting (restore_awaiting (map await_entry m) s)) c =
    (if get m c \<noteq> None \<and> contains_key (agents s) c then get m c else get (awaiting s) c)"
  using assms
proof (induction m arbitrary: s)
  case (Cons kv m)
  obtain k v where kv: "kv = (k, v)" by fastforce
  have d: "get m k = None" "distinct_keys m"
    using Cons.prems by (auto simp: distinct_keys_def kv map_of_eq_None_iff)
  have v: "\<lparr>aw_parent = aw_parent v, aw_call = aw_call v, deliver_content = deliver_content v\<rparr> = v" by simp
  show ?case
    using d(1) by (auto simp: kv Cons.IH [OF d(2)] v note_event_awaiting)
qed simp

lemma fold_map: "fold f (map g xs) = fold (\<lambda>x. f (g x)) xs"
  by (induction xs) simp_all

lemma get_fold_enumerate:
  assumes "distinct_keys m"
  shows "get (fold (\<lambda>(_, (k, v)). put k (f k v)) (enumerate i m) m0) k = (case get m k of Some v \<Rightarrow> Some (f k v) | None \<Rightarrow> get m0 k)"
proof -
  have "fold (\<lambda>(_, (k, v)). put k (f k v)) (enumerate i m) m0 = fold (\<lambda>(k, v). put k (f k v)) (map snd (enumerate i m)) m0"
    by (simp add: fold_map case_prod_unfold del: map_snd_enumerate)
  then show ?thesis by (simp add: get_fold_entries [OF assms])
qed

lemma restore_awaiting_frame [simp]:
  "mailboxes (restore_awaiting es s) = mailboxes s" "pending_approvals (restore_awaiting es s) = pending_approvals s"
  "tokens_spent (restore_awaiting es s) = tokens_spent s" "child_seq (restore_awaiting es s) = child_seq s"
  "parent_map (restore_awaiting es s) = parent_map s" "approval_seq (restore_awaiting es s) = approval_seq s"
  "job_schedules (restore_awaiting es s) = job_schedules s" "waiting (restore_awaiting es s) = waiting s"
  "orchestrated (restore_awaiting es s) = orchestrated s" "budget_window_start (restore_awaiting es s) = budget_window_start s"
  "global_window_anchor (restore_awaiting es s) = global_window_anchor s"
  by (induction es arbitrary: s) (simp_all add: note_event_def)

lemma set_fold_insert: "set (fold List.insert xs ys) = set xs \<union> set ys"
  by (induction xs arbitrary: ys) auto

text \<open>
  C22. A checkpoint restores the scheduler. Restoring what \<open>build_scheduler_checkpoint\<close> wrote into the
  state of a new process gives back the counters, the budget window, the depths, the parent links
  and the job schedules as they were; the orchestrated and the waiting agents; every mailbox and
  every parked approval (with a new time stamp); every awaited result whose child exists again, and
  the lease of every job whose child is running again. The maps of the saved state have one entry
  per key, as hash maps do, and its leases are exclusive, as in every reachable state.
\<close>

theorem checkpoint_restores_the_scheduler:
  assumes "s' = restore_state E (fst (build_scheduler_checkpoint s)) (initial_state sc ags js ctl eg reg tr lg)"
    and "distinct_keys (awaiting s)" and "distinct_keys (mailboxes s)" and "distinct_keys (pending_approvals s)"
    and "lease_inv s"
  shows "tokens_spent s' = tokens_spent s \<and> budget_window_start s' = budget_window_start s \<and>
    global_window_anchor s' = global_window_anchor s \<and> child_seq s' = child_seq s \<and> approval_seq s' = approval_seq s \<and>
    spawn_depths s' = spawn_depths s \<and> parent_map s' = parent_map s \<and> job_schedules s' = job_schedules s \<and>
    set (orchestrated s') = set (orchestrated s) \<and> set (waiting s') = set (waiting s) \<and>
    get (mailboxes s') i = get (mailboxes s) i \<and>
    (\<exists>t. get (pending_approvals s') p = map_option (\<lambda>pk. pk\<lparr>pk_created := t\<rparr>) (get (pending_approvals s) p)) \<and>
    get (awaiting s') c = (if contains_key ags c then get (awaiting s) c else None) \<and>
    get (child_job s') c = (if running ags c then get (child_job s) c else None)"
proof -
  let ?r = "fst (build_scheduler_checkpoint s)" and ?i = "initial_state sc ags js ctl eg reg tr lg"
  obtain live cj where rc: "reconcile_job_leases_after_restore ags (child_job s) = (live, cj)" by fastforce
  have jobs: "get (child_job s') c = (if running ags c then get (child_job s) c else None)"
    using reconcile_spec [OF lease_exclusive [OF assms(5)] rc] rc
    by (simp add: assms(1) build_scheduler_checkpoint_def initial_state_def Let_def)
  have entries: "sk_awaiting ?r = map await_entry (awaiting s)"
    by (simp add: build_scheduler_checkpoint_def Let_def await_entry_def case_prod_unfold)
  have await: "get (awaiting s') c = (if contains_key ags c then get (awaiting s) c else None)"
    unfolding assms(1) restore_state_def entries
    by (auto simp: Let_def awaiting_restored [OF assms(2)] initial_state_def split: prod.split)
  have mail: "get (mailboxes s') i = get (mailboxes s) i"
    using get_fold_entries [OF assms(3), of "\<lambda>_ q. q" "[]" i]
    by (simp add: assms(1) restore_state_def build_scheduler_checkpoint_def initial_state_def Let_def
        split: prod.split option.split)
  have approvals: "\<exists>t. get (pending_approvals s') p = map_option (\<lambda>pk. pk\<lparr>pk_created := t\<rparr>) (get (pending_approvals s) p)"
  proof -
    have pk: "\<lparr>pk_agent = pk_agent v, pk_call = pk_call v, pk_action = pk_action v, pk_created = t\<rparr> = v\<lparr>pk_created := t\<rparr>" for v t
      by (cases v) simp
    obtain t where "pending_approvals s' = fold (\<lambda>(_, (k, v)). put k (v\<lparr>pk_created := t\<rparr>)) (enumerate 0 (pending_approvals s)) []"
      by (simp add: assms(1) restore_state_def build_scheduler_checkpoint_def initial_state_def Let_def fold_map
          case_prod_unfold pk)
    then show ?thesis
      using get_fold_enumerate [OF assms(4), of "\<lambda>_ v. v\<lparr>pk_created := t\<rparr>" 0 "[]" p]
      by (intro exI [of _ t]) (simp split: option.split)
  qed
  show ?thesis
    using jobs await mail approvals
    by (auto simp: assms(1) restore_state_def build_scheduler_checkpoint_def initial_state_def Let_def set_fold_insert
        split: prod.split)
qed

definition busy_state :: sched_state where
  "busy_state = sample_init
     \<lparr>awaiting := [(''a'', \<lparr>aw_parent = ''p'', aw_call = ''c1'', deliver_content = True\<rparr>),
                  (''gone'', \<lparr>aw_parent = ''a'', aw_call = ''c2'', deliver_content = False\<rparr>)],
      mailboxes := [(''a'', [\<lparr>mail_from = ''p'', mail_content = ''hello''\<rparr>])],
      child_job := [(''a'', ''j'')], live_job_runs := [(''j'', [''a''])]\<rparr>"

lemma busy_lease: "lease_inv busy_state"
  by (rule lease_invI)
    (auto simp: busy_state_def sample_init_def initial_state_def distinct_keys_def split: if_splits)

theorem checkpoint_restores_the_scheduler_witness:
  "\<exists>s'. s' = restore_state sample_sched (fst (build_scheduler_checkpoint busy_state)) sample_init \<and>
     get (mailboxes s') ''a'' = get (mailboxes busy_state) ''a'' \<and>
     get (awaiting s') ''a'' = get (awaiting busy_state) ''a'' \<and> get (awaiting s') ''gone'' = None \<and>
     get (child_job s') ''a'' = Some ''j''"
proof -
  have d: "distinct_keys (awaiting busy_state)" "distinct_keys (mailboxes busy_state)" "distinct_keys (pending_approvals busy_state)"
    by (simp_all add: distinct_keys_def busy_state_def sample_init_def initial_state_def)
  have l: "lease_inv busy_state" by (rule busy_lease)
  have r: "running [(''a'', capped_agent)] ''a''"
    by (simp add: running_def capped_agent_def sample_agent_def agent_new_def sample_cfg_def)
  show ?thesis
    using checkpoint_restores_the_scheduler [OF refl d l, of sample_sched sample_limits "[(''a'', capped_agent)]" "[]" True
        None None None "[]" "''a''" "''p''" "''a''"]
      checkpoint_restores_the_scheduler [OF refl d l, of sample_sched sample_limits "[(''a'', capped_agent)]" "[]" True
        None None None "[]" "''a''" "''p''" "''gone''"] r
    by (simp add: sample_init_def busy_state_def)
qed

definition keyed_state :: sched_state where
  "keyed_state = sample_init
     \<lparr>universal_agents := [(''bot'', \<lparr>ua_isolation = IsoNone, ua_cfg = sample_universal, ephemeral_key = ''ua-bot''\<rparr>)],
      registry_of_keys := Some [(''ua-bot'', \<lparr>pe_agent_id = ''bot'', pe_policy = \<lparr>allowed_hosts = [], token_budget_remaining = 0\<rparr>\<rparr>)]\<rparr>"

theorem keys_die_with_their_process_witness:
  "registered ''ua-bot'' keyed_state \<and>
   keys_live (poll_universal_agents \<lparr>pt_pid = (\<lambda>_. None), pt_wall = (\<lambda>_. 61), pt_wait = (\<lambda>_. StillRunning)\<rparr> keyed_state) \<and>
   get (universal_agents (poll_universal_agents
     \<lparr>pt_pid = (\<lambda>_. None), pt_wall = (\<lambda>_. 61), pt_wait = (\<lambda>_. StillRunning)\<rparr> keyed_state)) ''bot'' = None"
proof -
  have "keys_live keyed_state"
    by (simp add: keys_live_def registered_def keyed_state_def split: if_splits)
  from keys_die_with_their_process [OF this, of "\<lparr>pt_pid = (\<lambda>_. None), pt_wall = (\<lambda>_. 61), pt_wait = (\<lambda>_. StillRunning)\<rparr>" "''bot''"]
  show ?thesis
    by (auto simp: registered_def keyed_state_def poll_universal_agents_def poll_universal_def sample_universal_def)
qed

subsection \<open>The order of registration in \<open>run_job\<close>\<close>

definition spent_limits :: scheduler_config where
  "spent_limits = sample_limits\<lparr>global_token_budget := 1\<rparr>"

definition nightly :: job where
  "nightly = \<lparr>job_id = ''j'', job_token_budget = 0, job_max_turns = 5, job_capabilities = [], job_task = ''go'', job_schedule = None\<rparr>"

definition spent_state :: sched_state where
  "spent_state = sample_init\<lparr>tokens_spent := 1, jobs := [(''j'', nightly)]\<rparr>"

lemma nightly_steps:
  assumes "cfg c = native_config ''j-2026-01-01'' t (job_max_turns nightly) (job_token_budget nightly) 0 caps" 
    and "\<not> terminal c" "stored_response c = None" "turn c = 0"
  shows "\<exists>c' lg' req. step sample_sched c lg = (c', lg', Infer req)"
  using assms
    by (auto simp: native_config_def nightly_def step_def step_need_infer_def Let_def emit_request_def over_budget_def
       split: prod.splits if_splits)

lemma wind_up_fields:
  assumes "egress s = None" and "get (cancel_requested s) cid = None"
  shows "awaiting (wind_up cid res s) = awaiting s" "pending (wind_up cid res s) = pending s"
    "deferred (wind_up cid res s) = deferred s" "agents (wind_up cid res s) = agents s"
  using assms
  by (simp_all add: wind_up_def close_run_def run_send_def on_egress_def leave_orchestration_def release_lease_def
     consume_cancel_def Let_def split: option.split)

lemma denied_at_birth:
  assumes "get (agents r) cid = Some c" and "step E c (flight r) = (c', lg', Infer req)"
    and "\<not> contains_key (cancel_requested r) cid" and "\<not> global_ok sc r" and "budget_reset_interval sc = 0"
    and "get (awaiting r) cid = None" and "contains_key (child_job r) cid" and "egress r = None"
  shows "\<exists>s' e. seed_agent (enqueue_or_defer E sc) E cid pr r = Inr s' \<and> get (outcomes s') cid = Some (Inl e) \<and>
    \<not> contains_key (agents s') cid \<and> pending s' = pending r \<and> deferred s' = deferred r"
proof -
  define s2 where "s2 = mark_agent E cid (r\<lparr>agents := put cid c' (agents r), flight := lg'\<rparr>)"
  have s2: "global_ok sc s2 = global_ok sc r" "awaiting s2 = awaiting r" "child_job s2 = child_job r" "egress s2 = None"
      "pending s2 = pending r" "deferred s2 = deferred r" "cancel_requested s2 = cancel_requested r"
    using assms(8) by (simp_all add: s2_def mark_agent_def global_ok_def global_windowed_spent_def universal_windowed_spent_def)
  have "seed_agent (enqueue_or_defer E sc) E cid pr r =
      enqueue_infer (enqueue_or_defer E sc) E sc cid (turn c) pr req s2"
    using assms by (simp add: seed_agent_def enqueue_unfold enqueue_body_def s2_def)
  also obtain m lg where "\<dots> = handle_agent_terminal (enqueue_or_defer E sc) E cid (Inl m) (s2\<lparr>flight := lg\<rparr>)"
    using assms(4,5) s2 by (fastforce simp: enqueue_infer_def receipt_denial_def on_egress_def note_event_def Let_def)
  also have "\<dots> = Inr (retire cid True (Inl m) (wind_up cid (Inl m) (s2\<lparr>flight := lg\<rparr>)))"
    using assms(3,6,7) s2 
    by (simp add: handle_agent_terminal_def wind_up_fields Let_def)
  finally show ?thesis using s2 assms(3) by (simp add: retire_def wind_up_fields Let_def)
qed


end
