(* ===== verification/Tool_Specs.thy ===== *)
theory Tool_Specs
  imports Context
begin

section \<open>What the native tools tell the model (\<open>agentd/src/tools/native.rs\<close>)\<close>

text \<open>
  The name, the description and the input schema of every native tool, as the model sees them. A
  dash or an arrow in a description is its UTF-8 bytes.
\<close>

definition read_file_spec :: tool_spec where
  \<open>read_file_spec = \<lparr>spec_name = ''read_file'',
    spec_description = ''Read the contents of a file. Returns up to 100,000 characters.'',
    input_schema = JObj [
      (''type'', JStr ''object''),
      (''properties'', JObj [(''path'', JObj [(''type'', JStr ''string''), (''description'', JStr ''Path to the file'')])]),
      (''required'', JArr [JStr ''path'']),
      (''additionalProperties'', JBool False)]\<rparr>\<close>

definition write_file_spec :: tool_spec where
  \<open>write_file_spec = \<lparr>spec_name = ''write_file'',
    spec_description = ''Write content to a file, creating parent directories if needed.'',
    input_schema = JObj [
      (''type'', JStr ''object''),
      (''properties'', JObj [
      (''path'', JObj [(''type'', JStr ''string''), (''description'', JStr ''Path to write'')]),
      (''content'', JObj [(''type'', JStr ''string''), (''description'', JStr ''Content to write'')])]),
      (''required'', JArr [JStr ''path'', JStr ''content'']),
      (''additionalProperties'', JBool False)]\<rparr>\<close>

definition list_dir_spec :: tool_spec where
  \<open>list_dir_spec = \<lparr>spec_name = ''list_dir'',
    spec_description = ''List entries in a directory. Directories are suffixed with /.'',
    input_schema = JObj [
      (''type'', JStr ''object''),
      (''properties'', JObj [(''path'', JObj [(''type'', JStr ''string''), (''description'', JStr ''Path to the directory'')])]),
      (''required'', JArr [JStr ''path'']),
      (''additionalProperties'', JBool False)]\<rparr>\<close>

definition kv_get_spec :: tool_spec where
  \<open>kv_get_spec = \<lparr>spec_name = ''kv_get'',
    spec_description = ''Read a value from the durable key/value store. Use namespace "agent:scratch" for ephemeral '' @
      ''scratch notes. Pass namespace and key as separate fields '' @
      [CHR 0xE2, CHR 0x80, CHR 0x94] @
      '' e.g. namespace="agent:scratch", key="my-note".'',
    input_schema = JObj [
      (''type'', JStr ''object''),
      (''properties'', JObj [
      (''namespace'', JObj [
      (''type'', JStr ''string''),
      (''description'', JStr ''Memory namespace granted to this agent (e.g. "agent:scratch")'')]),
      (''key'', JObj [(''type'', JStr ''string''), (''description'', JStr ''Key within the namespace (e.g. "my-note")'')])]),
      (''required'', JArr [JStr ''namespace'', JStr ''key'']),
      (''additionalProperties'', JBool False)]\<rparr>\<close>

definition kv_set_spec :: tool_spec where
  \<open>kv_set_spec = \<lparr>spec_name = ''kv_set'',
    spec_description = ''Write a value to the durable key/value store. Use namespace "agent:scratch" for ephemeral '' @
      ''scratch notes that persist across turns. Pass namespace and key as separate fields '' @
      [CHR 0xE2, CHR 0x80, CHR 0x94] @
      '' e.g. namespace="agent:scratch", key="my-note". Requires KbWrite capability for the namespace.'',
    input_schema = JObj [
      (''type'', JStr ''object''),
      (''properties'', JObj [
      (''namespace'', JObj [
      (''type'', JStr ''string''),
      (''description'', JStr ''Memory namespace granted to this agent (e.g. "agent:scratch")'')]),
      (''key'', JObj [(''type'', JStr ''string''), (''description'', JStr ''Key within the namespace (e.g. "my-note")'')]),
      (''value'', JObj [(''type'', JStr ''string''), (''description'', JStr ''Value to store'')])]),
      (''required'', JArr [JStr ''namespace'', JStr ''key'', JStr ''value'']),
      (''additionalProperties'', JBool False)]\<rparr>\<close>

definition mem_remember_spec :: tool_spec where
  \<open>mem_remember_spec = \<lparr>spec_name = ''mem_remember'',
    spec_description = ''Commit a piece of knowledge to long-term memory. Persists across restarts. Use this to record '' @
      ''findings, decisions, or facts you want to recall later. Stored under your own agent namespace '' @
      [CHR 0xE2, CHR 0x80, CHR 0x94] @
      '' other agents cannot read it.'',
    input_schema = JObj [
      (''type'', JStr ''object''),
      (''properties'', JObj [
      (''content'', JObj [(''type'', JStr ''string''), (''description'', JStr ''The text to remember (max 8 KiB)'')]),
      (''tags'', JObj [
      (''type'', JStr ''array''),
      (''items'', JObj [(''type'', JStr ''string'')]),
      (''description'', JStr ''Optional labels to help recall later'')])]),
      (''required'', JArr [JStr ''content'']),
      (''additionalProperties'', JBool False)]\<rparr>\<close>

definition mem_recall_spec :: tool_spec where
  \<open>mem_recall_spec = \<lparr>spec_name = ''mem_recall'',
    spec_description = ''Search your long-term memory for entries matching a query string. Returns matching entries as '' @
      ''JSON, newest first. Fields: query (required), limit (optional integer, default 10, max 50).'',
    input_schema = JObj [
      (''type'', JStr ''object''),
      (''properties'', JObj [
      (''query'', JObj [
      (''type'', JStr ''string''),
      (''description'', JStr ''Substring to search for in remembered content and tags'')]),
      (''limit'', JObj [
      (''type'', JStr ''integer''),
      (''description'', JStr ''Maximum results to return (default 10, max 50)'')])]),
      (''required'', JArr [JStr ''query'']),
      (''additionalProperties'', JBool False)]\<rparr>\<close>

definition kb_put_spec :: tool_spec where
  \<open>kb_put_spec = \<lparr>spec_name = ''kb_put'',
    spec_description = ''Write an entry to a shared knowledge-base segment (Tier 4). The segment's mutability class is '' @
      ''set by operator config: canon segments deny agent writes; log segments append a new immutable '' @
      ''entry on each call (key auto-generated); scratch segments do last-writer-wins with a '' @
      ''caller-provided key and an incrementing version.'',
    input_schema = JObj [
      (''type'', JStr ''object''),
      (''properties'', JObj [
      (''segment'', JObj [(''type'', JStr ''string''), (''description'', JStr ''KB segment name (namespace)'')]),
      (''content'', JObj [(''type'', JStr ''string''), (''description'', JStr ''Content to store (max 8 KiB)'')]),
      (''key'', JObj [
      (''type'', JStr ''string''),
      (''description'', JStr (''Entry key '' @
      [CHR 0xE2, CHR 0x80, CHR 0x94] @
      '' required for scratch segments, ignored for log''))]),
      (''citation'', JObj [
      (''type'', JStr ''string''),
      (''description'', JStr ''Optional source citation stored in provenance'')])]),
      (''required'', JArr [JStr ''segment'', JStr ''content'']),
      (''additionalProperties'', JBool False)]\<rparr>\<close>

definition kb_get_spec :: tool_spec where
  \<open>kb_get_spec = \<lparr>spec_name = ''kb_get'',
    spec_description = ''Read a single knowledge-base entry by segment and key. Returns the full entry JSON (including '' @
      ''provenance), or an empty string when the key does not exist.'',
    input_schema = JObj [
      (''type'', JStr ''object''),
      (''properties'', JObj [
      (''segment'', JObj [(''type'', JStr ''string''), (''description'', JStr ''KB segment name'')]),
      (''key'', JObj [(''type'', JStr ''string''), (''description'', JStr ''Entry key (as returned by kb_put)'')])]),
      (''required'', JArr [JStr ''segment'', JStr ''key'']),
      (''additionalProperties'', JBool False)]\<rparr>\<close>

definition kb_search_spec :: tool_spec where
  \<open>kb_search_spec = \<lparr>spec_name = ''kb_search'',
    spec_description = ''Search a shared knowledge-base segment using BM25-lite ranked retrieval. Returns entries '' @
      ''matching the query sorted by relevance, with content and provenance expanded. Fields: segment '' @
      ''(required), query (required), author (optional agent_id filter), limit (optional integer, '' @
      ''default 10, max 50). MVP: single-segment search only. Requires KbRead capability.'',
    input_schema = JObj [
      (''type'', JStr ''object''),
      (''properties'', JObj [
      (''segment'', JObj [(''type'', JStr ''string''), (''description'', JStr ''KB segment to search'')]),
      (''query'', JObj [
      (''type'', JStr ''string''),
      (''description'', JStr (''Free-text query '' @
      [CHR 0xE2, CHR 0x80, CHR 0x94] @
      '' tokenized and ranked via BM25-lite''))]),
      (''author'', JObj [
      (''type'', JStr ''string''),
      (''description'', JStr ''Optional: filter to entries written by this agent_id'')]),
      (''limit'', JObj [
      (''type'', JStr ''integer''),
      (''description'', JStr ''Maximum results to return (default 10, max 50)'')])]),
      (''required'', JArr [JStr ''segment'', JStr ''query'']),
      (''additionalProperties'', JBool False)]\<rparr>\<close>

definition runs_query_spec :: tool_spec where
  \<open>runs_query_spec = \<lparr>spec_name = ''runs_query'',
    spec_description = ''Query durable run history '' @
      [CHR 0xE2, CHR 0x80, CHR 0x94] @
      '' one record per agent run segment (spawn/seed '' @
      [CHR 0xE2, CHR 0x86, CHR 0x92] @
      '' terminal). Returns records newest-first with status, spend (tokens), stop reason, last error, '' @
      ''parent, and approval count. Fields: agent_id (optional), parent_id (optional), status '' @
      ''(optional: running|done|failed|interrupted), from/to (optional Unix-second bounds on start '' @
      ''time), limit (optional, default 20, max 100). Requires RunsRead capability.'',
    input_schema = JObj [
      (''type'', JStr ''object''),
      (''properties'', JObj [
      (''agent_id'', JObj [(''type'', JStr ''string''), (''description'', JStr ''Filter to one agent id'')]),
      (''parent_id'', JObj [(''type'', JStr ''string''), (''description'', JStr ''Filter to children of this agent id'')]),
      (''status'', JObj [(''type'', JStr ''string''), (''description'', JStr ''running | parked | done | failed'')]),
      (''from'', JObj [(''type'', JStr ''integer''), (''description'', JStr ''Only runs started at/after this Unix second'')]),
      (''to'', JObj [
      (''type'', JStr ''integer''),
      (''description'', JStr ''Only runs started at/before this Unix second'')]),
      (''limit'', JObj [(''type'', JStr ''integer''), (''description'', JStr ''Max records (default 20, max 100)'')])]),
      (''additionalProperties'', JBool False)]\<rparr>\<close>

definition publish_brief_spec :: tool_spec where
  \<open>publish_brief_spec = \<lparr>spec_name = ''publish_brief'',
    spec_description = ''Publish the morning brief for the operator. agentd composes the facts (run count, failures, '' @
      ''spend, and the failing/blocked run IDs) deterministically from durable run history over the '' @
      ''window since the last brief '' @
      [CHR 0xE2, CHR 0x80, CHR 0x94] @
      '' you do NOT pass any of those. Optionally pass `narrative`: a one- or two-sentence '' @
      ''plain-English summary to accompany the facts. Optionally pass `suppressed_count`: how many '' @
      ''matching Gmail messages the inbox job could not fetch because they exceeded its result cap '' @
      ''(from Gmail's own `resultSizeEstimate`) '' @
      [CHR 0xE2, CHR 0x80, CHR 0x94] @
      '' NOT how many were archived or handled, a different exclusion. Call this once per cron cycle '' @
      ''after writing the ops:briefs entry. The brief is then readable via `agentctl brief` / GET '' @
      ''/api/v1/brief regardless of when the operator looks. Requires the BriefPublish capability.'',
    input_schema = JObj [
      (''type'', JStr ''object''),
      (''properties'', JObj [
      (''narrative'', JObj [
      (''type'', JStr ''string''),
      (''description'', JStr ''Optional plain-English summary; facts are authored by agentd, not from this field'')]),
      (''suppressed_count'', JObj [
      (''type'', JStr ''integer''),
      (''description'', JStr (''Optional count of matching Gmail messages not fetched due to the result cap (Gmail's '' @
      ''resultSizeEstimate minus messages actually reviewed) '' @
      [CHR 0xE2, CHR 0x80, CHR 0x94] @
      '' not archived/handled mail''))])]),
      (''additionalProperties'', JBool False)]\<rparr>\<close>

definition spawn_agent_spec :: tool_spec where
  \<open>spawn_agent_spec = \<lparr>spec_name = ''spawn_agent'',
    spec_description = ''Spawn a sub-agent to complete a task and return its answer. Must be the sole tool call in a '' @
      ''turn. Requires the Spawn capability.'',
    input_schema = JObj [
      (''type'', JStr ''object''),
      (''properties'', JObj [
      (''task'', JObj [(''type'', JStr ''string''), (''description'', JStr ''The sub-task for the child agent to complete'')]),
      (''child_id'', JObj [
      (''type'', JStr ''string''),
      (''description'', JStr ''Optional stable ID for the child (auto-generated if absent)'')]),
      (''priority'', JObj [
      (''type'', JStr ''integer''),
      (''description'', JStr ''Scheduling priority (higher runs first). Default 0.'')]),
      (''token_budget'', JObj [
      (''type'', JStr ''integer''),
      (''description'', JStr ''Token ceiling for the child. Inherits parent budget if absent.'')]),
      (''capabilities'', JObj [
      (''type'', JStr ''array''),
      (''description'', JStr (''Optional least-privilege capability set for the child. Absent = inherit ALL of the parent's '' @
      ''capabilities. Each entry is validated to be within the parent's set (a request outside it '' @
      ''rejects the whole spawn). Use to scope a child down to only what it needs. Format matches the '' @
      ''config capability shape: unit caps are strings (e.g. "Spawn", "RunsRead"); parameterized caps '' @
      ''are single-key objects, e.g. {"Mcp":{"server":"google_oauth","tools":[]}}, '' @
      ''{"KbRead":{"segment":"ops:briefs"}}, {"KbWrite":{"segment":"ops"}}, '' @
      ''{"Credential":{"provider":"Google"}}. An empty array grants no capability-gated tools '' @
      ''(capability-free tools like send_message and request_approval remain).'')),
      (''items'', JObj [])])]),
      (''required'', JArr [JStr ''task'']),
      (''additionalProperties'', JBool False)]\<rparr>\<close>

definition run_job_spec :: tool_spec where
  \<open>run_job_spec = \<lparr>spec_name = ''run_job'',
    spec_description = ''Trigger a config-declared sealed job by id. Must be the sole tool call in a turn. Requires the '' @
      ''RunJob capability. The job's capabilities and task are fixed in config (you cannot choose '' @
      ''them); you pass ONLY the job id. Use this for the daily pipeline; it returns a completion '' @
      ''signal, not the job's output.'',
    input_schema = JObj [
      (''type'', JStr ''object''),
      (''properties'', JObj [
      (''job_id'', JObj [
      (''type'', JStr ''string''),
      (''description'', JStr ''The id of a configured [[jobs]] entry to run (e.g. "cos-inbox", "cos-curator").'')])]),
      (''required'', JArr [JStr ''job_id'']),
      (''additionalProperties'', JBool False)]\<rparr>\<close>

definition list_agents_spec :: tool_spec where
  \<open>list_agents_spec = \<lparr>spec_name = ''list_agents'',
    spec_description = ''List all registered agents in the system. Returns a JSON array of agent cards (id, name, '' @
      ''description, skills).'',
    input_schema = JObj [(''type'', JStr ''object''), (''properties'', JObj []), (''additionalProperties'', JBool False)]\<rparr>\<close>

definition send_message_spec :: tool_spec where
  \<open>send_message_spec = \<lparr>spec_name = ''send_message'',
    spec_description = ''Send a message to another agent's mailbox. The recipient will receive it before their next '' @
      ''inference step. Must be the sole tool call in a turn.'',
    input_schema = JObj [
      (''type'', JStr ''object''),
      (''properties'', JObj [
      (''to'', JObj [(''type'', JStr ''string''), (''description'', JStr ''ID of the recipient agent'')]),
      (''content'', JObj [(''type'', JStr ''string''), (''description'', JStr ''Message content to deliver'')])]),
      (''required'', JArr [JStr ''to'', JStr ''content'']),
      (''additionalProperties'', JBool False)]\<rparr>\<close>

definition request_approval_spec :: tool_spec where
  \<open>request_approval_spec = \<lparr>spec_name = ''request_approval'',
    spec_description = ''Propose a risk-bearing action for operator review before executing it. The agent parks until '' @
      ''the operator approves or rejects via /agents/control or the agentctl approval view. Must be the '' @
      ''sole tool call in a turn. On approval, the agent receives its args back (possibly edited by the '' @
      ''operator). On rejection, the agent receives an is_error result with the operator's reason.'',
    input_schema = JObj [
      (''type'', JStr ''object''),
      (''properties'', JObj [
      (''kind'', JObj [(''type'', JStr ''string''), (''description'', JStr ''Action type, e.g. "write_file", "send_email"'')]),
      (''risk'', JObj [
      (''type'', JStr ''string''),
      (''description'', JStr ''Operator-visible severity: "low", "medium", or "high"'')]),
      (''summary'', JObj [
      (''type'', JStr ''string''),
      (''description'', JStr ''One-sentence description of what the agent intends to do'')]),
      (''args'', JObj [
      (''type'', JStr ''object''),
      (''description'', JStr ''Full argument set the agent will use once approved'')]),
      (''prev_state'', JObj [(''description'', JStr ''Optional: state snapshot before the action (diff context for operator)'')]),
      (''new_state'', JObj [(''description'', JStr ''Optional: expected state snapshot after the action'')])]),
      (''required'', JArr [JStr ''kind'', JStr ''risk'', JStr ''summary'', JStr ''args'']),
      (''additionalProperties'', JBool False)]\<rparr>\<close>

end
