(* ===== verification/Memory_Store.thy ===== *)
theory Memory_Store
  imports Prelude "HOL-Library.Char_ord" "HOL-Library.List_Lexorder"
begin

section \<open>The memory store (\<open>agentd/src/memory/store.rs\<close>, \<open>memory/index.rs\<close>, \<open>memory/mod.rs\<close>)\<close>

text \<open>
  Entries live in named segments. Beside the entries, the store keeps an inverted index for
  searching, the age of every entry for eviction, and counters. The tables are those of \<open>redb\<close>, a
  transactional database, which is a parameter: the operations on a table, the JSON coding of a
  posting list, Unicode lower case, the unstable sort by age and double-precision arithmetic. A
  transaction whose commit fails changes nothing.
\<close>

subsection \<open>Parameters\<close>

record ('t, 'v) table_ops =
  tb_get :: "'t \<Rightarrow> string \<Rightarrow> 'v option"
  tb_insert :: "string \<Rightarrow> 'v \<Rightarrow> 't \<Rightarrow> 't"
  tb_remove :: "string \<Rightarrow> 't \<Rightarrow> 't"
  tb_range :: "string \<Rightarrow> string \<Rightarrow> 't \<Rightarrow> (string \<times> 'v) list"
  tb_iter :: "'t \<Rightarrow> (string \<times> 'v) list"

record 'f f64_ops =
  f_nat :: "nat \<Rightarrow> 'f"
  f_add :: "'f \<Rightarrow> 'f \<Rightarrow> 'f"
  f_mul :: "'f \<Rightarrow> 'f \<Rightarrow> 'f"
  f_div :: "'f \<Rightarrow> 'f \<Rightarrow> 'f"
  f_ln :: "'f \<Rightarrow> 'f"

record ('s, 'n, 'f) store_lib =
  str_tbl :: "('s, string) table_ops"
  num_tbl :: "('n, u64) table_ops"
  list_to_json :: "string list \<Rightarrow> string"
  list_of_json :: "string \<Rightarrow> string list option"
  value_of_json :: "string \<Rightarrow> json option"
  to_lowercase :: "string \<Rightarrow> string"
  is_alphanumeric :: "string \<Rightarrow> bool"
  sort_by_age :: "(string \<times> u64) list \<Rightarrow> (string \<times> u64) list"
  f64 :: "'f f64_ops"

record ('s, 'n) redb_store =
  st_entries :: 's
  st_index :: 's
  st_age :: 'n
  st_meta :: 'n
  st_namespaces :: 'n

datatype store_error = TxFailed | BadPostingList | CrossSegmentSearch

datatype mutability_class = Canon | Log | Scratch

subsection \<open>Tokens\<close>

definition STOPWORDS :: "string list" where
  "STOPWORDS =
     [''the'', ''a'', ''an'', ''is'', ''in'', ''of'', ''to'', ''and'', ''or'', ''for'', ''be'', ''with'',
      ''as'', ''at'', ''by'', ''from'', ''it'', ''its'', ''that'', ''this'', ''was'']"

definition MAX_TOKEN_BYTES :: nat where
  "MAX_TOKEN_BYTES = 64"

text \<open>\<open>str::split\<close> with a predicate on characters: the pieces between separators, empty ones included.\<close>

fun split_on :: "(string \<Rightarrow> bool) \<Rightarrow> string list \<Rightarrow> string \<Rightarrow> string list" where
  "split_on p [] acc = [acc]"
| "split_on p (c # cs) acc = (if p c then acc # split_on p cs [] else split_on p cs (acc @ c))"

definition indexable :: "string \<Rightarrow> bool" where
  "indexable t \<longleftrightarrow> t \<noteq> [] \<and> length t \<le> MAX_TOKEN_BYTES \<and> t \<notin> set STOPWORDS"

definition tokenize :: "('s, 'n, 'f) store_lib \<Rightarrow> string \<Rightarrow> string list" where
  "tokenize L x = filter indexable (split_on (\<lambda>c. \<not> is_alphanumeric L c) (utf8_chars (to_lowercase L x)) [])"

definition term_frequencies :: "string list \<Rightarrow> string list \<Rightarrow> nat list" where
  "term_frequencies tokens ts = map (\<lambda>t. length (filter (\<lambda>u. u = t) tokens)) ts"

subsection \<open>Keys\<close>

definition entry_key :: "string \<Rightarrow> string \<Rightarrow> string" where
  "entry_key ns key = ns @ [CHR 0x00] @ key"

definition index_key :: "string \<Rightarrow> string \<Rightarrow> string" where
  "index_key ns word = ns @ [CHR 0x00] @ word"

abbreviation prefix_start :: "string \<Rightarrow> string" where
  "prefix_start ns \<equiv> ns @ [CHR 0x00]"

abbreviation prefix_end :: "string \<Rightarrow> string" where
  "prefix_end ns \<equiv> ns @ [CHR 0x01]"

definition SEG_CLASS_PREFIX :: string where "SEG_CLASS_PREFIX = ''seg_class:''"
definition LOG_SEQ_PREFIX :: string where "LOG_SEQ_PREFIX = ''log_seq:''"
definition SCRATCH_VER_PREFIX :: string where "SCRATCH_VER_PREFIX = ''scratch_ver:''"
definition DOC_COUNT_PREFIX :: string where "DOC_COUNT_PREFIX = ''doc_count:''"
definition SEG_MAX_ENTRIES_PREFIX :: string where "SEG_MAX_ENTRIES_PREFIX = ''seg_max_entries:''"
definition SEG_MAX_AGE_PREFIX :: string where "SEG_MAX_AGE_PREFIX = ''seg_max_age_secs:''"

definition SCHEMA_VERSION :: u64 where
  "SCHEMA_VERSION = 1"

text \<open>\<open>table.get(k)?.map(|g| g.value()).unwrap_or(0)\<close>\<close>

definition num_at :: "('s, 'n, 'f) store_lib \<Rightarrow> 'n \<Rightarrow> string \<Rightarrow> u64" where
  "num_at L t k = (case tb_get (num_tbl L) t k of None \<Rightarrow> 0 | Some v \<Rightarrow> v)"

subsection \<open>Posting lists\<close>

definition read_posting_list ::
    "('s, 'n, 'f) store_lib \<Rightarrow> 's \<Rightarrow> string \<Rightarrow> string \<Rightarrow> store_error + string list" where
  "read_posting_list L t ns word =
     (case tb_get (str_tbl L) t (index_key ns word) of
        None \<Rightarrow> Inr []
      | Some j \<Rightarrow> (case list_of_json L j of None \<Rightarrow> Inl BadPostingList | Some l \<Rightarrow> Inr l))"

definition write_posting_list ::
    "('s, 'n, 'f) store_lib \<Rightarrow> string \<Rightarrow> string \<Rightarrow> string list \<Rightarrow> 's \<Rightarrow> 's" where
  "write_posting_list L ns word l t =
     (if l = [] then tb_remove (str_tbl L) (index_key ns word) t
      else tb_insert (str_tbl L) (index_key ns word) (list_to_json L l) t)"

fun index_tokens ::
    "('s, 'n, 'f) store_lib \<Rightarrow> string \<Rightarrow> string \<Rightarrow> string list \<Rightarrow> string list \<Rightarrow> 's \<Rightarrow> store_error + 's" where
  "index_tokens L ns ek seen [] t = Inr t"
| "index_tokens L ns ek seen (tok # toks) t =
     (if tok \<in> set seen then index_tokens L ns ek seen toks t
      else
        (case read_posting_list L t ns tok of
           Inl e \<Rightarrow> Inl e
         | Inr posting \<Rightarrow>
             index_tokens L ns ek (tok # seen) toks
               (if ek \<in> set posting then t else write_posting_list L ns tok (posting @ [ek]) t)))"

fun deindex_tokens ::
    "('s, 'n, 'f) store_lib \<Rightarrow> string \<Rightarrow> string \<Rightarrow> string list \<Rightarrow> string list \<Rightarrow> 's \<Rightarrow> store_error + 's" where
  "deindex_tokens L ns ek seen [] t = Inr t"
| "deindex_tokens L ns ek seen (tok # toks) t =
     (if tok \<in> set seen then deindex_tokens L ns ek seen toks t
      else
        (case read_posting_list L t ns tok of
           Inl e \<Rightarrow> Inl e
         | Inr posting \<Rightarrow>
             deindex_tokens L ns ek (tok # seen) toks
               (write_posting_list L ns tok (filter (\<lambda>k. k \<noteq> ek) posting) t)))"

subsection \<open>Reading\<close>

definition store_get ::
    "('s, 'n, 'f) store_lib \<Rightarrow> string \<Rightarrow> string \<Rightarrow> ('s, 'n) redb_store \<Rightarrow> string option" where
  "store_get L ns key db = tb_get (str_tbl L) (st_entries db) (entry_key ns key)"

definition store_iter ::
    "('s, 'n, 'f) store_lib \<Rightarrow> string \<Rightarrow> ('s, 'n) redb_store \<Rightarrow> (string \<times> string) list" where
  "store_iter L ns db =
     map (\<lambda>(k, v). (drop (length ns + 1) k, v))
       (tb_range (str_tbl L) (prefix_start ns) (prefix_end ns) (st_entries db))"

definition list_keys :: "('s, 'n, 'f) store_lib \<Rightarrow> string \<Rightarrow> ('s, 'n) redb_store \<Rightarrow> string list" where
  "list_keys L ns db =
     map (\<lambda>(k, _). drop (length ns + 1) k)
       (tb_range (str_tbl L) (prefix_start ns) (prefix_end ns) (st_entries db))"

definition list_namespaces :: "('s, 'n, 'f) store_lib \<Rightarrow> ('s, 'n) redb_store \<Rightarrow> string list" where
  "list_namespaces L db = map fst (tb_iter (num_tbl L) (st_namespaces db))"

definition namespace_count :: "('s, 'n, 'f) store_lib \<Rightarrow> string \<Rightarrow> ('s, 'n) redb_store \<Rightarrow> u64" where
  "namespace_count L ns db = num_at L (st_namespaces db) ns"

definition meta_version :: "('s, 'n, 'f) store_lib \<Rightarrow> ('s, 'n) redb_store \<Rightarrow> u64" where
  "meta_version L db = num_at L (st_meta db) ''format_version''"

definition segment_class ::
    "('s, 'n, 'f) store_lib \<Rightarrow> string \<Rightarrow> ('s, 'n) redb_store \<Rightarrow> mutability_class option" where
  "segment_class L ns db =
     (case tb_get (num_tbl L) (st_meta db) (SEG_CLASS_PREFIX @ ns) of
        None \<Rightarrow> None
      | Some v \<Rightarrow>
          if v = 0 then Some Canon else if v = 1 then Some Log else if v = 2 then Some Scratch else None)"

subsection \<open>Counters and settings\<close>

definition set_segment_class ::
    "('s, 'n, 'f) store_lib \<Rightarrow> string \<Rightarrow> mutability_class \<Rightarrow> ('s, 'n) redb_store \<Rightarrow> ('s, 'n) redb_store" where
  "set_segment_class L ns cls db =
     db\<lparr>st_meta := tb_insert (num_tbl L) (SEG_CLASS_PREFIX @ ns)
          (case cls of Canon \<Rightarrow> 0 | Log \<Rightarrow> 1 | Scratch \<Rightarrow> 2) (st_meta db),
        st_namespaces :=
          (if tb_get (num_tbl L) (st_namespaces db) ns = None
           then tb_insert (num_tbl L) ns 0 (st_namespaces db) else st_namespaces db)\<rparr>"

definition set_segment_limits ::
    "('s, 'n, 'f) store_lib \<Rightarrow> string \<Rightarrow> nat option \<Rightarrow> u64 option \<Rightarrow> ('s, 'n) redb_store \<Rightarrow> ('s, 'n) redb_store" where
  "set_segment_limits L ns max_entries max_age db =
     db\<lparr>st_meta :=
          tb_insert (num_tbl L) (SEG_MAX_AGE_PREFIX @ ns) (case max_age of None \<Rightarrow> 0 | Some a \<Rightarrow> a)
            (tb_insert (num_tbl L) (SEG_MAX_ENTRIES_PREFIX @ ns)
              (case max_entries of None \<Rightarrow> 0 | Some n \<Rightarrow> of_nat n) (st_meta db))\<rparr>"

text \<open>The shape of \<open>next_log_seq\<close> and \<open>next_scratch_version\<close>: add one and return the new value.\<close>

definition bump ::
    "('s, 'n, 'f) store_lib \<Rightarrow> string \<Rightarrow> ('s, 'n) redb_store \<Rightarrow> u64 \<times> ('s, 'n) redb_store" where
  "bump L k db =
     (let n = num_at L (st_meta db) k + 1 in (n, db\<lparr>st_meta := tb_insert (num_tbl L) k n (st_meta db)\<rparr>))"

definition next_log_seq ::
    "('s, 'n, 'f) store_lib \<Rightarrow> string \<Rightarrow> ('s, 'n) redb_store \<Rightarrow> u64 \<times> ('s, 'n) redb_store" where
  "next_log_seq L ns db = bump L (LOG_SEQ_PREFIX @ ns) db"

definition next_scratch_version ::
    "('s, 'n, 'f) store_lib \<Rightarrow> string \<Rightarrow> string \<Rightarrow> ('s, 'n) redb_store \<Rightarrow> u64 \<times> ('s, 'n) redb_store" where
  "next_scratch_version L ns key db = bump L (SCRATCH_VER_PREFIX @ ns @ [CHR 0x00] @ key) db"

definition count_up :: "('s, 'n, 'f) store_lib \<Rightarrow> string \<Rightarrow> 'n \<Rightarrow> 'n" where
  "count_up L k t = tb_insert (num_tbl L) k (num_at L t k + 1) t"

text \<open>The document count of a segment goes down by one, and not below zero.\<close>

definition doc_count_down :: "('s, 'n, 'f) store_lib \<Rightarrow> string \<Rightarrow> 'n \<Rightarrow> 'n" where
  "doc_count_down L ns t =
     (let k = DOC_COUNT_PREFIX @ ns; cur = num_at L t k in
      if 0 < cur then tb_insert (num_tbl L) k (cur - 1) t else t)"

subsection \<open>Eviction\<close>

record evicted_entry =
  ev_key :: string
  ev_reason :: string

text \<open>One entry leaves every table, as in the loop of \<open>evict\<close>.\<close>

definition drop_entry ::
    "('s, 'n, 'f) store_lib \<Rightarrow> string \<Rightarrow> string \<Rightarrow> string \<Rightarrow> ('s, 'n) redb_store \<Rightarrow> store_error + ('s, 'n) redb_store" where
  "drop_entry L ns ek old db =
     (case deindex_tokens L ns ek [] (tokenize L old) (st_index db) of
        Inl e \<Rightarrow> Inl e
      | Inr idx \<Rightarrow>
          Inr (db\<lparr>st_index := idx,
                 st_entries := tb_remove (str_tbl L) ek (st_entries db),
                 st_age := tb_remove (num_tbl L) ek (st_age db),
                 st_meta := doc_count_down L ns (st_meta db)\<rparr>))"

fun evict_loop ::
    "('s, 'n, 'f) store_lib \<Rightarrow> string \<Rightarrow> (string \<times> string) list \<Rightarrow> evicted_entry list \<Rightarrow> ('s, 'n) redb_store \<Rightarrow>
     store_error + (evicted_entry list \<times> ('s, 'n) redb_store)" where
  "evict_loop L ns [] out db = Inr (out, db)"
| "evict_loop L ns ((ek, reason) # rest) out db =
     (case tb_get (str_tbl L) (st_entries db) ek of
        None \<Rightarrow> evict_loop L ns rest out db
      | Some old \<Rightarrow>
          (case drop_entry L ns ek old db of
             Inl e \<Rightarrow> Inl e
           | Inr db' \<Rightarrow>
               evict_loop L ns rest (out @ [\<lparr>ev_key = drop (length ns + 1) ek, ev_reason = reason\<rparr>]) db'))"

definition age_victims :: "u64 option \<Rightarrow> u64 \<Rightarrow> (string \<times> u64) list \<Rightarrow> (string \<times> string) list" where
  "age_victims max_age now entries =
     (case max_age of
        None \<Rightarrow> []
      | Some a \<Rightarrow> map (\<lambda>(k, _). (k, ''age'')) (filter (\<lambda>(_, ts). ts < saturating_sub now a) entries))"

definition capacity_victims ::
    "('s, 'n, 'f) store_lib \<Rightarrow> nat option \<Rightarrow> string list \<Rightarrow> (string \<times> u64) list \<Rightarrow> (string \<times> string) list" where
  "capacity_victims L max_entries aged entries =
     (case max_entries of
        None \<Rightarrow> []
      | Some cap \<Rightarrow>
          (let remaining = filter (\<lambda>(k, _). k \<notin> set aged) entries in
           if cap < length remaining then
             map (\<lambda>(k, _). (k, ''capacity'')) (take (length remaining - cap) (sort_by_age L remaining))
           else []))"

definition namespace_down :: "('s, 'n, 'f) store_lib \<Rightarrow> string \<Rightarrow> nat \<Rightarrow> 'n \<Rightarrow> 'n" where
  "namespace_down L ns n t =
     (if n = 0 then t
      else if unat (num_at L t ns) \<le> n then tb_remove (num_tbl L) ns t
      else tb_insert (num_tbl L) ns (num_at L t ns - of_nat n) t)"

text \<open>\<open>ok\<close>: the write transaction commits.\<close>

definition evict ::
    "('s, 'n, 'f) store_lib \<Rightarrow> bool \<Rightarrow> string \<Rightarrow> nat option \<Rightarrow> u64 option \<Rightarrow> u64 \<Rightarrow> ('s, 'n) redb_store \<Rightarrow>
     (store_error + evicted_entry list) \<times> ('s, 'n) redb_store" where
  "evict L ok ns max_entries max_age now db =
     (if segment_class L ns db = Some Canon then (Inr [], db)
      else
        let entries = tb_range (num_tbl L) (prefix_start ns) (prefix_end ns) (st_age db);
            aged = age_victims max_age now entries;
            victims = aged @ capacity_victims L max_entries (map fst aged) entries
        in if victims = [] then (Inr [], db)
           else if \<not> ok then (Inl TxFailed, db)
           else
             (case evict_loop L ns victims [] db of
                Inl e \<Rightarrow> (Inl e, db)
              | Inr (out, db') \<Rightarrow>
                  (Inr out, db'\<lparr>st_namespaces := namespace_down L ns (length out) (st_namespaces db')\<rparr>)))"

definition enforce_segment_limits ::
    "('s, 'n, 'f) store_lib \<Rightarrow> bool \<Rightarrow> string \<Rightarrow> u64 \<Rightarrow> ('s, 'n) redb_store \<Rightarrow> ('s, 'n) redb_store" where
  "enforce_segment_limits L ok ns now db =
     (let me = num_at L (st_meta db) (SEG_MAX_ENTRIES_PREFIX @ ns);
          ma = num_at L (st_meta db) (SEG_MAX_AGE_PREFIX @ ns);
          max_entries = (if 0 < me then Some (unat me) else None);
          max_age = (if 0 < ma then Some ma else None)
      in if max_entries = None \<and> max_age = None then db
         else snd (evict L ok ns max_entries max_age now db))"

subsection \<open>Writing\<close>

text \<open>The body of a write transaction that leaves \<open>value\<close> at the entry and indexes \<open>toks\<close>.\<close>

definition write_entry ::
    "('s, 'n, 'f) store_lib \<Rightarrow> string \<Rightarrow> string \<Rightarrow> string \<Rightarrow> string list \<Rightarrow> bool \<Rightarrow> u64 \<Rightarrow> ('s, 'n) redb_store \<Rightarrow>
     store_error + ('s, 'n) redb_store" where
  "write_entry L ns ek val toks is_new now db =
     (case index_tokens L ns ek [] toks (st_index db) of
        Inl e \<Rightarrow> Inl e
      | Inr idx \<Rightarrow>
          Inr (db\<lparr>st_entries := tb_insert (str_tbl L) ek val (st_entries db),
                 st_age := tb_insert (num_tbl L) ek now (st_age db),
                 st_index := idx,
                 st_meta := (if is_new then count_up L (DOC_COUNT_PREFIX @ ns) (st_meta db) else st_meta db),
                 st_namespaces :=
                   (if is_new then count_up L ns (st_namespaces db) else st_namespaces db)\<rparr>))"

definition put_txn ::
    "('s, 'n, 'f) store_lib \<Rightarrow> string \<Rightarrow> string \<Rightarrow> string \<Rightarrow> u64 \<Rightarrow> ('s, 'n) redb_store \<Rightarrow>
     store_error + ('s, 'n) redb_store" where
  "put_txn L ns key val now db =
     (let ek = entry_key ns key in
      case tb_get (str_tbl L) (st_entries db) ek of
        None \<Rightarrow> write_entry L ns ek val (tokenize L val) True now db
      | Some old \<Rightarrow>
          (case deindex_tokens L ns ek [] (tokenize L old) (st_index db) of
             Inl e \<Rightarrow> Inl e
           | Inr idx \<Rightarrow> write_entry L ns ek val (tokenize L val) False now (db\<lparr>st_index := idx\<rparr>)))"

definition append_txn ::
    "('s, 'n, 'f) store_lib \<Rightarrow> string \<Rightarrow> string \<Rightarrow> string \<Rightarrow> u64 \<Rightarrow> ('s, 'n) redb_store \<Rightarrow>
     store_error + ('s, 'n) redb_store" where
  "append_txn L ns key val now db =
     (let ek = entry_key ns key in
      case tb_get (str_tbl L) (st_entries db) ek of
        None \<Rightarrow> write_entry L ns ek val (tokenize L val) True now db
      | Some old \<Rightarrow> write_entry L ns ek (old @ [CHR 0x0A] @ val) (tokenize L val) False now db)"

text \<open>\<open>ok\<close> and \<open>ok'\<close>: the write and the eviction that follows it commit.\<close>

definition commit_write ::
    "('s, 'n, 'f) store_lib \<Rightarrow> bool \<Rightarrow> bool \<Rightarrow> string \<Rightarrow> u64 \<Rightarrow> store_error + ('s, 'n) redb_store \<Rightarrow> ('s, 'n) redb_store \<Rightarrow>
     (store_error + unit) \<times> ('s, 'n) redb_store" where
  "commit_write L ok ok' ns now res db =
     (case res of
        Inl e \<Rightarrow> (Inl e, db)
      | Inr db' \<Rightarrow>
          if \<not> ok then (Inl TxFailed, db) else (Inr (), enforce_segment_limits L ok' ns now db'))"

definition put_at ::
    "('s, 'n, 'f) store_lib \<Rightarrow> bool \<Rightarrow> bool \<Rightarrow> string \<Rightarrow> string \<Rightarrow> string \<Rightarrow> u64 \<Rightarrow> ('s, 'n) redb_store \<Rightarrow>
     (store_error + unit) \<times> ('s, 'n) redb_store" where
  "put_at L ok ok' ns key val now db = commit_write L ok ok' ns now (put_txn L ns key val now db) db"

definition append_at ::
    "('s, 'n, 'f) store_lib \<Rightarrow> bool \<Rightarrow> bool \<Rightarrow> string \<Rightarrow> string \<Rightarrow> string \<Rightarrow> u64 \<Rightarrow> ('s, 'n) redb_store \<Rightarrow>
     (store_error + unit) \<times> ('s, 'n) redb_store" where
  "append_at L ok ok' ns key val now db = commit_write L ok ok' ns now (append_txn L ns key val now db) db"

definition store_delete ::
    "('s, 'n, 'f) store_lib \<Rightarrow> bool \<Rightarrow> string \<Rightarrow> string \<Rightarrow> ('s, 'n) redb_store \<Rightarrow>
     (store_error + bool) \<times> ('s, 'n) redb_store" where
  "store_delete L ok ns key db =
     (let ek = entry_key ns key in
      case tb_get (str_tbl L) (st_entries db) ek of
        None \<Rightarrow> (if ok then Inr False else Inl TxFailed, db)
      | Some old \<Rightarrow>
          (case drop_entry L ns ek old db of
             Inl e \<Rightarrow> (Inl e, db)
           | Inr db' \<Rightarrow>
               if \<not> ok then (Inl TxFailed, db)
               else
                 let cur = (case tb_get (num_tbl L) (st_namespaces db') ns of None \<Rightarrow> 1 | Some n \<Rightarrow> n)
                 in (Inr True,
                     db'\<lparr>st_namespaces :=
                           (if cur \<le> 1 then tb_remove (num_tbl L) ns (st_namespaces db')
                            else tb_insert (num_tbl L) ns (cur - 1) (st_namespaces db'))\<rparr>)))"

subsection \<open>Search\<close>

record 'f search_hit =
  sh_namespace :: string
  sh_key :: string
  sh_score :: 'f
  sh_value :: string

definition query_terms :: "('s, 'n, 'f) store_lib \<Rightarrow> string \<Rightarrow> string list" where
  "query_terms L q = take 64 (remdups_adj (sort (tokenize L q)))"

fun read_postings ::
    "('s, 'n, 'f) store_lib \<Rightarrow> 's \<Rightarrow> string \<Rightarrow> string list \<Rightarrow> store_error + string list list" where
  "read_postings L t ns [] = Inr []"
| "read_postings L t ns (w # ws) =
     (case read_posting_list L t ns w of
        Inl e \<Rightarrow> Inl e
      | Inr p \<Rightarrow> (case read_postings L t ns ws of Inl e \<Rightarrow> Inl e | Inr ps \<Rightarrow> Inr (p # ps)))"

definition passes_author :: "('s, 'n, 'f) store_lib \<Rightarrow> string option \<Rightarrow> string \<Rightarrow> bool" where
  "passes_author L author val =
     (case author of
        None \<Rightarrow> True
      | Some a \<Rightarrow>
          (case Option.bind (value_of_json L val)
                  (\<lambda>v. Option.bind (json_get v ''provenance'')
                    (\<lambda>p. Option.bind (json_get p ''agent_id'') json_as_str)) of
             None \<Rightarrow> True
           | Some b \<Rightarrow> b = a))"

definition idf :: "'f f64_ops \<Rightarrow> nat \<Rightarrow> nat \<Rightarrow> 'f" where
  "idf F n df = f_ln F (f_add F (f_nat F 1) (f_div F (f_nat F n) (f_add F (f_nat F 1) (f_nat F df))))"

fun score_terms :: "'f f64_ops \<Rightarrow> nat \<Rightarrow> (nat \<times> nat) list \<Rightarrow> 'f \<Rightarrow> 'f" where
  "score_terms F n [] acc = acc"
| "score_terms F n ((tf, df) # rest) acc =
     score_terms F n rest (f_add F acc (f_mul F (f_nat F tf) (idf F n df)))"

definition score_hit ::
    "('s, 'n, 'f::linorder) store_lib \<Rightarrow> nat \<Rightarrow> string \<Rightarrow> string list \<Rightarrow> nat list \<Rightarrow> string option \<Rightarrow>
     ('s, 'n) redb_store \<Rightarrow> string \<Rightarrow> 'f search_hit option" where
  "score_hit L n ns ts dfs author db ck =
     (case tb_get (str_tbl L) (st_entries db) ck of
        None \<Rightarrow> None
      | Some val \<Rightarrow>
          if \<not> passes_author L author val then None
          else
            let sc = score_terms (f64 L) n (zip (term_frequencies (tokenize L val) ts) dfs) (f_nat (f64 L) 0) in
            if sc \<le> f_nat (f64 L) 0 then None
            else Some \<lparr>sh_namespace = ns,
                       sh_key = (if prefix (prefix_start ns) ck then drop (length ns + 1) ck else ck),
                       sh_score = sc, sh_value = val\<rparr>)"

text \<open>\<open>sort_by\<close> with a comparison: higher scores first, then keys in order.\<close>

definition hit_before :: "'f::linorder search_hit \<Rightarrow> 'f search_hit \<Rightarrow> bool" where
  "hit_before a b \<longleftrightarrow> sh_score b < sh_score a \<or> sh_score a = sh_score b \<and> sh_key a \<le> sh_key b"

fun insert_by :: "('a \<Rightarrow> 'a \<Rightarrow> bool) \<Rightarrow> 'a \<Rightarrow> 'a list \<Rightarrow> 'a list" where
  "insert_by le x [] = [x]"
| "insert_by le x (y # ys) = (if le x y then x # y # ys else y # insert_by le x ys)"

definition sort_by :: "('a \<Rightarrow> 'a \<Rightarrow> bool) \<Rightarrow> 'a list \<Rightarrow> 'a list" where
  "sort_by le xs = foldr (insert_by le) xs []"

definition store_search ::
    "('s, 'n, 'f::linorder) store_lib \<Rightarrow> string option \<Rightarrow> string \<Rightarrow> string option \<Rightarrow> nat \<Rightarrow> ('s, 'n) redb_store \<Rightarrow>
     store_error + ('f search_hit list \<times> nat)" where
  "store_search L ns_opt q author limit db =
     (case ns_opt of
        None \<Rightarrow> Inl CrossSegmentSearch
      | Some ns \<Rightarrow>
          let ts = query_terms L q in
          if ts = [] then Inr ([], 0)
          else
            (case read_postings L (st_index db) ns ts of
               Inl e \<Rightarrow> Inl e
             | Inr postings \<Rightarrow>
                 let n = max (unat (num_at L (st_meta db) (DOC_COUNT_PREFIX @ ns))) 1;
                     candidates = fold (fold List.insert) postings [];
                     hits = List.map_filter (score_hit L n ns ts (map length postings) author db) candidates
                 in Inr (take limit (sort_by hit_before hits), length ts)))"

subsection \<open>Opening\<close>

text \<open>The namespaces of a store from before the counters existed are counted once, at boot.\<close>

definition namespace_of :: "string \<Rightarrow> string option" where
  "namespace_of k = (if CHR 0x00 \<in> set k then Some (takeWhile (\<lambda>c. c \<noteq> CHR 0x00) k) else None)"

definition backfill_counts :: "string list \<Rightarrow> (string, u64) hashmap" where
  "backfill_counts ks =
     fold (\<lambda>k m. case namespace_of k of
         None \<Rightarrow> m
       | Some ns \<Rightarrow> put ns ((case get m ns of None \<Rightarrow> 0 | Some n \<Rightarrow> n) + 1) m) ks []"

text \<open>\<open>ok\<close>: the transaction of the backfill commits; a failure of it is only logged.\<close>

definition init_schema :: "('s, 'n, 'f) store_lib \<Rightarrow> bool \<Rightarrow> ('s, 'n) redb_store \<Rightarrow> ('s, 'n) redb_store" where
  "init_schema L ok db =
     (let db1 = (if tb_get (num_tbl L) (st_meta db) ''format_version'' = None
                 then db\<lparr>st_meta := tb_insert (num_tbl L) ''format_version'' SCHEMA_VERSION (st_meta db)\<rparr>
                 else db);
          keys = map fst (tb_iter (str_tbl L) (st_entries db1))
      in if tb_iter (num_tbl L) (st_namespaces db1) = [] \<and> keys \<noteq> [] \<and> ok
         then db1\<lparr>st_namespaces := fold (\<lambda>(ns, c). tb_insert (num_tbl L) ns c) (backfill_counts keys) (st_namespaces db1)\<rparr>
         else db1)"

datatype io_kind = InvalidData | OtherIo

datatype database_error = DatabaseAlreadyOpen | StorageCorrupted | StorageIo io_kind | OtherDatabaseError

datatype open_failure = OpenLocked | OpenCorrupt | OpenOther

definition classify_db_error :: "database_error \<Rightarrow> open_failure" where
  "classify_db_error e =
     (if e = DatabaseAlreadyOpen then OpenLocked
      else if e = StorageCorrupted \<or> e = StorageIo InvalidData then OpenCorrupt
      else OpenOther)"

text \<open>
  What the system answers to one attempt: whether the file exists, what opening and creating it
  give, whether setting its mode and the two transactions of the schema succeed.
\<close>

record ('s, 'n) open_io =
  oi_exists :: bool
  oi_open :: "database_error + ('s, 'n) redb_store"
  oi_create :: "('s, 'n) redb_store option"
  oi_chmod :: bool
  oi_schema :: bool
  oi_backfill :: bool

definition try_open ::
    "('s, 'n, 'f) store_lib \<Rightarrow> ('s, 'n) open_io \<Rightarrow> open_failure + ('s, 'n) redb_store" where
  "try_open L io =
     (case (if oi_exists io then (case oi_open io of Inl e \<Rightarrow> Inl (classify_db_error e) | Inr db \<Rightarrow> Inr db)
            else (case oi_create io of None \<Rightarrow> Inl OpenOther | Some db \<Rightarrow> Inr db)) of
        Inl e \<Rightarrow> Inl e
      | Inr db \<Rightarrow>
          if \<not> oi_chmod io then Inl OpenOther
          else if \<not> oi_schema io then Inl OpenOther
          else Inr (init_schema L (oi_backfill io) db))"

text \<open>\<open>renamed\<close>: the corrupt file could be moved away; \<open>io'\<close> is the second attempt.\<close>

definition store_open ::
    "('s, 'n, 'f) store_lib \<Rightarrow> ('s, 'n) open_io \<Rightarrow> bool \<Rightarrow> ('s, 'n) open_io \<Rightarrow>
     open_failure + (('s, 'n) redb_store \<times> bool)" where
  "store_open L io renamed io' =
     (case try_open L io of
        Inr db \<Rightarrow> Inr (db, False)
      | Inl OpenLocked \<Rightarrow> Inl OpenLocked
      | Inl OpenOther \<Rightarrow> Inl OpenOther
      | Inl OpenCorrupt \<Rightarrow>
          if \<not> renamed then Inl OpenCorrupt
          else (case try_open L io' of Inl e \<Rightarrow> Inl e | Inr db \<Rightarrow> Inr (db, True)))"

end
