(* ===== verification/Memory_Laws.thy ===== *)
theory Memory_Laws
  imports Memory_Store "HOL-Library.Multiset"
begin

section \<open>Laws of the memory store\<close>

text \<open>
  What the code relies on in \<open>redb\<close>, \<open>serde_json\<close> and the standard library, the invariant that ties
  the tables of the store together, and what its operations do.
\<close>

subsection \<open>The documented behaviour of the parameters\<close>

definition table_laws :: "('t, 'v) table_ops \<Rightarrow> bool" where
  "table_laws T \<longleftrightarrow>
     (\<forall>k v t k'. tb_get T (tb_insert T k v t) k' = (if k' = k then Some v else tb_get T t k')) \<and>
     (\<forall>k t k'. tb_get T (tb_remove T k t) k' = (if k' = k then None else tb_get T t k')) \<and>
     (\<forall>lo hi t. set (tb_range T lo hi t) = {(k, v). tb_get T t k = Some v \<and> lo \<le> k \<and> k < hi} \<and>
        sorted_wrt (<) (map fst (tb_range T lo hi t))) \<and>
     (\<forall>t. set (tb_iter T t) = {(k, v). tb_get T t k = Some v} \<and> sorted_wrt (<) (map fst (tb_iter T t)))"

text \<open>A Rust string is valid UTF-8, so it does not begin with a continuation byte.\<close>

definition starts_char :: "string \<Rightarrow> bool" where
  "starts_char s \<longleftrightarrow> s = [] \<or> \<not> is_continuation_byte (hd s)"

definition lib_laws :: "('s, 'n, 'f) store_lib \<Rightarrow> bool" where
  "lib_laws L \<longleftrightarrow>
     table_laws (str_tbl L) \<and> table_laws (num_tbl L) \<and>
     (\<forall>l. list_of_json L (list_to_json L l) = Some l) \<and>
     (\<forall>a b. to_lowercase L (a @ [CHR 0x0A] @ b) = to_lowercase L a @ [CHR 0x0A] @ to_lowercase L b) \<and>
     (\<forall>b. starts_char b \<longrightarrow> starts_char (to_lowercase L b)) \<and>
     \<not> is_alphanumeric L [CHR 0x0A] \<and>
     (\<forall>xs. mset (sort_by_age L xs) = mset xs \<and> sorted (map snd (sort_by_age L xs)))"

lemma lib_lawsD:
  assumes "lib_laws L"
  shows "table_laws (str_tbl L)" "table_laws (num_tbl L)" "list_of_json L (list_to_json L l) = Some l"
    "to_lowercase L (a @ CHR 0x0A # b) = to_lowercase L a @ CHR 0x0A # to_lowercase L b"
    "starts_char b \<Longrightarrow> starts_char (to_lowercase L b)" "\<not> is_alphanumeric L [CHR 0x0A]"
    "mset (sort_by_age L xs) = mset xs" "sorted (map snd (sort_by_age L xs))"
  using assms unfolding lib_laws_def by simp_all

lemma tb_get_insert: "table_laws T \<Longrightarrow> tb_get T (tb_insert T k v t) k' = (if k' = k then Some v else tb_get T t k')"
  unfolding table_laws_def by blast

lemma tb_get_remove: "table_laws T \<Longrightarrow> tb_get T (tb_remove T k t) k' = (if k' = k then None else tb_get T t k')"
  unfolding table_laws_def by blast

lemma tb_range_set: "table_laws T \<Longrightarrow> set (tb_range T lo hi t) = {(k, v). tb_get T t k = Some v \<and> lo \<le> k \<and> k < hi}"
  unfolding table_laws_def by blast

lemma tb_range_distinct: "table_laws T \<Longrightarrow> distinct (map fst (tb_range T lo hi t))"
  unfolding table_laws_def using strict_sorted_iff by blast

lemma tb_iter_set: "table_laws T \<Longrightarrow> set (tb_iter T t) = {(k, v). tb_get T t k = Some v}"
  unfolding table_laws_def by blast

named_theorems tb_simps \<open>lookups after an update of a table\<close>

lemma tb_num [tb_simps]:
  assumes "lib_laws L"
  shows "tb_get (num_tbl L) (tb_insert (num_tbl L) k n t) k' = (if k' = k then Some n else tb_get (num_tbl L) t k')"
    "tb_get (num_tbl L) (tb_remove (num_tbl L) k t) k' = (if k' = k then None else tb_get (num_tbl L) t k')"
    "num_at L (tb_insert (num_tbl L) k n t) k' = (if k' = k then n else num_at L t k')"
    "num_at L (tb_remove (num_tbl L) k t) k' = (if k' = k then 0 else num_at L t k')"
  using lib_lawsD(2) [OF assms] by (simp_all add: tb_get_insert tb_get_remove num_at_def)

lemma tb_str [tb_simps]:
  assumes "lib_laws L"
  shows "tb_get (str_tbl L) (tb_insert (str_tbl L) k v t) k' = (if k' = k then Some v else tb_get (str_tbl L) t k')"
    "tb_get (str_tbl L) (tb_remove (str_tbl L) k t) k' = (if k' = k then None else tb_get (str_tbl L) t k')"
  using lib_lawsD(1) [OF assms] by (simp_all add: tb_get_insert tb_get_remove)

subsection \<open>Composite keys\<close>

definition nul_free :: "string \<Rightarrow> bool" where
  "nul_free s \<longleftrightarrow> CHR 0x00 \<notin> set s"

definition in_ns :: "string \<Rightarrow> string \<Rightarrow> bool" where
  "in_ns ns ek \<longleftrightarrow> prefix (prefix_start ns) ek"

lemma in_ns_entry_key [simp]: "in_ns ns (entry_key ns k)"
  by (simp add: in_ns_def entry_key_def)

lemma nul_split:
  "nul_free a \<Longrightarrow> nul_free b \<Longrightarrow> a @ CHR 0x00 # x = b @ CHR 0x00 # y \<longleftrightarrow> a = b \<and> x = y"
  unfolding nul_free_def
proof (induction a arbitrary: b)
  case Nil
  then show ?case by (cases b) auto
next
  case (Cons c a)
  then show ?case by (cases b) auto
qed

lemma in_ns_iff: "in_ns ns ek \<longleftrightarrow> (\<exists>k. ek = entry_key ns k)"
  by (auto simp: in_ns_def entry_key_def prefix_def)

lemma in_ns_unique: "nul_free a \<Longrightarrow> nul_free b \<Longrightarrow> in_ns a ek \<Longrightarrow> in_ns b ek \<Longrightarrow> a = b"
  by (auto simp: in_ns_iff entry_key_def nul_split)

lemma entry_key_inject:
  "nul_free a \<Longrightarrow> nul_free b \<Longrightarrow> entry_key a x = entry_key b y \<longleftrightarrow> a = b \<and> x = y"
  by (simp add: entry_key_def nul_split)

lemma index_key_inject:
  "nul_free a \<Longrightarrow> nul_free b \<Longrightarrow> index_key a x = index_key b y \<longleftrightarrow> a = b \<and> x = y"
  by (simp add: index_key_def nul_split)

lemma drop_entry_key [simp]: "drop (Suc (length ns)) (entry_key ns k) = k"
  by (simp add: entry_key_def)

lemma char_zero_less: "(CHR 0x00 :: char) \<le> c" "c < CHR 0x01 \<longleftrightarrow> c = CHR 0x00"
proof -
  have "(of_char c :: nat) < 1 \<longleftrightarrow> (of_char c :: nat) = of_char (CHR 0x00)" by simp
  then show "c < CHR 0x01 \<longleftrightarrow> c = CHR 0x00"
    unfolding less_char_def of_char_eq_iff by simp
qed (simp add: less_eq_char_def)

text \<open>The range that a scan reads holds exactly the keys of the namespace.\<close>

lemma range_step:
  assumes "prefix_start ns \<le> ds \<and> ds < prefix_end ns \<longleftrightarrow> prefix (prefix_start ns) ds"
  shows "prefix_start (c # ns) \<le> d # ds \<and> d # ds < prefix_end (c # ns) \<longleftrightarrow> prefix (prefix_start (c # ns)) (d # ds)"
  using assms unfolding append_Cons Cons_le_Cons Cons_less_Cons Cons_prefix_Cons by (metis less_asym)

lemma range_base:
  "[CHR 0x00] \<le> c # cs" "c # cs < [CHR 0x01] \<longleftrightarrow> c = CHR 0x00" "prefix [CHR 0x00] (c # cs) \<longleftrightarrow> c = CHR 0x00"
proof -
  show "[CHR 0x00] \<le> c # cs"
    unfolding Cons_le_Cons using char_zero_less(1) [of c] Nil_le_Cons [of cs] unfolding order_le_less [of "CHR 0x00"] by blast
  show "c # cs < [CHR 0x01] \<longleftrightarrow> c = CHR 0x00"
    unfolding Cons_less_Cons char_zero_less(2) by (simp only: not_less_Nil simp_thms)
qed auto

lemma range_is_namespace: "prefix_start ns \<le> k \<and> k < prefix_end ns \<longleftrightarrow> in_ns ns k"
  unfolding in_ns_def
proof (induction ns arbitrary: k)
  case Nil
  show ?case by (cases k) (simp_all only: append_Nil range_base simp_thms, simp)
next
  case (Cons c ns)
  note IH = this
  show ?case
  proof (cases k)
    case (Cons d ds)
    show ?thesis unfolding Cons by (rule range_step [OF IH])
  qed simp
qed

subsection \<open>Tokens of an appended text\<close>

lemma split_on_append: "p c \<Longrightarrow> split_on p (xs @ c # ys) acc = split_on p xs acc @ split_on p ys []"
  by (induction p xs acc rule: split_on.induct) auto

lemma utf8_chars_append:
  "starts_char b \<Longrightarrow> utf8_chars (a @ b) = utf8_chars a @ utf8_chars b"
proof (induction a rule: utf8_chars.induct)
  case (2 c cs)
  let ?p = is_continuation_byte
  have b: "takeWhile ?p b = []" "dropWhile ?p b = b" using 2(2) by (cases b; simp add: starts_char_def)+
  have tk: "takeWhile ?p (cs @ b) = takeWhile ?p cs" and dr: "dropWhile ?p (cs @ b) = dropWhile ?p cs @ b"
    unfolding takeWhile_append dropWhile_append b by (simp_all add: takeWhile_eq_all_conv [THEN iffD2] dropWhile_eq_Nil_conv)
  show ?case using 2 by (simp add: tk dr)
qed simp

lemma tokenize_append:
  assumes "lib_laws L" and "starts_char b"
  shows "tokenize L (a @ CHR 0x0A # b) = tokenize L a @ tokenize L b"
proof -
  have nl: "starts_char (CHR 0x0A # x)" for x by (simp add: starts_char_def is_continuation_byte_def)
  have s: "starts_char (to_lowercase L b)" using lib_lawsD(5) [OF assms(1)] assms(2) .
  have "utf8_chars (CHR 0x0A # to_lowercase L b) = [CHR 0x0A] # utf8_chars (to_lowercase L b)"
    using utf8_chars_append [OF s, of "[CHR 0x0A]"] by simp
  then show ?thesis
    unfolding tokenize_def lib_lawsD(4) [OF assms(1)] utf8_chars_append [OF nl]
    using split_on_append [of "\<lambda>c. \<not> is_alphanumeric L c" "[CHR 0x0A]"] lib_lawsD(6) [OF assms(1)] by simp
qed

subsection \<open>The inverted index\<close>

definition readable :: "('s, 'n, 'f) store_lib \<Rightarrow> 's \<Rightarrow> bool" where
  "readable L t \<longleftrightarrow> (\<forall>ns w. nul_free ns \<longrightarrow> \<not> isl (read_posting_list L t ns w))"

definition posting :: "('s, 'n, 'f) store_lib \<Rightarrow> 's \<Rightarrow> string \<Rightarrow> string \<Rightarrow> string list" where
  "posting L t ns w = projr (read_posting_list L t ns w)"

lemma read_posting: "readable L t \<Longrightarrow> nul_free ns \<Longrightarrow> read_posting_list L t ns w = Inr (posting L t ns w)"
  by (simp add: readable_def posting_def)

lemma read_after_write:
  assumes "lib_laws L" and "nul_free ns" and "nul_free ns'"
  shows "read_posting_list L (write_posting_list L ns w l t) ns' w' =
    (if ns' = ns \<and> w' = w then Inr l else read_posting_list L t ns' w')"
  using assms by (simp add: read_posting_list_def write_posting_list_def tb_simps index_key_inject lib_lawsD(3))

lemma write_posting [simp]:
  assumes "lib_laws L" and "nul_free ns"
  shows "readable L t \<Longrightarrow> readable L (write_posting_list L ns w l t)"
    "nul_free ns' \<Longrightarrow> posting L (write_posting_list L ns w l t) ns' w' = (if ns' = ns \<and> w' = w then l else posting L t ns' w')"
  using assms by (auto simp: readable_def posting_def read_after_write)

lemma index_tokens_spec:
  assumes "lib_laws L" and "nul_free ns" and "readable L t"
  shows "\<exists>t'. index_tokens L ns ek seen toks t = Inr t' \<and> readable L t' \<and>
    (\<forall>ns' w. nul_free ns' \<longrightarrow> posting L t' ns' w =
       (if ns' = ns \<and> w \<in> set toks - set seen \<and> ek \<notin> set (posting L t ns w)
        then posting L t ns w @ [ek] else posting L t ns' w))"
  using assms(3)
proof (induction toks arbitrary: seen t)
  case (Cons tok toks)
  show ?case
  proof (cases "tok \<in> set seen")
    case True
    with Cons show ?thesis by auto
  next
    case False
    let ?t = "if ek \<in> set (posting L t ns tok) then t else write_posting_list L ns tok (posting L t ns tok @ [ek]) t"
    have "readable L ?t" using Cons.prems assms by simp
    from Cons.IH [OF this, of "tok # seen"] obtain t' where t': "index_tokens L ns ek (tok # seen) toks ?t = Inr t'" "readable L t'"
      "\<forall>ns' w. nul_free ns' \<longrightarrow> posting L t' ns' w =
         (if ns' = ns \<and> w \<in> set toks - set (tok # seen) \<and> ek \<notin> set (posting L ?t ns w)
          then posting L ?t ns w @ [ek] else posting L ?t ns' w)" by blast
    have "index_tokens L ns ek seen (tok # toks) t = Inr t'"
      using False t'(1) read_posting [OF Cons.prems assms(2)] by simp
    with t'(2,3) False assms show ?thesis by auto
  qed
qed simp

lemma deindex_tokens_spec:
  assumes "lib_laws L" and "nul_free ns" and "readable L t"
  shows "\<exists>t'. deindex_tokens L ns ek seen toks t = Inr t' \<and> readable L t' \<and>
    (\<forall>ns' w. nul_free ns' \<longrightarrow> posting L t' ns' w =
       (if ns' = ns \<and> w \<in> set toks - set seen then filter (\<lambda>k. k \<noteq> ek) (posting L t ns w) else posting L t ns' w))"
  using assms(3)
proof (induction toks arbitrary: seen t)
  case (Cons tok toks)
  show ?case
  proof (cases "tok \<in> set seen")
    case True
    with Cons show ?thesis by auto
  next
    case False
    let ?t = "write_posting_list L ns tok (filter (\<lambda>k. k \<noteq> ek) (posting L t ns tok)) t"
    have "readable L ?t" using Cons.prems assms by simp
    from Cons.IH [OF this, of "tok # seen"] obtain t' where t': "deindex_tokens L ns ek (tok # seen) toks ?t = Inr t'" "readable L t'"
      "\<forall>ns' w. nul_free ns' \<longrightarrow> posting L t' ns' w =
         (if ns' = ns \<and> w \<in> set toks - set (tok # seen) then filter (\<lambda>k. k \<noteq> ek) (posting L ?t ns w) else posting L ?t ns' w)"
      by blast
    have "deindex_tokens L ns ek seen (tok # toks) t = Inr t'"
      using False t'(1) read_posting [OF Cons.prems assms(2)] by simp
    with t'(2,3) False assms show ?thesis by auto
  qed
qed simp

text \<open>The index describes the entries: each posting list holds, once, the entries that contain its word.\<close>

definition indexed :: "('s, 'n, 'f) store_lib \<Rightarrow> 's \<Rightarrow> (string \<Rightarrow> string option) \<Rightarrow> bool" where
  "indexed L t f \<longleftrightarrow> readable L t \<and>
     (\<forall>ns w. nul_free ns \<longrightarrow> distinct (posting L t ns w) \<and>
        set (posting L t ns w) = {ek. in_ns ns ek \<and> (\<exists>v. f ek = Some v \<and> w \<in> set (tokenize L v))})"

lemma indexedD:
  assumes "indexed L t f"
  shows "readable L t" "nul_free ns \<Longrightarrow> distinct (posting L t ns w)"
    "nul_free ns \<Longrightarrow> set (posting L t ns w) = {ek. in_ns ns ek \<and> (\<exists>v. f ek = Some v \<and> w \<in> set (tokenize L v))}"
  using assms unfolding indexed_def by blast+

lemma index_tokens_indexed:
  assumes "lib_laws L" and "nul_free ns" and "in_ns ns ek" and "indexed L t f"
    and "set (tokenize L v) = (case f ek of None \<Rightarrow> {} | Some old \<Rightarrow> set (tokenize L old)) \<union> set toks"
  shows "\<exists>t'. index_tokens L ns ek [] toks t = Inr t' \<and> indexed L t' (f(ek \<mapsto> v))"
proof -
  note d = indexedD [OF assms(4)]
  obtain t' where t': "index_tokens L ns ek [] toks t = Inr t'" "readable L t'"
    "\<And>ns' w. nul_free ns' \<Longrightarrow> posting L t' ns' w =
       (if ns' = ns \<and> w \<in> set toks \<and> ek \<notin> set (posting L t ns w) then posting L t ns w @ [ek] else posting L t ns' w)"
    using index_tokens_spec [OF assms(1,2) d(1), of ek "[]" toks] by auto
  have "distinct (posting L t' ns' w) \<and>
      set (posting L t' ns' w) = {k. in_ns ns' k \<and> (\<exists>u. (f(ek \<mapsto> v)) k = Some u \<and> w \<in> set (tokenize L u))}" if "nul_free ns'" for ns' w
  proof (cases "ns' = ns")
    case True
    show ?thesis
      using d(2,3) [OF assms(2), of w] assms(3,5) by (auto simp: True t'(3) [OF assms(2)] split: option.splits)
  next
    case False
    then have "\<not> in_ns ns' ek" using in_ns_unique [OF assms(2) that assms(3)] by blast
    with False show ?thesis using d(2,3) [OF that, of w] by (auto simp: t'(3) [OF that])
  qed
  with t' show ?thesis unfolding indexed_def by blast
qed

lemma deindex_tokens_indexed:
  assumes "lib_laws L" and "nul_free ns" and "in_ns ns ek" and "indexed L t f" and "f ek = Some old"
  shows "\<exists>t'. deindex_tokens L ns ek [] (tokenize L old) t = Inr t' \<and> indexed L t' (f(ek := None))"
proof -
  note d = indexedD [OF assms(4)]
  obtain t' where t': "deindex_tokens L ns ek [] (tokenize L old) t = Inr t'" "readable L t'"
    "\<And>ns' w. nul_free ns' \<Longrightarrow> posting L t' ns' w =
       (if ns' = ns \<and> w \<in> set (tokenize L old) then filter (\<lambda>k. k \<noteq> ek) (posting L t ns w) else posting L t ns' w)"
    using deindex_tokens_spec [OF assms(1,2) d(1), of ek "[]" "tokenize L old"] by auto
  have "distinct (posting L t' ns' w) \<and>
      set (posting L t' ns' w) = {k. in_ns ns' k \<and> (\<exists>u. (f(ek := None)) k = Some u \<and> w \<in> set (tokenize L u))}" if "nul_free ns'" for ns' w
  proof (cases "ns' = ns")
    case True
    show ?thesis
      using d(2,3) [OF assms(2), of w] assms(3,5) by (auto simp: True t'(3) [OF assms(2)])
  next
    case False
    then have "\<not> in_ns ns' ek" using in_ns_unique [OF assms(2) that assms(3)] by blast
    with False show ?thesis using d(2,3) [OF that, of w] by (auto simp: t'(3) [OF that])
  qed
  with t' show ?thesis unfolding indexed_def by blast
qed

subsection \<open>The invariant of the store\<close>

definition entries_of :: "('s, 'n, 'f) store_lib \<Rightarrow> ('s, 'n) redb_store \<Rightarrow> string \<Rightarrow> string option" where
  "entries_of L db = tb_get (str_tbl L) (st_entries db)"

definition keys_in :: "(string \<Rightarrow> string option) \<Rightarrow> string \<Rightarrow> string set" where
  "keys_in f ns = {ek. f ek \<noteq> None \<and> in_ns ns ek}"

text \<open>All but the counters of the namespaces, which an eviction updates only at its end.\<close>

definition core_ok :: "('s, 'n, 'f) store_lib \<Rightarrow> ('s, 'n) redb_store \<Rightarrow> bool" where
  "core_ok L db \<longleftrightarrow>
     indexed L (st_index db) (entries_of L db) \<and>
     (\<forall>ek. tb_get (num_tbl L) (st_age db) ek = None \<longleftrightarrow> entries_of L db ek = None) \<and>
     (\<forall>ns. nul_free ns \<longrightarrow>
        unat (num_at L (st_meta db) (DOC_COUNT_PREFIX @ ns)) = card (keys_in (entries_of L db) ns))"

definition store_ok :: "('s, 'n, 'f) store_lib \<Rightarrow> ('s, 'n) redb_store \<Rightarrow> bool" where
  "store_ok L db \<longleftrightarrow> core_ok L db \<and>
     (\<forall>ns. nul_free ns \<longrightarrow> unat (namespace_count L ns db) = card (keys_in (entries_of L db) ns))"

lemma core_okD:
  assumes "core_ok L db"
  shows "indexed L (st_index db) (entries_of L db)"
    "tb_get (num_tbl L) (st_age db) ek = None \<longleftrightarrow> entries_of L db ek = None"
    "nul_free ns \<Longrightarrow> unat (num_at L (st_meta db) (DOC_COUNT_PREFIX @ ns)) = card (keys_in (entries_of L db) ns)"
  using assms unfolding core_ok_def by blast+

lemma store_okD: "store_ok L db \<Longrightarrow> core_ok L db"
  "store_ok L db \<Longrightarrow> nul_free ns \<Longrightarrow> unat (num_at L (st_namespaces db) ns) = card (keys_in (entries_of L db) ns)"
  unfolding store_ok_def namespace_count_def by blast+

lemma finite_keys: "lib_laws L \<Longrightarrow> finite (keys_in (entries_of L db) ns)"
proof -
  assume "lib_laws L"
  then have "keys_in (entries_of L db) ns \<subseteq> fst ` set (tb_iter (str_tbl L) (st_entries db))"
    unfolding tb_iter_set [OF lib_lawsD(1) [OF \<open>lib_laws L\<close>]] by (force simp: keys_in_def entries_of_def)
  then show ?thesis by (rule finite_subset) simp
qed

lemma keys_in_remove: "keys_in (f(ek := None)) ns = keys_in f ns - {ek}"
  by (auto simp: keys_in_def)

lemma keys_in_insert: "keys_in (f(ek \<mapsto> v)) ns = (if in_ns ns ek then insert ek (keys_in f ns) else keys_in f ns)"
  by (auto simp: keys_in_def)

lemma keys_in_other:
  assumes "nul_free ns" and "nul_free ns'" and "in_ns ns ek" and "ns' \<noteq> ns"
  shows "\<not> in_ns ns' ek" "keys_in f ns' - {ek} = keys_in f ns'"
  using in_ns_unique [OF assms(1,2,3)] assms(4) by (auto simp: keys_in_def)

definition settings_same :: "('s, 'n, 'f) store_lib \<Rightarrow> ('s, 'n) redb_store \<Rightarrow> ('s, 'n) redb_store \<Rightarrow> bool" where
  "settings_same L db db' \<longleftrightarrow>
     (\<forall>k. \<not> prefix DOC_COUNT_PREFIX k \<longrightarrow> tb_get (num_tbl L) (st_meta db') k = tb_get (num_tbl L) (st_meta db) k)"

lemma settings_same_refl [simp]: "settings_same L db db"
  by (simp add: settings_same_def)

lemma settings_same_trans: "settings_same L a b \<Longrightarrow> settings_same L b c \<Longrightarrow> settings_same L a c"
  by (simp add: settings_same_def)

lemma settings_same_class: "settings_same L db db' \<Longrightarrow> segment_class L ns db' = segment_class L ns db"
  by (simp add: settings_same_def segment_class_def SEG_CLASS_PREFIX_def DOC_COUNT_PREFIX_def)

lemma doc_count_down:
  assumes "lib_laws L"
  shows "num_at L (doc_count_down L ns t) (DOC_COUNT_PREFIX @ ns') =
      (if ns' = ns \<and> 0 < num_at L t (DOC_COUNT_PREFIX @ ns) then num_at L t (DOC_COUNT_PREFIX @ ns) - 1
       else num_at L t (DOC_COUNT_PREFIX @ ns'))"
    "\<not> prefix DOC_COUNT_PREFIX k \<Longrightarrow> tb_get (num_tbl L) (doc_count_down L ns t) k = tb_get (num_tbl L) t k"
  using assms by (auto simp: doc_count_down_def tb_simps Let_def)

lemma unat_dec: "0 < (w :: 'a::len word) \<Longrightarrow> unat (w - 1) = unat w - 1"
  by (metis unat_minus_one word_gt_0)

lemma drop_entry_ok:
  assumes "lib_laws L" and "core_ok L db" and "nul_free ns" and "in_ns ns ek" and "entries_of L db ek = Some old"
  shows "\<exists>db'. drop_entry L ns ek old db = Inr db' \<and> core_ok L db' \<and> entries_of L db' = (entries_of L db)(ek := None) \<and>
    st_namespaces db' = st_namespaces db \<and> settings_same L db db'"
proof -
  note c = core_okD [OF assms(2)]
  obtain idx where idx: "deindex_tokens L ns ek [] (tokenize L old) (st_index db) = Inr idx"
    "indexed L idx ((entries_of L db)(ek := None))"
    using deindex_tokens_indexed [OF assms(1,3,4) c(1) assms(5)] by blast
  define db' where "db' = db\<lparr>st_index := idx, st_entries := tb_remove (str_tbl L) ek (st_entries db),
      st_age := tb_remove (num_tbl L) ek (st_age db), st_meta := doc_count_down L ns (st_meta db)\<rparr>"
  have e: "entries_of L db' = (entries_of L db)(ek := None)"
    by (rule ext) (simp add: entries_of_def db'_def tb_simps assms(1))
  have mem: "ek \<in> keys_in (entries_of L db) ns" using assms(4,5) by (simp add: keys_in_def)
  have "unat (num_at L (st_meta db') (DOC_COUNT_PREFIX @ ns')) = card (keys_in (entries_of L db') ns')" if n: "nul_free ns'" for ns'
  proof (cases "ns' = ns")
    case True
    have "0 < card (keys_in (entries_of L db) ns)" using mem finite_keys [OF assms(1)] card_gt_0_iff by blast
    then have pos: "0 < num_at L (st_meta db) (DOC_COUNT_PREFIX @ ns)" using c(3) [OF assms(3)] by (simp add: word_less_nat_alt)
    show ?thesis
      unfolding e keys_in_remove True
      by (simp add: db'_def doc_count_down [OF assms(1)] pos unat_dec c(3) [OF assms(3)] card_Diff_singleton [OF mem])
  next
    case False
    show ?thesis
      unfolding e keys_in_remove keys_in_other(2) [OF assms(3) n assms(4) False]
      using False by (simp add: db'_def doc_count_down [OF assms(1)] c(3) [OF n])
  qed
  then have "core_ok L db'"
    unfolding core_ok_def using idx(2) c(2) e by (simp add: db'_def tb_simps assms(1))
  moreover have "settings_same L db db'" by (simp add: settings_same_def db'_def doc_count_down [OF assms(1)])
  ultimately show ?thesis using idx(1) e by (intro exI [of _ db']) (simp add: drop_entry_def db'_def)
qed

lemma evict_loop_ok:
  assumes "lib_laws L" and "core_ok L db" and "nul_free ns" and "\<forall>k \<in> fst ` set vs. in_ns ns k"
  shows "\<exists>out' db'. evict_loop L ns vs out db = Inr (out @ out', db') \<and> core_ok L db' \<and>
    entries_of L db' = (\<lambda>k. if k \<in> fst ` set vs then None else entries_of L db k) \<and>
    st_namespaces db' = st_namespaces db \<and> settings_same L db db' \<and>
    card (keys_in (entries_of L db) ns) = card (keys_in (entries_of L db') ns) + length out'"
  using assms(2,4)
proof (induction vs arbitrary: out db)
  case Nil
  then show ?case by (intro exI [of _ "[]"] exI [of _ db]) simp
next
  case (Cons v vs)
  obtain ek reason where v: "v = (ek, reason)" by (cases v)
  have ek: "in_ns ns ek" and vs: "\<forall>k \<in> fst ` set vs. in_ns ns k" using Cons.prems(2) by (auto simp: v)
  show ?case
  proof (cases "entries_of L db ek")
    case None
    then show ?thesis using Cons.IH [OF Cons.prems(1) vs, of out] by (fastforce simp: v entries_of_def)
  next
    case (Some old)
    obtain db1 where db1: "drop_entry L ns ek old db = Inr db1" "core_ok L db1"
      "entries_of L db1 = (entries_of L db)(ek := None)" "st_namespaces db1 = st_namespaces db" "settings_same L db db1"
      using drop_entry_ok [OF assms(1) Cons.prems(1) assms(3) ek Some] by blast
    let ?e = "\<lparr>ev_key = drop (length ns + 1) ek, ev_reason = reason\<rparr>"
    obtain out' db' where r: "evict_loop L ns vs (out @ [?e]) db1 = Inr ((out @ [?e]) @ out', db')" "core_ok L db'"
      "entries_of L db' = (\<lambda>k. if k \<in> fst ` set vs then None else entries_of L db1 k)"
      "st_namespaces db' = st_namespaces db1" "settings_same L db1 db'"
      "card (keys_in (entries_of L db1) ns) = card (keys_in (entries_of L db') ns) + length out'"
      using Cons.IH [OF db1(2) vs] by blast
    have mem: "ek \<in> keys_in (entries_of L db) ns" using ek Some by (simp add: keys_in_def)
    have "card (keys_in (entries_of L db) ns) = Suc (card (keys_in (entries_of L db1) ns))"
      unfolding db1(3) keys_in_remove by (rule card.remove [OF finite_keys [OF assms(1)] mem])
    moreover have "evict_loop L ns (v # vs) out db = Inr (out @ (?e # out'), db')"
      using Some r(1) db1(1) by (simp add: v entries_of_def)
    moreover have "entries_of L db' = (\<lambda>k. if k \<in> fst ` set (v # vs) then None else entries_of L db k)"
      unfolding r(3) db1(3) by (rule ext) (simp add: v)
    ultimately show ?thesis
      using r(2,4,5,6) db1(4,5) settings_same_trans by (intro exI [of _ "?e # out'"] exI [of _ db']) auto
  qed
qed

lemma namespace_down:
  assumes "lib_laws L" and "n \<le> unat (num_at L t ns)"
  shows "unat (num_at L (namespace_down L ns n t) ns') = (if ns' = ns then unat (num_at L t ns) - n else unat (num_at L t ns'))"
proof -
  have "unat (num_at L t ns - of_nat n) = unat (num_at L t ns) - n"
    using assms(2) by (metis le_unat_uoi unat_sub word_le_nat_alt)
  then show ?thesis using assms by (auto simp: namespace_down_def tb_simps)
qed

definition only_within :: "('s, 'n, 'f) store_lib \<Rightarrow> string \<Rightarrow> ('s, 'n) redb_store \<Rightarrow> ('s, 'n) redb_store \<Rightarrow> bool" where
  "only_within L ns db db' \<longleftrightarrow> (\<forall>k. \<not> in_ns ns k \<longrightarrow> entries_of L db' k = entries_of L db k)"

lemma age_range:
  assumes "lib_laws L"
  shows "set (tb_range (num_tbl L) (prefix_start ns) (prefix_end ns) t) = {(k, ts). tb_get (num_tbl L) t k = Some ts \<and> in_ns ns k}"
  unfolding tb_range_set [OF lib_lawsD(2) [OF assms]] range_is_namespace ..

lemma set_sort_by_age: "lib_laws L \<Longrightarrow> set (sort_by_age L xs) = set xs"
  using lib_lawsD(7) [of L xs] by (metis set_mset_mset)

definition victims ::
    "('s, 'n, 'f) store_lib \<Rightarrow> string \<Rightarrow> nat option \<Rightarrow> u64 option \<Rightarrow> u64 \<Rightarrow> ('s, 'n) redb_store \<Rightarrow> (string \<times> string) list" where
  "victims L ns max_entries max_age now db =
     (let entries = tb_range (num_tbl L) (prefix_start ns) (prefix_end ns) (st_age db);
          aged = age_victims max_age now entries
      in aged @ capacity_victims L max_entries (map fst aged) entries)"

lemma evict_alt:
  "evict L ok ns me ma now db =
     (if segment_class L ns db = Some Canon then (Inr [], db)
      else if victims L ns me ma now db = [] then (Inr [], db)
      else if \<not> ok then (Inl TxFailed, db)
      else
        (case evict_loop L ns (victims L ns me ma now db) [] db of
           Inl e \<Rightarrow> (Inl e, db)
         | Inr (out, db') \<Rightarrow>
             (Inr out, db'\<lparr>st_namespaces := namespace_down L ns (length out) (st_namespaces db')\<rparr>)))"
  unfolding evict_def victims_def Let_def ..

lemma age_victims_sub: "fst ` set (age_victims max_age now es) \<subseteq> fst ` set es"
  by (cases max_age) (auto simp: age_victims_def intro: rev_image_eqI)

lemma capacity_victims_sub:
  assumes "lib_laws L"
  shows "fst ` set (capacity_victims L max_entries aged es) \<subseteq> fst ` set es"
proof (cases max_entries)
  case (Some cap)
  define rem where "rem = filter (\<lambda>(k, _). k \<notin> set aged) es"
  have "set (take n (sort_by_age L rem)) \<subseteq> set es" for n
    using set_take_subset [of n "sort_by_age L rem"] unfolding set_sort_by_age [OF assms] rem_def by auto
  then show ?thesis unfolding capacity_victims_def Some rem_def [symmetric] Let_def by (fastforce intro: rev_image_eqI)
qed (simp add: capacity_victims_def)

lemma victims_within:
  assumes "lib_laws L"
  shows "\<forall>k \<in> fst ` set (victims L ns max_entries max_age now db). in_ns ns k"
proof -
  define E where "E = tb_range (num_tbl L) (prefix_start ns) (prefix_end ns) (st_age db)"
  have "fst ` set (victims L ns max_entries max_age now db) \<subseteq> fst ` set E"
    using age_victims_sub [of max_age now E] capacity_victims_sub [OF assms, of max_entries _ E]
    unfolding victims_def E_def [symmetric] Let_def set_append image_Un by blast
  then show ?thesis using age_range [OF assms, of ns "st_age db"] unfolding E_def by fastforce
qed

lemma evict_cases:
  assumes "lib_laws L" and "store_ok L db" and "nul_free ns" and "evict L ok ns me ma now db = (r, db')"
  shows "db' = db \<and> (segment_class L ns db = Some Canon \<or> \<not> ok \<or> victims L ns me ma now db = []) \<or>
    segment_class L ns db \<noteq> Some Canon \<and> ok \<and> (\<exists>out. r = Inr out) \<and> store_ok L db' \<and> settings_same L db db' \<and>
      entries_of L db' = (\<lambda>k. if k \<in> fst ` set (victims L ns me ma now db) then None else entries_of L db k)"
proof (cases "segment_class L ns db = Some Canon \<or> \<not> ok \<or> victims L ns me ma now db = []")
  case True
  then have "db' = db" using assms(4) by (auto simp: evict_alt split: if_splits)
  with True show ?thesis by blast
next
  case False
  let ?V = "victims L ns me ma now db"
  from False have canon: "segment_class L ns db \<noteq> Some Canon" and ne: "?V \<noteq> []" and ok by auto
  obtain out db1 where l: "evict_loop L ns ?V [] db = Inr (out, db1)" "core_ok L db1"
    "entries_of L db1 = (\<lambda>k. if k \<in> fst ` set ?V then None else entries_of L db k)"
    "st_namespaces db1 = st_namespaces db" "settings_same L db db1"
    "card (keys_in (entries_of L db) ns) = card (keys_in (entries_of L db1) ns) + length out"
    using evict_loop_ok [OF assms(1) store_okD(1) [OF assms(2)] assms(3) victims_within [OF assms(1)], where out = "[]"] by fastforce
  have db': "db' = db1\<lparr>st_namespaces := namespace_down L ns (length out) (st_namespaces db1)\<rparr>" and r: "r = Inr out"
    using assms(4) canon ne \<open>ok\<close> l(1) by (auto simp: evict_alt)
  have e: "entries_of L db' = entries_of L db1" by (simp add: db' entries_of_def)
  note n0 = store_okD(2) [OF assms(2)]
  have "unat (namespace_count L ns' db') = card (keys_in (entries_of L db') ns')" if "nul_free ns'" for ns'
  proof (cases "ns' = ns")
    case True
    then show ?thesis using n0 [OF assms(3)] l(6) unfolding namespace_count_def e
      by (simp add: db' l(4) namespace_down [OF assms(1)])
  next
    case other: False
    have "keys_in (entries_of L db1) ns' = keys_in (entries_of L db) ns'"
      unfolding l(3) using victims_within [OF assms(1), of ns me ma now db] in_ns_unique [OF assms(3) that] other
      by (auto simp: keys_in_def)
    then show ?thesis using n0 [OF that] n0 [OF assms(3)] l(6) other unfolding namespace_count_def e
      by (simp add: db' l(4) namespace_down [OF assms(1)])
  qed
  moreover have "core_ok L db'" using l(2) e unfolding core_ok_def by (simp add: db')
  moreover have "settings_same L db db'" using l(5) by (simp add: settings_same_def db')
  ultimately show ?thesis using canon \<open>ok\<close> r l(3) e unfolding store_ok_def by auto
qed

subsection \<open>Writes\<close>

text \<open>A counter of the segment does not overflow.\<close>

definition has_room :: "('s, 'n, 'f) store_lib \<Rightarrow> string \<Rightarrow> ('s, 'n) redb_store \<Rightarrow> bool" where
  "has_room L ns db \<longleftrightarrow> card (keys_in (entries_of L db) ns) < 2 ^ 64 - 1"

lemma count_up:
  assumes "lib_laws L" and "unat (num_at L t k) < 2 ^ 64 - 1"
  shows "unat (num_at L (count_up L k t) k') = (if k' = k then Suc (unat (num_at L t k)) else unat (num_at L t k'))"
proof -
  have "unat (num_at L t k + 1) = Suc (unat (num_at L t k))"
    using assms(2) by (simp add: unat_word_ariths)
  then show ?thesis using assms(1) by (simp add: count_up_def tb_simps)
qed

lemma write_entry_ok:
  assumes L: "lib_laws L" and ok: "store_ok L db" and ns: "nul_free ns" and ek: "in_ns ns ek"
    and g: "indexed L idx g" "g(ek := None) = (entries_of L db)(ek := None)"
    and toks: "set (tokenize L val) = (case g ek of None \<Rightarrow> {} | Some old \<Rightarrow> set (tokenize L old)) \<union> set toks"
    and new: "is_new \<longleftrightarrow> entries_of L db ek = None" and room: "has_room L ns db"
  shows "\<exists>db'. write_entry L ns ek val toks is_new now (db\<lparr>st_index := idx\<rparr>) = Inr db' \<and> store_ok L db' \<and>
    entries_of L db' = (entries_of L db)(ek \<mapsto> val) \<and> settings_same L db db'"
proof -
  note c = core_okD [OF store_okD(1) [OF ok]] and n = store_okD(2) [OF ok]
  obtain idx' where idx': "index_tokens L ns ek [] toks idx = Inr idx'" "indexed L idx' (g(ek \<mapsto> val))"
    using index_tokens_indexed [OF L ns ek g(1) toks] by blast
  define db' where "db' = db\<lparr>st_entries := tb_insert (str_tbl L) ek val (st_entries db),
      st_age := tb_insert (num_tbl L) ek now (st_age db), st_index := idx',
      st_meta := (if is_new then count_up L (DOC_COUNT_PREFIX @ ns) (st_meta db) else st_meta db),
      st_namespaces := (if is_new then count_up L ns (st_namespaces db) else st_namespaces db)\<rparr>"
  have e: "entries_of L db' = (entries_of L db)(ek \<mapsto> val)"
    by (rule ext) (simp add: entries_of_def db'_def tb_simps L)
  have "g(ek \<mapsto> val) = (entries_of L db)(ek \<mapsto> val)" using g(2) by (metis fun_upd_upd)
  with idx'(2) e have ix: "indexed L (st_index db') (entries_of L db')" by (simp add: db'_def)
  have card: "card (keys_in (entries_of L db') ns') =
      (if ns' = ns \<and> is_new then Suc (card (keys_in (entries_of L db) ns)) else card (keys_in (entries_of L db) ns'))"
    if "nul_free ns'" for ns'
  proof (cases "ns' = ns")
    case True
    then show ?thesis unfolding e keys_in_insert
      using ek new finite_keys [OF L, of db ns] by (auto simp: keys_in_def card_insert_if)
  next
    case False
    then show ?thesis unfolding e keys_in_insert using keys_in_other(1) [OF ns that ek] by simp
  qed
  have small: "unat (num_at L (st_meta db) (DOC_COUNT_PREFIX @ ns)) < 2 ^ 64 - 1" "unat (num_at L (st_namespaces db) ns) < 2 ^ 64 - 1"
    using room c(3) [OF ns] n [OF ns] by (simp_all add: has_room_def)
  have "core_ok L db'"
    unfolding core_ok_def using ix c(2,3) e card ns small
    by (simp add: db'_def tb_simps L count_up)
  moreover have "unat (namespace_count L ns' db') = card (keys_in (entries_of L db') ns')" if "nul_free ns'" for ns'
    using n [OF that] n [OF ns] card [OF that] small(2) by (simp add: namespace_count_def db'_def count_up L)
  ultimately have "store_ok L db'" unfolding store_ok_def by blast
  moreover have "settings_same L db db'"
    by (auto simp: settings_same_def db'_def count_up_def tb_simps L)
  moreover have "write_entry L ns ek val toks is_new now (db\<lparr>st_index := idx\<rparr>) = Inr db'"
    using idx'(1) by (simp add: write_entry_def db'_def)
  ultimately show ?thesis using e by blast
qed

lemma put_txn_ok:
  assumes "lib_laws L" and "store_ok L db" and "nul_free ns" and "has_room L ns db"
  shows "\<exists>db'. put_txn L ns key val now db = Inr db' \<and> store_ok L db' \<and>
    entries_of L db' = (entries_of L db)(entry_key ns key \<mapsto> val) \<and> settings_same L db db'"
proof (cases "entries_of L db (entry_key ns key)")
  case None
  have ix: "indexed L (st_index db) (entries_of L db)" using core_okD(1) store_okD(1) assms(2) by blast
  have db: "db\<lparr>st_index := st_index db\<rparr> = db" by simp
  show ?thesis
    using write_entry_ok [OF assms(1-3) in_ns_entry_key ix, where val = val and toks = "tokenize L val" and is_new = True and now = now]
      None assms(4)
    by (simp add: put_txn_def entries_of_def db)
next
  case (Some old)
  obtain idx where idx: "deindex_tokens L ns (entry_key ns key) [] (tokenize L old) (st_index db) = Inr idx"
    "indexed L idx ((entries_of L db)(entry_key ns key := None))"
    using deindex_tokens_indexed [OF assms(1,3) in_ns_entry_key core_okD(1) [OF store_okD(1) [OF assms(2)]] Some] by blast
  show ?thesis
    using write_entry_ok [OF assms(1-3) in_ns_entry_key idx(2), where val = val and toks = "tokenize L val" and is_new = False and now = now]
      Some assms(4) idx(1)
    by (simp add: put_txn_def entries_of_def)
qed

lemma append_txn_ok:
  assumes "lib_laws L" and "store_ok L db" and "nul_free ns" and "has_room L ns db" and "starts_char val"
  shows "\<exists>db'. append_txn L ns key val now db = Inr db' \<and> store_ok L db' \<and>
    entries_of L db' = (entries_of L db)(entry_key ns key \<mapsto>
      (case entries_of L db (entry_key ns key) of None \<Rightarrow> val | Some old \<Rightarrow> old @ CHR 0x0A # val)) \<and> settings_same L db db'"
proof -
  let ?new = "case entries_of L db (entry_key ns key) of None \<Rightarrow> val | Some old \<Rightarrow> old @ CHR 0x0A # val"
  have ix: "indexed L (st_index db) (entries_of L db)" using core_okD(1) store_okD(1) assms(2) by blast
  have db: "db\<lparr>st_index := st_index db\<rparr> = db" by simp
  have "set (tokenize L ?new) =
      (case entries_of L db (entry_key ns key) of None \<Rightarrow> {} | Some old \<Rightarrow> set (tokenize L old)) \<union> set (tokenize L val)"
    using tokenize_append [OF assms(1,5)] by (simp split: option.split)
  from write_entry_ok [OF assms(1-3) in_ns_entry_key ix refl this refl assms(4), of now] show ?thesis
    unfolding append_txn_def Let_def db by (cases "entries_of L db (entry_key ns key)") (simp_all add: entries_of_def)
qed

subsection \<open>Every operation\<close>

text \<open>Entries of the segment may have gone, and nothing else has changed.\<close>

definition evicted_from :: "('s, 'n, 'f) store_lib \<Rightarrow> string \<Rightarrow> ('s, 'n) redb_store \<Rightarrow> ('s, 'n) redb_store \<Rightarrow> bool" where
  "evicted_from L ns db db' \<longleftrightarrow>
     (\<forall>k. entries_of L db' k = entries_of L db k \<or> in_ns ns k \<and> entries_of L db' k = None)"

lemma evicted_from_refl [simp]: "evicted_from L ns db db"
  by (simp add: evicted_from_def)

lemma evict_ok:
  assumes "lib_laws L" and "store_ok L db" and "nul_free ns"
  shows "store_ok L (snd (evict L ok ns me ma now db)) \<and> settings_same L db (snd (evict L ok ns me ma now db)) \<and>
    evicted_from L ns db (snd (evict L ok ns me ma now db))"
proof -
  obtain r db' where e: "evict L ok ns me ma now db = (r, db')" by (cases "evict L ok ns me ma now db")
  from evict_cases [OF assms e] show ?thesis
  proof
    assume "db' = db \<and> (segment_class L ns db = Some Canon \<or> \<not> ok \<or> victims L ns me ma now db = [])"
    with e assms(2) show ?thesis by simp
  next
    assume h: "segment_class L ns db \<noteq> Some Canon \<and> ok \<and> (\<exists>out. r = Inr out) \<and> store_ok L db' \<and> settings_same L db db' \<and>
      entries_of L db' = (\<lambda>k. if k \<in> fst ` set (victims L ns me ma now db) then None else entries_of L db k)"
    then have "evicted_from L ns db db'"
      using victims_within [OF assms(1), of ns me ma now db] by (auto simp: evicted_from_def)
    with h e show ?thesis by simp
  qed
qed

lemma enforce_ok:
  assumes "lib_laws L" and "store_ok L db" and "nul_free ns"
  shows "store_ok L (enforce_segment_limits L ok ns now db) \<and> settings_same L db (enforce_segment_limits L ok ns now db) \<and>
    evicted_from L ns db (enforce_segment_limits L ok ns now db)"
  using evict_ok [OF assms] assms(2) by (simp add: enforce_segment_limits_def Let_def)

lemma commit_write_ok:
  assumes "lib_laws L" and "store_ok L db" and "nul_free ns" and "res = Inr db1" and "store_ok L db1" and "settings_same L db db1"
    and "commit_write L ok ok' ns now res db = (r, db')"
  shows "store_ok L db' \<and> settings_same L db db' \<and> (db' = db \<and> r = Inl TxFailed \<or> evicted_from L ns db1 db' \<and> r = Inr ())"
  using assms(7) enforce_ok [OF assms(1,5,3), of ok' now] assms(2,6) settings_same_trans [OF assms(6)]
  by (auto simp: commit_write_def assms(4) split: if_splits)

lemma put_at_ok:
  assumes "lib_laws L" and "store_ok L db" and "nul_free ns" and "has_room L ns db"
    and "put_at L ok ok' ns key val now db = (r, db')"
  shows "store_ok L db' \<and> settings_same L db db' \<and>
    (db' = db \<and> r = Inl TxFailed \<or>
     (\<exists>db1. entries_of L db1 = (entries_of L db)(entry_key ns key \<mapsto> val) \<and> evicted_from L ns db1 db') \<and> r = Inr ())"
proof -
  obtain db1 where db1: "put_txn L ns key val now db = Inr db1" "store_ok L db1"
    "entries_of L db1 = (entries_of L db)(entry_key ns key \<mapsto> val)" "settings_same L db db1"
    using put_txn_ok [OF assms(1-4)] by blast
  from commit_write_ok [OF assms(1-3) db1(1,2,4) assms(5) [unfolded put_at_def]] db1(3) show ?thesis by blast
qed

lemma append_at_ok:
  assumes "lib_laws L" and "store_ok L db" and "nul_free ns" and "has_room L ns db" and "starts_char val"
    and "append_at L ok ok' ns key val now db = (r, db')"
  shows "store_ok L db' \<and> settings_same L db db' \<and>
    (db' = db \<and> r = Inl TxFailed \<or>
     (\<exists>db1 v. entries_of L db1 = (entries_of L db)(entry_key ns key \<mapsto> v) \<and> evicted_from L ns db1 db') \<and> r = Inr ())"
proof -
  obtain db1 v where db1: "append_txn L ns key val now db = Inr db1" "store_ok L db1"
    "entries_of L db1 = (entries_of L db)(entry_key ns key \<mapsto> v)" "settings_same L db db1"
    using append_txn_ok [OF assms(1-5)] by blast
  from commit_write_ok [OF assms(1-3) db1(1,2,4) assms(6) [unfolded append_at_def]] db1(3) show ?thesis by blast
qed

lemma store_delete_ok:
  assumes "lib_laws L" and "store_ok L db" and "nul_free ns" and "store_delete L ok ns key db = (r, db')"
  shows "store_ok L db' \<and> settings_same L db db' \<and>
    (if isl r then db' = db
     else r = Inr (entries_of L db (entry_key ns key) \<noteq> None) \<and> entries_of L db' = (entries_of L db)(entry_key ns key := None))"
proof (cases "entries_of L db (entry_key ns key)")
  case None
  then show ?thesis using assms(2,4) by (auto simp: store_delete_def entries_of_def fun_upd_idem_iff split: if_splits)
next
  case (Some old)
  let ?ek = "entry_key ns key"
  obtain db1 where db1: "drop_entry L ns ?ek old db = Inr db1" "core_ok L db1"
    "entries_of L db1 = (entries_of L db)(?ek := None)" "st_namespaces db1 = st_namespaces db" "settings_same L db db1"
    using drop_entry_ok [OF assms(1) store_okD(1) [OF assms(2)] assms(3) in_ns_entry_key Some] by blast
  have mem: "?ek \<in> keys_in (entries_of L db) ns" using Some by (simp add: keys_in_def)
  have pos: "0 < unat (num_at L (st_namespaces db) ns)"
    using store_okD(2) [OF assms(2,3)] mem finite_keys [OF assms(1)] card_gt_0_iff by force
  then obtain c where c: "tb_get (num_tbl L) (st_namespaces db) ns = Some c" "num_at L (st_namespaces db) ns = c" "0 < c"
    by (cases "tb_get (num_tbl L) (st_namespaces db) ns") (auto simp: num_at_def word_less_nat_alt)
  define t where "t = (if c \<le> 1 then tb_remove (num_tbl L) ns (st_namespaces db) else tb_insert (num_tbl L) ns (c - 1) (st_namespaces db))"
  have t: "unat (num_at L t ns') = (if ns' = ns then unat c - 1 else unat (num_at L (st_namespaces db) ns'))" for ns'
    using unat_dec [OF c(3)] by (auto simp: t_def tb_simps assms(1) word_le_nat_alt)
  have "store_ok L (db1\<lparr>st_namespaces := t\<rparr>)"
    unfolding store_ok_def
  proof (intro conjI allI impI)
    show "core_ok L (db1\<lparr>st_namespaces := t\<rparr>)" using db1(2) by (simp add: core_ok_def entries_of_def)
    fix ns' assume n: "nul_free ns'"
    have e: "entries_of L (db1\<lparr>st_namespaces := t\<rparr>) = (entries_of L db)(?ek := None)" using db1(3) by (simp add: entries_of_def)
    show "unat (namespace_count L ns' (db1\<lparr>st_namespaces := t\<rparr>)) = card (keys_in (entries_of L (db1\<lparr>st_namespaces := t\<rparr>)) ns')"
    proof (cases "ns' = ns")
      case True
      then show ?thesis using store_okD(2) [OF assms(2,3)] c(2) unfolding e keys_in_remove
        by (simp add: namespace_count_def t card_Diff_singleton [OF mem])
    next
      case False
      then show ?thesis using store_okD(2) [OF assms(2) n]
        unfolding e keys_in_remove keys_in_other(2) [OF assms(3) n in_ns_entry_key False] by (simp add: namespace_count_def t)
    qed
  qed
  moreover have "(r, db') = (if ok then (Inr True, db1\<lparr>st_namespaces := t\<rparr>) else (Inl TxFailed, db))"
    using assms(4) Some [unfolded entries_of_def] unfolding store_delete_def t_def Let_def by (cases ok) (auto simp: db1(1,4) c(1))
  moreover have "settings_same L db (db1\<lparr>st_namespaces := t\<rparr>)" using db1(5) by (simp add: settings_same_def)
  moreover have "entries_of L (db1\<lparr>st_namespaces := t\<rparr>) = (entries_of L db)(?ek := None)" using db1(3) by (simp add: entries_of_def)
  ultimately show ?thesis using assms(2) Some by (cases ok) simp_all
qed

text \<open>An update of the settings alone.\<close>

lemma store_ok_settings:
  assumes "store_ok L db" and "\<And>ns. num_at L m (DOC_COUNT_PREFIX @ ns) = num_at L (st_meta db) (DOC_COUNT_PREFIX @ ns)"
    and "\<And>ns. nul_free ns \<Longrightarrow> num_at L n ns = num_at L (st_namespaces db) ns"
  shows "store_ok L (db\<lparr>st_meta := m, st_namespaces := n\<rparr>)"
  using assms unfolding store_ok_def core_ok_def by (simp add: entries_of_def namespace_count_def)

lemmas meta_prefixes = SEG_CLASS_PREFIX_def LOG_SEQ_PREFIX_def SCRATCH_VER_PREFIX_def DOC_COUNT_PREFIX_def
  SEG_MAX_ENTRIES_PREFIX_def SEG_MAX_AGE_PREFIX_def

lemma settings_ok:
  assumes "lib_laws L" and "store_ok L db"
  shows "store_ok L (set_segment_class L ns cls db)" "store_ok L (set_segment_limits L ns me ma db)"
    "store_ok L (snd (next_log_seq L ns db))" "store_ok L (snd (next_scratch_version L ns key db))"
proof -
  show "store_ok L (set_segment_class L ns cls db)"
    unfolding set_segment_class_def
    by (rule store_ok_settings [OF assms(2)]) (auto simp: tb_simps assms(1) meta_prefixes num_at_def)
  have m: "store_ok L (db\<lparr>st_meta := m\<rparr>)"
    if "\<And>ns. num_at L m (DOC_COUNT_PREFIX @ ns) = num_at L (st_meta db) (DOC_COUNT_PREFIX @ ns)" for m
    using store_ok_settings [OF assms(2) that, of "st_namespaces db"] by simp
  show "store_ok L (set_segment_limits L ns me ma db)"
    unfolding set_segment_limits_def by (rule m) (simp add: tb_simps assms(1) meta_prefixes)
  show "store_ok L (snd (next_log_seq L ns db))" "store_ok L (snd (next_scratch_version L ns key db))"
    unfolding next_log_seq_def next_scratch_version_def bump_def Let_def snd_conv
    by (rule m, simp add: tb_simps assms(1) meta_prefixes)+
qed

subsection \<open>Consistency of the store\<close>

datatype mem_op =
    MPut bool bool string string string u64
  | MAppend bool bool string string string u64
  | MDelete bool string string
  | MEvict bool string "nat option" "u64 option" u64
  | MSetClass string mutability_class
  | MSetLimits string "nat option" "u64 option"
  | MLogSeq string
  | MScratchVersion string string

fun mem_step :: "('s, 'n, 'f) store_lib \<Rightarrow> mem_op \<Rightarrow> ('s, 'n) redb_store \<Rightarrow> ('s, 'n) redb_store" where
  "mem_step L (MPut ok ok' ns key val now) db = snd (put_at L ok ok' ns key val now db)"
| "mem_step L (MAppend ok ok' ns key val now) db = snd (append_at L ok ok' ns key val now db)"
| "mem_step L (MDelete ok ns key) db = snd (store_delete L ok ns key db)"
| "mem_step L (MEvict ok ns me ma now) db = snd (evict L ok ns me ma now db)"
| "mem_step L (MSetClass ns cls) db = set_segment_class L ns cls db"
| "mem_step L (MSetLimits ns me ma) db = set_segment_limits L ns me ma db"
| "mem_step L (MLogSeq ns) db = snd (next_log_seq L ns db)"
| "mem_step L (MScratchVersion ns key) db = snd (next_scratch_version L ns key db)"

fun op_valid :: "mem_op \<Rightarrow> bool" where
  "op_valid (MPut ok ok' ns key val now) \<longleftrightarrow> nul_free ns"
| "op_valid (MAppend ok ok' ns key val now) \<longleftrightarrow> nul_free ns \<and> starts_char val"
| "op_valid (MDelete ok ns key) \<longleftrightarrow> nul_free ns"
| "op_valid (MEvict ok ns me ma now) \<longleftrightarrow> nul_free ns"
| "op_valid _ \<longleftrightarrow> True"

lemma finite_entries: "lib_laws L \<Longrightarrow> finite (dom (entries_of L db))"
proof -
  assume L: "lib_laws L"
  have "dom (entries_of L db) \<subseteq> fst ` set (tb_iter (str_tbl L) (st_entries db))"
    unfolding tb_iter_set [OF lib_lawsD(1) [OF L]] by (force simp: entries_of_def)
  then show ?thesis by (rule finite_subset) simp
qed

lemma room_below: "lib_laws L \<Longrightarrow> card (dom (entries_of L db)) < 2 ^ 64 - 1 \<Longrightarrow> has_room L ns db"
  unfolding has_room_def using finite_entries
  by (metis (mono_tags, lifting) card_mono domIff dual_order.strict_trans2 keys_in_def mem_Collect_eq subsetI)

lemma dom_growth:
  assumes "lib_laws L" and "dom (entries_of L db') \<subseteq> insert k (dom (entries_of L db))"
  shows "card (dom (entries_of L db')) \<le> Suc (card (dom (entries_of L db)))"
proof -
  have "card (insert k (dom (entries_of L db))) \<le> Suc (card (dom (entries_of L db)))"
    by (simp add: card_insert_if finite_entries [OF assms(1)])
  with card_mono [OF _ assms(2)] finite_entries [OF assms(1)] show ?thesis by (meson finite_insert order_trans)
qed

lemma dom_evicted: "evicted_from L ns db1 db' \<Longrightarrow> dom (entries_of L db') \<subseteq> dom (entries_of L db1)"
  unfolding evicted_from_def by (auto simp: domIff) (metis option.distinct(1))

lemma dom_written:
  "entries_of L db1 = (entries_of L db)(ek \<mapsto> v) \<Longrightarrow> evicted_from L ns db1 db' \<Longrightarrow>
   dom (entries_of L db') \<subseteq> insert ek (dom (entries_of L db))"
  using dom_evicted by (metis dom_fun_upd option.distinct(1))

lemma mem_step_ok:
  assumes "lib_laws L" and "store_ok L db" and "op_valid op" and "card (dom (entries_of L db)) < 2 ^ 64 - 1"
  shows "store_ok L (mem_step L op db) \<and> (\<exists>k. dom (entries_of L (mem_step L op db)) \<subseteq> insert k (dom (entries_of L db)))"
proof (cases op)
  case (MPut ok ok' ns key val now)
  obtain r db' where p: "put_at L ok ok' ns key val now db = (r, db')" by (cases "put_at L ok ok' ns key val now db")
  have "nul_free ns" using assms(3) MPut by simp
  from put_at_ok [OF assms(1,2) this room_below [OF assms(1,4)] p] show ?thesis
    unfolding MPut mem_step.simps p snd_conv using dom_written subset_insertI by metis
next
  case (MAppend ok ok' ns key val now)
  obtain r db' where p: "append_at L ok ok' ns key val now db = (r, db')" by (cases "append_at L ok ok' ns key val now db")
  have "nul_free ns" "starts_char val" using assms(3) MAppend by simp_all
  from append_at_ok [OF assms(1,2) this(1) room_below [OF assms(1,4)] this(2) p] show ?thesis
    unfolding MAppend mem_step.simps p snd_conv using dom_written subset_insertI by metis
next
  case (MDelete ok ns key)
  obtain r db' where p: "store_delete L ok ns key db = (r, db')" by (cases "store_delete L ok ns key db")
  have "nul_free ns" using assms(3) MDelete by simp
  from store_delete_ok [OF assms(1,2) this p] show ?thesis by (auto simp: MDelete p split: if_splits)
next
  case (MEvict ok ns me ma now)
  then have "nul_free ns" using assms(3) by simp
  from evict_ok [OF assms(1,2) this] show ?thesis using dom_evicted by (fastforce simp: MEvict)
qed (use settings_ok [OF assms(1,2)] in \<open>auto simp: entries_of_def set_segment_class_def set_segment_limits_def
    next_log_seq_def next_scratch_version_def bump_def Let_def\<close>)

lemma list_keys_card:
  assumes "lib_laws L"
  shows "length (list_keys L ns db) = card (keys_in (entries_of L db) ns)"
proof -
  let ?r = "tb_range (str_tbl L) (prefix_start ns) (prefix_end ns) (st_entries db)"
  note t = lib_lawsD(1) [OF assms]
  have "keys_in (entries_of L db) ns = set (map fst ?r)"
    unfolding set_map tb_range_set [OF t] range_is_namespace by (force simp: keys_in_def entries_of_def)
  then show ?thesis using distinct_card [OF tb_range_distinct [OF t]] by (simp add: list_keys_def)
qed

text \<open>
  C9. The tables of the memory store stay consistent. After any sequence of puts, appends, deletes,
  evictions and settings, committed or not, every posting list of the inverted index holds exactly
  the entries of its segment that contain its word, each once; every entry has an age; and the
  document count and the namespace counter of every segment are the number of its entries, which
  is the assertion that debug builds make after every write.
\<close>

theorem store_stays_consistent:
  assumes "lib_laws L" and "store_ok L db" and "list_all op_valid ops"
    and "card (dom (entries_of L db)) + length ops < 2 ^ 64 - 1"
  shows "store_ok L (fold (mem_step L) ops db) \<and>
    (nul_free ns \<longrightarrow> unat (namespace_count L ns (fold (mem_step L) ops db)) = length (list_keys L ns (fold (mem_step L) ops db)))"
proof -
  have "store_ok L (fold (mem_step L) ops db)"
    using assms(2-4)
  proof (induction ops arbitrary: db)
    case (Cons op ops)
    then have "store_ok L (mem_step L op db)" and k: "\<exists>k. dom (entries_of L (mem_step L op db)) \<subseteq> insert k (dom (entries_of L db))"
      using mem_step_ok [OF assms(1), of db op] by auto
    then show ?case using Cons dom_growth [OF assms(1), of "mem_step L op db" _ db] by fastforce
  qed simp
  then show ?thesis using list_keys_card [OF assms(1)] unfolding store_ok_def by simp
qed

end
