(* ===== verification/Runs.thy ===== *)
theory Runs
  imports Scheduler Memory_Laws
begin

section \<open>Run history (\<open>agentd/src/runs/mod.rs\<close>, \<open>runs/store.rs\<close>)\<close>

text \<open>
  One record per stretch of an agent's life, from the moment it enters the scheduler to the moment
  it ends, and the morning briefs composed from these records. The scheduler sends lifecycle events
  on a channel; one writer applies them, in order, to a \<open>redb\<close> file of its own. The tables and the
  JSON coding of the two record types are parameters.
\<close>

subsection \<open>Records\<close>

record run_record =
  segment_id :: string
  rr_agent_id :: string
  segment_seq :: u64
  rr_parent_id :: "string option"
  start_reason :: string
  start_ts :: u64
  end_ts :: "u64 option"
  rr_status :: string
  rr_stop_reason :: "string option"
  last_error :: "string option"
  approvals_count :: u64
  start_context_tokens :: "u64 option"
  rr_spend :: "u64 option"
  rr_tier :: string

record brief_item =
  run_id :: string
  bi_agent_id :: string
  bi_status :: string
  bi_spend :: "u64 option"
  bi_stop_reason :: "string option"
  bi_last_error :: "string option"

record brief_record =
  brief_id :: string
  created_at :: u64
  window_from :: u64
  window_to :: u64
  run_count :: u64
  failed_count :: u64
  spend_total :: u64
  brief_items :: "brief_item list"
  overflow_count :: u64
  attention_overflow :: u64
  narrative :: "string option"
  suppressed_count :: "u64 option"

record ('s, 'n) runs_lib =
  rl_str :: "('s, string) table_ops"
  rl_num :: "('n, u64) table_ops"
  run_to_json :: "run_record \<Rightarrow> string"
  run_of_json :: "string \<Rightarrow> run_record option"
  brief_to_json :: "brief_record \<Rightarrow> string"
  brief_of_json :: "string \<Rightarrow> brief_record option"

record ('s, 'n) runs_store =
  rs_runs :: 's
  rs_open :: 's
  rs_meta :: 'n
  rs_briefs :: 's

datatype runs_error = RunsTxFailed | ParseRecord | ParseBrief

record run_filter =
  rf_from :: "u64 option"
  rf_to :: "u64 option"
  rf_agent_id :: "string option"
  rf_parent_id :: "string option"
  rf_status :: "string option"
  rf_limit :: nat

definition RUNS_SCHEMA_VERSION :: u64 where "RUNS_SCHEMA_VERSION = 1"
definition MAX_RUNS :: nat where "MAX_RUNS = 5000"
definition MAX_RUN_AGE_SECS :: u64 where "MAX_RUN_AGE_SECS = 90 * 24 * 3600"
definition FIRST_BRIEF_LOOKBACK_SECS :: u64 where "FIRST_BRIEF_LOOKBACK_SECS = 86400"
definition MAX_BRIEF_ITEMS :: nat where "MAX_BRIEF_ITEMS = 100"
definition MAX_NARRATIVE_CHARS :: nat where "MAX_NARRATIVE_CHARS = 4096"

text \<open>\<open>table.get(k)?.map(|g| g.value()).unwrap_or(0)\<close>\<close>

definition meta_at :: "('s, 'n) runs_lib \<Rightarrow> ('s, 'n) runs_store \<Rightarrow> string \<Rightarrow> u64" where
  "meta_at L db k = (case tb_get (rl_num L) (rs_meta db) k of None \<Rightarrow> 0 | Some v \<Rightarrow> v)"

definition runs_init_schema :: "('s, 'n) runs_lib \<Rightarrow> ('s, 'n) runs_store \<Rightarrow> ('s, 'n) runs_store" where
  "runs_init_schema L db =
     (if tb_get (rl_num L) (rs_meta db) ''format_version'' = None
      then db\<lparr>rs_meta := tb_insert (rl_num L) ''format_version'' RUNS_SCHEMA_VERSION (rs_meta db)\<rparr> else db)"

definition format_version :: "('s, 'n) runs_lib \<Rightarrow> ('s, 'n) runs_store \<Rightarrow> u64" where
  "format_version L db = meta_at L db ''format_version''"

subsection \<open>Segments\<close>

text \<open>Every operation below is one write transaction; \<open>ok\<close> says that it commits.\<close>

definition seq_key :: "string \<Rightarrow> string" where
  "seq_key a = ''seq:'' @ a"

definition segment_name :: "string \<Rightarrow> u64 \<Rightarrow> string" where
  "segment_name a n = a @ '':'' @ show_word n"

definition open_segment ::
    "('s, 'n) runs_lib \<Rightarrow> bool \<Rightarrow> string \<Rightarrow> string option \<Rightarrow> string \<Rightarrow> u64 option \<Rightarrow> string \<Rightarrow> u64 \<Rightarrow>
     ('s, 'n) runs_store \<Rightarrow> (runs_error + unit) \<times> ('s, 'n) runs_store" where
  "open_segment L ok a parent reason start_tokens tr ts db =
     (if \<not> ok then (Inl RunsTxFailed, db)
      else if tb_get (rl_str L) (rs_open db) a \<noteq> None then (Inr (), db)
      else
        let n = meta_at L db (seq_key a);
            sid = segment_name a n;
            rec = \<lparr>segment_id = sid, rr_agent_id = a, segment_seq = n, rr_parent_id = parent, start_reason = reason,
                   start_ts = ts, end_ts = None, rr_status = ''running'', rr_stop_reason = None, last_error = None,
                   approvals_count = 0, start_context_tokens = start_tokens, rr_spend = None, rr_tier = tr\<rparr>
        in (Inr (),
            db\<lparr>rs_meta := tb_insert (rl_num L) (seq_key a) (n + 1) (rs_meta db),
               rs_runs := tb_insert (rl_str L) sid (run_to_json L rec) (rs_runs db),
               rs_open := tb_insert (rl_str L) a sid (rs_open db)\<rparr>))"

definition closed_record ::
    "string \<Rightarrow> string option \<Rightarrow> string option \<Rightarrow> u64 option \<Rightarrow> u64 \<Rightarrow> run_record \<Rightarrow> run_record" where
  "closed_record status stop err end_tokens ts rec =
     rec\<lparr>end_ts := Some ts, rr_status := status, rr_stop_reason := stop, last_error := err,
         rr_spend := (case (start_context_tokens rec, end_tokens) of
                        (Some b, Some e) \<Rightarrow> Some (saturating_sub e b)
                      | _ \<Rightarrow> None)\<rparr>"

text \<open>The loop of \<open>prune\<close>: the closed records with the time they are sorted by.\<close>

definition closed_runs :: "('s, 'n) runs_lib \<Rightarrow> 's \<Rightarrow> (string \<times> u64) list" where
  "closed_runs L t =
     List.map_filter (\<lambda>(k, j). case run_of_json L j of
         None \<Rightarrow> None
       | Some rec \<Rightarrow> (case end_ts rec of None \<Rightarrow> None | Some e \<Rightarrow> Some (k, max e (start_ts rec))))
       (tb_iter (rl_str L) t)"

definition prune_victims :: "u64 \<Rightarrow> nat \<Rightarrow> u64 \<Rightarrow> (string \<times> u64) list \<Rightarrow> string list" where
  "prune_victims now max_runs max_age cl =
     (let aged = map fst (filter (\<lambda>(_, ts). ts < saturating_sub now max_age) cl) in
      if max_runs < length cl then
        fold (\<lambda>(k, _) rem. if k \<in> set rem then rem else rem @ [k])
          (take (length cl - max_runs) (sort_key snd cl)) aged
      else aged)"

definition prune ::
    "('s, 'n) runs_lib \<Rightarrow> bool \<Rightarrow> u64 \<Rightarrow> nat \<Rightarrow> u64 \<Rightarrow> ('s, 'n) runs_store \<Rightarrow> ('s, 'n) runs_store" where
  "prune L ok now max_runs max_age db =
     (if \<not> ok then db
      else db\<lparr>rs_runs := fold (tb_remove (rl_str L)) (prune_victims now max_runs max_age (closed_runs L (rs_runs db)))
                 (rs_runs db)\<rparr>)"

text \<open>\<open>ok'\<close>: the pruning that follows a close commits; a failure of it is only logged.\<close>

definition close_segment ::
    "('s, 'n) runs_lib \<Rightarrow> bool \<Rightarrow> bool \<Rightarrow> string \<Rightarrow> string \<Rightarrow> string option \<Rightarrow> string option \<Rightarrow> u64 option \<Rightarrow> u64 \<Rightarrow>
     ('s, 'n) runs_store \<Rightarrow> (runs_error + unit) \<times> ('s, 'n) runs_store" where
  "close_segment L ok ok' a status stop err end_tokens ts db =
     (if \<not> ok then (Inl RunsTxFailed, db)
      else
        let db1 =
          (case tb_get (rl_str L) (rs_open db) a of
             None \<Rightarrow> db
           | Some sid \<Rightarrow>
               db\<lparr>rs_runs :=
                    (case tb_get (rl_str L) (rs_runs db) sid of
                       None \<Rightarrow> rs_runs db
                     | Some j \<Rightarrow>
                         (case run_of_json L j of
                            None \<Rightarrow> rs_runs db
                          | Some rec \<Rightarrow>
                              tb_insert (rl_str L) sid (run_to_json L (closed_record status stop err end_tokens ts rec))
                                (rs_runs db))),
                  rs_open := tb_remove (rl_str L) a (rs_open db)\<rparr>)
        in (Inr (), prune L ok' ts MAX_RUNS MAX_RUN_AGE_SECS db1))"

definition incr_approval ::
    "('s, 'n) runs_lib \<Rightarrow> bool \<Rightarrow> string \<Rightarrow> ('s, 'n) runs_store \<Rightarrow> (runs_error + unit) \<times> ('s, 'n) runs_store" where
  "incr_approval L ok a db =
     (let commit = (\<lambda>db'. if ok then (Inr (), db') else (Inl RunsTxFailed, db)) in
      case tb_get (rl_str L) (rs_open db) a of
        None \<Rightarrow> commit db
      | Some sid \<Rightarrow>
          (case tb_get (rl_str L) (rs_runs db) sid of
             None \<Rightarrow> commit db
           | Some j \<Rightarrow>
               (case run_of_json L j of
                  None \<Rightarrow> (Inl ParseRecord, db)
                | Some rec \<Rightarrow>
                    commit (db\<lparr>rs_runs := tb_insert (rl_str L) sid
                      (run_to_json L (rec\<lparr>approvals_count := approvals_count rec + 1\<rparr>)) (rs_runs db)\<rparr>))))"

text \<open>The event as the tracker stamps it: the time is read when it is sent.\<close>

fun apply_event ::
    "('s, 'n) runs_lib \<Rightarrow> bool \<Rightarrow> bool \<Rightarrow> run_event \<Rightarrow> u64 \<Rightarrow> ('s, 'n) runs_store \<Rightarrow>
     (runs_error + unit) \<times> ('s, 'n) runs_store" where
  "apply_event L ok ok' (RunOpen a parent reason start_tokens tr) ts db =
     open_segment L ok a parent reason start_tokens tr ts db"
| "apply_event L ok ok' (RunClose a status stop err end_tokens) ts db =
     close_segment L ok ok' a status stop err end_tokens ts db"
| "apply_event L ok ok' (RunIncrApproval a) ts db = incr_approval L ok a db"

subsection \<open>Queries\<close>

definition runs_get :: "('s, 'n) runs_lib \<Rightarrow> string \<Rightarrow> ('s, 'n) runs_store \<Rightarrow> runs_error + run_record option" where
  "runs_get L sid db =
     (case tb_get (rl_str L) (rs_runs db) sid of
        None \<Rightarrow> Inr None
      | Some j \<Rightarrow> (case run_of_json L j of None \<Rightarrow> Inl ParseRecord | Some rec \<Rightarrow> Inr (Some rec)))"

definition latest_open :: "('s, 'n) runs_lib \<Rightarrow> string \<Rightarrow> ('s, 'n) runs_store \<Rightarrow> string option" where
  "latest_open L a db = tb_get (rl_str L) (rs_open db) a"

definition parsed_runs :: "('s, 'n) runs_lib \<Rightarrow> ('s, 'n) runs_store \<Rightarrow> run_record list" where
  "parsed_runs L db = List.map_filter (\<lambda>(_, j). run_of_json L j) (tb_iter (rl_str L) (rs_runs db))"

definition run_matches :: "run_filter \<Rightarrow> run_record \<Rightarrow> bool" where
  "run_matches f rec \<longleftrightarrow>
     (case rf_from f of None \<Rightarrow> True | Some b \<Rightarrow> b \<le> start_ts rec) \<and>
     (case rf_to f of None \<Rightarrow> True | Some e \<Rightarrow> start_ts rec \<le> e) \<and>
     (case rf_agent_id f of None \<Rightarrow> True | Some a \<Rightarrow> rr_agent_id rec = a) \<and>
     (case rf_parent_id f of None \<Rightarrow> True | Some p \<Rightarrow> rr_parent_id rec = Some p) \<and>
     (case rf_status f of None \<Rightarrow> True | Some s \<Rightarrow> rr_status rec = s)"

definition clamp_limit :: "nat \<Rightarrow> nat" where
  "clamp_limit n = (if n = 0 then 20 else min n 100)"

text \<open>\<open>sort_by\<close> with the later time, then the larger sequence number, first.\<close>

definition newer_first :: "(run_record \<Rightarrow> u64) \<Rightarrow> run_record \<Rightarrow> run_record \<Rightarrow> bool" where
  "newer_first t a b \<longleftrightarrow> t b < t a \<or> t a = t b \<and> segment_seq b \<le> segment_seq a"

definition runs_list :: "('s, 'n) runs_lib \<Rightarrow> run_filter \<Rightarrow> ('s, 'n) runs_store \<Rightarrow> run_record list" where
  "runs_list L f db =
     take (clamp_limit (rf_limit f)) (sort_by (newer_first start_ts) (filter (run_matches f) (parsed_runs L db)))"

subsection \<open>Briefs\<close>

definition brief_key :: "u64 \<Rightarrow> string" where
  "brief_key n = (let d = show_word n in replicate (20 - length d) CHR ''0'' @ d)"

text \<open>The value with the largest key, as \<open>iter()?.next_back()\<close> finds it.\<close>

definition latest_brief :: "('s, 'n) runs_lib \<Rightarrow> ('s, 'n) runs_store \<Rightarrow> runs_error + brief_record option" where
  "latest_brief L db =
     (case rev (tb_iter (rl_str L) (rs_briefs db)) of
        [] \<Rightarrow> Inr None
      | (_, j) # _ \<Rightarrow> (case brief_of_json L j of None \<Rightarrow> Inl ParseBrief | Some b \<Rightarrow> Inr (Some b)))"

definition list_briefs :: "('s, 'n) runs_lib \<Rightarrow> nat \<Rightarrow> ('s, 'n) runs_store \<Rightarrow> brief_record list" where
  "list_briefs L n db =
     take (clamp_limit n) (List.map_filter (\<lambda>(_, j). brief_of_json L j) (rev (tb_iter (rl_str L) (rs_briefs db))))"

definition terminal_in_window :: "u64 \<Rightarrow> u64 \<Rightarrow> run_record \<Rightarrow> bool" where
  "terminal_in_window b e rec = (case end_ts rec of None \<Rightarrow> False | Some t \<Rightarrow> b \<le> t \<and> t < e)"

definition still_running :: "run_record \<Rightarrow> bool" where
  "still_running rec \<longleftrightarrow> end_ts rec = None \<and> rr_status rec = ''running'' \<and> start_reason rec \<noteq> ''config_seed''"

definition brief_matched :: "('s, 'n) runs_lib \<Rightarrow> u64 \<Rightarrow> u64 \<Rightarrow> ('s, 'n) runs_store \<Rightarrow> run_record list" where
  "brief_matched L b e db = filter (\<lambda>rec. terminal_in_window b e rec \<or> still_running rec) (parsed_runs L db)"

definition last_ts :: "run_record \<Rightarrow> u64" where
  "last_ts rec = (case end_ts rec of None \<Rightarrow> start_ts rec | Some e \<Rightarrow> e)"

definition brief_item_of :: "run_record \<Rightarrow> brief_item" where
  "brief_item_of rec =
     \<lparr>run_id = segment_id rec, bi_agent_id = rr_agent_id rec, bi_status = rr_status rec, bi_spend = rr_spend rec,
      bi_stop_reason = rr_stop_reason rec, bi_last_error = last_error rec\<rparr>"

definition clip_narrative :: "string \<Rightarrow> string" where
  "clip_narrative n = (if MAX_NARRATIVE_CHARS < chars_count n then chars_take MAX_NARRATIVE_CHARS n else n)"

text \<open>The record of a brief over \<open>[b, e)\<close> and the matching runs.\<close>

definition compose_brief ::
    "u64 \<Rightarrow> u64 \<Rightarrow> u64 \<Rightarrow> u64 \<Rightarrow> string option \<Rightarrow> u64 option \<Rightarrow> run_record list \<Rightarrow> brief_record" where
  "compose_brief n now b e narr suppressed matched =
     (let attention = sort_by (newer_first last_ts) (filter (\<lambda>r. rr_status r \<noteq> ''done'') matched);
          items = map brief_item_of (take MAX_BRIEF_ITEMS attention)
      in \<lparr>brief_id = ''brief:'' @ show_word n, created_at = now, window_from = b, window_to = e,
          run_count = of_nat (length matched),
          failed_count = of_nat (length (filter (\<lambda>r. rr_status r = ''failed'') matched)),
          spend_total = sum_list (List.map_filter rr_spend matched),
          brief_items = items,
          overflow_count = of_nat (length (filter (\<lambda>r. rr_status r = ''done'') matched)),
          attention_overflow = saturating_sub (of_nat (length attention)) (of_nat (length items)),
          narrative = narr, suppressed_count = suppressed\<rparr>)"

definition brief_window :: "brief_record option \<Rightarrow> u64 \<Rightarrow> u64 \<times> u64" where
  "brief_window prev now =
     (let b = min (case prev of None \<Rightarrow> saturating_sub now FIRST_BRIEF_LOOKBACK_SECS | Some p \<Rightarrow> window_to p) now
      in (b, max now b))"

definition publish_brief ::
    "('s, 'n) runs_lib \<Rightarrow> bool \<Rightarrow> string option \<Rightarrow> u64 option \<Rightarrow> u64 \<Rightarrow> ('s, 'n) runs_store \<Rightarrow>
     (runs_error + brief_record) \<times> ('s, 'n) runs_store" where
  "publish_brief L ok narr suppressed now db =
     (case latest_brief L db of
        Inl e \<Rightarrow> (Inl e, db)
      | Inr prev \<Rightarrow>
          let (b, e) = brief_window prev now;
              n = meta_at L db ''brief_seq'';
              rec = compose_brief n now b e (map_option clip_narrative narr) suppressed (brief_matched L b e db)
          in if \<not> ok then (Inl RunsTxFailed, db)
             else (Inr rec,
                   db\<lparr>rs_briefs := tb_insert (rl_str L) (brief_key n) (brief_to_json L rec) (rs_briefs db),
                      rs_meta := tb_insert (rl_num L) ''brief_seq'' (n + 1) (rs_meta db)\<rparr>))"

subsection \<open>The writer\<close>

text \<open>
  The messages of the channel. A lifecycle event carries the time at which the tracker sent it; the
  flags say whether the transactions of the message commit.
\<close>

datatype writer_msg =
    WEvent bool bool run_event u64
  | WPublish bool "string option" "u64 option" u64

text \<open>One turn of the loop of \<open>run_writer\<close>, with the reply to a publish request.\<close>

fun writer_step ::
    "('s, 'n) runs_lib \<Rightarrow> writer_msg \<Rightarrow> ('s, 'n) runs_store \<Rightarrow>
     (runs_error + brief_record) option \<times> ('s, 'n) runs_store" where
  "writer_step L (WEvent ok ok' ev ts) db = (None, snd (apply_event L ok ok' ev ts db))"
| "writer_step L (WPublish ok narr suppressed now) db =
     (let (r, db') = publish_brief L ok narr suppressed now db in (Some r, db'))"

fun run_writer :: "('s, 'n) runs_lib \<Rightarrow> writer_msg list \<Rightarrow> ('s, 'n) runs_store \<Rightarrow> ('s, 'n) runs_store" where
  "run_writer L [] db = db"
| "run_writer L (m # ms) db = run_writer L ms (snd (writer_step L m db))"

end
