(* ===== verification/Tools.thy ===== *)
theory Tools
  imports Tool_Specs Runs
begin

section \<open>Tools (\<open>agentd/src/tools/mod.rs\<close>, \<open>tools/native.rs\<close>, \<open>McpTool\<close> of \<open>tools/mcp.rs\<close>)\<close>

text \<open>
  The tools an agent can call, the registry that holds them under their names, and the gate every
  call passes. The operating system's files, the MCP servers, JSON printing and the clocks are
  parameters. A result is \<open>Inl\<close> the outermost error text or \<open>Inr\<close> what the agent receives.
\<close>

subsection \<open>The world of a tool\<close>

record agent_card =
  card_id :: string
  card_name :: string
  card_description :: string
  card_skills :: "string list"

datatype tool =
    ReadFile | WriteFile | ListDir | KvGet | KvSet | MemRemember | MemRecall | KbPut | KbGet | KbSearch | RunsQuery
  | PublishBrief bool
  | SpawnAgentTool | RunJobTool | RequestApprovalTool
  | ListAgentsTool "agent_card list"
  | SendMessageTool
  | McpTool string tool_spec

record tool_context =
  tc_agent_id :: string
  tc_turn :: u32
  tc_task_fp :: string

datatype dir_error = ReadDirFailed | DirEntryFailed

record ('s, 'n, 'f, 'w) tool_env =
  tl_store :: "('s, 'n, 'f) store_lib"
  tl_runs :: "('s, 'n) runs_lib"
  tl_anchor :: string
  tl_dbg :: "string \<Rightarrow> string"
  tl_dbg_cap :: "capability \<Rightarrow> string"
  tl_json_cap :: "capability \<Rightarrow> json"
  tl_json_card :: "agent_card \<Rightarrow> json"
  tl_json_run :: "run_record \<Rightarrow> json"
  tl_print :: "json \<Rightarrow> string"
  tl_as_u64 :: "json \<Rightarrow> u64 option"
  tl_score :: "'f \<Rightarrow> json"
  tl_store_err :: "store_error \<Rightarrow> string"
  tl_runs_err :: "runs_error \<Rightarrow> string"
  tl_read :: "'w \<Rightarrow> string \<Rightarrow> string option"
  tl_create_dirs :: "string \<Rightarrow> 'w \<Rightarrow> bool \<times> 'w"
  tl_write :: "string \<Rightarrow> string \<Rightarrow> 'w \<Rightarrow> bool \<times> 'w"
  tl_read_dir :: "'w \<Rightarrow> string \<Rightarrow> dir_error + (string \<times> bool) list"
  tl_mcp_call :: "string \<Rightarrow> json \<Rightarrow> 'w \<Rightarrow> json option \<times> 'w"

record ('s, 'n, 'w) tool_world =
  tw_store :: "('s, 'n) redb_store"
  tw_runs :: "('s, 'n) runs_store"
  tw_queue :: "writer_msg list"
  tw_os :: 'w
  tw_log :: flight_log

text \<open>
  What one call meets: the clocks, and whether its transactions commit and the run writer lives.
\<close>

record tool_io =
  ti_nanos :: "string + u64"
  ti_secs :: u64
  ti_rfc3339 :: string
  ti_bump :: bool
  ti_put :: bool
  ti_evict :: bool
  ti_channel :: bool
  ti_publish :: bool

definition READ_FILE_MAX :: nat where "READ_FILE_MAX = 100000"
definition MAX_KV_VALUE_BYTES :: nat where "MAX_KV_VALUE_BYTES = 256 * 1024"
definition MAX_MEM_CONTENT_BYTES :: nat where "MAX_MEM_CONTENT_BYTES = 8 * 1024"

text \<open>\<open>input["k"].as_str()\<close>, which is absent when the input is not an object.\<close>

definition str_field :: "json \<Rightarrow> string \<Rightarrow> string option" where
  "str_field v k = Option.bind (json_get v k) json_as_str"

definition u64_field :: "('s, 'n, 'f, 'w) tool_env \<Rightarrow> json \<Rightarrow> string \<Rightarrow> u64 option" where
  "u64_field E v k = Option.bind (json_get v k) (tl_as_u64 E)"

definition json_as_array :: "json \<Rightarrow> json list option" where
  "json_as_array v = (case v of JArr xs \<Rightarrow> Some xs | _ \<Rightarrow> None)"

abbreviation or_empty :: "string option \<Rightarrow> string" where
  "or_empty x \<equiv> (case x of None \<Rightarrow> [] | Some s \<Rightarrow> s)"

type_synonym tool_result = "string + string"

subsection \<open>Names and capabilities\<close>

fun spec_of :: "tool \<Rightarrow> tool_spec" where
  "spec_of ReadFile = read_file_spec"
| "spec_of WriteFile = write_file_spec"
| "spec_of ListDir = list_dir_spec"
| "spec_of KvGet = kv_get_spec"
| "spec_of KvSet = kv_set_spec"
| "spec_of MemRemember = mem_remember_spec"
| "spec_of MemRecall = mem_recall_spec"
| "spec_of KbPut = kb_put_spec"
| "spec_of KbGet = kb_get_spec"
| "spec_of KbSearch = kb_search_spec"
| "spec_of RunsQuery = runs_query_spec"
| "spec_of (PublishBrief _) = publish_brief_spec"
| "spec_of SpawnAgentTool = spawn_agent_spec"
| "spec_of RunJobTool = run_job_spec"
| "spec_of RequestApprovalTool = request_approval_spec"
| "spec_of (ListAgentsTool _) = list_agents_spec"
| "spec_of SendMessageTool = send_message_spec"
| "spec_of (McpTool _ sp) = sp"

abbreviation tool_name :: "tool \<Rightarrow> string" where
  "tool_name t \<equiv> spec_name (spec_of t)"

definition read_file_capability :: "json \<Rightarrow> capability option" where
  "read_file_capability v = Some (FsRead (or_empty (str_field v ''path'')))"

definition write_file_capability :: "json \<Rightarrow> capability option" where
  "write_file_capability v = Some (FsWrite (or_empty (str_field v ''path'')))"

definition list_dir_capability :: "json \<Rightarrow> capability option" where
  "list_dir_capability v = Some (FsRead (or_empty (str_field v ''path'')))"

definition kv_get_capability :: "json \<Rightarrow> capability option" where
  "kv_get_capability v = (if v = JNull then Some (KbRead []) else Some (KbRead (or_empty (str_field v ''namespace''))))"

definition kv_set_capability :: "json \<Rightarrow> capability option" where
  "kv_set_capability v = (if v = JNull then Some (KbWrite []) else Some (KbWrite (or_empty (str_field v ''namespace''))))"

definition kb_put_capability :: "json \<Rightarrow> capability option" where
  "kb_put_capability v = Some (KbWrite (or_empty (str_field v ''segment'')))"

definition kb_get_capability :: "json \<Rightarrow> capability option" where
  "kb_get_capability v = Some (KbRead (or_empty (str_field v ''segment'')))"

definition kb_search_capability :: "json \<Rightarrow> capability option" where
  "kb_search_capability v = Some (KbRead (or_empty (str_field v ''segment'')))"

fun required_capability_for :: "tool \<Rightarrow> json \<Rightarrow> capability option" where
  "required_capability_for ReadFile v = read_file_capability v"
| "required_capability_for WriteFile v = write_file_capability v"
| "required_capability_for ListDir v = list_dir_capability v"
| "required_capability_for KvGet v = kv_get_capability v"
| "required_capability_for KvSet v = kv_set_capability v"
| "required_capability_for MemRemember v = None"
| "required_capability_for MemRecall v = None"
| "required_capability_for KbPut v = kb_put_capability v"
| "required_capability_for KbGet v = kb_get_capability v"
| "required_capability_for KbSearch v = kb_search_capability v"
| "required_capability_for RunsQuery v = Some RunsRead"
| "required_capability_for (PublishBrief _) v = Some BriefPublish"
| "required_capability_for SpawnAgentTool v = Some Spawn"
| "required_capability_for RunJobTool v = Some Capability.RunJob"
| "required_capability_for RequestApprovalTool v = None"
| "required_capability_for (ListAgentsTool _) v = None"
| "required_capability_for SendMessageTool v = None"
| "required_capability_for (McpTool server sp) v = Some (Mcp server [spec_name sp])"

text \<open>The segment a well-known knowledge-base tool names, whoever implements it.\<close>

definition kb_segment_capability :: "string \<Rightarrow> json \<Rightarrow> capability option" where
  "kb_segment_capability name v =
     (let seg = or_empty (str_field v ''segment'') in
      if name = ''kb_put'' then Some (KbWrite seg)
      else if name = ''kb_get'' \<or> name = ''kb_search'' then Some (KbRead seg)
      else None)"

subsection \<open>The registry\<close>

type_synonym tool_registry = "(string, tool) hashmap"

definition register_tool :: "tool \<Rightarrow> tool_registry \<Rightarrow> string + tool_registry" where
  "register_tool t reg =
     (if contains_key reg (tool_name t) then
        Inl (''tool '' @ [CHR 0x27] @ tool_name t @ [CHR 0x27] @
          '' is already registered; use a different name or remove the conflicting registration'')
      else Inr (put (tool_name t) t reg))"

definition PROTECTED_TOOLS :: "string list" where
  "PROTECTED_TOOLS = [''request_approval'', ''spawn_agent'', ''send_message'', ''publish_brief'']"

definition register_override :: "tool \<Rightarrow> tool_registry \<Rightarrow> string + tool_registry" where
  "register_override t reg =
     (if tool_name t \<in> set PROTECTED_TOOLS then
        Inl (''tool_override cannot shadow safety-critical tool '' @ [CHR 0x27] @ tool_name t @ [CHR 0x27] @
          ''; remove tool_override from this MCP server or rename the tool'')
      else Inr (put (tool_name t) t reg))"

text \<open>The tools of \<open>register_native\<close> in order, each with the condition under which it is registered.\<close>

definition native_tools ::
    "string list \<Rightarrow> agent_card list option \<Rightarrow> bool \<Rightarrow> bool \<Rightarrow> bool option \<Rightarrow> (bool \<times> tool) list" where
  "native_tools names cards store runs publisher =
     (let every = ''all'' \<in> set names;
          want = (\<lambda>n. every \<or> n \<in> set names);
          listed = (\<lambda>n. n \<in> set names)
      in [(want ''read_file'', ReadFile),
          (want ''write_file'', WriteFile),
          (want ''list_dir'', ListDir),
          (want ''spawn_agent'', SpawnAgentTool),
          (want ''run_job'', RunJobTool),
          (want ''list_agents'', ListAgentsTool (case cards of None \<Rightarrow> [] | Some c \<Rightarrow> c)),
          (want ''send_message'', SendMessageTool),
          (want ''request_approval'', RequestApprovalTool),
          (listed ''kv_get'' \<and> store, KvGet),
          (listed ''kv_set'' \<and> store, KvSet),
          (listed ''mem_remember'' \<and> store, MemRemember),
          (listed ''mem_recall'' \<and> store, MemRecall),
          (listed ''kb_put'' \<and> store, KbPut),
          (listed ''kb_get'' \<and> store, KbGet),
          (listed ''kb_search'' \<and> store, KbSearch),
          (listed ''runs_query'' \<and> runs, RunsQuery),
          (listed ''publish_brief'' \<and> publisher \<noteq> None, PublishBrief (publisher = Some True))])"

fun register_each :: "tool list \<Rightarrow> tool_registry \<Rightarrow> string + tool_registry" where
  "register_each [] reg = Inr reg"
| "register_each (t # ts) reg = (case register_tool t reg of Inl e \<Rightarrow> Inl e | Inr reg' \<Rightarrow> register_each ts reg')"

definition register_native ::
    "string list \<Rightarrow> agent_card list option \<Rightarrow> bool \<Rightarrow> bool \<Rightarrow> bool option \<Rightarrow> tool_registry \<Rightarrow> string + tool_registry" where
  "register_native names cards store runs publisher reg =
     register_each (map snd (filter fst (native_tools names cards store runs publisher))) reg"

text \<open>The tools of one MCP server, as \<open>main\<close> registers them.\<close>

fun register_mcp :: "bool \<Rightarrow> string \<Rightarrow> tool_spec list \<Rightarrow> tool_registry \<Rightarrow> string + tool_registry" where
  "register_mcp override server [] reg = Inr reg"
| "register_mcp override server (sp # sps) reg =
     (case (if override then register_override (McpTool server sp) reg else register_tool (McpTool server sp) reg) of
        Inl e \<Rightarrow> Inl e
      | Inr reg' \<Rightarrow> register_mcp override server sps reg')"

definition specs :: "tool_registry \<Rightarrow> tool_spec list" where
  "specs reg = sort_key spec_name (map (\<lambda>(_, t). spec_of t) reg)"

definition registry_filtered_specs ::
    "('s, 'n, 'f, 'w) tool_env \<Rightarrow> tool_registry \<Rightarrow> capability list option \<Rightarrow> tool_spec list" where
  "registry_filtered_specs E reg cap_set =
     (case cap_set of
        None \<Rightarrow> specs reg
      | Some caps \<Rightarrow>
          sort_key spec_name (map (\<lambda>(_, t). spec_of t)
            (filter (\<lambda>(_, t). case required_capability_for t JNull of
                None \<Rightarrow> True
              | Some required \<Rightarrow> satisfies_type (tl_anchor E) caps required) reg)))"

definition tool_names :: "tool_registry \<Rightarrow> string list" where
  "tool_names reg = sort (map fst reg)"

subsection \<open>Files\<close>

definition read_file ::
    "('s, 'n, 'f, 'w) tool_env \<Rightarrow> json \<Rightarrow> ('s, 'n, 'w) tool_world \<Rightarrow> tool_result \<times> ('s, 'n, 'w) tool_world" where
  "read_file E v w =
     (case str_field v ''path'' of
        None \<Rightarrow> (Inl ''path must be a string'', w)
      | Some p \<Rightarrow>
          (case tl_read E (tw_os w) p of
             None \<Rightarrow> (Inl (''reading '' @ p), w)
           | Some content \<Rightarrow>
               (if chars_count content \<le> READ_FILE_MAX then Inr content
                else Inr (chars_take READ_FILE_MAX content @ [CHR 0x0A] @ ''[truncated at '' @ show_nat READ_FILE_MAX @ '' chars]''),
                w)))"

text \<open>\<open>Path::parent\<close>: all but the last component, unless there is none or it is the root.\<close>

definition path_parent :: "string \<Rightarrow> string option" where
  "path_parent p =
     (case rev (components p) of
        [] \<Rightarrow> None
      | RootDir # _ \<Rightarrow> None
      | _ # rest \<Rightarrow> Some (path_collect (rev rest)))"

definition write_file ::
    "('s, 'n, 'f, 'w) tool_env \<Rightarrow> json \<Rightarrow> ('s, 'n, 'w) tool_world \<Rightarrow> tool_result \<times> ('s, 'n, 'w) tool_world" where
  "write_file E v w =
     (case (str_field v ''path'', str_field v ''content'') of
        (None, _) \<Rightarrow> (Inl ''path must be a string'', w)
      | (Some p, None) \<Rightarrow> (Inl ''content must be a string'', w)
      | (Some p, Some content) \<Rightarrow>
          let (made, os1) =
            (case path_parent p of
               None \<Rightarrow> (True, tw_os w)
             | Some parent \<Rightarrow> if parent = [] then (True, tw_os w) else tl_create_dirs E parent (tw_os w))
          in if \<not> made then (Inl (''creating directories for '' @ p), w\<lparr>tw_os := os1\<rparr>)
             else
               let (written, os2) = tl_write E p content os1
               in (if written then Inr (''wrote '' @ show_nat (chars_count content) @ '' chars to '' @ p)
                   else Inl (''writing '' @ p),
                   w\<lparr>tw_os := os2\<rparr>))"

definition list_dir ::
    "('s, 'n, 'f, 'w) tool_env \<Rightarrow> json \<Rightarrow> ('s, 'n, 'w) tool_world \<Rightarrow> tool_result \<times> ('s, 'n, 'w) tool_world" where
  "list_dir E v w =
     (case str_field v ''path'' of
        None \<Rightarrow> (Inl ''path must be a string'', w)
      | Some p \<Rightarrow>
          (case tl_read_dir E (tw_os w) p of
             Inl ReadDirFailed \<Rightarrow> Inl (''reading directory '' @ p)
           | Inl DirEntryFailed \<Rightarrow> Inl ''reading directory entry''
           | Inr es \<Rightarrow> Inr (join [CHR 0x0A] (sort (map (\<lambda>(n, is_dir). if is_dir then n @ ''/'' else n) es))),
           w))"

subsection \<open>The key/value store\<close>

definition extract_ns_key :: "('s, 'n, 'f, 'w) tool_env \<Rightarrow> json \<Rightarrow> string + (string \<times> string)" where
  "extract_ns_key E v =
     (case (str_field v ''namespace'', str_field v ''key'') of
        (None, _) \<Rightarrow> Inl (''namespace must be a string (e.g. '' @ [CHR 0x22] @ ''agent:scratch'' @ [CHR 0x22] @ '')'')
      | (Some ns, None) \<Rightarrow> Inl (''key must be a string (e.g. '' @ [CHR 0x22] @ ''my-note'' @ [CHR 0x22] @ '')'')
      | (Some ns, Some k) \<Rightarrow>
          (case validate_segment (tl_dbg E) ns ''namespace'' of
             Inl e \<Rightarrow> Inl (e @ ''; use namespace like '' @ [CHR 0x22] @ ''agent:scratch'' @ [CHR 0x22])
           | Inr _ \<Rightarrow>
               (case validate_segment (tl_dbg E) k ''key'' of Inl e \<Rightarrow> Inl e | Inr _ \<Rightarrow> Inr (ns, k))))"

definition kv_get ::
    "('s, 'n, 'f, 'w) tool_env \<Rightarrow> json \<Rightarrow> ('s, 'n, 'w) tool_world \<Rightarrow> tool_result \<times> ('s, 'n, 'w) tool_world" where
  "kv_get E v w =
     (case extract_ns_key E v of
        Inl e \<Rightarrow> (Inl e, w)
      | Inr (ns, k) \<Rightarrow> (Inr (or_empty (store_get (tl_store E) ns k (tw_store w))), w))"

text \<open>\<open>store.put\<close> inside a tool: the store stamps the entry with the current second.\<close>

definition tool_put ::
    "('s, 'n, 'f, 'w) tool_env \<Rightarrow> tool_io \<Rightarrow> string \<Rightarrow> string \<Rightarrow> string \<Rightarrow> string \<Rightarrow> ('s, 'n, 'w) tool_world \<Rightarrow>
     tool_result \<times> ('s, 'n, 'w) tool_world" where
  "tool_put E io ns k val ret w =
     (let (r, db) = put_at (tl_store E) (ti_put io) (ti_evict io) ns k val (ti_secs io) (tw_store w)
      in (case r of Inl e \<Rightarrow> Inl (tl_store_err E e) | Inr _ \<Rightarrow> Inr ret, w\<lparr>tw_store := db\<rparr>))"

definition kv_set ::
    "('s, 'n, 'f, 'w) tool_env \<Rightarrow> tool_io \<Rightarrow> json \<Rightarrow> ('s, 'n, 'w) tool_world \<Rightarrow>
     tool_result \<times> ('s, 'n, 'w) tool_world" where
  "kv_set E io v w =
     (case extract_ns_key E v of
        Inl e \<Rightarrow> (Inl e, w)
      | Inr (ns, k) \<Rightarrow>
          (case segment_class (tl_store E) ns (tw_store w) of
             Some Canon \<Rightarrow> (Inl (''namespace '' @ tl_dbg E ns @ '' is canon: agent writes are denied''), w)
           | Some Log \<Rightarrow>
               (Inl (''namespace '' @ tl_dbg E ns @ '' is a log segment: use kb_put to append a structured log entry''), w)
           | _ \<Rightarrow>
               (case str_field v ''value'' of
                  None \<Rightarrow> (Inl ''value must be a string'', w)
                | Some val \<Rightarrow>
                    if MAX_KV_VALUE_BYTES < length val then
                      (Inl (''value too large: '' @ show_nat (length val) @ '' bytes exceeds limit of '' @
                         show_nat MAX_KV_VALUE_BYTES @ '' bytes''), w)
                    else
                      tool_put E io ns k val (''stored '' @ show_nat (length val) @ '' bytes at '' @ ns @ '':'' @ k) w)))"

subsection \<open>Long-term memory\<close>

definition own_namespace :: "tool_context \<Rightarrow> string" where
  "own_namespace ctx = ''agent/'' @ tc_agent_id ctx"

definition mem_remember ::
    "('s, 'n, 'f, 'w) tool_env \<Rightarrow> tool_io \<Rightarrow> tool_context \<Rightarrow> json \<Rightarrow> ('s, 'n, 'w) tool_world \<Rightarrow>
     tool_result \<times> ('s, 'n, 'w) tool_world" where
  "mem_remember E io ctx v w =
     (case str_field v ''content'' of
        None \<Rightarrow> (Inl ''content must be a string'', w)
      | Some content \<Rightarrow>
          let tags = (case Option.bind (json_get v ''tags'') json_as_array of
                        None \<Rightarrow> [] | Some a \<Rightarrow> List.map_filter json_as_str a)
          in
          (case ti_nanos io of
             Inl e \<Rightarrow> (Inl (''system clock error: '' @ e), w)
           | Inr ns_now \<Rightarrow>
               let k = hex16 ns_now; ns = own_namespace ctx in
               (case validate_segment (tl_dbg E) ns ''agent namespace'' of
                  Inl e \<Rightarrow> (Inl e, w)
                | Inr _ \<Rightarrow>
                    let entry = tl_print E (JObj [(''content'', JStr content), (''tags'', JArr (map JStr tags)),
                          (''provenance'', JObj [(''agent_id'', JStr (tc_agent_id ctx)), (''turn'', JWord (tc_turn ctx)),
                             (''ts'', JWord ns_now), (''task_fp'', JStr (tc_task_fp ctx))])])
                    in if MAX_MEM_CONTENT_BYTES < length entry then
                         (Inl (''entry too large: '' @ show_nat (length entry) @
                            '' bytes (content + tags + provenance) exceeds limit of '' @ show_nat MAX_MEM_CONTENT_BYTES @ '' bytes''), w)
                       else
                         tool_put E io ns k entry (''remembered: key='' @ k @ '' namespace='' @ ns @ '' bytes='' @ show_nat (length entry)) w)))"

text \<open>\<open>entry["key"] = \<dots>\<close> on an object.\<close>

definition json_set :: "string \<Rightarrow> json \<Rightarrow> json \<Rightarrow> json" where
  "json_set k x v = (case v of JObj kvs \<Rightarrow> JObj (AList.update k x kvs) | _ \<Rightarrow> v)"

definition recall_match ::
    "('s, 'n, 'f, 'w) tool_env \<Rightarrow> string \<Rightarrow> string \<times> string \<Rightarrow> json option" where
  "recall_match E query e =
     (let hit = (\<lambda>s. str_contains query (to_lowercase (tl_store E) s)) in
      case value_of_json (tl_store E) (snd e) of
        None \<Rightarrow> None
      | Some parsed \<Rightarrow>
          let content_hit = (case str_field parsed ''content'' of None \<Rightarrow> False | Some c \<Rightarrow> hit c);
              tags_hit = (case Option.bind (json_get parsed ''tags'') json_as_array of
                            None \<Rightarrow> False
                          | Some ts \<Rightarrow> list_ex (\<lambda>t. case json_as_str t of None \<Rightarrow> False | Some s \<Rightarrow> hit s) ts)
          in if content_hit \<or> tags_hit then Some (json_set ''key'' (JStr (fst e)) parsed) else None)"

definition limit_of :: "('s, 'n, 'f, 'w) tool_env \<Rightarrow> json \<Rightarrow> nat \<Rightarrow> nat \<Rightarrow> nat" where
  "limit_of E v dflt most = min (case u64_field E v ''limit'' of None \<Rightarrow> dflt | Some n \<Rightarrow> unat n) most"

definition mem_recall ::
    "('s, 'n, 'f, 'w) tool_env \<Rightarrow> tool_context \<Rightarrow> json \<Rightarrow> ('s, 'n, 'w) tool_world \<Rightarrow>
     tool_result \<times> ('s, 'n, 'w) tool_world" where
  "mem_recall E ctx v w =
     (case str_field v ''query'' of
        None \<Rightarrow> (Inl ''query must be a string'', w)
      | Some q \<Rightarrow>
          let query = to_lowercase (tl_store E) q in
          if query = [] then (Inl ''query must not be empty'', w)
          else
            (case validate_segment (tl_dbg E) (own_namespace ctx) ''agent namespace'' of
               Inl e \<Rightarrow> (Inl e, w)
             | Inr _ \<Rightarrow>
                 let entries = sort_by (\<lambda>a b. fst b \<le> fst a) (store_iter (tl_store E) (own_namespace ctx) (tw_store w))
                 in (Inr (tl_print E (JArr (take (limit_of E v 10 50) (List.map_filter (recall_match E query) entries)))), w)))"

subsection \<open>The knowledge base\<close>

definition kb_entry ::
    "('s, 'n, 'f, 'w) tool_env \<Rightarrow> tool_io \<Rightarrow> tool_context \<Rightarrow> string \<Rightarrow> string \<Rightarrow> u64 \<Rightarrow> string option \<Rightarrow> string" where
  "kb_entry E io ctx content cls version citation =
     tl_print E (JObj [(''content'', JStr content), (''class'', JStr cls), (''version'', JWord version),
       (''provenance'', JObj [(''agent_id'', JStr (tc_agent_id ctx)), (''turn'', JWord (tc_turn ctx)),
          (''task_fp'', JStr (tc_task_fp ctx)), (''ts'', JStr (ti_rfc3339 io)), (''citation'', JOpt JStr citation)])])"

definition entry_too_large :: "string \<Rightarrow> string" where
  "entry_too_large entry =
     ''entry too large: '' @ show_nat (length entry) @ '' bytes exceeds limit of '' @ show_nat MAX_MEM_CONTENT_BYTES @ '' bytes''"

definition kb_put_log ::
    "('s, 'n, 'f, 'w) tool_env \<Rightarrow> tool_io \<Rightarrow> tool_context \<Rightarrow> string \<Rightarrow> string \<Rightarrow> string option \<Rightarrow> ('s, 'n, 'w) tool_world \<Rightarrow>
     tool_result \<times> ('s, 'n, 'w) tool_world" where
  "kb_put_log E io ctx seg content citation w =
     (if \<not> ti_bump io then (Inl (tl_store_err E TxFailed), w)
      else
        let (n, db) = next_log_seq (tl_store E) seg (tw_store w);
            w1 = w\<lparr>tw_store := db\<rparr>;
            k = hex16 n;
            entry = kb_entry E io ctx content ''log'' 1 citation
        in if MAX_MEM_CONTENT_BYTES < length entry then (Inl (entry_too_large entry), w1)
           else tool_put E io seg k entry (tl_print E (JObj [(''key'', JStr k), (''class'', JStr ''log'')])) w1)"

definition kb_put_scratch ::
    "('s, 'n, 'f, 'w) tool_env \<Rightarrow> tool_io \<Rightarrow> tool_context \<Rightarrow> json \<Rightarrow> string \<Rightarrow> string \<Rightarrow> string option \<Rightarrow>
     ('s, 'n, 'w) tool_world \<Rightarrow> tool_result \<times> ('s, 'n, 'w) tool_world" where
  "kb_put_scratch E io ctx v seg content citation w =
     (case str_field v ''key'' of
        None \<Rightarrow> (Inl ''key is required for scratch segments'', w)
      | Some k \<Rightarrow>
          (case validate_segment (tl_dbg E) k ''key'' of
             Inl e \<Rightarrow> (Inl e, w)
           | Inr _ \<Rightarrow>
               if \<not> ti_bump io then (Inl (tl_store_err E TxFailed), w)
               else
                 let (n, db) = next_scratch_version (tl_store E) seg k (tw_store w);
                     w1 = w\<lparr>tw_store := db\<rparr>;
                     entry = kb_entry E io ctx content ''scratch'' n citation
                 in if MAX_MEM_CONTENT_BYTES < length entry then (Inl (entry_too_large entry), w1)
                    else tool_put E io seg k entry
                           (tl_print E (JObj [(''key'', JStr k), (''class'', JStr ''scratch''), (''version'', JWord n)])) w1))"

definition kb_put ::
    "('s, 'n, 'f, 'w) tool_env \<Rightarrow> tool_io \<Rightarrow> tool_context \<Rightarrow> json \<Rightarrow> ('s, 'n, 'w) tool_world \<Rightarrow>
     tool_result \<times> ('s, 'n, 'w) tool_world" where
  "kb_put E io ctx v w =
     (case str_field v ''segment'' of
        None \<Rightarrow> (Inl ''segment must be a string'', w)
      | Some seg \<Rightarrow>
          (case validate_segment (tl_dbg E) seg ''segment'' of
             Inl e \<Rightarrow> (Inl e, w)
           | Inr _ \<Rightarrow>
               (case str_field v ''content'' of
                  None \<Rightarrow> (Inl ''content must be a string'', w)
                | Some content \<Rightarrow>
                    let citation = str_field v ''citation'' in
                    (case segment_class (tl_store E) seg (tw_store w) of
                       Some Canon \<Rightarrow> (Inl (''segment '' @ tl_dbg E seg @ '' is canon: agent writes are denied''), w)
                     | Some Log \<Rightarrow> kb_put_log E io ctx seg content citation w
                     | _ \<Rightarrow> kb_put_scratch E io ctx v seg content citation w))))"

definition kb_get ::
    "('s, 'n, 'f, 'w) tool_env \<Rightarrow> json \<Rightarrow> ('s, 'n, 'w) tool_world \<Rightarrow> tool_result \<times> ('s, 'n, 'w) tool_world" where
  "kb_get E v w =
     (case str_field v ''segment'' of
        None \<Rightarrow> (Inl ''segment must be a string'', w)
      | Some seg \<Rightarrow>
          (case validate_segment (tl_dbg E) seg ''segment'' of
             Inl e \<Rightarrow> (Inl e, w)
           | Inr _ \<Rightarrow>
               (case str_field v ''key'' of
                  None \<Rightarrow> (Inl ''key must be a string'', w)
                | Some k \<Rightarrow>
                    (case validate_segment (tl_dbg E) k ''key'' of
                       Inl e \<Rightarrow> (Inl e, w)
                     | Inr _ \<Rightarrow> (Inr (or_empty (store_get (tl_store E) seg k (tw_store w))), w)))))"

definition expand_hit :: "('s, 'n, 'f, 'w) tool_env \<Rightarrow> 'f search_hit \<Rightarrow> json" where
  "expand_hit E h =
     (let base = [(''segment'', JStr (sh_namespace h)), (''key'', JStr (sh_key h)), (''score'', tl_score E (sh_score h))] in
      case value_of_json (tl_store E) (sh_value h) of
        None \<Rightarrow> JObj (AList.update ''content'' (JStr (sh_value h)) base)
      | Some inner \<Rightarrow>
          JObj (fold (\<lambda>fld m. case json_get inner fld of None \<Rightarrow> m | Some x \<Rightarrow> AList.update fld x m)
                  [''content'', ''provenance'', ''class''] base))"

definition kb_search ::
    "('s, 'n, 'f::linorder, 'w) tool_env \<Rightarrow> json \<Rightarrow> ('s, 'n, 'w) tool_world \<Rightarrow> tool_result \<times> ('s, 'n, 'w) tool_world" where
  "kb_search E v w =
     (case str_field v ''segment'' of
        None \<Rightarrow> (Inl ''segment must be a string'', w)
      | Some seg \<Rightarrow>
          (case validate_segment (tl_dbg E) seg ''segment'' of
             Inl e \<Rightarrow> (Inl e, w)
           | Inr _ \<Rightarrow>
               (case str_field v ''query'' of
                  None \<Rightarrow> (Inl ''query must be a string'', w)
                | Some q \<Rightarrow>
                    if q = [] then (Inl ''query must not be empty'', w)
                    else if tokenize (tl_store E) q = [] then
                      (Inr (tl_print E (JObj [(''hits'', JArr []), (''terms_matched'', JNat 0),
                         (''note'', JStr ''query contained no indexable terms (all stopwords or too short)'')])), w)
                    else
                      (case store_search (tl_store E) (Some seg) q (str_field v ''author'') (limit_of E v 10 50) (tw_store w) of
                         Inl e \<Rightarrow> (Inl (tl_store_err E e), w)
                       | Inr (hits, n) \<Rightarrow>
                           (Inr (tl_print E (JObj [(''hits'', JArr (map (expand_hit E) hits)), (''terms_matched'', JNat n)])), w)))))"

subsection \<open>Run history, briefs and agents\<close>

definition runs_query ::
    "('s, 'n, 'f, 'w) tool_env \<Rightarrow> json \<Rightarrow> ('s, 'n, 'w) tool_world \<Rightarrow> tool_result \<times> ('s, 'n, 'w) tool_world" where
  "runs_query E v w =
     (let f = \<lparr>rf_from = u64_field E v ''from'', rf_to = u64_field E v ''to'', rf_agent_id = str_field v ''agent_id'',
               rf_parent_id = str_field v ''parent_id'', rf_status = str_field v ''status'', rf_limit = limit_of E v 20 100\<rparr>;
          runs = runs_list (tl_runs E) f (tw_runs w)
      in (Inr (tl_print E (JObj [(''runs'', JArr (map (tl_json_run E) runs)), (''count'', JNat (length runs))])), w))"

text \<open>
  The request goes down the channel of the lifecycle events: the writer applies what is queued
  before it, then composes the brief. \<open>on\<close>: the publisher has a channel.
\<close>

definition publish_brief_tool ::
    "('s, 'n, 'f, 'w) tool_env \<Rightarrow> tool_io \<Rightarrow> bool \<Rightarrow> json \<Rightarrow> ('s, 'n, 'w) tool_world \<Rightarrow>
     tool_result \<times> ('s, 'n, 'w) tool_world" where
  "publish_brief_tool E io on v w =
     (if \<not> on then (Inl ''run history not configured; cannot publish brief'', w)
      else if \<not> ti_channel io then (Inl ''run-history writer channel closed'', w)
      else
        let db = run_writer (tl_runs E) (tw_queue w) (tw_runs w);
            (r, db') = publish_brief (tl_runs E) (ti_publish io) (str_field v ''narrative'')
                         (u64_field E v ''suppressed_count'') (ti_secs io) db
        in (case r of Inl e \<Rightarrow> Inl (tl_runs_err E e) | Inr b \<Rightarrow> Inr (brief_to_json (tl_runs E) b),
            w\<lparr>tw_runs := db', tw_queue := []\<rparr>))"

definition list_agents ::
    "('s, 'n, 'f, 'w) tool_env \<Rightarrow> agent_card list \<Rightarrow> ('s, 'n, 'w) tool_world \<Rightarrow> tool_result \<times> ('s, 'n, 'w) tool_world" where
  "list_agents E cards w = (Inr (tl_print E (JArr (map (tl_json_card E) (sort_key card_id cards)))), w)"

definition intercepted :: "string \<Rightarrow> tool_result" where
  "intercepted name = Inl (name @ '' must be intercepted by the scheduler; invoke() should never be called'')"

subsection \<open>Remote tools\<close>

definition text_content :: "json \<Rightarrow> string option" where
  "text_content v =
     (case Option.bind (json_get v ''content'') json_as_array of
        None \<Rightarrow> None
      | Some ps \<Rightarrow>
          let parts = List.map_filter (\<lambda>p. str_field p ''text'') (filter (\<lambda>p. str_field p ''type'' = Some ''text'') ps)
          in if parts = [] then None else Some (join [CHR 0x0A] parts))"

definition mcp_invoke ::
    "('s, 'n, 'f, 'w) tool_env \<Rightarrow> string \<Rightarrow> tool_spec \<Rightarrow> json \<Rightarrow> ('s, 'n, 'w) tool_world \<Rightarrow>
     tool_result \<times> ('s, 'n, 'w) tool_world" where
  "mcp_invoke E server sp v w =
     (let (r, os) = tl_mcp_call E server (JObj [(''name'', JStr (spec_name sp)), (''arguments'', v)]) (tw_os w);
          quoted = [CHR 0x27] @ spec_name sp @ [CHR 0x27]
      in (case r of
            None \<Rightarrow> Inl (''calling MCP tool '' @ quoted)
          | Some res \<Rightarrow>
              if json_get res ''isError'' = Some (JBool True) then
                Inl (case text_content res of None \<Rightarrow> ''MCP tool '' @ quoted @ '' returned an error'' | Some m \<Rightarrow> m)
              else Inr (or_empty (text_content res)),
          w\<lparr>tw_os := os\<rparr>))"

subsection \<open>Dispatch\<close>

fun tool_invoke ::
    "('s, 'n, 'f::linorder, 'w) tool_env \<Rightarrow> tool_io \<Rightarrow> tool_context \<Rightarrow> tool \<Rightarrow> json \<Rightarrow> ('s, 'n, 'w) tool_world \<Rightarrow>
     tool_result \<times> ('s, 'n, 'w) tool_world" where
  "tool_invoke E io ctx ReadFile v w = read_file E v w"
| "tool_invoke E io ctx WriteFile v w = write_file E v w"
| "tool_invoke E io ctx ListDir v w = list_dir E v w"
| "tool_invoke E io ctx KvGet v w = kv_get E v w"
| "tool_invoke E io ctx KvSet v w = kv_set E io v w"
| "tool_invoke E io ctx MemRemember v w = mem_remember E io ctx v w"
| "tool_invoke E io ctx MemRecall v w = mem_recall E ctx v w"
| "tool_invoke E io ctx KbPut v w = kb_put E io ctx v w"
| "tool_invoke E io ctx KbGet v w = kb_get E v w"
| "tool_invoke E io ctx KbSearch v w = kb_search E v w"
| "tool_invoke E io ctx RunsQuery v w = runs_query E v w"
| "tool_invoke E io ctx (PublishBrief on) v w = publish_brief_tool E io on v w"
| "tool_invoke E io ctx SpawnAgentTool v w = (intercepted ''spawn_agent'', w)"
| "tool_invoke E io ctx RunJobTool v w = (intercepted ''run_job'', w)"
| "tool_invoke E io ctx RequestApprovalTool v w = (intercepted ''request_approval'', w)"
| "tool_invoke E io ctx (ListAgentsTool cards) v w = list_agents E cards w"
| "tool_invoke E io ctx SendMessageTool v w = (intercepted ''send_message'', w)"
| "tool_invoke E io ctx (McpTool server sp) v w = mcp_invoke E server sp v w"

text \<open>The refusal of a call: the event and the error.\<close>

definition deny ::
    "('s, 'n, 'f, 'w) tool_env \<Rightarrow> tool_context \<Rightarrow> string \<Rightarrow> capability \<Rightarrow> bool \<Rightarrow> ('s, 'n, 'w) tool_world \<Rightarrow>
     tool_result \<times> ('s, 'n, 'w) tool_world" where
  "deny E ctx name required kb w =
     (Inl (''capability denied: tool '' @ [CHR 0x27] @ name @ [CHR 0x27] @ '' requires '' @ tl_dbg_cap E required @
        (if kb then '' (KB segment scope)'' else [])),
      w\<lparr>tw_log := record_event (tc_agent_id ctx) None EvCapabilityDenied
           ([(''tool'', JStr name), (''required'', tl_json_cap E required)] @
            (if kb then [(''reason'', JStr ''kb_segment_scope'')] else [])) (tw_log w)\<rparr>)"

definition class_field :: "('s, 'n, 'f, 'w) tool_env \<Rightarrow> string \<Rightarrow> string" where
  "class_field E r = or_empty (Option.bind (value_of_json (tl_store E) r) (\<lambda>x. str_field x ''class''))"

definition json_or_null :: "('s, 'n, 'f, 'w) tool_env \<Rightarrow> string \<Rightarrow> json" where
  "json_or_null E r = (case value_of_json (tl_store E) r of None \<Rightarrow> JNull | Some x \<Rightarrow> x)"

definition query_preview :: "json \<Rightarrow> string" where
  "query_preview v =
     (let q = or_empty (str_field v ''query'') in if 64 < chars_count q then chars_take 64 q @ ''...'' else q)"

text \<open>The event recorded after a successful call, by the name of the tool.\<close>

definition post_call ::
    "('s, 'n, 'f, 'w) tool_env \<Rightarrow> tool_context \<Rightarrow> string \<Rightarrow> json \<Rightarrow> string \<Rightarrow> flight_log \<Rightarrow> flight_log" where
  "post_call E ctx name v r lg =
     (let agent = (''agent'', JStr (tc_agent_id ctx)) in
      if name = ''kv_get'' then
        record_event (tc_agent_id ctx) None EvMemoryRead [agent, (''found'', JBool (r \<noteq> []))] lg
      else if name = ''kv_set'' then
        record_event (tc_agent_id ctx) None EvMemoryWrite [agent, (''bytes'', JNat (length r))] lg
      else if name = ''mem_remember'' then
        record_event (tc_agent_id ctx) (Some (tc_turn ctx)) EvMemoryDistilled
          [agent, (''turn'', JWord (tc_turn ctx)), (''items'', JNat 1)] lg
      else if name = ''kb_put'' then
        record_event (tc_agent_id ctx) None EvMemoryWrite
          [agent, (''tier'', JNat 4), (''class'', JStr (class_field E r)), (''bytes'', JNat (length r))] lg
      else if name = ''kb_get'' then
        record_event (tc_agent_id ctx) None EvMemoryRead
          [agent, (''tier'', JNat 4), (''class'', JStr (if r = [] then [] else class_field E r)), (''found'', JBool (r \<noteq> []))] lg
      else if name = ''kb_search'' then
        (let x = json_or_null E r in
         record_event (tc_agent_id ctx) None EvKbSearch
           [(''agent_id'', JStr (tc_agent_id ctx)), (''segment'', JStr (or_empty (str_field v ''segment''))),
            (''query_preview'', JStr (query_preview v)),
            (''hits'', JNat (case Option.bind (json_get x ''hits'') json_as_array of None \<Rightarrow> 0 | Some a \<Rightarrow> length a)),
            (''terms_matched'', JWord (case u64_field E x ''terms_matched'' of None \<Rightarrow> 0 | Some n \<Rightarrow> n))] lg)
      else if name = ''publish_brief'' then
        (let x = json_or_null E r; num = (\<lambda>k. JWord (case u64_field E x k of None \<Rightarrow> 0 | Some n \<Rightarrow> n)) in
         record_event (tc_agent_id ctx) None EvBriefWritten
           [(''agent_id'', JStr (tc_agent_id ctx)), (''brief_id'', JStr (or_empty (str_field x ''brief_id''))),
            (''window_from'', num ''window_from''), (''window_to'', num ''window_to''), (''run_count'', num ''run_count''),
            (''failed_count'', num ''failed_count''), (''spend_total'', num ''spend_total''),
            (''suppressed_count'', (case json_get x ''suppressed_count'' of None \<Rightarrow> JNull | Some y \<Rightarrow> y))] lg)
      else lg)"

text \<open>The capability whose absence refuses the call, and whether it is the segment rule that asks for it.\<close>

definition refused ::
    "('s, 'n, 'f, 'w) tool_env \<Rightarrow> tool \<Rightarrow> string \<Rightarrow> json \<Rightarrow> capability list option \<Rightarrow> (capability \<times> bool) option" where
  "refused E t name v cap_set =
     (let missing = (\<lambda>caps req. case req of Some c \<Rightarrow> \<not> satisfies (tl_anchor E) caps c | None \<Rightarrow> False) in
      case cap_set of
        None \<Rightarrow> None
      | Some caps \<Rightarrow>
          if missing caps (required_capability_for t v) then map_option (\<lambda>c. (c, False)) (required_capability_for t v)
          else if missing caps (kb_segment_capability name v) then map_option (\<lambda>c. (c, True)) (kb_segment_capability name v)
          else None)"

definition registry_invoke ::
    "('s, 'n, 'f::linorder, 'w) tool_env \<Rightarrow> tool_registry \<Rightarrow> tool_io \<Rightarrow> string \<Rightarrow> json \<Rightarrow> tool_context \<Rightarrow>
     capability list option \<Rightarrow> ('s, 'n, 'w) tool_world \<Rightarrow> tool_result \<times> ('s, 'n, 'w) tool_world" where
  "registry_invoke E reg io name v ctx cap_set w =
     (case get reg name of
        None \<Rightarrow> (Inl (''unknown tool: '' @ name), w)
      | Some t \<Rightarrow>
          (case refused E t name v cap_set of
             Some (c, kb) \<Rightarrow> deny E ctx name c kb w
           | None \<Rightarrow>
               (case tool_invoke E io ctx t v w of
                  (Inl e, w') \<Rightarrow> (Inl e, w')
                | (Inr r, w') \<Rightarrow> (Inr r, w'\<lparr>tw_log := post_call E ctx name v r (tw_log w')\<rparr>))))"

end
