(* ===== verification/Tool_Laws.thy ===== *)
theory Tool_Laws
  imports Tools Memory_Laws
begin

section \<open>What the tools do to the memory store\<close>

text \<open>
  The contract of the store that the tools rely on, stated as a locale and met by the \<open>redb\<close>
  definitions: a write reaches one segment only, and no write or counter changes the class of a
  segment. From it, what every tool may change.
\<close>

subsection \<open>The contract of a segment store\<close>

locale segment_store =
  fixes laws :: "'l \<Rightarrow> bool"
    and entries :: "'l \<Rightarrow> 'd \<Rightarrow> string \<Rightarrow> string option"
    and class_of :: "'l \<Rightarrow> string \<Rightarrow> 'd \<Rightarrow> mutability_class option"
    and put_entry :: "'l \<Rightarrow> bool \<Rightarrow> bool \<Rightarrow> string \<Rightarrow> string \<Rightarrow> string \<Rightarrow> u64 \<Rightarrow> 'd \<Rightarrow> 'r \<times> 'd"
    and log_counter :: "'l \<Rightarrow> string \<Rightarrow> 'd \<Rightarrow> u64 \<times> 'd"
    and version_counter :: "'l \<Rightarrow> string \<Rightarrow> string \<Rightarrow> 'd \<Rightarrow> u64 \<times> 'd"
  assumes write_within: "laws L \<Longrightarrow> \<not> in_ns ns k \<Longrightarrow> entries L (snd (put_entry L ok ok' ns key val now db)) k = entries L db k"
    and write_class: "laws L \<Longrightarrow> class_of L s (snd (put_entry L ok ok' ns key val now db)) = class_of L s db"
    and log_counter_entries: "entries L (snd (log_counter L ns db)) = entries L db"
    and log_counter_class: "laws L \<Longrightarrow> class_of L s (snd (log_counter L ns db)) = class_of L s db"
    and version_counter_entries: "entries L (snd (version_counter L ns key db)) = entries L db"
    and version_counter_class: "laws L \<Longrightarrow> class_of L s (snd (version_counter L ns key db)) = class_of L s db"
begin

definition touches :: "'l \<Rightarrow> string \<Rightarrow> 'd \<Rightarrow> 'd \<Rightarrow> bool" where
  "touches L ns db db' \<longleftrightarrow>
     (\<forall>k. \<not> in_ns ns k \<longrightarrow> entries L db' k = entries L db k) \<and> (\<forall>s. class_of L s db' = class_of L s db)"

lemma touches_refl: "touches L ns db db"
  by (simp add: touches_def)

lemma touches_write: "laws L \<Longrightarrow> touches L ns db (snd (put_entry L ok ok' ns key val now db))"
  by (simp add: touches_def write_within write_class)

lemma touches_counted:
  assumes "laws L"
  shows "touches L ns db (snd (log_counter L ns db))" "touches L ns db (snd (version_counter L ns key db))"
    "touches L ns db (snd (put_entry L ok ok' ns k val now (snd (log_counter L ns db))))"
    "touches L ns db (snd (put_entry L ok ok' ns k val now (snd (version_counter L ns key db))))"
  using assms
  by (simp_all add: touches_def write_within write_class log_counter_entries log_counter_class
      version_counter_entries version_counter_class)

end

subsection \<open>The \<open>redb\<close> store meets it\<close>

lemma drop_entry_touches:
  assumes "lib_laws L" and "drop_entry L ns ek old db = Inr db'"
  shows "entries_of L db' = (entries_of L db)(ek := None)" "settings_same L db db'"
  using assms by (auto simp: drop_entry_def entries_of_def settings_same_def tb_simps doc_count_down fun_eq_iff split: sum.splits)

lemma evict_loop_touches:
  assumes "lib_laws L" and "\<forall>k \<in> fst ` set vs. in_ns ns k" and "evict_loop L ns vs out db = Inr (out', db')"
  shows "only_within L ns db db' \<and> settings_same L db db'"
  using assms(2,3)
proof (induction vs arbitrary: out db)
  case Nil
  then show ?case by (simp add: only_within_def)
next
  case (Cons v vs)
  obtain ek reason where v: "v = (ek, reason)" by (cases v)
  show ?case
  proof (cases "tb_get (str_tbl L) (st_entries db) ek")
    case None
    with Cons v show ?thesis by simp
  next
    case (Some old)
    then obtain db1 where db1: "drop_entry L ns ek old db = Inr db1"
      using Cons.prems(2) v by (cases "drop_entry L ns ek old db") simp_all
    have "only_within L ns db1 db' \<and> settings_same L db1 db'"
      using Cons.IH [OF _] Cons.prems Some v db1 by simp
    moreover have "only_within L ns db db1"
      using drop_entry_touches(1) [OF assms(1) db1] Cons.prems(1) v by (auto simp: only_within_def)
    ultimately show ?thesis
      using drop_entry_touches(2) [OF assms(1) db1] by (auto simp: only_within_def intro: settings_same_trans)
  qed
qed

lemma enforce_touches:
  assumes "lib_laws L"
  shows "only_within L ns db (enforce_segment_limits L ok ns now db) \<and> settings_same L db (enforce_segment_limits L ok ns now db)"
proof -
  have "only_within L ns db (snd (evict L ok ns me ma now db)) \<and> settings_same L db (snd (evict L ok ns me ma now db))" for me ma
  proof (cases "evict_loop L ns (victims L ns me ma now db) [] db")
    case (Inr p)
    obtain out db1 where p: "p = (out, db1)" by (cases p)
    from evict_loop_touches [OF assms victims_within [OF assms] Inr [unfolded p]] show ?thesis
      unfolding evict_alt Inr p by (auto simp: only_within_def settings_same_def entries_of_def)
  qed (simp_all add: evict_alt only_within_def)
  then show ?thesis by (simp add: enforce_segment_limits_def Let_def only_within_def)
qed

lemma write_entry_touches:
  assumes "lib_laws L" and "write_entry L ns ek val toks new now db = Inr db'"
  shows "entries_of L db' = (entries_of L db)(ek \<mapsto> val)" "settings_same L db db'"
  using assms by (auto simp: write_entry_def entries_of_def settings_same_def count_up_def tb_simps fun_eq_iff split: sum.splits if_splits)

lemma put_txn_touches:
  assumes "lib_laws L" and "put_txn L ns key val now db = Inr db'"
  shows "entries_of L db' = (entries_of L db)(entry_key ns key \<mapsto> val)" "settings_same L db db'"
proof -
  have same: "db = db\<lparr>st_index := st_index db\<rparr>" by simp
  obtain idx new where "write_entry L ns (entry_key ns key) val (tokenize L val) new now (db\<lparr>st_index := idx\<rparr>) = Inr db'"
  proof (cases "tb_get (str_tbl L) (st_entries db) (entry_key ns key)")
    case None
    then show thesis using that [of True "st_index db"] assms(2) same by (simp add: put_txn_def Let_def)
  next
    case (Some old)
    then show thesis using that [of False] assms(2)
      by (cases "deindex_tokens L ns (entry_key ns key) [] (tokenize L old) (st_index db)") (simp_all add: put_txn_def Let_def)
  qed
  from write_entry_touches [OF assms(1) this]
  show "entries_of L db' = (entries_of L db)(entry_key ns key \<mapsto> val)" "settings_same L db db'"
    by (simp_all add: entries_of_def settings_same_def)
qed

lemma put_at_touches:
  assumes "lib_laws L"
  shows "only_within L ns db (snd (put_at L ok ok' ns key val now db)) \<and> settings_same L db (snd (put_at L ok ok' ns key val now db))"
proof (cases "put_txn L ns key val now db")
  case (Inr db1)
  note w = put_txn_touches [OF assms Inr]
  have "only_within L ns db db1" unfolding only_within_def w(1) by (metis fun_upd_apply in_ns_entry_key)
  with enforce_touches [OF assms, of ns db1 ok' now] w(2) show ?thesis
    by (auto simp: put_at_def commit_write_def Inr only_within_def intro: settings_same_trans)
qed (simp add: put_at_def commit_write_def only_within_def)

lemma bump_touches:
  assumes "lib_laws L"
  shows "segment_class L s (snd (next_log_seq L ns db)) = segment_class L s db"
    "segment_class L s (snd (next_scratch_version L ns key db)) = segment_class L s db"
  using assms by (simp_all add: next_log_seq_def next_scratch_version_def bump_def Let_def segment_class_def tb_simps meta_prefixes)

interpretation redb: segment_store lib_laws entries_of segment_class put_at next_log_seq next_scratch_version
proof
  fix L :: "('s, 'n, 'f) store_lib" and ns key val k s ok ok' now db
  show "\<not> in_ns ns k \<Longrightarrow> entries_of L (snd (put_at L ok ok' ns key val now db)) k = entries_of L db k" if "lib_laws L"
    using put_at_touches [OF that] by (auto simp: only_within_def)
  show "segment_class L s (snd (put_at L ok ok' ns key val now db)) = segment_class L s db" if "lib_laws L"
    using put_at_touches [OF that] settings_same_class by blast
  show "entries_of L (snd (next_log_seq L ns db)) = entries_of L db"
    "entries_of L (snd (next_scratch_version L ns key db)) = entries_of L db"
    by (simp_all add: next_log_seq_def next_scratch_version_def bump_def Let_def entries_of_def)
qed (simp_all add: bump_touches)

subsection \<open>What each tool changes\<close>

lemma valid_segment_nul_free: "validate_segment dbg s l = Inr u \<Longrightarrow> nul_free s"
  by (auto simp: validate_segment_def nul_free_def list_all_iff child_id_byte_def is_ascii_alphanumeric_def split: if_splits)

lemma extract_ns_key_ok:
  "extract_ns_key E v = Inr (ns, k) \<Longrightarrow> str_field v ''namespace'' = Some ns \<and> str_field v ''key'' = Some k \<and> nul_free ns"
  by (auto simp: extract_ns_key_def valid_segment_nul_free split: option.splits sum.splits)

text \<open>A call with the outcome of a tool that only reads, or writes one segment and nothing else.\<close>

definition only_store :: "('s, 'n, 'w) tool_world \<Rightarrow> ('s, 'n, 'w) tool_world \<Rightarrow> bool" where
  "only_store w w' \<longleftrightarrow> tw_os w' = tw_os w \<and> tw_runs w' = tw_runs w \<and> tw_queue w' = tw_queue w \<and> tw_log w' = tw_log w"

lemma only_store_refl [simp]: "only_store w w"
  by (simp add: only_store_def)

definition writes ::
    "('s, 'n, 'f, 'w) tool_env \<Rightarrow> string \<Rightarrow> ('s, 'n, 'w) tool_world \<Rightarrow> ('s, 'n, 'w) tool_world \<Rightarrow> bool" where
  "writes E ns w w' \<longleftrightarrow> nul_free ns \<and> redb.touches (tl_store E) ns (tw_store w) (tw_store w')"

lemma tool_put_writes:
  assumes "lib_laws (tl_store E)" and "tool_put E io ns k val ret w = (r, w')"
  shows "only_store w w'" "nul_free ns \<Longrightarrow> writes E ns w w'"
    "nul_free ns \<Longrightarrow> redb.touches (tl_store E) ns db0 (snd (put_at (tl_store E) (ti_put io) (ti_evict io) ns k val (ti_secs io) (tw_store w)))
       \<Longrightarrow> redb.touches (tl_store E) ns db0 (tw_store w')"
  using assms redb.touches_write [OF assms(1)] by (auto simp: tool_put_def only_store_def writes_def split: prod.splits) (metis snd_conv)+

lemma kv_set_writes:
  assumes L: "lib_laws (tl_store E)" and "kv_set E io v w = (r, w')"
  shows "only_store w w' \<and> (w' = w \<or> (\<exists>ns. str_field v ''namespace'' = Some ns \<and> segment_class (tl_store E) ns (tw_store w) \<notin> {Some Canon, Some Log} \<and> writes E ns w w'))"
proof -
  have "w' = w \<or> (\<exists>ns k val ret. str_field v ''namespace'' = Some ns \<and> nul_free ns \<and>
      segment_class (tl_store E) ns (tw_store w) \<notin> {Some Canon, Some Log} \<and> tool_put E io ns k val ret w = (r, w'))"
    using assms(2) unfolding kv_set_def
    by (auto dest: extract_ns_key_ok split: sum.splits prod.splits option.splits mutability_class.splits if_splits)
  then show "only_store w w' \<and> (w' = w \<or> (\<exists>ns. str_field v ''namespace'' = Some ns \<and> segment_class (tl_store E) ns (tw_store w) \<notin> {Some Canon, Some Log} \<and> writes E ns w w'))"
    by (auto dest: tool_put_writes(1,2) [OF L])
qed

lemma mem_remember_writes:
  assumes L: "lib_laws (tl_store E)" and "mem_remember E io ctx v w = (r, w')"
  shows "only_store w w' \<and> (w' = w \<or> writes E (own_namespace ctx) w w')"
proof -
  have "w' = w \<or> (\<exists>k val ret. nul_free (own_namespace ctx) \<and> tool_put E io (own_namespace ctx) k val ret w = (r, w'))"
    using assms(2) unfolding mem_remember_def
    by (auto simp: Let_def dest: valid_segment_nul_free split: sum.splits option.splits if_splits)
  then show ?thesis by (auto dest: tool_put_writes(1,2) [OF L])
qed

lemma kb_put_log_writes:
  assumes L: "lib_laws (tl_store E)" and "nul_free seg" and "kb_put_log E io ctx seg content cit w = (r, w')"
  shows "only_store w w' \<and> writes E seg w w'"
proof -
  obtain n db where n: "next_log_seq (tl_store E) seg (tw_store w) = (n, db)" by fastforce
  have db: "db = snd (next_log_seq (tl_store E) seg (tw_store w))" by (simp add: n)
  consider "w' = w" | "w' = w\<lparr>tw_store := db\<rparr>"
    | k val ret where "tool_put E io seg k val ret (w\<lparr>tw_store := db\<rparr>) = (r, w')"
    using assms(3) by (auto simp: kb_put_log_def n Let_def split: if_splits)
  then show ?thesis
  proof cases
    case 1
    then show ?thesis using assms(2) by (simp add: writes_def redb.touches_refl)
  next
    case 2
    then show ?thesis using assms(2) redb.touches_counted(1) [OF L] by (simp add: only_store_def writes_def db)
  next
    case 3
    from tool_put_writes(1) [OF L 3] have "only_store w w'" by (simp add: only_store_def)
    moreover have "redb.touches (tl_store E) seg (tw_store w) (tw_store w')"
      using tool_put_writes(3) [OF L 3 assms(2), of "tw_store w"] redb.touches_counted(3) [OF L] by (simp add: db)
    ultimately show ?thesis using assms(2) by (simp add: writes_def)
  qed
qed

lemma kb_put_scratch_writes:
  assumes L: "lib_laws (tl_store E)" and "nul_free seg" and "kb_put_scratch E io ctx v seg content cit w = (r, w')"
  shows "only_store w w' \<and> writes E seg w w'"
proof -
  consider "w' = w"
    | key where "w' = w\<lparr>tw_store := snd (next_scratch_version (tl_store E) seg key (tw_store w))\<rparr>"
    | key k val ret where "tool_put E io seg k val ret (w\<lparr>tw_store := snd (next_scratch_version (tl_store E) seg key (tw_store w))\<rparr>) = (r, w')"
    using assms(3) unfolding kb_put_scratch_def Let_def
    by (auto split: option.splits sum.splits if_splits prod.splits) (metis snd_conv)+
  then show ?thesis
  proof cases
    case 1
    then show ?thesis using assms(2) by (simp add: writes_def redb.touches_refl)
  next
    case 2
    then show ?thesis using assms(2) redb.touches_counted(2) [OF L] by (simp add: only_store_def writes_def)
  next
    case 3
    from tool_put_writes(1) [OF L 3] have "only_store w w'" by (simp add: only_store_def)
    moreover have "redb.touches (tl_store E) seg (tw_store w) (tw_store w')"
      using tool_put_writes(3) [OF L 3 assms(2), of "tw_store w"] redb.touches_counted(4) [OF L] by simp
    ultimately show ?thesis using assms(2) by (simp add: writes_def)
  qed
qed

lemma kb_put_writes:
  assumes L: "lib_laws (tl_store E)" and "kb_put E io ctx v w = (r, w')"
  shows "only_store w w' \<and> (w' = w \<or> (\<exists>ns. str_field v ''segment'' = Some ns \<and> segment_class (tl_store E) ns (tw_store w) \<noteq> Some Canon \<and> writes E ns w w'))"
proof -
  have "w' = w \<or> (\<exists>ns content cit. str_field v ''segment'' = Some ns \<and> nul_free ns \<and>
      segment_class (tl_store E) ns (tw_store w) \<noteq> Some Canon \<and>
      (kb_put_log E io ctx ns content cit w = (r, w') \<or> kb_put_scratch E io ctx v ns content cit w = (r, w')))"
    using assms(2) unfolding kb_put_def
    by (auto simp: Let_def dest: valid_segment_nul_free split: sum.splits option.splits mutability_class.splits)
  then show "only_store w w' \<and> (w' = w \<or> (\<exists>ns. str_field v ''segment'' = Some ns \<and> segment_class (tl_store E) ns (tw_store w) \<noteq> Some Canon \<and> writes E ns w w'))"
    using kb_put_log_writes [OF L] kb_put_scratch_writes [OF L] only_store_refl by blast
qed

lemma write_file_changes:
  assumes "write_file E v w = (r, w')"
  shows "tw_store w' = tw_store w" "tw_runs w' = tw_runs w" "tw_queue w' = tw_queue w" "tw_log w' = tw_log w"
    "tw_os w' \<noteq> tw_os w \<Longrightarrow> \<exists>p. str_field v ''path'' = Some p"
  using assms by (auto simp: write_file_def Let_def split: option.splits prod.splits if_splits)

lemma publish_changes:
  assumes "publish_brief_tool E io on v w = (r, w')"
  shows "tw_store w' = tw_store w" "tw_os w' = tw_os w" "tw_log w' = tw_log w"
  using assms by (auto simp: publish_brief_tool_def Let_def split: prod.splits if_splits)

lemma reading_tools:
  "snd (read_file E v w) = w" "snd (list_dir E v w) = w" "snd (kv_get E v w) = w" "snd (mem_recall E ctx v w) = w"
  "snd (kb_get E v w) = w" "snd (kb_search E v w) = w" "snd (runs_query E v w) = w" "snd (list_agents E cards w) = w"
  by (auto simp: read_file_def list_dir_def kv_get_def mem_recall_def kb_get_def kb_search_def runs_query_def list_agents_def Let_def
      split: option.splits sum.splits prod.splits)

text \<open>Which segment a call may write: the one it names, if its class admits agents, or the agent's own.\<close>

definition may_write ::
    "('s, 'n, 'f, 'w) tool_env \<Rightarrow> tool_context \<Rightarrow> tool \<Rightarrow> json \<Rightarrow> ('s, 'n, 'w) tool_world \<Rightarrow> string \<Rightarrow> bool" where
  "may_write E ctx t v w ns \<longleftrightarrow>
     t = KvSet \<and> str_field v ''namespace'' = Some ns \<and> segment_class (tl_store E) ns (tw_store w) \<notin> {Some Canon, Some Log} \<or>
     t = KbPut \<and> str_field v ''segment'' = Some ns \<and> segment_class (tl_store E) ns (tw_store w) \<noteq> Some Canon \<or>
     t = MemRemember \<and> ns = own_namespace ctx"

lemma tool_invoke_changes:
  assumes L: "lib_laws (tl_store E)" and inv: "tool_invoke E io ctx t v w = (r, w')"
  shows "tw_store w' = tw_store w \<or> (\<exists>ns. may_write E ctx t v w ns \<and> writes E ns w w')"
    and "tw_log w' = tw_log w"
    and "tw_os w' \<noteq> tw_os w \<Longrightarrow> t = WriteFile \<and> (\<exists>p. str_field v ''path'' = Some p) \<or> (\<exists>server sp. t = McpTool server sp)"
    and "tw_runs w' \<noteq> tw_runs w \<or> tw_queue w' \<noteq> tw_queue w \<Longrightarrow> \<exists>on. t = PublishBrief on"
proof -
  have w': "w' = snd (tool_invoke E io ctx t v w)" using inv by simp
  have "(tw_store w' = tw_store w \<or> (\<exists>ns. may_write E ctx t v w ns \<and> writes E ns w w')) \<and> tw_log w' = tw_log w \<and>
    (tw_os w' \<noteq> tw_os w \<longrightarrow> t = WriteFile \<and> (\<exists>p. str_field v ''path'' = Some p) \<or> (\<exists>server sp. t = McpTool server sp)) \<and>
    (tw_runs w' \<noteq> tw_runs w \<or> tw_queue w' \<noteq> tw_queue w \<longrightarrow> (\<exists>on. t = PublishBrief on))"
  proof (cases t)
    case WriteFile
    with inv write_file_changes [of E v w r w'] show ?thesis by simp
  next
    case KvSet
    with inv kv_set_writes [OF L, of io v w r w'] show ?thesis unfolding may_write_def only_store_def by auto
  next
    case MemRemember
    with inv mem_remember_writes [OF L, of io ctx v w r w'] show ?thesis unfolding may_write_def only_store_def by auto
  next
    case KbPut
    with inv kb_put_writes [OF L, of io ctx v w r w'] show ?thesis unfolding may_write_def only_store_def by auto
  next
    case (PublishBrief on)
    with inv publish_changes [of E io on v w r w'] show ?thesis by simp
  next
    case (McpTool server sp)
    with w' show ?thesis by (simp add: mcp_invoke_def Let_def split_beta)
  qed (simp_all add: w' reading_tools)
  then show "tw_store w' = tw_store w \<or> (\<exists>ns. may_write E ctx t v w ns \<and> writes E ns w w')" "tw_log w' = tw_log w"
    "tw_os w' \<noteq> tw_os w \<Longrightarrow> t = WriteFile \<and> (\<exists>p. str_field v ''path'' = Some p) \<or> (\<exists>server sp. t = McpTool server sp)"
    "tw_runs w' \<noteq> tw_runs w \<or> tw_queue w' \<noteq> tw_queue w \<Longrightarrow> \<exists>on. t = PublishBrief on" by blast+
qed

end
