(* ===== verification/Tool_Props.thy ===== *)
theory Tool_Props
  imports Tool_Laws
begin

section \<open>The tool gate\<close>

text \<open>
  What a tool call can change under a set of capabilities, that canon segments stay as the operator
  left them, which tools an agent sees, which registrations are refused, and that the fields a
  schema requires are required.
\<close>

subsection \<open>Confinement\<close>

lemma refused_None:
  assumes "refused E t name v (Some caps) = None"
  shows "required_capability_for t v = Some c \<Longrightarrow> satisfies (tl_anchor E) caps c"
    "kb_segment_capability name v = Some c' \<Longrightarrow> satisfies (tl_anchor E) caps c'"
  using assms by (auto simp: refused_def Let_def split: if_splits option.splits)

lemma null_fields [simp]: "str_field JNull k = None"
  by (simp add: str_field_def json_get_def)

text \<open>The outcomes of a call.\<close>

lemma registry_invoke_cases:
  assumes "registry_invoke E reg io name v ctx cap_set w = (r, w')"
  obtains (unknown) "get reg name = None" "w' = w" "isl r"
  | (denied) t c kb where "get reg name = Some t" "refused E t name v cap_set = Some (c, kb)" "(r, w') = deny E ctx name c kb w"
  | (failed) t e where "get reg name = Some t" "refused E t name v cap_set = None" "tool_invoke E io ctx t v w = (Inl e, w')" "r = Inl e"
  | (called) t x w1 where "get reg name = Some t" "refused E t name v cap_set = None" "tool_invoke E io ctx t v w = (Inr x, w1)"
      "r = Inr x" "w' = w1\<lparr>tw_log := post_call E ctx name v x (tw_log w1)\<rparr>"
  using assms unfolding registry_invoke_def by (auto split: option.splits prod.splits sum.splits)

lemma registry_invoke_tool:
  assumes "registry_invoke E reg io name v ctx cap_set w = (r, w')"
  shows "tw_store w' = tw_store w \<and> tw_os w' = tw_os w \<and> tw_runs w' = tw_runs w \<and> tw_queue w' = tw_queue w \<or>
    (\<exists>t r1 w1. get reg name = Some t \<and> refused E t name v cap_set = None \<and> tool_invoke E io ctx t v w = (r1, w1) \<and>
       tw_store w' = tw_store w1 \<and> tw_os w' = tw_os w1 \<and> tw_runs w' = tw_runs w1 \<and> tw_queue w' = tw_queue w1)"
  using assms by (cases rule: registry_invoke_cases) (auto simp: deny_def)

lemma prefix_post_call: "prefix lg (post_call E ctx name v r lg)"
  by (simp add: post_call_def Let_def)

lemma may_write_granted:
  assumes "may_write E ctx t v w ns" and "refused E t name v (Some caps) = None"
  shows "ns = own_namespace ctx \<or> satisfies (tl_anchor E) caps (KbWrite ns)"
  using assms(1) refused_None(1) [OF assms(2)]
  by (cases "v = JNull") (auto simp: may_write_def kv_set_capability_def kb_put_capability_def)

text \<open>
  C5. A tool call under a set of capabilities changes an entry of the memory store only in a segment
  for which the set grants writing, or in the agent's own segment; the file system only through
  \<open>write_file\<close> on a path for which the set grants writing, or through an MCP tool for whose server
  and name the set has a grant, and then, under the name \<open>kb_put\<close>, one for the segment as well; and
  the run history only with the right to publish briefs. It never changes the class of a segment
  and only appends to the flight log.
\<close>

theorem tool_calls_are_confined:
  assumes "lib_laws (tl_store E)" and "registry_invoke E reg io name v ctx (Some caps) w = (r, w')"
  shows "(\<forall>k. entries_of (tl_store E) (tw_store w') k \<noteq> entries_of (tl_store E) (tw_store w) k \<longrightarrow>
      (\<exists>ns. in_ns ns k \<and> (ns = own_namespace ctx \<or> satisfies (tl_anchor E) caps (KbWrite ns)))) \<and>
    (\<forall>s. segment_class (tl_store E) s (tw_store w') = segment_class (tl_store E) s (tw_store w)) \<and>
    (tw_os w' \<noteq> tw_os w \<longrightarrow>
      (\<exists>p. get reg name = Some WriteFile \<and> str_field v ''path'' = Some p \<and> satisfies (tl_anchor E) caps (FsWrite p)) \<or>
      (\<exists>server sp. get reg name = Some (McpTool server sp) \<and> satisfies (tl_anchor E) caps (Mcp server [spec_name sp]) \<and>
         (name = ''kb_put'' \<longrightarrow> satisfies (tl_anchor E) caps (KbWrite (or_empty (str_field v ''segment'')))))) \<and>
    (tw_runs w' \<noteq> tw_runs w \<or> tw_queue w' \<noteq> tw_queue w \<longrightarrow> satisfies (tl_anchor E) caps BriefPublish) \<and>
    prefix (tw_log w) (tw_log w')"
proof -
  have lg: "prefix (tw_log w) (tw_log w')"
    using assms(2)
  proof (cases rule: registry_invoke_cases)
    case (denied t c kb)
    then show ?thesis by (simp add: deny_def)
  next
    case (failed t e)
    then show ?thesis using tool_invoke_changes(2) [OF assms(1)] by fastforce
  next
    case (called t x w1)
    then show ?thesis using tool_invoke_changes(2) [OF assms(1) called(3)] prefix_post_call by simp
  qed simp
  from registry_invoke_tool [OF assms(2)] show ?thesis
  proof (elim disjE exE conjE)
    fix t r1 w1
    assume t: "get reg name = Some t" "refused E t name v (Some caps) = None"
      and inv: "tool_invoke E io ctx t v w = (r1, w1)"
      and w': "tw_store w' = tw_store w1" "tw_os w' = tw_os w1" "tw_runs w' = tw_runs w1" "tw_queue w' = tw_queue w1"
    note granted = refused_None [OF t(2)]
    note ch = tool_invoke_changes [OF assms(1) inv]
    have "(\<forall>k. entries_of (tl_store E) (tw_store w1) k \<noteq> entries_of (tl_store E) (tw_store w) k \<longrightarrow>
        (\<exists>ns. in_ns ns k \<and> (ns = own_namespace ctx \<or> satisfies (tl_anchor E) caps (KbWrite ns)))) \<and>
      (\<forall>s. segment_class (tl_store E) s (tw_store w1) = segment_class (tl_store E) s (tw_store w))"
      using ch(1) may_write_granted [OF _ t(2)] unfolding writes_def redb.touches_def by metis
    moreover have "tw_os w1 \<noteq> tw_os w \<longrightarrow>
      (\<exists>p. get reg name = Some WriteFile \<and> str_field v ''path'' = Some p \<and> satisfies (tl_anchor E) caps (FsWrite p)) \<or>
      (\<exists>server sp. get reg name = Some (McpTool server sp) \<and> satisfies (tl_anchor E) caps (Mcp server [spec_name sp]) \<and>
         (name = ''kb_put'' \<longrightarrow> satisfies (tl_anchor E) caps (KbWrite (or_empty (str_field v ''segment'')))))"
      using ch(3) granted t(1) by (auto simp: write_file_capability_def kb_segment_capability_def)
    moreover have "tw_runs w1 \<noteq> tw_runs w \<or> tw_queue w1 \<noteq> tw_queue w \<longrightarrow> satisfies (tl_anchor E) caps BriefPublish"
      using ch(4) granted(1) by auto
    ultimately show ?thesis unfolding w' using lg by blast
  qed (use lg in simp)
qed

subsection \<open>Canon segments\<close>

record tool_call =
  call_io :: tool_io
  call_name :: string
  call_input :: json
  call_ctx :: tool_context
  call_caps :: "capability list option"

definition run_calls ::
    "('s, 'n, 'f::linorder, 'w) tool_env \<Rightarrow> tool_registry \<Rightarrow> tool_call list \<Rightarrow> ('s, 'n, 'w) tool_world \<Rightarrow> ('s, 'n, 'w) tool_world" where
  "run_calls E reg cs w =
     foldl (\<lambda>w c. snd (registry_invoke E reg (call_io c) (call_name c) (call_input c) (call_ctx c) (call_caps c) w)) w cs"

definition segment_as ::
    "('s, 'n, 'f, 'w) tool_env \<Rightarrow> string \<Rightarrow> ('s, 'n, 'w) tool_world \<Rightarrow> ('s, 'n, 'w) tool_world \<Rightarrow> bool" where
  "segment_as E seg w w' \<longleftrightarrow>
     (\<forall>k. in_ns seg k \<longrightarrow> entries_of (tl_store E) (tw_store w') k = entries_of (tl_store E) (tw_store w) k) \<and>
     segment_class (tl_store E) seg (tw_store w') = segment_class (tl_store E) seg (tw_store w)"

lemma call_keeps_canon:
  assumes L: "lib_laws (tl_store E)" and seg: "segment_class (tl_store E) seg (tw_store w) = Some Canon" "nul_free seg"
    and "own_namespace ctx \<noteq> seg"
  shows "segment_as E seg w (snd (registry_invoke E reg io name v ctx cap_set w))"
proof -
  obtain r w' where inv: "registry_invoke E reg io name v ctx cap_set w = (r, w')" by fastforce
  from registry_invoke_tool [OF inv] have "segment_as E seg w w'"
  proof (elim disjE exE conjE)
    fix t r1 w1
    assume t: "tool_invoke E io ctx t v w = (r1, w1)" and w': "tw_store w' = tw_store w1"
    from tool_invoke_changes(1) [OF L t] show ?thesis
    proof (elim disjE exE conjE)
      fix ns assume ns: "may_write E ctx t v w ns" "writes E ns w w1"
      have "ns \<noteq> seg" using ns(1) seg(1) assms(4) by (auto simp: may_write_def)
      moreover have "nul_free ns" using ns(2) by (simp add: writes_def)
      ultimately have "\<not> in_ns ns k" if "in_ns seg k" for k using in_ns_unique [OF _ seg(2) _ that] by blast
      then show ?thesis using ns(2) unfolding segment_as_def writes_def redb.touches_def w' by simp
    qed (simp add: segment_as_def w')
  qed (simp add: segment_as_def)
  then show ?thesis by (simp add: inv)
qed

text \<open>
  C20. A segment that the operator has declared canon keeps its entries and its class through any
  sequence of tool calls, whatever the capabilities and even without any restriction, as long as no
  caller is an agent whose own segment it is.
\<close>

theorem canon_segments_are_immutable:
  assumes "lib_laws (tl_store E)" and "segment_class (tl_store E) seg (tw_store w) = Some Canon" and "nul_free seg"
    and "\<forall>c \<in> set calls. own_namespace (call_ctx c) \<noteq> seg"
  shows "segment_as E seg w (run_calls E reg calls w)"
  using assms(2,4)
proof (induction calls arbitrary: w)
  case Nil
  then show ?case by (simp add: run_calls_def segment_as_def)
next
  case (Cons c cs)
  let ?w = "snd (registry_invoke E reg (call_io c) (call_name c) (call_input c) (call_ctx c) (call_caps c) w)"
  have one: "segment_as E seg w ?w" using call_keeps_canon [OF assms(1) Cons.prems(1) assms(3)] Cons.prems(2) by simp
  then have "segment_as E seg ?w (run_calls E reg cs ?w)"
    using Cons.IH [of ?w] Cons.prems by (simp add: segment_as_def)
  with one show ?case by (simp add: run_calls_def segment_as_def)
qed

subsection \<open>Registration\<close>

text \<open>The loop of \<open>main\<close> over the configured servers.\<close>

fun register_servers :: "(bool \<times> string \<times> tool_spec list) list \<Rightarrow> tool_registry \<Rightarrow> string + tool_registry" where
  "register_servers [] reg = Inr reg"
| "register_servers ((override, server, sps) # rest) reg =
     (case register_mcp override server sps reg of Inl e \<Rightarrow> Inl e | Inr reg' \<Rightarrow> register_servers rest reg')"

lemma register_mcp_keeps:
  "register_mcp override server sps reg = Inr reg' \<Longrightarrow> get reg n = Some t \<Longrightarrow> n \<in> set PROTECTED_TOOLS \<or> \<not> override \<Longrightarrow>
   get reg' n = Some t"
proof (induction sps arbitrary: reg)
  case (Cons sp sps)
  then obtain reg1 where r1: "(if override then register_override (McpTool server sp) reg else register_tool (McpTool server sp) reg) = Inr reg1"
    "register_mcp override server sps reg1 = Inr reg'" by (auto split: sum.splits)
  have "get reg1 n = Some t"
    using r1(1) Cons.prems(2,3) by (auto simp: register_tool_def register_override_def split: if_splits)
  with Cons.IH [OF r1(2)] Cons.prems(3) show ?case by blast
qed simp

text \<open>
  C35. Whatever MCP servers are configured after the native tools, a registered tool keeps its name
  if the name is one of the four safety-critical ones, and every name if no server may override.
\<close>

theorem protected_tools_stay_native:
  assumes "register_servers servers reg = Inr reg'" and "get reg n = Some t"
    and "n \<in> set PROTECTED_TOOLS \<or> (\<forall>(override, _, _) \<in> set servers. \<not> override)"
  shows "get reg' n = Some t"
  using assms
proof (induction servers arbitrary: reg)
  case (Cons s ss)
  obtain override server sps where s: "s = (override, server, sps)" by (cases s)
  then obtain reg1 where r1: "register_mcp override server sps reg = Inr reg1" "register_servers ss reg1 = Inr reg'"
    using Cons.prems(1) by (auto split: sum.splits)
  have "get reg1 n = Some t" using register_mcp_keeps [OF r1(1) Cons.prems(2)] Cons.prems(3) s by auto
  with Cons.IH [OF r1(2)] Cons.prems(3) show ?case by auto
qed simp

subsection \<open>Visibility\<close>

lemma satisfies_kind:
  "satisfies anchor caps (FsRead p) \<Longrightarrow> satisfies_type anchor caps (FsRead [])"
  "satisfies anchor caps (FsWrite p) \<Longrightarrow> satisfies_type anchor caps (FsWrite [])"
  "satisfies anchor caps (KbRead s) \<Longrightarrow> satisfies_type anchor caps (KbRead [])"
  "satisfies anchor caps (KbWrite s) \<Longrightarrow> satisfies_type anchor caps (KbWrite [])"
  by (auto simp: satisfies.simps satisfies_type_def list_ex_iff split: capability.splits if_splits)

lemma probe_satisfied:
  assumes "required_capability_for t v = Some c" and "satisfies anchor caps c"
  shows "\<exists>c0. required_capability_for t JNull = Some c0 \<and> satisfies_type anchor caps c0"
  using assms satisfies_kind [of anchor caps]
  by (cases t) (auto simp: read_file_capability_def write_file_capability_def list_dir_capability_def kv_get_capability_def
      kv_set_capability_def kb_put_capability_def kb_get_capability_def kb_search_capability_def satisfies_type_def split: if_splits)

lemma unrestricted_probe: "required_capability_for t v = None \<Longrightarrow> required_capability_for t JNull = None"
  by (cases t) (auto simp: read_file_capability_def write_file_capability_def list_dir_capability_def kv_get_capability_def
      kv_set_capability_def kb_put_capability_def kb_get_capability_def kb_search_capability_def split: if_splits)

text \<open>
  C33. Every tool that an agent could call with some input, as far as its own capability check goes,
  is among those the model is told about. And the list that the scheduler computes from the probes
  of the registered tools is the registry's list.
\<close>

theorem callable_tools_are_visible:
  assumes "se_tools S = map (\<lambda>(_, t). \<lparr>te_spec = spec_of t, te_probe = required_capability_for t JNull\<rparr>) reg"
    and "se_anchor S = tl_anchor E"
  shows "filtered_specs S cap_set = registry_filtered_specs E reg cap_set \<and>
    (\<forall>name t v caps. get reg name = Some t \<and> refused E t name v (Some caps) = None \<longrightarrow>
       spec_of t \<in> set (registry_filtered_specs E reg (Some caps)))"
proof (intro conjI allI impI)
  show "filtered_specs S cap_set = registry_filtered_specs E reg cap_set"
    unfolding filtered_specs_def registry_filtered_specs_def specs_def assms
    by (cases cap_set) (simp_all add: comp_def filter_map case_prod_unfold)
  fix name t v caps
  assume t: "get reg name = Some t \<and> refused E t name v (Some caps) = None"
  have "case required_capability_for t JNull of None \<Rightarrow> True | Some c \<Rightarrow> satisfies_type (tl_anchor E) caps c"
    using refused_None(1) [of E t name v caps] t probe_satisfied [of t v _ "tl_anchor E" caps] unrestricted_probe [of t v]
    by (cases "required_capability_for t v") auto
  then show "spec_of t \<in> set (registry_filtered_specs E reg (Some caps))"
    using t by (force simp: registry_filtered_specs_def image_iff dest: map_of_SomeD)
qed

subsection \<open>Schemas\<close>

definition required_fields :: "tool \<Rightarrow> string list" where
  "required_fields t =
     (case Option.bind (json_get (input_schema (spec_of t)) ''required'') json_as_array of
        None \<Rightarrow> [] | Some fs \<Rightarrow> List.map_filter json_as_str fs)"

lemmas native_specs = read_file_spec_def write_file_spec_def list_dir_spec_def kv_get_spec_def kv_set_spec_def
  mem_remember_spec_def mem_recall_spec_def kb_put_spec_def kb_get_spec_def kb_search_spec_def runs_query_spec_def
  publish_brief_spec_def spawn_agent_spec_def run_job_spec_def request_approval_spec_def list_agents_spec_def send_message_spec_def

lemma required_fields_simps:
  "required_fields ReadFile = [''path'']" "required_fields WriteFile = [''path'', ''content'']"
  "required_fields ListDir = [''path'']" "required_fields KvGet = [''namespace'', ''key'']"
  "required_fields KvSet = [''namespace'', ''key'', ''value'']" "required_fields MemRemember = [''content'']"
  "required_fields MemRecall = [''query'']" "required_fields KbPut = [''segment'', ''content'']"
  "required_fields KbGet = [''segment'', ''key'']" "required_fields KbSearch = [''segment'', ''query'']"
  "required_fields RunsQuery = []" "required_fields (PublishBrief on) = []" "required_fields (ListAgentsTool cards) = []"
  by (simp_all add: required_fields_def native_specs json_get_def json_as_array_def json_as_str_def List.map_filter_simps)


subsection \<open>Writing and reading back\<close>

definition unlimited :: "('s, 'n, 'f) store_lib \<Rightarrow> string \<Rightarrow> ('s, 'n) redb_store \<Rightarrow> bool" where
  "unlimited L ns db \<longleftrightarrow>
     num_at L (st_meta db) (SEG_MAX_ENTRIES_PREFIX @ ns) = 0 \<and> num_at L (st_meta db) (SEG_MAX_AGE_PREFIX @ ns) = 0"

lemma put_then_get:
  assumes "lib_laws L" and "unlimited L ns db" and "put_at L ok ok' ns key val now db = (Inr u, db')"
  shows "store_get L ns key db' = Some val"
proof -
  obtain db1 where db1: "put_txn L ns key val now db = Inr db1" and db': "db' = enforce_segment_limits L ok' ns now db1"
    using assms(3) by (auto simp: put_at_def commit_write_def split: sum.splits if_splits)
  note w = put_txn_touches [OF assms(1) db1]
  have "unlimited L ns db1"
    using assms(2) w(2) by (simp add: unlimited_def num_at_def settings_same_def meta_prefixes)
  then have "db' = db1" by (simp add: db' enforce_segment_limits_def Let_def unlimited_def)
  then show ?thesis using fun_cong [OF w(1), of "entry_key ns key"] by (simp add: store_get_def entries_of_def)
qed

text \<open>
  What \<open>kv_set\<close> has stored, \<open>kv_get\<close> returns for the same namespace and key, when the segment
  has no limits; and \<open>kv_set\<close> stores at most 256 KiB.
\<close>

theorem kv_set_then_get:
  assumes "lib_laws (tl_store E)" and "kv_set E io v w = (Inr r, w')"
    and "\<And>ns. str_field v ''namespace'' = Some ns \<Longrightarrow> unlimited (tl_store E) ns (tw_store w)"
  shows "\<exists>val. str_field v ''value'' = Some val \<and> length val \<le> 262144 \<and> kv_get E v w' = (Inr val, w')"
proof -
  obtain ns k where ns: "extract_ns_key E v = Inr (ns, k)" using assms(2) by (auto simp: kv_set_def split: sum.splits)
  obtain val ret where val: "str_field v ''value'' = Some val" "length val \<le> 262144" "tool_put E io ns k val ret w = (Inr r, w')"
    using assms(2) ns by (auto simp: kv_set_def MAX_KV_VALUE_BYTES_def split: option.splits mutability_class.splits if_splits)
  obtain u db where "put_at (tl_store E) (ti_put io) (ti_evict io) ns k val (ti_secs io) (tw_store w) = (Inr u, db)"
    and w': "w' = w\<lparr>tw_store := db\<rparr>" using val(3) by (auto simp: tool_put_def split: prod.splits sum.splits)
  from put_then_get [OF assms(1) _ this(1)] assms(3) extract_ns_key_ok [OF ns]
  have "store_get (tl_store E) ns k (tw_store w') = Some val" unfolding w' by simp
  then show ?thesis using val(1,2) by (simp add: kv_get_def ns)
qed

end
