(* ===== verification/Memory_Search.thy ===== *)
theory Memory_Search
  imports Memory_Laws
begin

section \<open>Search, limits and opening of the memory store\<close>

subsection \<open>Sorting by a comparison\<close>

lemma mset_insert_by [simp]: "mset (insert_by le x xs) = add_mset x (mset xs)"
  by (induction xs) auto

lemma mset_sort_by [simp]: "mset (sort_by le xs) = mset xs"
  unfolding sort_by_def by (induction xs) auto

lemma set_sort_by [simp]: "set (sort_by le xs) = set xs"
  using mset_sort_by by (metis set_mset_mset)

lemma set_insert_by [simp]: "set (insert_by le x xs) = insert x (set xs)"
  using mset_insert_by [of le x xs] by (metis set_mset_add_mset_insert set_mset_mset)

lemma sorted_insert_by:
  assumes "\<And>x y. le x y \<or> le y x" and "\<And>x y z. le x y \<Longrightarrow> le y z \<Longrightarrow> le x z"
  shows "sorted_wrt le xs \<Longrightarrow> sorted_wrt le (insert_by le x xs)"
  by (induction xs) (use assms in auto)

lemma sorted_sort_by:
  assumes "\<And>x y. le x y \<or> le y x" and "\<And>x y z. le x y \<Longrightarrow> le y z \<Longrightarrow> le x z"
  shows "sorted_wrt le (sort_by le xs)"
  unfolding sort_by_def by (induction xs) (use sorted_insert_by [of le] assms in auto)

lemma sorted_wrt_unique:
  "mset xs = mset ys \<Longrightarrow> sorted_wrt le xs \<Longrightarrow> sorted_wrt le ys \<Longrightarrow>
   (\<And>x y. x \<in> set xs \<Longrightarrow> y \<in> set xs \<Longrightarrow> le x y \<Longrightarrow> le y x \<Longrightarrow> x = y) \<Longrightarrow> xs = ys"
proof (induction xs arbitrary: ys)
  case (Cons x xs)
  then obtain y ys' where ys: "ys = y # ys'" by (cases ys) auto
  have sets: "set (x # xs) = set ys" using Cons.prems(1) by (metis set_mset_mset)
  have "x = y"
  proof (rule ccontr)
    assume "x \<noteq> y"
    then have m: "y \<in> set xs" "x \<in> set ys'" using sets by (auto simp: ys)
    then have "le x y" "le y x" using Cons.prems(2,3) by (simp_all add: ys)
    with m(1) show False using Cons.prems(4) [of x y] \<open>x \<noteq> y\<close> by simp
  qed
  then show ?case using Cons.IH [of ys'] Cons.prems by (auto simp: ys)
qed simp

lemma hit_before_order:
  "hit_before a b \<or> hit_before b a" "hit_before a b \<Longrightarrow> hit_before b c \<Longrightarrow> hit_before a c"
  "hit_before a b \<Longrightarrow> hit_before b a \<Longrightarrow> sh_key a = sh_key b"
  by (auto simp: hit_before_def)

lemma sort_hits_unique:
  assumes "mset xs = mset ys" and "inj_on sh_key (set xs)"
  shows "sort_by hit_before xs = sort_by hit_before ys"
proof (rule sorted_wrt_unique [where le = hit_before])
  fix x y :: "'a search_hit"
  assume "x \<in> set (sort_by hit_before xs)" "y \<in> set (sort_by hit_before xs)" "hit_before x y" "hit_before y x"
  then show "x = y" using hit_before_order(3) assms(2) by (auto dest: inj_onD)
qed (use assms(1) hit_before_order in \<open>auto intro!: sorted_sort_by\<close>)

subsection \<open>A search is a scan\<close>

definition f64_laws :: "'f::linorder f64_ops \<Rightarrow> bool" where
  "f64_laws F \<longleftrightarrow>
     (\<forall>x. f_mul F (f_nat F 0) x = f_nat F 0) \<and> (\<forall>x. f_add F x (f_nat F 0) = x) \<and>
     (\<forall>n x. 0 < n \<longrightarrow> f_nat F 0 < x \<longrightarrow> f_nat F 0 < f_mul F (f_nat F n) x) \<and>
     (\<forall>x y. f_nat F 0 \<le> x \<longrightarrow> f_nat F 0 < y \<longrightarrow> f_nat F 0 < f_add F x y) \<and>
     (\<forall>n df. 1 \<le> n \<longrightarrow> df \<le> n \<longrightarrow> f_nat F 0 < idf F n df)"

lemma f64_lawsD:
  assumes "f64_laws F"
  shows "f_mul F (f_nat F 0) x = f_nat F 0" "f_add F x (f_nat F 0) = x"
    "0 < k \<Longrightarrow> f_nat F 0 < y \<Longrightarrow> f_nat F 0 < f_mul F (f_nat F k) y"
    "f_nat F 0 \<le> x \<Longrightarrow> f_nat F 0 < y \<Longrightarrow> f_nat F 0 < f_add F x y"
    "1 \<le> n \<Longrightarrow> df \<le> n \<Longrightarrow> f_nat F 0 < idf F n df"
  using assms unfolding f64_laws_def by blast+

lemma score_positive:
  assumes F: "f64_laws F" and "1 \<le> n"
  shows "\<forall>(tf, df) \<in> set ps. df \<le> n \<Longrightarrow> f_nat F 0 \<le> acc \<Longrightarrow>
    f_nat F 0 < score_terms F n ps acc \<longleftrightarrow> f_nat F 0 < acc \<or> (\<exists>(tf, df) \<in> set ps. 0 < tf)"
proof (induction ps arbitrary: acc)
  case (Cons p ps)
  obtain tf df where p: "p = (tf, df)" by (cases p)
  have d: "f_nat F 0 < idf F n df" using f64_lawsD(5) [OF F assms(2)] Cons.prems(1) by (auto simp: p)
  let ?acc = "f_add F acc (f_mul F (f_nat F tf) (idf F n df))"
  have acc: "f_nat F 0 \<le> ?acc" "f_nat F 0 < ?acc \<longleftrightarrow> f_nat F 0 < acc \<or> 0 < tf"
    using f64_lawsD(1,2) [OF F] f64_lawsD(3) [OF F _ d, of tf] f64_lawsD(4) [OF F Cons.prems(2), of "f_mul F (f_nat F tf) (idf F n df)"]
      Cons.prems(2) by (cases "tf = 0"; simp)+
  show ?case using Cons.IH [OF _ acc(1)] Cons.prems(1) acc(2) by (auto simp: p)
qed simp

definition scan_search ::
    "('s, 'n, 'f::linorder) store_lib \<Rightarrow> string \<Rightarrow> string \<Rightarrow> string option \<Rightarrow> nat \<Rightarrow> ('s, 'n) redb_store \<Rightarrow> 'f search_hit list" where
  "scan_search L ns q author limit db =
     (let ts = query_terms L q;
          es = tb_range (str_tbl L) (prefix_start ns) (prefix_end ns) (st_entries db);
          dfs = map (\<lambda>w. length (filter (\<lambda>(_, v). w \<in> set (tokenize L v)) es)) ts;
          hit = (\<lambda>(k, v). \<lparr>sh_namespace = ns, sh_key = drop (length ns + 1) k,
             sh_score = score_terms (f64 L) (max (length es) 1) (zip (term_frequencies (tokenize L v) ts) dfs) (f_nat (f64 L) 0),
             sh_value = v\<rparr>)
      in take limit (sort_by hit_before
           (map hit (filter (\<lambda>(_, v). passes_author L author v \<and> (\<exists>w \<in> set ts. w \<in> set (tokenize L v))) es))))"

lemma read_postings_ok:
  "readable L t \<Longrightarrow> nul_free ns \<Longrightarrow> read_postings L t ns ws = Inr (map (posting L t ns) ws)"
  by (induction ws) (simp_all add: read_posting)

lemma set_fold_insert_all: "set (fold (fold List.insert) xss ys) = set ys \<union> \<Union> (set ` set xss)"
proof (induction xss arbitrary: ys)
  case (Cons xs xss)
  have "set (fold List.insert xs zs) = set xs \<union> set zs" for zs :: "'a list" by (induction xs arbitrary: zs) auto
  with Cons show ?case by auto
qed simp

lemma distinct_fold_insert_all: "distinct ys \<Longrightarrow> distinct (fold (fold List.insert) xss ys)"
proof (induction xss arbitrary: ys)
  case (Cons xs xss)
  have "distinct zs \<Longrightarrow> distinct (fold List.insert xs zs)" for zs :: "'a list" by (induction xs arbitrary: zs) auto
  with Cons show ?case by simp
qed simp

lemma entry_range:
  assumes "lib_laws L"
  shows "set (tb_range (str_tbl L) (prefix_start ns) (prefix_end ns) (st_entries db)) =
      {(k, v). entries_of L db k = Some v \<and> in_ns ns k}"
    "distinct (map fst (tb_range (str_tbl L) (prefix_start ns) (prefix_end ns) (st_entries db)))"
  unfolding tb_range_set [OF lib_lawsD(1) [OF assms]] range_is_namespace entries_of_def
  by (rule refl, rule tb_range_distinct [OF lib_lawsD(1) [OF assms]])

lemma length_range:
  assumes "lib_laws L"
  shows "length (tb_range (str_tbl L) (prefix_start ns) (prefix_end ns) (st_entries db)) = card (keys_in (entries_of L db) ns)"
  using list_keys_card [OF assms, of ns db] by (simp add: list_keys_def)

lemma length_posting:
  assumes L: "lib_laws L" and ok: "store_ok L db" and ns: "nul_free ns"
  shows "length (posting L (st_index db) ns w) =
      length (filter (\<lambda>(_, v). w \<in> set (tokenize L v)) (tb_range (str_tbl L) (prefix_start ns) (prefix_end ns) (st_entries db)))"
    (is "_ = length (filter ?P ?es)")
proof -
  note i = indexedD [OF core_okD(1) [OF store_okD(1) [OF ok]]]
  have "fst ` {(k, v). E k = Some v \<and> in_ns ns k \<and> w \<in> set (tokenize L v)} =
      {k. in_ns ns k \<and> (\<exists>v. E k = Some v \<and> w \<in> set (tokenize L v))}" for E :: "string \<Rightarrow> string option" by force
  then have "fst ` set (filter ?P ?es) = set (posting L (st_index db) ns w)"
    unfolding i(3) [OF ns] set_filter entry_range(1) [OF L] by (simp add: case_prod_unfold)
  moreover have "distinct (map fst (filter ?P ?es))" using entry_range(2) [OF L] by (rule distinct_map_filter)
  ultimately show ?thesis
    using distinct_card [OF i(2) [OF ns, of w]] distinct_card [of "map fst (filter ?P ?es)"] by (simp only: set_map length_map)
qed

lemma image_graph:
  "(\<lambda>k. h (k, the (E k))) ` {k. P k \<and> (\<exists>v. E k = Some v \<and> Q v)} = h ` {(k, v). E k = Some v \<and> P k \<and> Q v}"
  by force

text \<open>What the loop of \<open>search\<close> makes of an entry of the segment.\<close>

lemma score_hit_entry:
  assumes F: "f64_laws (f64 L)" and n: "1 \<le> n" and dfs: "length dfs = length ts" "\<forall>d \<in> set dfs. d \<le> n"
    and e: "entries_of L db ck = Some v" "in_ns ns ck"
  shows "score_hit L n ns ts dfs author db ck =
    (if passes_author L author v \<and> (\<exists>w \<in> set ts. w \<in> set (tokenize L v))
     then Some \<lparr>sh_namespace = ns, sh_key = drop (length ns + 1) ck,
       sh_score = score_terms (f64 L) n (zip (term_frequencies (tokenize L v) ts) dfs) (f_nat (f64 L) 0), sh_value = v\<rparr>
     else None)"
proof -
  let ?tfs = "term_frequencies (tokenize L v) ts"
  have len: "length ?tfs = length dfs" by (simp add: term_frequencies_def dfs(1))
  have "(\<exists>(tf, df) \<in> set (zip ?tfs dfs). 0 < tf) \<longleftrightarrow> (\<exists>tf \<in> set ?tfs. 0 < tf)"
    using map_fst_zip [OF len] by (metis (mono_tags, lifting) case_prod_unfold imageE imageI list.set_map)
  also have "\<dots> \<longleftrightarrow> (\<exists>w \<in> set ts. w \<in> set (tokenize L v))"
    by (auto simp: term_frequencies_def filter_empty_conv)
  finally have tf: "(\<exists>(tf, df) \<in> set (zip ?tfs dfs). 0 < tf) \<longleftrightarrow> (\<exists>w \<in> set ts. w \<in> set (tokenize L v))" .
  have "\<forall>(tf, df) \<in> set (zip ?tfs dfs). df \<le> n" using dfs(2) by (auto dest: set_zip_rightD)
  from score_positive [OF F n this order.refl]
  have pos: "\<not> score_terms (f64 L) n (zip ?tfs dfs) (f_nat (f64 L) 0) \<le> f_nat (f64 L) 0 \<longleftrightarrow>
      (\<exists>w \<in> set ts. w \<in> set (tokenize L v))" unfolding tf not_le by simp
  show ?thesis
    using e pos unfolding score_hit_def entries_of_def in_ns_def Let_def by auto
qed

text \<open>
  C15. The inverted index is not observable: a search of a segment returns what a scan of all its
  entries would, the entries with a query term that pass the author filter, with their scores, best
  first and cut to the limit.
\<close>

theorem search_is_a_scan:
  assumes "lib_laws L" and "f64_laws (f64 L)" and "store_ok L db" and "nul_free ns" and "query_terms L q \<noteq> []"
  shows "store_search L (Some ns) q author limit db = Inr (scan_search L ns q author limit db, length (query_terms L q))"
proof -
  define ts where "ts = query_terms L q"
  define es where "es = tb_range (str_tbl L) (prefix_start ns) (prefix_end ns) (st_entries db)"
  define ps where "ps = map (posting L (st_index db) ns) ts"
  define cs where "cs = fold (fold List.insert) ps []"
  define n where "n = max (length es) 1"
  define good where "good v \<longleftrightarrow> passes_author L author v \<and> (\<exists>w \<in> set ts. w \<in> set (tokenize L v))" for v
  define hit where "hit = (\<lambda>(k, v). \<lparr>sh_namespace = ns, sh_key = drop (length ns + 1) k,
      sh_score = score_terms (f64 L) n (zip (term_frequencies (tokenize L v) ts) (map length ps)) (f_nat (f64 L) 0), sh_value = v\<rparr>)"
  note i = indexedD [OF core_okD(1) [OF store_okD(1) [OF assms(3)]]]
  note es = entry_range [OF assms(1), of ns db, folded es_def]
  have dfs: "map length ps = map (\<lambda>w. length (filter (\<lambda>(_, v). w \<in> set (tokenize L v)) es)) ts"
    by (simp add: ps_def es_def length_posting [OF assms(1,3,4)])
  have small: "\<forall>d \<in> set (map length ps). d \<le> n" unfolding dfs n_def using length_filter_le by (fastforce simp: le_max_iff_disj)
  have cs: "set cs = {ck. in_ns ns ck \<and> (\<exists>v. entries_of L db ck = Some v \<and> (\<exists>w \<in> set ts. w \<in> set (tokenize L v)))}"
    unfolding cs_def set_fold_insert_all ps_def using i(3) [OF assms(4)] by auto
  have sh: "score_hit L n ns ts (map length ps) author db ck = (if good v then Some (hit (ck, v)) else None)"
    if "entries_of L db ck = Some v" "in_ns ns ck" for ck v
    using score_hit_entry [OF assms(2) _ _ small that, of ts author] by (simp add: n_def ps_def good_def hit_def)
  let ?H = "List.map_filter (score_hit L n ns ts (map length ps) author db) cs"
  let ?R = "map hit (filter (\<lambda>(_, v). good v) es)"
  have H: "?H = map (\<lambda>ck. hit (ck, the (entries_of L db ck))) (filter (\<lambda>ck. good (the (entries_of L db ck))) cs)"
    unfolding List.map_filter_def using cs sh by (intro map_cong filter_cong refl) (auto split: if_splits)
  have inj: "inj_on (\<lambda>ck. drop (length ns + 1) ck) {ck. in_ns ns ck}"
    by (rule inj_onI) (auto simp: in_ns_iff)
  have keyd: "sh_key (hit (k, v)) = drop (length ns + 1) k" for k v by (simp add: hit_def)
  have dH: "distinct (map sh_key ?H)"
  proof -
    let ?ks = "filter (\<lambda>ck. good (the (entries_of L db ck))) cs"
    have "map sh_key ?H = map (\<lambda>ck. drop (length ns + 1) ck) ?ks" unfolding H by (simp add: keyd)
    moreover have "distinct ?ks" unfolding cs_def by (simp add: distinct_fold_insert_all)
    ultimately show ?thesis using cs inj by (auto simp: distinct_map intro: inj_on_subset)
  qed
  have dR: "distinct (map sh_key ?R)"
  proof -
    let ?ks = "map fst (filter (\<lambda>(_, v). good v) es)"
    have "map sh_key ?R = map (\<lambda>ck. drop (length ns + 1) ck) ?ks" by (simp add: keyd case_prod_unfold hit_def)
    moreover have "distinct ?ks" using es(2) by (rule distinct_map_filter)
    moreover have "set ?ks \<subseteq> {ck. in_ns ns ck}" using es(1) by auto
    ultimately show ?thesis using inj by (metis distinct_map inj_on_subset)
  qed
  have "set (filter (\<lambda>ck. good (the (entries_of L db ck))) cs) = {k. in_ns ns k \<and> (\<exists>v. entries_of L db k = Some v \<and> good v)}"
    unfolding set_filter cs by (auto simp: good_def)
  moreover have "set (filter (\<lambda>(_, v). good v) es) = {(k, v). entries_of L db k = Some v \<and> in_ns ns k \<and> good v}"
    unfolding set_filter es(1) by auto
  ultimately have "set ?H = set ?R" unfolding H set_map by (simp only: image_graph)
  then have "mset ?H = mset ?R"
    using dH dR by (simp only: distinct_map set_eq_iff_mset_eq_distinct [symmetric])
  moreover have "inj_on sh_key (set ?H)" using dH by (simp add: distinct_map)
  ultimately have "sort_by hit_before ?H = sort_by hit_before ?R" by (rule sort_hits_unique)
  moreover have "max (unat (num_at L (st_meta db) (DOC_COUNT_PREFIX @ ns))) 1 = n"
    using core_okD(3) [OF store_okD(1) [OF assms(3)] assms(4)] length_range [OF assms(1), of ns db] by (simp add: n_def es_def)
  ultimately show ?thesis
    using assms(5) read_postings_ok [OF i(1) assms(4), of ts]
    unfolding store_search_def scan_search_def ts_def [symmetric] es_def [symmetric] dfs [symmetric] n_def [symmetric] Let_def
    by (simp add: ps_def [symmetric] cs_def [symmetric] hit_def good_def)
qed

subsection \<open>Limits\<close>

text \<open>The youngest entries of the segment stay.\<close>

lemma capacity_keeps_youngest:
  assumes "lib_laws L" and "distinct (map fst es)" and "(k, t) \<in> set es" "k \<notin> set aged" "k \<notin> fst ` set (capacity_victims L (Some cap) aged es)"
    and "(k', t') \<in> set es" and "k' \<in> fst ` set (capacity_victims L (Some cap) aged es)"
  shows "t' \<le> t"
proof -
  define rem where "rem = filter (\<lambda>(k, _). k \<notin> set aged) es"
  define xs where "xs = sort_by_age L rem"
  define m where "m = length rem - cap"
  have xs: "set xs = set rem" "sorted (map snd xs)" using set_sort_by_age [OF assms(1)] lib_lawsD(8) [OF assms(1)] by (simp_all add: xs_def)
  have V: "fst ` set (capacity_victims L (Some cap) aged es) = (if cap < length rem then fst ` set (take m xs) else {})"
    unfolding capacity_victims_def option.case rem_def [symmetric] xs_def m_def Let_def by (simp add: image_image case_prod_unfold)
  have uniq: "\<And>a b. (k', a) \<in> set es \<Longrightarrow> (k', b) \<in> set es \<Longrightarrow> a = b" using assms(2) by (meson eq_key_imp_eq_value)
  obtain s where s: "(k', s) \<in> set (take m xs)" using assms(7) V by (auto split: if_splits)
  then have "s = t'" using uniq assms(6) xs(1) by (auto simp: rem_def dest!: in_set_takeD)
  moreover have "(k, t) \<in> set (drop m xs)"
  proof -
    have "(k, t) \<in> set xs" using assms(3,4) by (simp add: xs(1) rem_def)
    moreover have "(k, t) \<notin> set (take m xs)" using assms(5,7) V by (force split: if_splits)
    ultimately show ?thesis by (metis Un_iff append_take_drop_id set_append)
  qed
  moreover have "sorted (map snd (take m xs) @ map snd (drop m xs))" using xs(2) by (metis append_take_drop_id map_append)
  ultimately show ?thesis using s by (force simp: sorted_append)
qed

lemma capacity_leaves:
  assumes "lib_laws L" and "distinct (map fst es)"
  shows "length (filter (\<lambda>(k, _). k \<notin> set aged \<and> k \<notin> fst ` set (capacity_victims L (Some cap) aged es)) es) \<le> cap"
proof -
  define rem where "rem = filter (\<lambda>(k, _). k \<notin> set aged) es"
  have d: "distinct (map fst rem)" unfolding rem_def using assms(2) by (rule distinct_map_filter)
  show ?thesis
  proof (cases "cap < length rem")
    case False
    have "length (filter (\<lambda>(k, _). k \<notin> set aged \<and> P k) es) \<le> length rem" for P
      unfolding rem_def by (induction es) auto
    with False show ?thesis by (meson not_le order_trans)
  next
    case True
    define vs where "vs = map fst (take (length rem - cap) (sort_by_age L rem))"
    have ms: "mset (sort_by_age L rem) = mset rem" using lib_lawsD(7) [OF assms(1)] .
    then have len: "length (sort_by_age L rem) = length rem" by (metis size_mset)
    have "mset (map fst (sort_by_age L rem)) = mset (map fst rem)" by (simp add: ms)
    then have "distinct (map fst (sort_by_age L rem))" using d by (metis mset_eq_imp_distinct_iff)
    then have dv: "distinct vs" unfolding vs_def take_map [symmetric] by (rule distinct_take)
    have sub: "set vs \<subseteq> fst ` set rem"
      unfolding vs_def set_map using set_take_subset [of "length rem - cap" "sort_by_age L rem"] set_sort_by_age [OF assms(1)] by blast
    have "fst ` set (capacity_victims L (Some cap) aged es) = set vs"
      using True by (force simp: capacity_victims_def rem_def [symmetric] vs_def Let_def)
    then have "filter (\<lambda>(k, _). k \<notin> set aged \<and> k \<notin> fst ` set (capacity_victims L (Some cap) aged es)) es =
        filter (\<lambda>(k, _). k \<notin> set vs) rem"
      unfolding rem_def by (simp add: case_prod_unfold)
    moreover have "length (filter (\<lambda>(k, _). k \<notin> set vs) rem) = card (fst ` set rem - set vs)"
    proof -
      have "distinct (map fst (filter (\<lambda>(k, _). k \<notin> set vs) rem))" using d by (rule distinct_map_filter)
      then have "length (filter (\<lambda>(k, _). k \<notin> set vs) rem) = card (set (map fst (filter (\<lambda>(k, _). k \<notin> set vs) rem)))"
        using distinct_card by fastforce
      moreover have "set (map fst (filter (\<lambda>(k, _). k \<notin> set vs) rem)) = fst ` set rem - set vs" by force
      ultimately show ?thesis by simp
    qed
    moreover have "card (fst ` set rem - set vs) = length rem - length vs"
      using sub dv d by (simp add: card_Diff_subset distinct_card [symmetric]) (metis distinct_card length_map set_map)
    ultimately show ?thesis using True len by (simp add: vs_def)
  qed
qed

lemma aged_keys:
  "fst ` set (age_victims max_age now es) = {k. \<exists>t a. (k, t) \<in> set es \<and> max_age = Some a \<and> t < saturating_sub now a}"
  by (cases max_age) (auto simp: age_victims_def image_image case_prod_unfold intro: rev_image_eqI)

lemma fst_filter_keys: "fst ` set (filter (\<lambda>(k, _). k \<notin> V) es) = {k. \<exists>t. (k, t) \<in> set es \<and> k \<notin> V}"
  by force

lemma live_keys:
  assumes "\<And>k. G k = None \<longleftrightarrow> E k = None"
  shows "keys_in (\<lambda>k. if k \<in> V then None else E k) ns = {k. \<exists>t. (G k = Some t \<and> in_ns ns k) \<and> k \<notin> V}"
  using assms by (auto simp: keys_in_def) (metis not_None_eq)+

text \<open>
  C26. Eviction enforces the limits and takes the oldest. After an eviction of a segment that is not
  canon and whose transactions commit, no entry is older than the age limit, at most
  \<open>max_entries\<close> entries are left, and whatever was evicted although it was within the age limit is
  no younger than anything that stayed. Other segments and every canon segment are as before.
\<close>

theorem eviction_enforces_limits:
  assumes "lib_laws L" and "store_ok L db" and "nul_free ns" and "evict L ok ns max_entries max_age now db = (r, db')"
  shows "(\<forall>k. \<not> in_ns ns k \<longrightarrow> entries_of L db' k = entries_of L db k) \<and>
    (segment_class L ns db = Some Canon \<longrightarrow> db' = db) \<and>
    (ok \<and> segment_class L ns db \<noteq> Some Canon \<longrightarrow>
       (\<forall>cap. max_entries = Some cap \<longrightarrow> card (keys_in (entries_of L db') ns) \<le> cap) \<and>
       (\<forall>k t a. max_age = Some a \<longrightarrow> k \<in> keys_in (entries_of L db') ns \<longrightarrow>
          tb_get (num_tbl L) (st_age db) k = Some t \<longrightarrow> saturating_sub now a \<le> t) \<and>
       (\<forall>k t k' t'. k \<in> keys_in (entries_of L db') ns \<longrightarrow> tb_get (num_tbl L) (st_age db) k = Some t \<longrightarrow>
          k' \<in> keys_in (entries_of L db) ns - keys_in (entries_of L db') ns \<longrightarrow>
          tb_get (num_tbl L) (st_age db) k' = Some t' \<longrightarrow>
          t' \<le> t \<or> (\<exists>a. max_age = Some a \<and> t' < saturating_sub now a)))"
proof -
  define es where "es = tb_range (num_tbl L) (prefix_start ns) (prefix_end ns) (st_age db)"
  define aged where "aged = age_victims max_age now es"
  define V where "V = fst ` set (victims L ns max_entries max_age now db)"
  note es = age_range [OF assms(1), of ns "st_age db", folded es_def]
  have des: "distinct (map fst es)" unfolding es_def by (rule tb_range_distinct [OF lib_lawsD(2) [OF assms(1)]])
  have V: "V = fst ` set aged \<union> fst ` set (capacity_victims L max_entries (map fst aged) es)"
    by (simp add: V_def victims_def es_def [symmetric] aged_def Let_def image_Un)
  have inV: "\<forall>k \<in> V. in_ns ns k" unfolding V_def by (rule victims_within [OF assms(1)])
  have A: "fst ` set aged = {k. \<exists>t a. (k, t) \<in> set es \<and> max_age = Some a \<and> t < saturating_sub now a}"
    unfolding aged_def by (rule aged_keys)
  have dom: "tb_get (num_tbl L) (st_age db) k = None \<longleftrightarrow> entries_of L db k = None" for k
    using core_okD(2) [OF store_okD(1) [OF assms(2)]] .
  have frame: "\<forall>k. \<not> in_ns ns k \<longrightarrow> entries_of L db' k = entries_of L db k"
    using evict_cases [OF assms] inV unfolding V_def [symmetric] by auto
  have live: "keys_in (entries_of L db') ns = {k. \<exists>t. (k, t) \<in> set es \<and> k \<notin> V}" if "ok" "segment_class L ns db \<noteq> Some Canon"
  proof -
    have "entries_of L db' = (\<lambda>k. if k \<in> V then None else entries_of L db k)"
      using evict_cases [OF assms] that by (auto simp: V_def)
    then show ?thesis using live_keys [OF dom] unfolding es by simp
  qed
  have in_es: "(k, t) \<in> set es" if "in_ns ns k" "tb_get (num_tbl L) (st_age db) k = Some t" for k t
    unfolding es using that by blast
  have kept: "(k, t) \<in> set es \<and> k \<notin> V"
    if "ok \<and> segment_class L ns db \<noteq> Some Canon" "k \<in> keys_in (entries_of L db') ns" "tb_get (num_tbl L) (st_age db) k = Some t" for k t
  proof -
    have "k \<notin> V" using that(1,2) live by blast
    moreover have "in_ns ns k" using that(2) by (simp add: keys_in_def)
    ultimately show ?thesis using in_es that(3) by blast
  qed
  show ?thesis
  proof (intro conjI impI allI)
    show "db' = db" if "segment_class L ns db = Some Canon" using assms(4) that by (simp add: evict_def)
  next
    fix cap assume h: "ok \<and> segment_class L ns db \<noteq> Some Canon" "max_entries = Some cap"
    have "keys_in (entries_of L db') ns = fst ` set (filter (\<lambda>(k, _). k \<notin> V) es)"
      using live h(1) unfolding fst_filter_keys by blast
    moreover have "card (fst ` set (filter (\<lambda>(k, _). k \<notin> V) es)) \<le> length (filter (\<lambda>(k, _). k \<notin> V) es)"
      using card_length [of "map fst (filter (\<lambda>(k, _). k \<notin> V) es)"] by simp
    moreover have "length (filter (\<lambda>(k, _). k \<notin> V) es) \<le> cap"
      using capacity_leaves [OF assms(1) des, of "map fst aged" cap] by (simp add: V h(2) case_prod_unfold)
    ultimately show "card (keys_in (entries_of L db') ns) \<le> cap" by simp
  next
    fix k t a
    assume h: "ok \<and> segment_class L ns db \<noteq> Some Canon" "max_age = Some a" "k \<in> keys_in (entries_of L db') ns"
      "tb_get (num_tbl L) (st_age db) k = Some t"
    then have "(k, t) \<in> set es" "k \<notin> fst ` set aged" using kept [OF h(1,3,4)] unfolding V by blast+
    then show "saturating_sub now a \<le> t" unfolding A using h(2) by (metis (mono_tags, lifting) mem_Collect_eq not_le)
  next
    fix k t k' t'
    assume h: "ok \<and> segment_class L ns db \<noteq> Some Canon" "k \<in> keys_in (entries_of L db') ns"
      "tb_get (num_tbl L) (st_age db) k = Some t" "k' \<in> keys_in (entries_of L db) ns - keys_in (entries_of L db') ns"
      "tb_get (num_tbl L) (st_age db) k' = Some t'"
    have k: "(k, t) \<in> set es" "k \<notin> V" using kept [OF h(1,2,3)] by blast+
    have "in_ns ns k'" using h(4) by (simp add: keys_in_def)
    from in_es [OF this h(5)] have k': "(k', t') \<in> set es" "k' \<in> V" using h(1,4) live by blast+
    show "t' \<le> t \<or> (\<exists>a. max_age = Some a \<and> t' < saturating_sub now a)"
    proof (cases "k' \<in> fst ` set aged")
      case True
      then show ?thesis unfolding A using des k'(1) by (auto dest: eq_key_imp_eq_value)
    next
      case False
      then have "k' \<in> fst ` set (capacity_victims L max_entries (map fst aged) es)" using k'(2) V by simp
      moreover then obtain cap where "max_entries = Some cap" by (cases max_entries) (auto simp: capacity_victims_def)
      ultimately show ?thesis
        using capacity_keeps_youngest [OF assms(1) des k(1) _ _ k'(1), of "map fst aged" cap] k(2) V by auto
    qed
  qed (use frame in blast)
qed

end
