(* ===== verification/Runs_Laws.thy ===== *)
theory Runs_Laws
  imports Runs Memory_Search
begin

section \<open>Laws of the run history\<close>

text \<open>
  What the code relies on in its tables and in the JSON coding of records; the records a store
  holds; its invariant, which every message of the writer keeps; and what pruning leaves.
\<close>

definition runs_laws :: "('s, 'n) runs_lib \<Rightarrow> bool" where
  "runs_laws L \<longleftrightarrow>
     table_laws (rl_str L) \<and> table_laws (rl_num L) \<and>
     (\<forall>r. run_of_json L (run_to_json L r) = Some r) \<and> (\<forall>b. brief_of_json L (brief_to_json L b) = Some b)"

lemma runs_lawsD:
  assumes "runs_laws L"
  shows "table_laws (rl_str L)" "table_laws (rl_num L)" "run_of_json L (run_to_json L r) = Some r"
    "brief_of_json L (brief_to_json L b) = Some b"
  using assms unfolding runs_laws_def by simp_all

lemma rl_simps:
  assumes "runs_laws L"
  shows "tb_get (rl_str L) (tb_insert (rl_str L) k v t) k' = (if k' = k then Some v else tb_get (rl_str L) t k')"
    "tb_get (rl_str L) (tb_remove (rl_str L) k t) k' = (if k' = k then None else tb_get (rl_str L) t k')"
    "tb_get (rl_num L) (tb_insert (rl_num L) k n u) k' = (if k' = k then Some n else tb_get (rl_num L) u k')"
  using runs_lawsD [OF assms] by (simp_all add: tb_get_insert tb_get_remove)

subsection \<open>The records of a store\<close>

definition rec_at :: "('s, 'n) runs_lib \<Rightarrow> ('s, 'n) runs_store \<Rightarrow> string \<Rightarrow> run_record option" where
  "rec_at L db k = Option.bind (tb_get (rl_str L) (rs_runs db) k) (run_of_json L)"

lemma rec_at_insert:
  "runs_laws L \<Longrightarrow> rec_at L (db\<lparr>rs_runs := tb_insert (rl_str L) k (run_to_json L r) (rs_runs db)\<rparr>) = (rec_at L db)(k \<mapsto> r)"
  by (auto simp: rec_at_def rl_simps runs_lawsD(3))

lemma get_fold_remove:
  "table_laws T \<Longrightarrow> tb_get T (fold (tb_remove T) ks t) k = (if k \<in> set ks then None else tb_get T t k)"
  by (induction ks arbitrary: t) (auto simp: tb_get_remove)

lemma rec_at_other [simp]:
  "rec_at L (db\<lparr>rs_open := x\<rparr>) = rec_at L db" "rec_at L (db\<lparr>rs_meta := y\<rparr>) = rec_at L db"
  "rec_at L (db\<lparr>rs_briefs := z\<rparr>) = rec_at L db"
  by (simp_all add: rec_at_def fun_eq_iff)

lemma set_map_filter_graph:
  "set t = {(k, v). m k = Some v} \<Longrightarrow> set (List.map_filter (\<lambda>(k, v). f k v) t) = {x. \<exists>k v. m k = Some v \<and> f k v = Some x}"
  by (simp add: set_map_filter)

lemma set_parsed_runs: "runs_laws L \<Longrightarrow> set (parsed_runs L db) = ran (rec_at L db)"
  unfolding parsed_runs_def ran_def rec_at_def bind_eq_Some_conv
  by (subst set_map_filter_graph [OF tb_iter_set [OF runs_lawsD(1)]]) auto

lemma closed_runs_alt:
  "closed_runs L t = List.map_filter (\<lambda>(k, j). map_option (Pair k)
     (Option.bind (run_of_json L j) (\<lambda>rec. map_option (\<lambda>e. max e (start_ts rec)) (end_ts rec)))) (tb_iter (rl_str L) t)"
  unfolding closed_runs_def by (rule arg_cong [where f = "\<lambda>f. List.map_filter f _"]) (auto simp: fun_eq_iff split: option.splits)

lemma set_closed_runs:
  assumes "runs_laws L"
  shows "(k, ts) \<in> set (closed_runs L (rs_runs db)) \<longleftrightarrow>
    (\<exists>r e. rec_at L db k = Some r \<and> end_ts r = Some e \<and> ts = max e (start_ts r))"
  unfolding closed_runs_alt rec_at_def bind_eq_Some_conv
  by (subst set_map_filter_graph [OF tb_iter_set [OF runs_lawsD(1) [OF assms]]]) (auto simp: bind_eq_Some_conv)

lemma distinct_closed_runs:
  assumes "runs_laws L"
  shows "distinct (map fst (closed_runs L t))"
proof -
  define g where "g j = Option.bind (run_of_json L j) (\<lambda>rec. map_option (\<lambda>e. max e (start_ts rec)) (end_ts rec))" for j
  have "distinct (map fst (List.map_filter (\<lambda>(k, j). map_option (Pair k) (g j)) xs)) \<and>
      fst ` set (List.map_filter (\<lambda>(k, j). map_option (Pair k) (g j)) xs) \<subseteq> fst ` set xs"
    if "distinct (map fst xs)" for xs :: "(string \<times> string) list"
    using that
  proof (induction xs)
    case (Cons x xs)
    obtain k j where x: "x = (k, j)" by (cases x)
    from Cons show ?case by (cases "g j") (auto simp: x List.map_filter_simps)
  qed (simp add: List.map_filter_simps)
  moreover have "distinct (map fst (tb_iter (rl_str L) t))"
    using runs_lawsD(1) [OF assms] unfolding table_laws_def by (simp add: strict_sorted_iff)
  ultimately show ?thesis unfolding closed_runs_alt g_def [symmetric] by blast
qed

subsection \<open>Pruning\<close>

lemma set_prune_victims:
  "set (prune_victims now mr ma cl) =
     {k. \<exists>ts. (k, ts) \<in> set cl \<and> ts < saturating_sub now ma} \<union>
     fst ` set (take (length cl - mr) (sort_key snd cl))"
proof -
  have f: "set (fold (\<lambda>(k, _) rem. if k \<in> set rem then rem else rem @ [k]) xs acc) = set acc \<union> fst ` set xs" for xs :: "(string \<times> u64) list" and acc
    by (induction xs arbitrary: acc) (auto split: if_splits)
  show ?thesis unfolding prune_victims_def Let_def by (cases "mr < length cl") (auto simp: f image_iff)
qed

lemma prune_victims_closed: "set (prune_victims now mr ma cl) \<subseteq> fst ` set cl"
  unfolding set_prune_victims using set_take_subset [of _ "sort_key snd cl"] by (force simp: image_iff)

lemma rec_at_prune:
  assumes "runs_laws L"
  shows "rec_at L (prune L ok now mr ma db) =
    (\<lambda>k. if ok \<and> k \<in> set (prune_victims now mr ma (closed_runs L (rs_runs db))) then None else rec_at L db k)"
  by (auto simp: prune_def rec_at_def get_fold_remove [OF runs_lawsD(1) [OF assms]])

lemma prune_keeps_open:
  assumes "runs_laws L" and "rec_at L db k = Some r" and "end_ts r = None"
  shows "rec_at L (prune L ok now mr ma db) k = Some r"
  using assms prune_victims_closed [of now mr ma "closed_runs L (rs_runs db)"]
  by (force simp: rec_at_prune set_closed_runs)

lemma prune_fields [simp]:
  "rs_open (prune L ok now mr ma db) = rs_open db" "rs_meta (prune L ok now mr ma db) = rs_meta db"
  "rs_briefs (prune L ok now mr ma db) = rs_briefs db"
  by (simp_all add: prune_def)

subsection \<open>The invariant\<close>

definition runs_ok :: "('s, 'n) runs_lib \<Rightarrow> ('s, 'n) runs_store \<Rightarrow> bool" where
  "runs_ok L db \<longleftrightarrow>
     (\<forall>k. tb_get (rl_str L) (rs_runs db) k \<noteq> None \<longrightarrow> rec_at L db k \<noteq> None) \<and>
     (\<forall>k r. rec_at L db k = Some r \<longrightarrow>
        segment_id r = k \<and> k = segment_name (rr_agent_id r) (segment_seq r) \<and>
        segment_seq r < meta_at L db (seq_key (rr_agent_id r)) \<and> (end_ts r = None \<longrightarrow> rr_status r = ''running'')) \<and>
     (\<forall>a k. tb_get (rl_str L) (rs_open db) a = Some k \<longleftrightarrow>
        (\<exists>r. rec_at L db k = Some r \<and> rr_agent_id r = a \<and> end_ts r = None))"

lemma runs_okD:
  assumes "runs_ok L db"
  shows "tb_get (rl_str L) (rs_runs db) k \<noteq> None \<Longrightarrow> rec_at L db k \<noteq> None"
    "rec_at L db k = Some r \<Longrightarrow> segment_id r = k"
    "rec_at L db k = Some r \<Longrightarrow> k = segment_name (rr_agent_id r) (segment_seq r)"
    "rec_at L db k = Some r \<Longrightarrow> segment_seq r < meta_at L db (seq_key (rr_agent_id r))"
    "rec_at L db k = Some r \<Longrightarrow> end_ts r = None \<Longrightarrow> rr_status r = ''running''"
    "tb_get (rl_str L) (rs_open db) a = Some k \<longleftrightarrow> (\<exists>r. rec_at L db k = Some r \<and> rr_agent_id r = a \<and> end_ts r = None)"
  using assms unfolding runs_ok_def by blast+

text \<open>The decimal number ends the name, so the name determines the agent and the number.\<close>

lemma segment_name_inject: "segment_name a m = segment_name b n \<longleftrightarrow> a = b \<and> m = n"
proof
  assume eq: "segment_name a m = segment_name b n"
  have colon: "CHR '':'' \<notin> set (rev (show_nat i))" for i using digits_show_nat [of i] by (auto simp: is_digit_def)
  have rev_eq: "rev (segment_name c i) = rev (show_word i) @ CHR '':'' # rev c" for c i by (simp add: segment_name_def)
  have split: "takeWhile (\<lambda>c. c \<noteq> CHR '':'') (rev (segment_name c i)) = rev (show_word i)"
    "dropWhile (\<lambda>c. c \<noteq> CHR '':'') (rev (segment_name c i)) = CHR '':'' # rev c" for c i
    unfolding rev_eq using colon [of "unat i"] by (induction "rev (show_word i)") (auto simp: takeWhile_append dropWhile_append)
  have "rev (show_word m) = rev (show_word n)" using split(1) [of a m] split(1) [of b n] eq by metis
  moreover have "rev a = rev b" using split(2) [of a m] split(2) [of b n] eq by (metis list.inject)
  ultimately show "a = b \<and> m = n" by (simp add: show_nat_inj word_unat_eq_iff)
qed simp

lemma meta_at_insert:
  "runs_laws L \<Longrightarrow> meta_at L (db\<lparr>rs_meta := tb_insert (rl_num L) k n (rs_meta db)\<rparr>) k' = (if k' = k then n else meta_at L db k')"
  by (simp add: meta_at_def rl_simps)

lemma meta_at_other [simp]:
  "meta_at L (db\<lparr>rs_open := x\<rparr>) k = meta_at L db k" "meta_at L (db\<lparr>rs_runs := y\<rparr>) k = meta_at L db k"
  "meta_at L (db\<lparr>rs_briefs := z\<rparr>) k = meta_at L db k" "meta_at L (prune L ok now mr ma db) k = meta_at L db k"
  by (simp_all add: meta_at_def)

lemma seq_key_inject [simp]: "seq_key a = seq_key b \<longleftrightarrow> a = b" "seq_key a \<noteq> ''brief_seq''"
  by (simp_all add: seq_key_def)

lemma word_less_succ: "unat (x :: u64) < 2 ^ 64 - 1 \<Longrightarrow> x < x + 1"
  by (simp add: word_less_nat_alt unat_word_ariths)

subsection \<open>Every message keeps the invariant\<close>

definition segment_room :: "('s, 'n) runs_lib \<Rightarrow> ('s, 'n) runs_store \<Rightarrow> string \<Rightarrow> bool" where
  "segment_room L db a \<longleftrightarrow> unat (meta_at L db (seq_key a)) < 2 ^ 64 - 1"

text \<open>A record that is rewritten in place: the open record of agent \<open>a\<close>, closed or not.\<close>

lemma rewrite_ok:
  assumes L: "runs_laws L" and ok: "runs_ok L db" and r: "rec_at L db sid = Some r" "end_ts r = None"
    and r': "segment_id r' = segment_id r" "rr_agent_id r' = rr_agent_id r" "segment_seq r' = segment_seq r"
      "end_ts r' = None \<longrightarrow> rr_status r' = rr_status r"
  shows "runs_ok L (db\<lparr>rs_runs := tb_insert (rl_str L) sid (run_to_json L r') (rs_runs db),
    rs_open := (if end_ts r' = None then rs_open db else tb_remove (rl_str L) (rr_agent_id r) (rs_open db))\<rparr>)"
    (is "runs_ok L ?db")
proof -
  note d = runs_okD [OF ok]
  have rec: "rec_at L ?db = (rec_at L db)(sid \<mapsto> r')"
    using rec_at_insert [OF L, where db = db] by (simp add: rec_at_def fun_eq_iff)
  have unique: "k = sid" if "rec_at L db k = Some q" "rr_agent_id q = rr_agent_id r" "end_ts q = None" for k q
    using d(6) [of "rr_agent_id r"] r that by (metis option.inject)
  have "tb_get (rl_str L) (rs_runs ?db) k \<noteq> None \<Longrightarrow> rec_at L ?db k \<noteq> None" for k
    using d(1) [of k] unfolding rec by (simp add: rl_simps [OF L] split: if_splits)
  moreover have "segment_id q = k \<and> k = segment_name (rr_agent_id q) (segment_seq q) \<and>
      segment_seq q < meta_at L ?db (seq_key (rr_agent_id q)) \<and> (end_ts q = None \<longrightarrow> rr_status q = ''running'')"
    if "rec_at L ?db k = Some q" for k q
    using that d(2,3,4,5) [of k] r r' unfolding rec by (auto simp: meta_at_def split: if_splits)
  moreover have "tb_get (rl_str L) (rs_open ?db) a = Some k \<longleftrightarrow>
      (\<exists>q. rec_at L ?db k = Some q \<and> rr_agent_id q = a \<and> end_ts q = None)" for a k
  proof (cases "k = sid")
    case True
    have "tb_get (rl_str L) (rs_open db) (rr_agent_id r) = Some sid" using d(6) r by blast
    moreover have "tb_get (rl_str L) (rs_open db) a = Some sid \<longleftrightarrow> a = rr_agent_id r" using d(6) [of a sid] r by auto
    ultimately show ?thesis using True r'(2) by (cases "end_ts r' = None") (auto simp: rec_at_insert [OF L] rl_simps [OF L])
  next
    case False
    then have "rec_at L ?db k = rec_at L db k" unfolding rec by simp
    moreover have "tb_get (rl_str L) (rs_open ?db) a = Some k \<longleftrightarrow> tb_get (rl_str L) (rs_open db) a = Some k"
      using False unique [of k] d(6) [of a k] by (cases "a = rr_agent_id r") (auto simp: rl_simps [OF L])
    ultimately show ?thesis using d(6) [of a k] by simp
  qed
  ultimately show ?thesis unfolding runs_ok_def by blast
qed

lemma prune_runs_ok:
  assumes "runs_laws L" and "runs_ok L db"
  shows "runs_ok L (prune L ok now mr ma db)"
proof -
  note d = runs_okD [OF assms(2)]
  let ?db = "prune L ok now mr ma db"
  have sub: "rec_at L ?db k = Some r \<Longrightarrow> rec_at L db k = Some r" for k r
    unfolding rec_at_prune [OF assms(1)] by (simp split: if_splits)
  have "tb_get (rl_str L) (rs_runs ?db) k \<noteq> None \<Longrightarrow> rec_at L ?db k \<noteq> None" for k
    using d(1) [of k] unfolding rec_at_prune [OF assms(1)]
    by (auto simp: prune_def get_fold_remove [OF runs_lawsD(1) [OF assms(1)]] split: if_splits)
  moreover have "tb_get (rl_str L) (rs_open ?db) a = Some k \<longleftrightarrow>
      (\<exists>q. rec_at L ?db k = Some q \<and> rr_agent_id q = a \<and> end_ts q = None)" for a k
    unfolding prune_fields d(6) using sub prune_keeps_open [OF assms(1)] by blast
  moreover have "segment_id q = k \<and> k = segment_name (rr_agent_id q) (segment_seq q) \<and>
      segment_seq q < meta_at L ?db (seq_key (rr_agent_id q)) \<and> (end_ts q = None \<longrightarrow> rr_status q = ''running'')"
    if "rec_at L ?db k = Some q" for k q
    using d(2,3,4,5) [OF sub [OF that]] by simp
  ultimately show ?thesis unfolding runs_ok_def by blast
qed

lemma open_segment_ok:
  assumes L: "runs_laws L" and ok: "runs_ok L db" and room: "segment_room L db a"
  shows "runs_ok L (snd (open_segment L b a parent reason st tr ts db))" (is "runs_ok L ?db")
proof (cases "b \<and> tb_get (rl_str L) (rs_open db) a = None")
  case True
  note d = runs_okD [OF ok]
  define n where "n = meta_at L db (seq_key a)"
  define r where "r = \<lparr>segment_id = segment_name a n, rr_agent_id = a, segment_seq = n, rr_parent_id = parent, start_reason = reason,
      start_ts = ts, end_ts = None, rr_status = ''running'', rr_stop_reason = None, last_error = None,
      approvals_count = 0, start_context_tokens = st, rr_spend = None, rr_tier = tr\<rparr>"
  have db: "?db = db\<lparr>rs_meta := tb_insert (rl_num L) (seq_key a) (n + 1) (rs_meta db),
      rs_runs := tb_insert (rl_str L) (segment_name a n) (run_to_json L r) (rs_runs db),
      rs_open := tb_insert (rl_str L) a (segment_name a n) (rs_open db)\<rparr>"
    using True by (simp add: open_segment_def Let_def n_def r_def)
  have rec: "rec_at L ?db = (rec_at L db)(segment_name a n \<mapsto> r)"
    unfolding db using rec_at_insert [OF L, where db = db] by (simp add: rec_at_def fun_eq_iff)
  have less: "n < n + 1" using room by (intro word_less_succ) (simp add: segment_room_def n_def)
  have meta: "meta_at L ?db (seq_key c) = (if c = a then n + 1 else meta_at L db (seq_key c))" for c
    unfolding db by (simp add: meta_at_def rl_simps [OF L])
  have fresh: "rec_at L db (segment_name a n) = None"
    using d(3,4) [of "segment_name a n"] by (metis n_def option.exhaust order_less_irrefl segment_name_inject)
  have "tb_get (rl_str L) (rs_runs ?db) k \<noteq> None \<Longrightarrow> rec_at L ?db k \<noteq> None" for k
    using d(1) [of k] unfolding rec unfolding db by (simp add: rl_simps [OF L] split: if_splits)
  moreover have "segment_id q = k \<and> k = segment_name (rr_agent_id q) (segment_seq q) \<and>
      segment_seq q < meta_at L ?db (seq_key (rr_agent_id q)) \<and> (end_ts q = None \<longrightarrow> rr_status q = ''running'')"
    if "rec_at L ?db k = Some q" for k q
    using that d(2,3,4,5) [of k q] less unfolding rec meta
    by (auto simp: r_def n_def split: if_splits intro: less_trans)
  moreover have "tb_get (rl_str L) (rs_open ?db) c = Some k \<longleftrightarrow>
      (\<exists>q. rec_at L ?db k = Some q \<and> rr_agent_id q = c \<and> end_ts q = None)" for c k
    using d(6) [of c k] True fresh unfolding rec unfolding db
    by (auto simp: rl_simps [OF L] r_def split: if_splits)
  ultimately show ?thesis unfolding runs_ok_def by blast
qed (use ok in \<open>auto simp: open_segment_def\<close>)

lemma open_record:
  assumes "runs_ok L db" and "tb_get (rl_str L) (rs_open db) a = Some sid"
  obtains j r where "tb_get (rl_str L) (rs_runs db) sid = Some j" and "run_of_json L j = Some r"
    and "rec_at L db sid = Some r" and "rr_agent_id r = a" and "end_ts r = None"
  using runs_okD(6) [OF assms(1), of a sid] assms(2) unfolding rec_at_def bind_eq_Some_conv by blast

text \<open>The store between the two transactions of a close: the open record is closed and nothing else changes.\<close>

lemma close_segment_cases:
  assumes "runs_ok L db" and "b"
  obtains (unopened) "close_segment L b b' a status stop err et ts db = (Inr (), prune L b' ts MAX_RUNS MAX_RUN_AGE_SECS db)"
      and "tb_get (rl_str L) (rs_open db) a = None"
  | (closed_one) sid r where "rec_at L db sid = Some r" "rr_agent_id r = a" "end_ts r = None"
      "close_segment L b b' a status stop err et ts db =
        (Inr (), prune L b' ts MAX_RUNS MAX_RUN_AGE_SECS (db\<lparr>
          rs_runs := tb_insert (rl_str L) sid (run_to_json L (closed_record status stop err et ts r)) (rs_runs db),
          rs_open := tb_remove (rl_str L) a (rs_open db)\<rparr>))"
proof (cases "tb_get (rl_str L) (rs_open db) a")
  case None
  then show thesis using unopened assms(2) by (simp add: close_segment_def)
next
  case (Some sid)
  from assms(1) this obtain j r where "tb_get (rl_str L) (rs_runs db) sid = Some j" "run_of_json L j = Some r"
    "rec_at L db sid = Some r" "rr_agent_id r = a" "end_ts r = None" by (rule open_record)
  with closed_one [of sid r] Some assms(2) show thesis by (simp add: close_segment_def)
qed

lemma closed_record_fields [simp]:
  "segment_id (closed_record status stop err et ts r) = segment_id r" "rr_agent_id (closed_record status stop err et ts r) = rr_agent_id r"
  "segment_seq (closed_record status stop err et ts r) = segment_seq r" "end_ts (closed_record status stop err et ts r) = Some ts"
  by (simp_all add: closed_record_def)

lemma close_segment_ok:
  assumes "runs_laws L" and "runs_ok L db"
  shows "runs_ok L (snd (close_segment L b b' a status stop err et ts db))"
proof (cases b)
  case True
  from assms(2) this show ?thesis
  proof (cases rule: close_segment_cases [of L db b b' a status stop err et ts])
    case (closed_one sid r)
    from rewrite_ok [OF assms closed_one(1,3), of "closed_record status stop err et ts r"]
    show ?thesis unfolding closed_one(4) using closed_one(2) by (simp add: prune_runs_ok [OF assms(1)])
  qed (simp add: prune_runs_ok assms)
qed (simp add: close_segment_def assms)

text \<open>\<open>None\<close> at the open index: nothing to count; otherwise the open record, one higher.\<close>

lemma incr_approval_cases:
  assumes "runs_ok L db"
  obtains (same) "snd (incr_approval L b a db) = db"
  | (counted) sid r where "rec_at L db sid = Some r" "rr_agent_id r = a" "end_ts r = None" "b"
      "incr_approval L b a db = (Inr (), db\<lparr>rs_runs := tb_insert (rl_str L) sid
        (run_to_json L (r\<lparr>approvals_count := approvals_count r + 1\<rparr>)) (rs_runs db)\<rparr>)"
proof (cases "tb_get (rl_str L) (rs_open db) a")
  case None
  then show thesis using same by (simp add: incr_approval_def)
next
  case (Some sid)
  from assms(1) this obtain j r where "tb_get (rl_str L) (rs_runs db) sid = Some j" "run_of_json L j = Some r"
    "rec_at L db sid = Some r" "rr_agent_id r = a" "end_ts r = None" by (rule open_record)
  with same counted [of sid r] Some show thesis by (cases b) (simp_all add: incr_approval_def)
qed

lemma incr_approval_ok:
  assumes "runs_laws L" and "runs_ok L db"
  shows "runs_ok L (snd (incr_approval L b a db))"
  using assms(2)
proof (cases rule: incr_approval_cases [of L db b a])
  case (counted sid r)
  from rewrite_ok [OF assms counted(1,3), of "r\<lparr>approvals_count := approvals_count r + 1\<rparr>"] counted
  show ?thesis by simp
qed (simp add: assms(2))

lemma publish_brief_ok:
  assumes "runs_laws L" and "runs_ok L db"
  shows "runs_ok L (snd (publish_brief L b narr skipped now db))" "rec_at L (snd (publish_brief L b narr skipped now db)) = rec_at L db"
proof -
  have "snd (publish_brief L b narr skipped now db) = db \<or> (\<exists>x n. snd (publish_brief L b narr skipped now db) =
      db\<lparr>rs_briefs := x, rs_meta := tb_insert (rl_num L) ''brief_seq'' n (rs_meta db)\<rparr>)" (is "?db = db \<or> _")
    by (auto simp: publish_brief_def Let_def split: sum.splits prod.splits)
  then have same: "rec_at L ?db = rec_at L db \<and> rs_runs ?db = rs_runs db \<and> rs_open ?db = rs_open db \<and>
      meta_at L ?db (seq_key a) = meta_at L db (seq_key a)" for a
    by (auto simp: meta_at_def rl_simps [OF assms(1)])
  then show "rec_at L ?db = rec_at L db" by blast
  from same assms(2) show "runs_ok L ?db" unfolding runs_ok_def by simp
qed

end
