(* ===== verification/Runs_Briefs.thy ===== *)
theory Runs_Briefs
  imports Runs_Laws
begin

section \<open>Pruning, and what the morning briefs report\<close>

text \<open>
  Pruning keeps every open record and the newest closed ones. The windows of consecutive briefs
  meet, so that under a clock that does not go back every closed run is reported by exactly one
  brief; and a brief accounts for every run of its window.
\<close>

subsection \<open>Pruning\<close>

definition closed_keys :: "('s, 'n) runs_lib \<Rightarrow> ('s, 'n) runs_store \<Rightarrow> (string \<times> u64) set" where
  "closed_keys L db = {(k, ts). \<exists>r e. rec_at L db k = Some r \<and> end_ts r = Some e \<and> ts = max e (start_ts r)}"

lemma closed_keys_set: "runs_laws L \<Longrightarrow> closed_keys L db = set (closed_runs L (rs_runs db))"
  unfolding closed_keys_def using set_closed_runs by fast

lemma closed_keys_prune:
  assumes "runs_laws L"
  shows "closed_keys L (prune L True now mr ma db) =
    {(k, ts) \<in> closed_keys L db. k \<notin> set (prune_victims now mr ma (closed_runs L (rs_runs db)))}"
  unfolding closed_keys_def rec_at_prune [OF assms] by (auto split: if_splits)

lemma kept_count:
  assumes "distinct (map fst cl)"
  shows "card {(k, ts) \<in> set cl. k \<notin> set (prune_victims now mr ma cl)} \<le> mr"
proof -
  let ?s = "sort_key snd cl"
  have len: "length ?s = length cl" by simp
  have "{(k, ts) \<in> set cl. k \<notin> set (prune_victims now mr ma cl)} \<subseteq> set (drop (length cl - mr) ?s)"
  proof safe
    fix k ts assume "(k, ts) \<in> set cl" "k \<notin> set (prune_victims now mr ma cl)"
    then have "(k, ts) \<in> set ?s" "(k, ts) \<notin> set (take (length cl - mr) ?s)"
      unfolding set_prune_victims by force+
    then show "(k, ts) \<in> set (drop (length cl - mr) ?s)"
      by (metis Un_iff append_take_drop_id set_append)
  qed
  then have "card {(k, ts) \<in> set cl. k \<notin> set (prune_victims now mr ma cl)} \<le> card (set (drop (length cl - mr) ?s))"
    by (intro card_mono) auto
  also have "\<dots> \<le> length (drop (length cl - mr) ?s)" by (rule card_length)
  also have "\<dots> \<le> mr" by simp
  finally show ?thesis .
qed

lemma sorted_take_drop:
  assumes "sorted (map f xs)" and "x \<in> set (take n xs)" and "y \<in> set xs" and "y \<notin> set (take n xs)"
  shows "f x \<le> f y"
proof -
  have "y \<in> set (drop n xs)" using assms(3,4) by (metis Un_iff append_take_drop_id set_append)
  moreover have "sorted (map f (take n xs) @ map f (drop n xs))" using assms(1) by (simp flip: map_append)
  ultimately show ?thesis using assms(2) unfolding sorted_append by auto
qed

text \<open>
  Pruning the run table removes closed records only. Of those it keeps none that ended before
  the age limit and at most \<open>max_runs\<close>; and it removes a record within the age limit only if it is
  not newer than any record it keeps.
\<close>

theorem pruning_keeps_the_newest:
  assumes "runs_laws L" and db'_def: "db' = prune L True now max_runs max_age db"
  shows "(\<forall>k r. rec_at L db k = Some r \<and> end_ts r = None \<longrightarrow> rec_at L db' k = Some r) \<and>
    card (closed_keys L db') \<le> max_runs \<and> closed_keys L db' \<subseteq> closed_keys L db \<and>
    (\<forall>(k, ts) \<in> closed_keys L db'. unat now - unat max_age \<le> unat ts) \<and>
    (\<forall>(k, ts) \<in> closed_keys L db - closed_keys L db'.
       unat ts < unat now - unat max_age \<or> (\<forall>(k', ts') \<in> closed_keys L db'. ts \<le> ts'))"
proof -
  let ?cl = "closed_runs L (rs_runs db)"
  have kept: "closed_keys L db' = {(k, ts) \<in> set ?cl. k \<notin> set (prune_victims now max_runs max_age ?cl)}"
    unfolding db'_def closed_keys_prune [OF assms(1)] closed_keys_set [OF assms(1), of db] ..
  note d = distinct_closed_runs [OF assms(1), of "rs_runs db"]
  have young: "\<forall>(k, ts) \<in> closed_keys L db'. unat now - unat max_age \<le> unat ts"
    unfolding kept set_prune_victims unat_saturating_sub [symmetric]
    by (auto simp: word_less_nat_alt not_less [symmetric])
  have "unat ts < unat now - unat max_age \<or> ts \<le> ts'"
    if out: "(k, ts) \<in> closed_keys L db - closed_keys L db'" and kk: "(k', ts') \<in> closed_keys L db'" for k ts k' ts'
  proof (rule disjCI)
    assume "\<not> ts \<le> ts'"
    have in_cl: "(k, ts) \<in> set ?cl" using out unfolding closed_keys_set [OF assms(1)] by blast
    then have "k \<in> set (prune_victims now max_runs max_age ?cl)" using out unfolding kept by blast
    then consider ts0 where "(k, ts0) \<in> set ?cl" "ts0 < saturating_sub now max_age"
      | ts0 where "(k, ts0) \<in> set (take (length ?cl - max_runs) (sort_key snd ?cl))"
      unfolding set_prune_victims by force
    then show "unat ts < unat now - unat max_age"
    proof cases
      case 1
      then have "ts0 = ts" using in_cl d by (metis eq_key_imp_eq_value)
      with 1 show ?thesis by (simp add: word_less_nat_alt unat_saturating_sub)
    next
      case 2
      then have "(k, ts0) \<in> set ?cl" using set_take_subset by fastforce
      then have "ts0 = ts" using in_cl d by (metis eq_key_imp_eq_value)
      have "(k', ts') \<in> set (sort_key snd ?cl)" "(k', ts') \<notin> set (take (length ?cl - max_runs) (sort_key snd ?cl))"
        using kk unfolding kept set_prune_victims by force+
      from sorted_take_drop [of snd, OF _ 2 this] have "ts \<le> ts'" using \<open>ts0 = ts\<close> by simp
      with \<open>\<not> ts \<le> ts'\<close> show ?thesis by blast
    qed
  qed
  then have "\<forall>(k, ts) \<in> closed_keys L db - closed_keys L db'.
      unat ts < unat now - unat max_age \<or> (\<forall>(k', ts') \<in> closed_keys L db'. ts \<le> ts')" by blast
  moreover have "card (closed_keys L db') \<le> max_runs" unfolding kept by (rule kept_count [OF d])
  moreover have "closed_keys L db' \<subseteq> closed_keys L db" unfolding kept closed_keys_set [OF assms(1), of db] by blast
  moreover have "\<forall>k r. rec_at L db k = Some r \<and> end_ts r = None \<longrightarrow> rec_at L db' k = Some r"
    unfolding db'_def using prune_keeps_open [OF assms(1)] by blast
  ultimately show ?thesis using young by blast
qed

subsection \<open>The order of the briefs\<close>

lemma digit_value: "is_digit c \<Longrightarrow> of_char c - (48 :: nat) < 10"
  unfolding is_digit_def by linarith

lemma nat_of_digits_acc: "nat_of_digits a xs = a * 10 ^ length xs + nat_of_digits 0 xs"
proof (induction xs arbitrary: a)
  case (Cons c xs)
  from Cons.IH [of "10 * a + (of_char c - 48)"] Cons.IH [of "of_char c - 48"] show ?case by (simp add: algebra_simps)
qed simp

lemma nat_of_digits_bound: "list_all is_digit xs \<Longrightarrow> nat_of_digits 0 xs < 10 ^ length xs"
proof (induction xs)
  case (Cons c xs)
  then have "of_char c - (48 :: nat) \<le> 9" using digit_value [of c] by simp
  then have "(of_char c - 48) * 10 ^ length xs \<le> (9 :: nat) * 10 ^ length xs" by (rule mult_le_mono1)
  moreover have "nat_of_digits 0 xs < 10 ^ length xs" using Cons by simp
  ultimately have "nat_of_digits (of_char c - 48) xs < 10 * 10 ^ length xs"
    unfolding nat_of_digits_acc [of "of_char c - 48" xs] by linarith
  then show ?case by simp
qed simp

text \<open>Digit strings of one length are ordered as the numbers they write.\<close>

lemma digits_less:
  assumes "length xs = length ys" and "list_all is_digit xs" and "list_all is_digit ys"
    and "nat_of_digits 0 xs < nat_of_digits 0 ys"
  shows "xs < ys"
  using assms
proof (induction xs ys rule: list_induct2)
  case (Cons x xs y ys)
  let ?v = "\<lambda>c. of_char c - (48 :: nat)"
  have d: "is_digit x" "is_digit y" using Cons by simp_all
  have val: "nat_of_digits 0 (c # cs) = ?v c * 10 ^ length cs + nat_of_digits 0 cs" for c cs
    using nat_of_digits_acc [of "?v c" cs] by simp
  have b: "nat_of_digits 0 xs < 10 ^ length xs" using Cons.prems(1) nat_of_digits_bound [of xs] by simp
  have less: "?v x * 10 ^ length xs + nat_of_digits 0 xs < ?v y * 10 ^ length xs + nat_of_digits 0 ys"
    using Cons.prems(3) Cons.hyps unfolding val by simp
  have c: "nat_of_digits 0 ys < 10 ^ length xs" using Cons.prems(2) Cons.hyps nat_of_digits_bound [of ys] by simp
  have le: "?v x \<le> ?v y"
  proof (rule leI, rule notI)
    assume "?v y < ?v x"
    then have "Suc (?v y) * 10 ^ length xs \<le> ?v x * 10 ^ length xs" by (intro mult_le_mono1) simp
    then have "10 ^ length xs + ?v y * 10 ^ length xs \<le> ?v x * 10 ^ length xs" by simp
    with less c show False by linarith
  qed
  show ?case
  proof (cases "?v x = ?v y")
    case True
    then have "(of_char x :: nat) = of_char y" using d unfolding is_digit_def by linarith
    then have "x = y" by simp
    moreover have "nat_of_digits 0 xs < nat_of_digits 0 ys" using less unfolding True by linarith
    then have "xs < ys" using Cons by simp
    ultimately show ?thesis by simp
  next
    case False
    then have "x < y" using le d by (auto simp: is_digit_def less_char_def)
    then show ?thesis by simp
  qed
qed simp

lemma length_show_nat: "n < 10 ^ k \<Longrightarrow> 0 < k \<Longrightarrow> length (show_nat n) \<le> k"
proof (induction k arbitrary: n)
  case (Suc k)
  show ?case
  proof (cases "n < 10")
    case True
    then show ?thesis by (subst show_nat.simps) simp
  next
    case False
    then have "0 < k" using Suc.prems(1) by (cases k) simp_all
    moreover have "n div 10 < 10 ^ k" using Suc.prems(1) by (simp add: div_less_iff_less_mult mult.commute)
    ultimately have "length (show_nat (n div 10)) \<le> k" using Suc.IH by blast
    then show ?thesis using False by (subst show_nat.simps) simp
  qed
qed simp

lemma brief_key_digits: "list_all is_digit (brief_key n)" "length (brief_key n) = 20" "nat_of_digits 0 (brief_key n) = unat n"
proof -
  have "unat n < 2 ^ 64" using unsigned_less [of n] by simp
  also have "(2 :: nat) ^ 64 \<le> 10 ^ 20" by simp
  finally have len: "length (show_word n) \<le> 20" by (rule length_show_nat) simp
  have z: "nat_of_digits 0 (replicate k CHR ''0'') = 0" for k by (induction k) simp_all
  show "length (brief_key n) = 20" using len by (simp add: brief_key_def Let_def)
  show "list_all is_digit (brief_key n)"
    using digits_show_nat [of "unat n"] by (auto simp: brief_key_def Let_def list_all_iff is_digit_def)
  show "nat_of_digits 0 (brief_key n) = unat n"
    by (simp add: brief_key_def Let_def nat_of_digits_append z nat_of_show_nat)
qed

lemma brief_key_less: "m < n \<Longrightarrow> brief_key m < brief_key n"
  by (rule digits_less) (simp_all add: brief_key_digits word_less_nat_alt)

lemma sorted_keys_unique:
  assumes "sorted_wrt (<) (map fst xs)" and "sorted_wrt (<) (map fst ys)" and "set xs = set (ys :: ('a::linorder \<times> 'b) list)"
  shows "xs = ys"
proof (rule map_sorted_distinct_set_unique [of fst])
  have "distinct (map fst ys)" using assms(2) strict_sorted_iff by blast
  then show "inj_on fst (set xs \<union> set ys)" unfolding assms(3) by (auto simp: distinct_map)
qed (use assms strict_sorted_iff in blast)+

lemma tb_iter_append:
  assumes "table_laws T" and "\<forall>(k', _) \<in> set (tb_iter T t). k' < k"
  shows "tb_iter T (tb_insert T k v t) = tb_iter T t @ [(k, v)]"
proof (rule sorted_keys_unique)
  have srt: "sorted_wrt (<) (map fst (tb_iter T u))" for u using assms(1) unfolding table_laws_def by blast
  show "sorted_wrt (<) (map fst (tb_iter T (tb_insert T k v t)))" by (rule srt)
  show "sorted_wrt (<) (map fst (tb_iter T t @ [(k, v)]))" using srt [of t] assms(2) by (auto simp: sorted_wrt_append)
  have "tb_get T t k = None" using assms(2) unfolding tb_iter_set [OF assms(1)] by (cases "tb_get T t k") auto
  then show "set (tb_iter T (tb_insert T k v t)) = set (tb_iter T t @ [(k, v)])"
    unfolding set_append tb_iter_set [OF assms(1)] tb_get_insert [OF assms(1)] by (auto split: if_splits)
qed

text \<open>The table holds the briefs \<open>bs\<close>, oldest first.\<close>

definition briefs_are :: "('s, 'n) runs_lib \<Rightarrow> ('s, 'n) runs_store \<Rightarrow> brief_record list \<Rightarrow> bool" where
  "briefs_are L db bs \<longleftrightarrow>
     tb_iter (rl_str L) (rs_briefs db) = map (\<lambda>(i, b). (brief_key (of_nat i), brief_to_json L b)) (enumerate 0 bs) \<and>
     meta_at L db ''brief_seq'' = of_nat (length bs)"

lemma briefs_are_latest:
  assumes "runs_laws L" and "briefs_are L db bs"
  shows "latest_brief L db = Inr (if bs = [] then None else Some (last bs))"
  using assms(2) by (cases bs rule: rev_cases)
    (simp_all add: briefs_are_def latest_brief_def enumerate_append_eq runs_lawsD(4) [OF assms(1)])

lemma briefs_are_list:
  assumes "runs_laws L" and "briefs_are L db bs"
  shows "list_briefs L n db = take (clamp_limit n) (rev bs)"
proof -
  have "List.map_filter (\<lambda>(_, j). brief_of_json L j) (map (\<lambda>(i, b). (f i, brief_to_json L b)) ps) = map snd ps"
    for f :: "nat \<Rightarrow> string" and ps by (induction ps) (auto simp: List.map_filter_simps runs_lawsD(4) [OF assms(1)])
  then show ?thesis using assms(2) by (simp add: list_briefs_def briefs_are_def rev_map [symmetric])
      (metis map_snd_enumerate rev_map)
qed

lemma briefs_are_add:
  assumes "runs_laws L" and "briefs_are L db bs" and "length bs < 2 ^ 64"
  shows "briefs_are L (db\<lparr>rs_briefs := tb_insert (rl_str L) (brief_key (of_nat (length bs))) (brief_to_json L b) (rs_briefs db),
    rs_meta := tb_insert (rl_num L) ''brief_seq'' (of_nat (length bs) + 1) (rs_meta db)\<rparr>) (bs @ [b])"
proof -
  have "\<forall>(k', _) \<in> set (tb_iter (rl_str L) (rs_briefs db)). k' < brief_key (of_nat (length bs))"
  proof -
    have "brief_key (of_nat i) < brief_key (of_nat (length bs))" if "i < length bs" for i
      using that assms(3) by (intro brief_key_less) (simp add: word_less_nat_alt unat_of_nat take_bit_nat_eq_self)
    then show ?thesis using assms(2) by (auto simp: briefs_are_def in_set_enumerate_eq)
  qed
  from tb_iter_append [OF runs_lawsD(1) [OF assms(1)] this] assms(2) show ?thesis
    by (simp add: briefs_are_def enumerate_append_eq meta_at_def rl_simps [OF assms(1)])
qed

subsection \<open>Reports\<close>

fun msg_time :: "writer_msg \<Rightarrow> u64 option" where
  "msg_time (WEvent ok ok' (RunIncrApproval a) ts) = None"
| "msg_time (WEvent ok ok' ev ts) = Some ts"
| "msg_time (WPublish ok narr skipped now) = Some now"

text \<open>The briefs the messages publish, each with the runs it was composed from.\<close>

definition report_of ::
    "('s, 'n) runs_lib \<Rightarrow> writer_msg \<Rightarrow> ('s, 'n) runs_store \<Rightarrow> (brief_record \<times> run_record list) list" where
  "report_of L m db =
     (case fst (writer_step L m db) of
        Some (Inr b) \<Rightarrow> [(b, brief_matched L (window_from b) (window_to b) db)]
      | _ \<Rightarrow> [])"

fun reports ::
    "('s, 'n) runs_lib \<Rightarrow> writer_msg list \<Rightarrow> ('s, 'n) runs_store \<Rightarrow> (brief_record \<times> run_record list) list" where
  "reports L [] db = []"
| "reports L (m # ms) db = report_of L m db @ reports L ms (snd (writer_step L m db))"

lemma writer_snoc:
  "run_writer L (ms @ [m]) db = snd (writer_step L m (run_writer L ms db))"
  "reports L (ms @ [m]) db = reports L ms db @ report_of L m (run_writer L ms db)"
  by (induction ms arbitrary: db) simp_all

definition fresh_runs :: "('s, 'n) runs_lib \<Rightarrow> ('s, 'n) runs_store \<Rightarrow> bool" where
  "fresh_runs L db \<longleftrightarrow>
     (\<forall>k. tb_get (rl_str L) (rs_runs db) k = None \<and> tb_get (rl_str L) (rs_open db) k = None \<and>
        tb_get (rl_str L) (rs_briefs db) k = None \<and> tb_get (rl_num L) (rs_meta db) k = None)"

lemma fresh_runs_ok:
  assumes "runs_laws L" and "fresh_runs L db"
  shows "runs_ok L db" "meta_at L db k = 0" "briefs_are L db []" "rec_at L db k = None"
proof -
  have "set (tb_iter (rl_str L) (rs_briefs db)) = {}"
    unfolding tb_iter_set [OF runs_lawsD(1) [OF assms(1)]] using assms(2) by (simp add: fresh_runs_def)
  then show "briefs_are L db []" using assms(2) by (simp add: briefs_are_def meta_at_def fresh_runs_def)
  show "runs_ok L db" "meta_at L db k = 0" "rec_at L db k = None"
    using assms(2) by (simp_all add: runs_ok_def rec_at_def fresh_runs_def meta_at_def)
qed

lemma writer_step_ok:
  assumes "runs_laws L" and "runs_ok L db" and "\<And>a. segment_room L db a"
  shows "runs_ok L (snd (writer_step L m db))"
proof (cases m)
  case (WEvent ok ok' ev ts)
  then show ?thesis
    by (cases ev) (simp_all add: open_segment_ok close_segment_ok incr_approval_ok assms)
next
  case (WPublish ok narr skipped now)
  then show ?thesis using publish_brief_ok(1) [OF assms(1,2)] by (simp add: split_beta)
qed

lemma writer_step_seq:
  assumes "runs_laws L" and "segment_room L db a"
  shows "unat (meta_at L (snd (writer_step L m db)) (seq_key a)) \<le> Suc (unat (meta_at L db (seq_key a)))"
proof -
  have bump: "unat (meta_at L db (seq_key a) + 1) = Suc (unat (meta_at L db (seq_key a)))"
    using assms(2) by (simp add: segment_room_def unat_word_ariths)
  show ?thesis
  proof (cases m)
    case (WEvent ok ok' ev ts)
    then show ?thesis
    proof (cases ev)
      case (RunOpen c parent reason st tr)
      then show ?thesis using WEvent bump
        by (cases "c = a") (auto simp: open_segment_def Let_def meta_at_def rl_simps [OF assms(1)])
    next
      case (RunClose c status stop err et)
      have "rs_meta (snd (close_segment L ok ok' c status stop err et ts db)) = rs_meta db"
        by (auto simp: close_segment_def Let_def split: option.splits)
      then show ?thesis using WEvent RunClose by (simp add: meta_at_def)
    next
      case (RunIncrApproval c)
      have "rs_meta (snd (incr_approval L ok c db)) = rs_meta db"
        by (auto simp: incr_approval_def Let_def split: option.splits)
      then show ?thesis using WEvent RunIncrApproval by (simp add: meta_at_def)
    qed
  next
    case (WPublish ok narr skipped now)
    then show ?thesis by (auto simp: publish_brief_def Let_def meta_at_def rl_simps [OF assms(1)] split: sum.splits prod.splits)
  qed
qed

text \<open>A record that is closed after a message was closed before it, or was closed by it.\<close>

lemma closed_step:
  assumes L: "runs_laws L" and ok: "runs_ok L db"
    and r: "rec_at L (snd (writer_step L m db)) k = Some r" "end_ts r = Some e"
  shows "rec_at L db k = Some r \<or> msg_time m = Some e"
proof (cases m)
  case (WEvent b b' ev ts)
  then show ?thesis
  proof (cases ev)
    case (RunOpen a parent reason st tr)
    with WEvent r show ?thesis
      by (auto simp: open_segment_def Let_def rec_at_def rl_simps [OF L] runs_lawsD(3) [OF L] split: if_splits)
  next
    case (RunClose a status stop err et)
    show ?thesis
    proof (cases b)
      case True
      from ok this show ?thesis
      proof (cases rule: close_segment_cases [of L db b b' a status stop err et ts])
        case unopened
        with WEvent RunClose r show ?thesis by (auto simp: rec_at_prune [OF L] split: if_splits)
      next
        case (closed_one sid q)
        let ?db = "db\<lparr>rs_runs := tb_insert (rl_str L) sid (run_to_json L (closed_record status stop err et ts q)) (rs_runs db),
            rs_open := tb_remove (rl_str L) a (rs_open db)\<rparr>"
        have "rec_at L ?db k = Some r"
          using WEvent RunClose r(1) closed_one(4) by (simp add: rec_at_prune [OF L] split: if_splits)
        then have "((rec_at L db)(sid \<mapsto> closed_record status stop err et ts q)) k = Some r"
          unfolding rec_at_other rec_at_insert [OF L] .
        with r(2) WEvent RunClose show ?thesis by (auto split: if_splits)
      qed
    qed (use WEvent RunClose r in \<open>simp add: close_segment_def\<close>)
  next
    case (RunIncrApproval a)
    from ok show ?thesis
    proof (cases rule: incr_approval_cases [of L db b a])
      case (counted sid q)
      with WEvent RunIncrApproval r show ?thesis by (auto simp: rec_at_insert [OF L] split: if_splits)
    qed (use WEvent RunIncrApproval r in simp)
  qed
next
  case (WPublish b narr skipped now)
  with r publish_brief_ok(2) [OF L ok] show ?thesis by (simp add: split_beta)
qed

subsection \<open>Every closed run is reported once\<close>

definition covered :: "(brief_record \<times> run_record list) list \<Rightarrow> u64 \<Rightarrow> bool" where
  "covered rs e \<longleftrightarrow> rs \<noteq> [] \<and> window_from (fst (hd rs)) \<le> e \<and> e < window_to (fst (last rs))"

definition times_reported :: "(brief_record \<times> run_record list) list \<Rightarrow> run_record \<Rightarrow> nat" where
  "times_reported rs r = length (filter (\<lambda>(_, ms). r \<in> set ms) rs)"

definition closed_at :: "('s, 'n) runs_lib \<Rightarrow> ('s, 'n) runs_store \<Rightarrow> run_record \<Rightarrow> u64 \<Rightarrow> bool" where
  "closed_at L db r e \<longleftrightarrow> r \<in> ran (rec_at L db) \<and> end_ts r = Some e"

text \<open>What holds of the reports \<open>rs\<close> and the store when no message so far is later than \<open>now\<close>.\<close>

definition reports_ok ::
    "('s, 'n) runs_lib \<Rightarrow> ('s, 'n) runs_store \<Rightarrow> (brief_record \<times> run_record list) list \<Rightarrow> u64 \<Rightarrow> bool" where
  "reports_ok L db rs now \<longleftrightarrow>
     briefs_are L db (map fst rs) \<and>
     (\<forall>(b, ms) \<in> set rs. window_to b \<le> now \<and> (\<forall>m \<in> set ms. \<forall>e. end_ts m = Some e \<longrightarrow> e < window_to b)) \<and>
     (rs \<noteq> [] \<longrightarrow> window_from (fst (hd rs)) \<le> window_to (fst (last rs))) \<and>
     (\<forall>r e. closed_at L db r e \<longrightarrow> e \<le> now \<and> times_reported rs r = (if covered rs e then 1 else 0))"

lemma reports_okD:
  assumes "reports_ok L db rs now"
  shows "briefs_are L db (map fst rs)" "(b, ms) \<in> set rs \<Longrightarrow> window_to b \<le> now"
    "(b, ms) \<in> set rs \<Longrightarrow> m \<in> set ms \<Longrightarrow> end_ts m = Some e \<Longrightarrow> e < window_to b"
    "rs \<noteq> [] \<Longrightarrow> window_from (fst (hd rs)) \<le> window_to (fst (last rs))"
    "rs \<noteq> [] \<Longrightarrow> window_to (fst (last rs)) \<le> now"
    "closed_at L db r e \<Longrightarrow> e \<le> now" "closed_at L db r e \<Longrightarrow> times_reported rs r = (if covered rs e then 1 else 0)"
  using assms last_in_set [of rs] unfolding reports_ok_def by (force simp: split_beta)+

lemma reports_ok_later: "reports_ok L db rs now \<Longrightarrow> now \<le> now' \<Longrightarrow> reports_ok L db rs now'"
  unfolding reports_ok_def by (fast intro: order_trans)

lemma times_reported_late:
  assumes "reports_ok L db rs now" and "end_ts r = Some e" and "now \<le> e"
  shows "times_reported rs r = 0" "\<not> covered rs e"
proof -
  have "r \<notin> set ms" if "(b, ms) \<in> set rs" for b ms
    using reports_okD(2,3) [OF assms(1) that] assms(2,3) by force
  then show "times_reported rs r = 0" by (auto simp: times_reported_def filter_empty_conv)
  show "\<not> covered rs e" using reports_okD(5) [OF assms(1)] assms(3) by (force simp: covered_def)
qed

lemma matched_closed:
  assumes "runs_laws L" and "closed_at L db r e"
  shows "r \<in> set (brief_matched L b t db) \<longleftrightarrow> b \<le> e \<and> e < t"
  using assms by (simp add: brief_matched_def set_parsed_runs closed_at_def terminal_in_window_def still_running_def)

lemma event_reports:
  assumes L: "runs_laws L" and ok: "runs_ok L db" and rs: "reports_ok L db rs now"
    and m: "m = WEvent b b' ev ts" and t: "\<forall>t. msg_time m = Some t \<longrightarrow> now \<le> t \<and> t \<le> now'" "now \<le> now'"
  shows "reports_ok L (snd (writer_step L m db)) (rs @ report_of L m db) now'"
proof -
  let ?db = "snd (writer_step L m db)"
  have rep: "report_of L m db = []" by (simp add: m report_of_def)
  have "rs_briefs ?db = rs_briefs db \<and> meta_at L ?db ''brief_seq'' = meta_at L db ''brief_seq''"
  proof (cases ev)
    case (RunOpen a parent reason st tr)
    then show ?thesis by (auto simp: m open_segment_def Let_def meta_at_def rl_simps [OF L] seq_key_def)
  qed (auto simp: m close_segment_def incr_approval_def Let_def meta_at_def prune_def split: option.splits)
  then have briefs: "briefs_are L ?db (map fst rs)" using reports_okD(1) [OF rs] by (simp add: briefs_are_def)
  have closed: "e \<le> now' \<and> times_reported rs r = (if covered rs e then 1 else 0)" if c: "closed_at L ?db r e" for r e
  proof -
    obtain k where "rec_at L ?db k = Some r" "end_ts r = Some e" using c unfolding closed_at_def ran_def by blast
    from closed_step [OF L ok this] this show ?thesis
    proof (elim disjE)
      assume "rec_at L db k = Some r"
      then have "closed_at L db r e" using that by (auto simp: closed_at_def ran_def)
      then show ?thesis using reports_okD(6,7) [OF rs, of r e] t(2) by simp
    next
      assume e: "msg_time m = Some e" and r: "end_ts r = Some e"
      then have "now \<le> e" using t(1) by blast
      from times_reported_late [OF rs r this] show ?thesis using t(1) e by simp
    qed
  qed
  from rs have "reports_ok L db rs now'" using t(2) by (rule reports_ok_later)
  with briefs closed show ?thesis unfolding reports_ok_def rep append_Nil2 by blast
qed

lemma publish_reports:
  assumes L: "runs_laws L" and ok: "runs_ok L db" and rs: "reports_ok L db rs now"
    and m: "m = WPublish b narr skipped now'" and t: "now \<le> now'" and room: "length rs < 2 ^ 64"
  shows "reports_ok L (snd (writer_step L m db)) (rs @ report_of L m db) now'"
proof (cases b)
  case False
  then have "snd (writer_step L m db) = db" "report_of L m db = []"
    unfolding m using briefs_are_latest [OF L reports_okD(1) [OF rs]]
    by (auto simp: publish_brief_def report_of_def Let_def split: prod.splits)
  then show ?thesis using reports_ok_later [OF rs t] by simp
next
  case True
  define prev where "prev = (if rs = [] then None else Some (fst (last rs)))"
  have latest: "latest_brief L db = Inr prev"
    using briefs_are_latest [OF L reports_okD(1) [OF rs]] by (simp add: prev_def last_map)
  obtain w w' where w: "brief_window prev now' = (w, w')" by fastforce
  have win: "w' = now'" "w \<le> now'" "rs \<noteq> [] \<longrightarrow> w = window_to (fst (last rs))"
    using w reports_okD(5) [OF rs] t by (auto simp: brief_window_def prev_def Let_def min_def max_def split: if_splits)
  define rec where "rec = compose_brief (of_nat (length rs)) now' w w' (map_option clip_narrative narr) skipped (brief_matched L w w' db)"
  have seq: "meta_at L db ''brief_seq'' = of_nat (length rs)" using reports_okD(1) [OF rs] by (simp add: briefs_are_def)
  let ?db = "db\<lparr>rs_briefs := tb_insert (rl_str L) (brief_key (of_nat (length rs))) (brief_to_json L rec) (rs_briefs db),
      rs_meta := tb_insert (rl_num L) ''brief_seq'' (of_nat (length rs) + 1) (rs_meta db)\<rparr>"
  have step: "writer_step L m db = (Some (Inr rec), ?db)"
    using True by (simp add: m publish_brief_def latest w seq rec_def Let_def)
  have wrec: "window_from rec = w" "window_to rec = now'" by (simp_all add: rec_def compose_brief_def Let_def win)
  let ?new = "(rec, brief_matched L w now' db)"
  have rep: "report_of L m db = [?new]" by (simp add: report_of_def step wrec)
  have briefs: "briefs_are L ?db (map fst (rs @ [?new]))"
    using briefs_are_add [OF L reports_okD(1) [OF rs], of rec] room by simp
  have ends: "e < now'" if "q \<in> set (brief_matched L w now' db)" "end_ts q = Some e" for q e
    using that by (auto simp: brief_matched_def terminal_in_window_def still_running_def)
  have closed: "e \<le> now' \<and> times_reported (rs @ [?new]) r = (if covered (rs @ [?new]) e then 1 else 0)" if "closed_at L ?db r e" for r e
  proof -
    have c: "closed_at L db r e" using that by (simp add: closed_at_def)
    note mem = matched_closed [OF L c, of w now']
    have "times_reported (rs @ [?new]) r = times_reported rs r + (if w \<le> e \<and> e < now' then 1 else 0)"
      by (simp add: times_reported_def mem)
    moreover have "covered (rs @ [?new]) e \<longleftrightarrow> (covered rs e \<or> w \<le> e \<and> e < now')" "\<not> (covered rs e \<and> w \<le> e)"
      using win(2,3) wrec reports_okD(4,5) [OF rs] t by (cases "rs = []"; force simp: covered_def hd_append)+
    moreover have "e \<le> now'" using reports_okD(6) [OF rs c] t by simp
    ultimately show ?thesis using reports_okD(7) [OF rs c] by auto
  qed
  have "window_from (fst (hd (rs @ [?new]))) \<le> window_to (fst (last (rs @ [?new])))"
    using reports_okD(4,5) [OF rs] win wrec t by (cases "rs = []") auto
  moreover have "window_to c \<le> now' \<and> (\<forall>q \<in> set qs. \<forall>e. end_ts q = Some e \<longrightarrow> e < window_to c)"
    if "(c, qs) \<in> set (rs @ [?new])" for c qs
    using that ends wrec reports_okD(2,3) [OF rs, of c qs] t by auto
  ultimately show ?thesis
    unfolding reports_ok_def rep step snd_conv using briefs closed by blast
qed

lemma writer_reports:
  assumes "runs_laws L" and "fresh_runs L db" and "length ms < 2 ^ 64" and "sorted (List.map_filter msg_time ms)"
    and "\<forall>t \<in> set (List.map_filter msg_time ms). t \<le> now"
  shows "runs_ok L (run_writer L ms db) \<and> (\<forall>a. unat (meta_at L (run_writer L ms db) (seq_key a)) \<le> length ms) \<and>
    length (reports L ms db) \<le> length ms \<and> reports_ok L (run_writer L ms db) (reports L ms db) now"
  using assms(3-)
proof (induction ms arbitrary: now rule: rev_induct)
  case Nil
  show ?case using fresh_runs_ok [OF assms(1,2)]
    by (simp add: reports_ok_def closed_at_def ran_def)
next
  case (snoc m ms)
  let ?db = "run_writer L ms db" and ?rs = "reports L ms db"
  have mf: "List.map_filter msg_time (ms @ [m]) = List.map_filter msg_time ms @ (case msg_time m of None \<Rightarrow> [] | Some t \<Rightarrow> [t])"
    by (induction ms) (auto simp: List.map_filter_simps split: option.splits)
  define T where "T = (case msg_time m of None \<Rightarrow> now | Some t \<Rightarrow> t)"
  have T: "\<forall>t \<in> set (List.map_filter msg_time ms). t \<le> T" "T \<le> now"
    using snoc.prems(2,3) unfolding mf T_def by (auto simp: sorted_append split: option.splits)
  have ih: "runs_ok L ?db" "\<And>a. unat (meta_at L ?db (seq_key a)) \<le> length ms" "length ?rs \<le> length ms" "reports_ok L ?db ?rs T"
    using snoc.IH [of T] snoc.prems T(1) unfolding mf by (auto simp: sorted_append)
  have room: "segment_room L ?db a" for a using ih(2) [of a] snoc.prems(1) by (simp add: segment_room_def)
  have "length (report_of L m ?db) \<le> 1" by (auto simp: report_of_def split: option.splits sum.splits)
  moreover have "reports_ok L (snd (writer_step L m ?db)) (?rs @ report_of L m ?db) now"
  proof (cases m)
    case (WEvent b b' ev ts)
    have "\<forall>t. msg_time m = Some t \<longrightarrow> T \<le> t \<and> t \<le> now" using T(2) by (simp add: T_def split: option.splits)
    from event_reports [OF assms(1) ih(1,4) WEvent this T(2)] show ?thesis .
  next
    case (WPublish b narr skipped t)
    have "reports_ok L (snd (writer_step L m ?db)) (?rs @ report_of L m ?db) t"
      using publish_reports [OF assms(1) ih(1,4) WPublish] ih(3) snoc.prems(1) WPublish by (simp add: T_def)
    then show ?thesis using T(2) WPublish by (auto simp: T_def intro: reports_ok_later)
  qed
  moreover have "unat (meta_at L (snd (writer_step L m ?db)) (seq_key a)) \<le> Suc (length ms)" for a
    using writer_step_seq [OF assms(1) room, of m a] ih(2) [of a] by simp
  ultimately show ?case
    using writer_step_ok [OF assms(1) ih(1) room] ih(3) unfolding writer_snoc by simp
qed


subsection \<open>What a brief says of its window\<close>

lemma length_partition_by: "length (filter P xs) + length (filter (\<lambda>x. \<not> P x) xs) = length xs"
  by (induction xs) auto

lemma unat_of_nat_small: "n < 2 ^ 64 \<Longrightarrow> unat (of_nat n :: u64) = n"
  by (simp add: unat_of_nat take_bit_nat_eq_self)

lemma newer_first_order: "newer_first t a b \<or> newer_first t b a"
  "newer_first t a b \<Longrightarrow> newer_first t b c \<Longrightarrow> newer_first t a c"
  by (auto simp: newer_first_def)


end
