(* ===== verification/Memory_Samples.thy ===== *)
theory Memory_Samples
  imports Memory_Search
begin

section \<open>A table library, and the store at work on it\<close>

text \<open>
  Tables as association lists, an encoding of posting lists, and rational numbers for scores: an
  instance of the parameters on which the laws hold.
\<close>

definition alist_ops :: "((string \<times> 'v) list, 'v) table_ops" where
  "alist_ops =
     \<lparr>tb_get = map_of, tb_insert = AList.update, tb_remove = AList.delete,
      tb_range = (\<lambda>lo hi t. sort_key fst (filter (\<lambda>(k, _). lo \<le> k \<and> k < hi) (AList.clearjunk t))),
      tb_iter = (\<lambda>t. sort_key fst (AList.clearjunk t))\<rparr>"

fun encode_list :: "string list \<Rightarrow> string" where
  "encode_list [] = []"
| "encode_list (s # ss) = concat (map (\<lambda>c. [CHR ''a'', c]) s) @ CHR ''b'' # encode_list ss"

fun decode_list :: "string \<Rightarrow> string \<Rightarrow> string list option" where
  "decode_list [] acc = (if acc = [] then Some [] else None)"
| "decode_list [x] acc = (if x = CHR ''b'' then Some [acc] else None)"
| "decode_list (x # c # r) acc =
     (if x = CHR ''b'' then map_option (Cons acc) (decode_list (c # r) []) else decode_list r (acc @ [c]))"

definition alist_lib :: "((string \<times> string) list, (string \<times> u64) list, rat) store_lib" where
  "alist_lib =
     \<lparr>str_tbl = alist_ops, num_tbl = alist_ops, list_to_json = encode_list, list_of_json = (\<lambda>j. decode_list j []),
      value_of_json = (\<lambda>_. None), to_lowercase = (\<lambda>x. x),
      is_alphanumeric = (\<lambda>c. c \<noteq> [CHR 0x0A] \<and> c \<noteq> '' ''), sort_by_age = sort_key snd,
      f64 = \<lparr>f_nat = of_nat, f_add = (+), f_mul = (*), f_div = (/), f_ln = (\<lambda>x. x - 1)\<rparr>\<rparr>"

definition empty_store :: "((string \<times> string) list, (string \<times> u64) list) redb_store" where
  "empty_store = \<lparr>st_entries = [], st_index = [], st_age = [], st_meta = [], st_namespaces = []\<rparr>"

lemma set_clearjunk: "set (AList.clearjunk t) = {(k, v). map_of t k = Some v}"
  using map_of_eq_Some_iff [OF distinct_clearjunk [of t]] by (auto simp: map_of_clearjunk)

lemma distinct_sort_key: "distinct (map f (sort_key g xs)) \<longleftrightarrow> distinct (map f xs)"
  by (rule mset_eq_imp_distinct_iff) simp

lemma alist_table_laws: "table_laws alist_ops"
  unfolding table_laws_def alist_ops_def
  by (auto simp: update_conv' delete_conv' set_clearjunk strict_sorted_iff distinct_sort_key intro: distinct_map_filter)

lemma decode_word: "decode_list (concat (map (\<lambda>c. [CHR ''a'', c]) s) @ CHR ''b'' # r) acc = map_option (Cons (acc @ s)) (decode_list r [])"
proof (induction s arbitrary: acc)
  case Nil
  then show ?case by (cases r) simp_all
qed simp

lemma decode_encode: "decode_list (encode_list l) [] = Some l"
  by (induction l) (simp_all add: decode_word)

lemma alist_lib_laws: "lib_laws alist_lib"
  unfolding lib_laws_def by (simp add: alist_lib_def alist_table_laws decode_encode)

lemma alist_f64_laws: "f64_laws (f64 alist_lib)"
  by (simp add: f64_laws_def alist_lib_def idf_def)

lemma empty_store_ok: "store_ok alist_lib empty_store"
  by (simp add: store_ok_def core_ok_def indexed_def readable_def posting_def read_posting_list_def entries_of_def keys_in_def
      namespace_count_def num_at_def empty_store_def alist_lib_def alist_ops_def)

subsection \<open>The store at work\<close>

definition noted :: mem_op where
  "noted = MPut True True ''notes'' ''k'' ''hello world'' 5"

definition noted_store :: "((string \<times> string) list, (string \<times> u64) list) redb_store" where
  "noted_store = mem_step alist_lib noted empty_store"

lemma noted_store_ok: "store_ok alist_lib noted_store"
  unfolding noted_store_def
  using mem_step_ok [OF alist_lib_laws empty_store_ok, of noted]
  by (simp add: noted_def nul_free_def entries_of_def empty_store_def alist_lib_def alist_ops_def)

theorem store_stays_consistent_witness:
  "store_ok alist_lib (fold (mem_step alist_lib) [noted, MAppend True True ''notes'' ''k'' ''again'' 6, MDelete True ''notes'' ''x''] empty_store) \<and>
   unat (namespace_count alist_lib ''notes''
     (fold (mem_step alist_lib) [noted, MAppend True True ''notes'' ''k'' ''again'' 6, MDelete True ''notes'' ''x''] empty_store)) =
   length (list_keys alist_lib ''notes''
     (fold (mem_step alist_lib) [noted, MAppend True True ''notes'' ''k'' ''again'' 6, MDelete True ''notes'' ''x''] empty_store))"
  using store_stays_consistent [OF alist_lib_laws empty_store_ok,
      of "[noted, MAppend True True ''notes'' ''k'' ''again'' 6, MDelete True ''notes'' ''x'']" "''notes''"]
  by (simp add: noted_def nul_free_def starts_char_def is_continuation_byte_def entries_of_def empty_store_def alist_lib_def alist_ops_def)

theorem search_is_a_scan_witness:
  "store_search alist_lib (Some ''notes'') ''world'' None 10 noted_store =
     Inr (scan_search alist_lib ''notes'' ''world'' None 10 noted_store, 1) \<and>
   map sh_key (scan_search alist_lib ''notes'' ''world'' None 10 noted_store) = [''k'']"
proof -
  have q: "query_terms alist_lib ''world'' = [''world'']" by code_simp
  have "store_search alist_lib (Some ''notes'') ''world'' None 10 noted_store =
      Inr (scan_search alist_lib ''notes'' ''world'' None 10 noted_store, length (query_terms alist_lib ''world''))"
    by (rule search_is_a_scan [OF alist_lib_laws alist_f64_laws noted_store_ok]) (simp_all add: nul_free_def q)
  moreover have "map sh_key (scan_search alist_lib ''notes'' ''world'' None 10 noted_store) = [''k'']" by code_simp
  ultimately show ?thesis by (simp add: q)
qed

theorem eviction_enforces_limits_witness:
  "card (keys_in (entries_of alist_lib (snd (evict alist_lib True ''notes'' (Some 0) None 9 noted_store))) ''notes'') \<le> 0"
proof -
  obtain r db' where e: "evict alist_lib True ''notes'' (Some 0) None 9 noted_store = (r, db')" by fastforce
  have "nul_free ''notes''" by (simp add: nul_free_def)
  moreover have "segment_class alist_lib ''notes'' noted_store \<noteq> Some Canon" by code_simp
  ultimately show ?thesis
    using eviction_enforces_limits [OF alist_lib_laws noted_store_ok _ e] by (simp add: e)
qed

text \<open>
  A write can evict itself. Ages count whole seconds, and eviction breaks ties by the order of a
  scan: in a segment that is full, a put of a smaller key within the second of the last write
  reports success although its own entry is the one that goes.
\<close>

theorem put_can_evict_itself:
  "\<exists>db. store_ok alist_lib db \<and> fst (put_at alist_lib True True ''notes'' ''a'' ''new'' 5 db) = Inr () \<and>
     store_get alist_lib ''notes'' ''a'' (snd (put_at alist_lib True True ''notes'' ''a'' ''new'' 5 db)) = None \<and>
     store_get alist_lib ''notes'' ''k'' (snd (put_at alist_lib True True ''notes'' ''a'' ''new'' 5 db)) = Some ''hello world''"
proof -
  let ?db = "set_segment_limits alist_lib ''notes'' (Some 1) None noted_store"
  have "store_ok alist_lib ?db" by (rule settings_ok [OF alist_lib_laws noted_store_ok])
  moreover have "fst (put_at alist_lib True True ''notes'' ''a'' ''new'' 5 ?db) = Inr () \<and>
     store_get alist_lib ''notes'' ''a'' (snd (put_at alist_lib True True ''notes'' ''a'' ''new'' 5 ?db)) = None \<and>
     store_get alist_lib ''notes'' ''k'' (snd (put_at alist_lib True True ''notes'' ''a'' ''new'' 5 ?db)) = Some ''hello world''"
    by code_simp
  ultimately show ?thesis by blast
qed

end
