(* ===== verification/Runs_Samples.thy ===== *)
theory Runs_Samples
  imports Runs_Briefs Memory_Samples
begin

section \<open>The run history at work\<close>

text \<open>
  Tables as association lists and a coding of records as lists of strings: an instance of the
  parameters on which the laws hold, with two runs of one agent and a brief after each.
\<close>

fun enc_opt :: "string option \<Rightarrow> string" where
  "enc_opt None = []"
| "enc_opt (Some x) = CHR ''s'' # x"

fun dec_opt :: "string \<Rightarrow> string option" where
  "dec_opt [] = None"
| "dec_opt (_ # x) = Some x"

definition dec_word :: "string \<Rightarrow> u64" where
  "dec_word x = of_nat (nat_of_digits 0 x)"

definition enc_wopt :: "u64 option \<Rightarrow> string" where
  "enc_wopt x = enc_opt (map_option (\<lambda>w. show_word w) x)"

definition dec_wopt :: "string \<Rightarrow> u64 option" where
  "dec_wopt x = map_option dec_word (dec_opt x)"

lemma dec_enc [simp]: "dec_opt (enc_opt x) = x" "dec_word (show_word w) = w" "dec_wopt (enc_wopt y) = y"
proof -
  show opt: "dec_opt (enc_opt x) = x" for x by (cases x) simp_all
  show w: "dec_word (show_word w) = w" for w by (simp add: dec_word_def nat_of_show_nat)
  show "dec_wopt (enc_wopt y) = y" by (simp add: dec_wopt_def enc_wopt_def opt option.map_comp comp_def w option.map_ident)
qed

definition encode_run :: "run_record \<Rightarrow> string" where
  "encode_run r = encode_list
     [segment_id r, rr_agent_id r, show_word (segment_seq r), enc_opt (rr_parent_id r), start_reason r,
      show_word (start_ts r), enc_wopt (end_ts r), rr_status r, enc_opt (rr_stop_reason r), enc_opt (last_error r),
      show_word (approvals_count r), enc_wopt (start_context_tokens r), enc_wopt (rr_spend r), rr_tier r]"

definition decode_run :: "string \<Rightarrow> run_record option" where
  "decode_run j =
     (case decode_list j [] of
        Some [a, b, c, d, e, f, g, h, i, k, l, m, n, p] \<Rightarrow>
          Some \<lparr>segment_id = a, rr_agent_id = b, segment_seq = dec_word c, rr_parent_id = dec_opt d, start_reason = e,
                start_ts = dec_word f, end_ts = dec_wopt g, rr_status = h, rr_stop_reason = dec_opt i, last_error = dec_opt k,
                approvals_count = dec_word l, start_context_tokens = dec_wopt m, rr_spend = dec_wopt n, rr_tier = p\<rparr>
      | _ \<Rightarrow> None)"

definition encode_item :: "brief_item \<Rightarrow> string" where
  "encode_item r = encode_list
     [run_id r, bi_agent_id r, bi_status r, enc_wopt (bi_spend r), enc_opt (bi_stop_reason r), enc_opt (bi_last_error r)]"

definition decode_item :: "string \<Rightarrow> brief_item option" where
  "decode_item j =
     (case decode_list j [] of
        Some [a, b, c, d, e, f] \<Rightarrow>
          Some \<lparr>run_id = a, bi_agent_id = b, bi_status = c, bi_spend = dec_wopt d, bi_stop_reason = dec_opt e,
                bi_last_error = dec_opt f\<rparr>
      | _ \<Rightarrow> None)"

definition encode_brief :: "brief_record \<Rightarrow> string" where
  "encode_brief b = encode_list
     [brief_id b, show_word (created_at b), show_word (window_from b), show_word (window_to b), show_word (run_count b),
      show_word (failed_count b), show_word (spend_total b), encode_list (map encode_item (brief_items b)),
      show_word (overflow_count b), show_word (attention_overflow b), enc_opt (narrative b), enc_wopt (suppressed_count b)]"

definition decode_brief :: "string \<Rightarrow> brief_record option" where
  "decode_brief j =
     (case decode_list j [] of
        Some [a, b, c, d, e, f, g, h, i, k, l, m] \<Rightarrow>
          map_option (\<lambda>items. \<lparr>brief_id = a, created_at = dec_word b, window_from = dec_word c, window_to = dec_word d,
                run_count = dec_word e, failed_count = dec_word f, spend_total = dec_word g, brief_items = items,
                overflow_count = dec_word i, attention_overflow = dec_word k, narrative = dec_opt l,
                suppressed_count = dec_wopt m\<rparr>)
            (Option.bind (decode_list h []) (\<lambda>xs. those (map decode_item xs)))
      | _ \<Rightarrow> None)"

lemma decode_run_encode: "decode_run (encode_run r) = Some r"
  by (simp add: decode_run_def encode_run_def decode_encode del: encode_list.simps)

lemma decode_item_encode: "decode_item (encode_item r) = Some r"
  by (simp add: decode_item_def encode_item_def decode_encode del: encode_list.simps)

lemma those_decode: "those (map decode_item (map encode_item xs)) = Some xs"
  by (induction xs) (simp_all add: decode_item_encode)

lemma decode_brief_encode: "decode_brief (encode_brief b) = Some b"
  using those_decode by (simp add: decode_brief_def encode_brief_def decode_encode del: encode_list.simps)

definition alist_runs :: "((string \<times> string) list, (string \<times> u64) list) runs_lib" where
  "alist_runs = \<lparr>rl_str = alist_ops, rl_num = alist_ops, run_to_json = encode_run, run_of_json = decode_run,
     brief_to_json = encode_brief, brief_of_json = decode_brief\<rparr>"

lemma alist_runs_laws: "runs_laws alist_runs"
  by (simp add: runs_laws_def alist_runs_def alist_table_laws decode_run_encode decode_brief_encode)

definition empty_runs :: "((string \<times> string) list, (string \<times> u64) list) runs_store" where
  "empty_runs = \<lparr>rs_runs = [], rs_open = [], rs_meta = [], rs_briefs = []\<rparr>"

lemma empty_runs_fresh: "fresh_runs alist_runs empty_runs"
  by (simp add: fresh_runs_def empty_runs_def alist_runs_def alist_ops_def)

definition two_nights :: "writer_msg list" where
  "two_nights =
     [WEvent True True (RunOpen ''a'' None ''operator_spawn'' (Some 5) ''native'') 10,
      WEvent True True (RunClose ''a'' ''done'' (Some ''completed'') None (Some 9)) 20,
      WPublish True (Some ''quiet'') None 30,
      WEvent True True (RunOpen ''a'' None ''operator_spawn'' (Some 9) ''native'') 40,
      WEvent True True (RunIncrApproval ''a'') 41,
      WEvent True True (RunClose ''a'' ''failed'' None (Some ''boom'') (Some 12)) 50,
      WPublish True None (Some 3) 60]"



theorem pruning_keeps_the_newest_witness:
  "closed_keys alist_runs (prune alist_runs True 60 1 100 (run_writer alist_runs two_nights empty_runs)) \<subseteq>
     closed_keys alist_runs (run_writer alist_runs two_nights empty_runs) \<and>
   card (closed_keys alist_runs (prune alist_runs True 60 1 100 (run_writer alist_runs two_nights empty_runs))) \<le> 1 \<and>
   map fst (closed_runs alist_runs (rs_runs (prune alist_runs True 60 1 100 (run_writer alist_runs two_nights empty_runs)))) = [''a:1'']"
proof -
  have "map fst (closed_runs alist_runs (rs_runs (prune alist_runs True 60 1 100 (run_writer alist_runs two_nights empty_runs)))) = [''a:1'']"
    by code_simp
  then show ?thesis
    using pruning_keeps_the_newest [OF alist_runs_laws refl, where now = 60 and max_runs = 1 and max_age = 100 and db = "run_writer alist_runs two_nights empty_runs"] by blast
qed

end
