(* ===== verification/Tool_Samples.thy ===== *)
theory Tool_Samples
  imports Tool_Props Runs_Samples
begin

section \<open>The tools at work\<close>

text \<open>
  An environment with tables and files as association lists, in which the tools run; the cases in
  which a check by name can be bypassed are shown in it.
\<close>

definition sample_tools ::
    "((string \<times> string) list, (string \<times> u64) list, rat, (string, string) hashmap) tool_env" where
  "sample_tools =
     \<lparr>tl_store = alist_lib, tl_runs = alist_runs, tl_anchor = ''/'', tl_dbg = (\<lambda>x. x), tl_dbg_cap = (\<lambda>_. []),
      tl_json_cap = (\<lambda>_. JNull), tl_json_card = (\<lambda>_. JNull), tl_json_run = (\<lambda>_. JNull), tl_print = (\<lambda>_. ''{}''),
      tl_as_u64 = (\<lambda>_. None), tl_score = JNum, tl_store_err = (\<lambda>_. []), tl_runs_err = (\<lambda>_. []),
      tl_read = get, tl_create_dirs = (\<lambda>_ fs. (True, fs)), tl_write = (\<lambda>p c fs. (True, put p c fs)),
      tl_read_dir = (\<lambda>_ _. Inl ReadDirFailed), tl_mcp_call = (\<lambda>_ _ fs. (Some (JObj []), fs))\<rparr>"

definition sample_tool_io :: tool_io where
  "sample_tool_io = \<lparr>ti_nanos = Inr 7, ti_secs = 5, ti_rfc3339 = ''t'', ti_bump = True, ti_put = True, ti_evict = True,
     ti_channel = True, ti_publish = True\<rparr>"

definition alice :: tool_context where
  "alice = \<lparr>tc_agent_id = ''alice'', tc_turn = 1, tc_task_fp = ''fp''\<rparr>"

definition new_world :: "((string \<times> string) list, (string \<times> u64) list, (string, string) hashmap) tool_world" where
  "new_world = \<lparr>tw_store = set_segment_class alist_lib ''law'' Canon empty_store, tw_runs = empty_runs, tw_queue = [], tw_os = [], tw_log = []\<rparr>"

definition jot :: "string \<Rightarrow> json" where
  "jot ns = JObj [(''namespace'', JStr ns), (''key'', JStr ''k''), (''value'', JStr ''hello'')]"

definition scratch_grant :: "capability list" where
  "scratch_grant = [KbWrite ''pad'', FsWrite ''/home'']"

definition sample_registry :: tool_registry where
  "sample_registry = [(''kv_set'', KvSet), (''write_file'', WriteFile)]"

lemma sample_tools_laws: "lib_laws (tl_store sample_tools)"
  by (simp add: sample_tools_def alist_lib_laws)

lemma jot_allowed: "refused sample_tools KvSet ''kv_set'' (jot ''pad'') (Some scratch_grant) = None"
  by (simp add: refused_def kv_set_capability_def jot_def str_field_def json_get_def json_as_str_def kb_segment_capability_def
      scratch_grant_def satisfies.simps kb_segment_satisfies_def sample_tools_def)

lemmas field_simps = str_field_def json_get_def json_as_str_def
lemmas segment_simps = validate_segment_def child_id_byte_def is_ascii_alphanumeric_def

definition noted_pad :: "((string \<times> string) list, (string \<times> u64) list) redb_store" where
  "noted_pad = snd (put_at alist_lib True True ''pad'' ''k'' ''hello'' 5 (tw_store new_world))"

lemma put_pad:
  "put_at alist_lib True True ''pad'' ''k'' ''hello'' 5 (tw_store new_world) = (Inr (), noted_pad)"
  "segment_class alist_lib ''pad'' (tw_store new_world) = None" "store_get alist_lib ''pad'' ''k'' noted_pad = Some ''hello''"
proof -
  have "fst (put_at alist_lib True True ''pad'' ''k'' ''hello'' 5 (tw_store new_world)) = Inr ()" by code_simp
  then show "put_at alist_lib True True ''pad'' ''k'' ''hello'' 5 (tw_store new_world) = (Inr (), noted_pad)"
    by (simp add: noted_pad_def prod_eq_iff)
  show "segment_class alist_lib ''pad'' (tw_store new_world) = None" by code_simp
  show "store_get alist_lib ''pad'' ''k'' noted_pad = Some ''hello''" by code_simp
qed

lemma kv_set_pad:
  "kv_set sample_tools sample_tool_io (jot ''pad'') new_world = (Inr ''stored 5 bytes at pad:k'', new_world\<lparr>tw_store := noted_pad\<rparr>)"
proof -
  have "extract_ns_key sample_tools (jot ''pad'') = Inr (''pad'', ''k'')"
    by (simp add: extract_ns_key_def jot_def field_simps segment_simps)
  moreover have "str_field (jot ''pad'') ''value'' = Some ''hello''" by (simp add: jot_def field_simps)
  moreover have "show_nat (length ''hello'') = ''5''" by code_simp
  ultimately show ?thesis
    using put_pad by (simp add: kv_set_def tool_put_def sample_tools_def sample_tool_io_def MAX_KV_VALUE_BYTES_def)
qed

theorem tool_calls_are_confined_witness:
  "\<exists>r w'. registry_invoke sample_tools sample_registry sample_tool_io ''kv_set'' (jot ''pad'') alice (Some scratch_grant) new_world = (Inr r, w') \<and>
     store_get alist_lib ''pad'' ''k'' (tw_store w') = Some ''hello'' \<and>
     (\<forall>k. entries_of alist_lib (tw_store w') k \<noteq> entries_of alist_lib (tw_store new_world) k \<longrightarrow>
        (\<exists>ns. in_ns ns k \<and> (ns = own_namespace alice \<or> satisfies ''/'' scratch_grant (KbWrite ns)))) \<and>
     prefix (tw_log new_world) (tw_log w')"
proof -
  have inv: "registry_invoke sample_tools sample_registry sample_tool_io ''kv_set'' (jot ''pad'') alice (Some scratch_grant) new_world =
      (Inr ''stored 5 bytes at pad:k'', new_world\<lparr>tw_store := noted_pad,
         tw_log := post_call sample_tools alice ''kv_set'' (jot ''pad'') ''stored 5 bytes at pad:k'' (tw_log new_world)\<rparr>)"
    by (simp add: registry_invoke_def sample_registry_def jot_allowed kv_set_pad)
  have "tl_store sample_tools = alist_lib" "tl_anchor sample_tools = ''/''" by (simp_all add: sample_tools_def)
  with tool_calls_are_confined [OF sample_tools_laws inv] put_pad(3) inv show ?thesis by auto
qed

definition bad_calls :: "tool_call list" where
  "bad_calls =
     [\<lparr>call_io = sample_tool_io, call_name = ''kv_set'', call_input = jot ''law'', call_ctx = alice, call_caps = None\<rparr>,
      \<lparr>call_io = sample_tool_io, call_name = ''kv_set'', call_input = jot ''pad'', call_ctx = alice, call_caps = None\<rparr>]"

theorem canon_segments_are_immutable_witness:
  "segment_class alist_lib ''law'' (tw_store new_world) = Some Canon \<and>
   segment_as sample_tools ''law'' new_world (run_calls sample_tools sample_registry bad_calls new_world)"
proof -
  have c: "segment_class alist_lib ''law'' (tw_store new_world) = Some Canon" by code_simp
  have "\<forall>c \<in> set bad_calls. own_namespace (call_ctx c) \<noteq> ''law''" by (simp add: bad_calls_def own_namespace_def alice_def)
  with canon_segments_are_immutable [OF sample_tools_laws, of "''law''" new_world bad_calls sample_registry] c
  show ?thesis by (simp add: nul_free_def sample_tools_def)
qed

definition memory_server :: "bool \<times> string \<times> tool_spec list" where
  "memory_server = (True, ''semantic'', [kb_put_spec])"

theorem protected_tools_stay_native_witness:
  "\<exists>reg. register_servers [memory_server] [(''spawn_agent'', SpawnAgentTool), (''kb_put'', KbPut)] = Inr reg \<and>
     get reg ''spawn_agent'' = Some SpawnAgentTool \<and> get reg ''kb_put'' = Some (McpTool ''semantic'' kb_put_spec)"
proof -
  let ?reg = "put ''kb_put'' (McpTool ''semantic'' kb_put_spec) [(''spawn_agent'', SpawnAgentTool), (''kb_put'', KbPut)]"
  have reg: "register_servers [memory_server] [(''spawn_agent'', SpawnAgentTool), (''kb_put'', KbPut)] = Inr ?reg"
    by (simp add: memory_server_def register_override_def PROTECTED_TOOLS_def kb_put_spec_def)
  from protected_tools_stay_native [OF reg, of "''spawn_agent''" SpawnAgentTool]
  have "get ?reg ''spawn_agent'' = Some SpawnAgentTool" by (simp add: PROTECTED_TOOLS_def)
  with reg show ?thesis by simp
qed

theorem callable_tools_are_visible_witness:
  "kv_set_spec \<in> set (registry_filtered_specs sample_tools sample_registry (Some scratch_grant))"
proof -
  define S where "S = (undefined :: sched_env)
    \<lparr>se_tools := map (\<lambda>(_, t). \<lparr>te_spec = spec_of t, te_probe = required_capability_for t JNull\<rparr>) sample_registry, se_anchor := ''/''\<rparr>"
  have "se_tools S = map (\<lambda>(_, t). \<lparr>te_spec = spec_of t, te_probe = required_capability_for t JNull\<rparr>) sample_registry"
    "se_anchor S = tl_anchor sample_tools" by (simp_all add: S_def sample_tools_def)
  from callable_tools_are_visible [OF this] have "spec_of KvSet \<in> set (registry_filtered_specs sample_tools sample_registry (Some scratch_grant))"
    using jot_allowed by (metis map_of_Cons_code(2) sample_registry_def)
  then show ?thesis by simp
qed


theorem kv_set_then_get_witness:
  "kv_get sample_tools (jot ''pad'') (snd (kv_set sample_tools sample_tool_io (jot ''pad'') new_world)) =
     (Inr ''hello'', snd (kv_set sample_tools sample_tool_io (jot ''pad'') new_world))"
proof -
  have "num_at alist_lib (st_meta (tw_store new_world)) (SEG_MAX_ENTRIES_PREFIX @ ''pad'') = 0"
    "num_at alist_lib (st_meta (tw_store new_world)) (SEG_MAX_AGE_PREFIX @ ''pad'') = 0" by code_simp+
  then have "unlimited (tl_store sample_tools) ''pad'' (tw_store new_world)" by (simp add: unlimited_def sample_tools_def)
  with kv_set_then_get [OF sample_tools_laws kv_set_pad] show ?thesis unfolding kv_set_pad by (auto simp: jot_def field_simps)
qed

subsection \<open>Checks by name that can be bypassed\<close>

definition impostor :: tool_spec where
  "impostor = \<lparr>spec_name = ''publish_brief'', spec_description = [], input_schema = JNull\<rparr>"

text \<open>
  The operator is told that a brief was written when none was: a tool of an MCP server that
  takes the name \<open>publish_brief\<close> while the native tool is not registered is accepted without any
  override, needs only a grant for its server, and its success is recorded as a brief.
\<close>

theorem brief_event_without_brief:
  "\<exists>reg w'. register_mcp False ''mail'' [impostor] [] = Inr reg \<and>
     registry_invoke sample_tools reg sample_tool_io ''publish_brief'' JNull alice (Some [Mcp ''mail'' []]) new_world = (Inr [], w') \<and>
     tw_runs w' = tw_runs new_world \<and> map ev_kind (tw_log w') = [EvBriefWritten]"
proof -
  have "satisfies (tl_anchor sample_tools) [Mcp ''mail'' []] (Mcp ''mail'' [''publish_brief''])" by (simp add: satisfies.simps)
  then show ?thesis
    by (simp add: register_tool_def impostor_def registry_invoke_def refused_def kb_segment_capability_def mcp_invoke_def
        sample_tools_def text_content_def json_get_def post_call_def record_event_def new_world_def Let_def)
qed

text \<open>
  \<open>mem_remember\<close> does not look at the class of the agent's own segment: it writes into it even
  when the operator has declared it canon, where \<open>kv_set\<close> and \<open>kb_put\<close> refuse.
\<close>

theorem remember_writes_canon:
  "let w = new_world\<lparr>tw_store := set_segment_class alist_lib (own_namespace alice) Canon empty_store\<rparr>;
       w' = snd (mem_remember sample_tools sample_tool_io alice (JObj [(''content'', JStr ''x'')]) w)
   in segment_class alist_lib (own_namespace alice) (tw_store w) = Some Canon \<and>
      list_keys alist_lib (own_namespace alice) (tw_store w) = [] \<and>
      list_keys alist_lib (own_namespace alice) (tw_store w') = [''0000000000000007''] \<and>
      isl (fst (kv_set sample_tools sample_tool_io (jot (own_namespace alice)) w))"
proof -
  define db where "db = set_segment_class alist_lib ''agent/alice'' Canon empty_store"
  have own: "own_namespace alice = ''agent/alice''" by (simp add: own_namespace_def alice_def)
  have cls: "segment_class alist_lib ''agent/alice'' db = Some Canon" "list_keys alist_lib ''agent/alice'' db = []"
    unfolding db_def by code_simp+
  have c: "char_of (48 :: nat) = CHR ''0''" "char_of (55 :: nat) = CHR ''7''" by code_simp+
  have hex: "hex16 7 = ''0000000000000007''" by (simp add: hex16_def upt_rec Let_def c)
  have put: "fst (put_at alist_lib True True ''agent/alice'' ''0000000000000007'' ''{}'' 5 db) = Inr ()"
    "list_keys alist_lib ''agent/alice'' (snd (put_at alist_lib True True ''agent/alice'' ''0000000000000007'' ''{}'' 5 db)) = [''0000000000000007'']"
    unfolding db_def by code_simp+
  have "snd (mem_remember sample_tools sample_tool_io alice (JObj [(''content'', JStr ''x'')]) (new_world\<lparr>tw_store := db\<rparr>)) =
      new_world\<lparr>tw_store := snd (put_at alist_lib True True ''agent/alice'' ''0000000000000007'' ''{}'' 5 db)\<rparr>"
    by (simp add: hex mem_remember_def field_simps sample_tool_io_def own segment_simps sample_tools_def MAX_MEM_CONTENT_BYTES_def
        tool_put_def Let_def split_beta)
  moreover have "isl (fst (kv_set sample_tools sample_tool_io (jot ''agent/alice'') (new_world\<lparr>tw_store := db\<rparr>)))"
    using cls(1) by (simp add: kv_set_def extract_ns_key_def jot_def field_simps segment_simps sample_tools_def)
  ultimately show ?thesis using cls put unfolding own Let_def db_def [symmetric] by simp
qed

end
