(* ===== verification/Loopback.thy ===== *)
theory Loopback
  imports Prelude
begin

section \<open>Guards of the loopback forwarders\<close>

text \<open>
  \<open>loopback_proxy.rs\<close>: the address filter and the host parser that both forwarders use before
  they connect anywhere, with the classification of addresses and the parser of IPv6 literals of
  the standard library. An IPv4 address is its 32-bit word; an IPv6 address its eight segments.
  Shown here: the filter is membership in a table of networks, an address cannot escape it by
  being written in its IPv6 form, and a host that the parser returns carries no userinfo, port
  or path.
\<close>

unbundle bit_operations_syntax

subsection \<open>Addresses\<close>

type_synonym ipv4 = u32
type_synonym ipv6 = "u16 list"

datatype ip_addr = V4 ipv4 | V6 ipv6

text \<open>\<open>Ipv4Addr::octets\<close> and \<open>Ipv4Addr::new\<close>.\<close>

definition octet :: "nat \<Rightarrow> ipv4 \<Rightarrow> u8" where
  "octet i a = ucast (drop_bit (8 * (3 - i)) a)"

definition ipv4_new :: "u8 \<Rightarrow> u8 \<Rightarrow> u8 \<Rightarrow> u8 \<Rightarrow> ipv4" where
  "ipv4_new a b c d =
     push_bit 24 (ucast a) OR push_bit 16 (ucast b) OR push_bit 8 (ucast c) OR ucast d"

definition v4_is_loopback :: "ipv4 \<Rightarrow> bool" where
  "v4_is_loopback a \<longleftrightarrow> octet 0 a = 127"

definition v4_is_private :: "ipv4 \<Rightarrow> bool" where
  "v4_is_private a \<longleftrightarrow>
     octet 0 a = 10 \<or> (octet 0 a = 172 \<and> 16 \<le> octet 1 a \<and> octet 1 a \<le> 31) \<or>
     (octet 0 a = 192 \<and> octet 1 a = 168)"

definition v4_is_link_local :: "ipv4 \<Rightarrow> bool" where
  "v4_is_link_local a \<longleftrightarrow> octet 0 a = 169 \<and> octet 1 a = 254"

definition v4_is_broadcast :: "ipv4 \<Rightarrow> bool" where
  "v4_is_broadcast a \<longleftrightarrow> a = - 1"

definition v4_is_documentation :: "ipv4 \<Rightarrow> bool" where
  "v4_is_documentation a \<longleftrightarrow>
     (octet 0 a = 192 \<and> octet 1 a = 0 \<and> octet 2 a = 2) \<or>
     (octet 0 a = 198 \<and> octet 1 a = 51 \<and> octet 2 a = 100) \<or>
     (octet 0 a = 203 \<and> octet 1 a = 0 \<and> octet 2 a = 113)"

definition v4_is_unspecified :: "ipv4 \<Rightarrow> bool" where
  "v4_is_unspecified a \<longleftrightarrow> a = 0"

text \<open>\<open>Ipv6Addr::to_ipv4\<close>: the compatible form \<open>::a.b.c.d\<close> and the mapped form \<open>::ffff:a.b.c.d\<close>.\<close>

definition to_ipv4 :: "ipv6 \<Rightarrow> ipv4 option" where
  "to_ipv4 s =
     (if length s = 8 \<and> take 5 s = replicate 5 0 \<and> (s ! 5 = 0 \<or> s ! 5 = 0xffff)
      then Some (push_bit 16 (ucast (s ! 6)) OR ucast (s ! 7)) else None)"

text \<open>\<open>Display\<close> of an address: dotted decimal, or hexadecimal segments with the longest run of zeros
  left out, the first one of several.\<close>

definition show_ipv4 :: "ipv4 \<Rightarrow> string" where
  "show_ipv4 a =
     show_word (octet 0 a) @ ''.'' @ show_word (octet 1 a) @ ''.'' @ show_word (octet 2 a) @ ''.'' @
     show_word (octet 3 a)"

definition hex_char :: "nat \<Rightarrow> char" where
  "hex_char d = (if d < 10 then char_of (48 + d) else char_of (87 + d))"

fun show_hex :: "nat \<Rightarrow> string" where
  "show_hex n = (if n < 16 then [hex_char n] else show_hex (n div 16) @ [hex_char (n mod 16)])"

declare show_hex.simps [simp del]

fun longest_zeros :: "nat \<Rightarrow> nat \<times> nat \<Rightarrow> nat \<times> nat \<Rightarrow> u16 list \<Rightarrow> nat \<times> nat" where
  "longest_zeros i longest current [] = longest"
| "longest_zeros i longest current (s # ss) =
     (if s = 0 then
        let current' = (if snd current = 0 then i else fst current, snd current + 1) in
        longest_zeros (Suc i) (if snd longest < snd current' then current' else longest) current' ss
      else longest_zeros (Suc i) longest (0, 0) ss)"

fun show_segments :: "u16 list \<Rightarrow> string" where
  "show_segments [] = []"
| "show_segments [s] = show_hex (unat s)"
| "show_segments (s # ss) = show_hex (unat s) @ '':'' @ show_segments ss"

definition show_ip :: "ip_addr \<Rightarrow> string" where
  "show_ip a =
     (case a of
        V4 v4 \<Rightarrow> show_ipv4 v4
      | V6 s \<Rightarrow>
          if take 6 s = replicate 5 0 @ [0xffff]
          then ''::ffff:'' @ show_ipv4 (push_bit 16 (ucast (s ! 6)) OR ucast (s ! 7))
          else case longest_zeros 0 (0, 0) (0, 0) s of
            (start, len) \<Rightarrow>
              if 1 < len then show_segments (take start s) @ ''::'' @ show_segments (drop (start + len) s)
              else show_segments s)"

subsection \<open>The address filter\<close>

definition is_ssrf_blocked_v4 :: "ipv4 \<Rightarrow> bool" where
  "is_ssrf_blocked_v4 a \<longleftrightarrow>
     v4_is_loopback a \<or> v4_is_private a \<or> v4_is_link_local a \<or> v4_is_broadcast a \<or>
     v4_is_documentation a \<or> v4_is_unspecified a"

definition is_ssrf_blocked :: "ip_addr \<Rightarrow> bool" where
  "is_ssrf_blocked addr =
     (case addr of
        V4 v4 \<Rightarrow> is_ssrf_blocked_v4 v4
      | V6 v6 \<Rightarrow>
          v6 = [0, 0, 0, 0, 0, 0, 0, 1] \<or> v6 = replicate 8 0 \<or>
          (hd v6) AND 0xffc0 = 0xfe80 \<or>
          (hd v6) AND 0xfe00 = 0xfc00 \<or>
          (case to_ipv4 v6 of None \<Rightarrow> False | Some v4 \<Rightarrow> is_ssrf_blocked_v4 v4))"

subsection \<open>The host of a URL\<close>

fun split_at_char :: "char \<Rightarrow> string \<Rightarrow> string list" where
  "split_at_char c [] = [[]]"
| "split_at_char c (x # xs) =
     (if x = c then [] # split_at_char c xs
      else (case split_at_char c xs of [] \<Rightarrow> [[x]] | p # ps \<Rightarrow> (x # p) # ps))"

text \<open>
  \<open>str::parse::<Ipv6Addr>\<close>. A reader takes the input and returns what it leaves, or \<open>None\<close>;
  digits are read greedily, a group has at most four hexadecimal digits, an octet at most three
  decimal ones without a leading zero.
\<close>

definition digit_value :: "char \<Rightarrow> nat option" where
  "digit_value c =
     (let n = of_char c :: nat in
      if 48 \<le> n \<and> n \<le> 57 then Some (n - 48)
      else if 97 \<le> n \<and> n \<le> 102 then Some (n - 87)
      else if 65 \<le> n \<and> n \<le> 70 then Some (n - 55) else None)"

definition is_radix_digit :: "nat \<Rightarrow> char \<Rightarrow> bool" where
  "is_radix_digit r c \<longleftrightarrow> (case digit_value c of None \<Rightarrow> False | Some v \<Rightarrow> v < r)"

definition read_group :: "string \<Rightarrow> string option" where
  "read_group s =
     (let ds = takeWhile (is_radix_digit 16) s in
      if ds = [] \<or> 4 < length ds then None else Some (drop (length ds) s))"

definition read_octet :: "string \<Rightarrow> string option" where
  "read_octet s =
     (let ds = takeWhile (is_radix_digit 10) s in
      if ds = [] \<or> 3 < length ds \<or> (hd ds = CHR ''0'' \<and> 1 < length ds) \<or> 255 < nat_of_digits 0 ds
      then None else Some (drop (length ds) s))"

definition read_char :: "char \<Rightarrow> string \<Rightarrow> string option" where
  "read_char c s = (case s of [] \<Rightarrow> None | x # xs \<Rightarrow> if x = c then Some xs else None)"

definition read_separator :: "char \<Rightarrow> nat \<Rightarrow> (string \<Rightarrow> string option) \<Rightarrow> string \<Rightarrow> string option" where
  "read_separator c i rd s = (if i = 0 then rd s else Option.bind (read_char c s) rd)"

definition read_ipv4_addr :: "string \<Rightarrow> string option" where
  "read_ipv4_addr s =
     fold (\<lambda>i r. Option.bind r (read_separator (CHR ''.'') i read_octet)) [0..<4] (Some s)"

text \<open>\<open>read_groups\<close>: how many of at most \<open>n\<close> groups were read from the \<open>i\<close>-th on, whether an IPv4
  address ended them, and the rest of the input.\<close>

fun read_groups :: "nat \<Rightarrow> nat \<Rightarrow> string \<Rightarrow> nat \<times> bool \<times> string" where
  "read_groups 0 i s = (i, False, s)"
| "read_groups (Suc n) i s =
     (case (if n = 0 then None else read_separator (CHR '':'') i read_ipv4_addr s) of
        Some s' \<Rightarrow> (i + 2, True, s')
      | None \<Rightarrow>
          (case read_separator (CHR '':'') i read_group s of
             None \<Rightarrow> (i, False, s)
           | Some s' \<Rightarrow> read_groups n (Suc i) s'))"

definition ipv6_parses :: "string \<Rightarrow> bool" where
  "ipv6_parses s =
     (case read_groups 8 0 s of
        (head, v4, s1) \<Rightarrow>
          if head = 8 then s1 = []
          else if v4 then False
          else (case Option.bind (read_char (CHR '':'') s1) (read_char (CHR '':'')) of
                  None \<Rightarrow> False
                | Some s2 \<Rightarrow> snd (snd (read_groups (7 - head) 0 s2)) = []))"

definition https :: string where
  "https = ''https://''"

definition extract_host :: "string \<Rightarrow> string option" where
  "extract_host url =
     (if \<not> prefix https url then None
      else
        let without_scheme = drop (length https) url in
        if CHR ''@'' \<in> set without_scheme then None
        else if prefix ''['' without_scheme then
          (if CHR '']'' \<notin> set without_scheme then None
           else
             let addr_str = takeWhile (\<lambda>c. c \<noteq> CHR '']'') (tl without_scheme) in
             if ipv6_parses addr_str then Some (''['' @ addr_str @ '']'') else None)
        else
          let host = hd (split_at_char (CHR '':'') (hd (split_at_char (CHR ''/'') without_scheme))) in
          if host = [] then None else Some host)"

subsection \<open>What the guards guarantee\<close>

lemma unat_drop_bit: "unat (drop_bit n a) = unat a div 2 ^ n" for a :: ipv4
proof -
  have "unat (drop_bit n a) = drop_bit n (unat a)"
    by (simp only: unsigned_drop_bit_eq take_bit_nat_eq_self [OF unsigned_less])
  then show ?thesis by (simp only: drop_bit_eq_div)
qed

lemma unat_octet: "unat (octet i a) = unat a div 2 ^ (8 * (3 - i)) mod 256"
  by (simp only: octet_def unsigned_ucast_eq unat_drop_bit take_bit_eq_mod) simp

lemma octet_eq: "octet i a = k \<longleftrightarrow> unat a div 2 ^ (8 * (3 - i)) mod 256 = unat k"
  by (simp add: word_unat_eq_iff unat_octet)

lemma net16: "q div 256 = k \<and> q mod 256 = l \<longleftrightarrow> q = 256 * k + l" if "l < (256 :: nat)"
  using that by auto

lemma net12: "q div 256 = 172 \<and> 16 \<le> q mod 256 \<and> q mod 256 \<le> 31 \<longleftrightarrow> q div 16 = (2753::nat)"
proof -
  define d e f where "d = q div 256" and "e = q mod 256 div 16" and "f = q mod 256 mod 16"
  have m: "q mod 256 = 16 * e + f" "e < 16" "f < 16" by (simp_all add: e_def f_def less_mult_imp_div_less)
  have "256 * d + (16 * e + f) = q" unfolding m(1) [symmetric] d_def by (rule mult_div_mod_eq)
  then have "q = 16 * (16 * d + e) + f" by (simp add: distrib_left)
  then have "q div 16 = 16 * d + e" using m(3) by simp
  moreover have "16 * d + e = 2753 \<longleftrightarrow> d = 172 \<and> e = 1"
  proof
    assume eq: "16 * d + e = 2753"
    then have "d = 172" using m(2) by linarith
    with eq show "d = 172 \<and> e = 1" by simp
  qed simp
  moreover have "16 \<le> 16 * e + f \<and> 16 * e + f \<le> 31 \<longleftrightarrow> e = 1"
  proof
    assume "16 \<le> 16 * e + f \<and> 16 * e + f \<le> 31"
    then show "e = 1" using m(3) by linarith
  qed (use m(3) in simp)
  ultimately show ?thesis unfolding m(1) d_def [symmetric] by simp
qed

lemma net24: "q div 256 div 256 = k \<and> q div 256 mod 256 = l \<and> q mod 256 = m \<longleftrightarrow> q = 65536 * k + 256 * l + m"
  if "l < 256" "m < (256 :: nat)"
  using net16 [OF that(1), of "q div 256" k] net16 [OF that(2), of q "256 * k + l"] by (auto simp: algebra_simps)

text \<open>
  The filter is a table of networks: an IPv4 address is blocked exactly when it lies in one of the
  ranges that the code means, given by address and prefix length.
\<close>

theorem ssrf_filter_is_a_table: "is_ssrf_blocked (V4 a) \<longleftrightarrow> list_ex (\<lambda>(n, len). drop_bit (32 - len) a = drop_bit (32 - len) n)
  [(0x7f000000, 8), (0x0a000000, 8), (0xac100000, 12), (0xc0a80000, 16), (0xa9fe0000, 16), (0xffffffff, 32),
   (0xc0000200, 24), (0xc6336400, 24), (0xcb007100, 24), (0, 32)]" (is "?L = ?R")
proof -
  define r where "r = unat a div 2 ^ 8"
  have n: "unat a < 2 ^ 32" using unsigned_less [of a] by simp
  have o: "unat a div 16777216 mod 256 = r div 256 div 256" "unat a div 65536 = r div 256"
     "unat a div 256 = r" "r div 256 div 256 mod 256 = r div 256 div 256" "unat a div 1048576 = r div 256 div 16" "unat a div 16777216 = r div 256 div 256"
    using n by (simp_all add: r_def flip: div_mult2_eq)
  have "?L \<longleftrightarrow> r div 256 div 256 = 127 \<or> r div 256 div 256 = 10 \<or> r div 256 div 16 = 2753 \<or> r div 256 = 49320 \<or> 
     r div 256 = 43518 \<or> a = - 1 \<or> r = 12582914 \<or> r = 12989284 \<or> r = 13303921 \<or> a = 0"
    using net16 [of 168 "r div 256" 192] net16 [of 254 "r div 256" 169] net12 [of "r div 256"]
       net24 [of 0 2 r 192]  net24 [of 51 100 r 198]  net24 [of 0 113 r 203]
    unfolding is_ssrf_blocked_def is_ssrf_blocked_v4_def v4_is_loopback_def v4_is_private_def v4_is_link_local_def
    v4_is_broadcast_def v4_is_documentation_def v4_is_unspecified_def octet_eq word_le_nat_alt unat_octet ip_addr.case
    by (simp add: o)
  also have "\<dots> \<longleftrightarrow> ?R"
    by (simp add: word_unat_eq_iff unat_drop_bit o unat_minus_one_eq)
  finally show ?thesis .
qed

lemma split_at_char_ne [simp]: "split_at_char c s \<noteq> []"
  by (induction s) (auto split: list.splits)

lemma hd_split_at_char: "hd (split_at_char c s) = takeWhile (\<lambda>x. x \<noteq> c) s"
  by (induction s) (auto split: list.splits)

text \<open>A mapped address is judged like the address it maps.\<close>

lemma replicate_segments: "replicate 5 (0 :: u16) = [0, 0, 0, 0, 0]" "replicate 8 (0 :: u16) = [0, 0, 0, 0, 0, 0, 0, 0]"
  by (simp_all add: numeral_eq_Suc)

theorem ssrf_mapped: "is_ssrf_blocked (V6 [0, 0, 0, 0, 0, 0xffff, hi, lo]) \<longleftrightarrow>
   is_ssrf_blocked (V4 (push_bit 16 (ucast hi) OR ucast lo))"
  by (simp add: is_ssrf_blocked_def to_ipv4_def replicate_segments)

lemma extract_host_https:
  "extract_host (https @ w) =
     (if CHR ''@'' \<in> set w then None
      else if prefix ''['' w then
        (if CHR '']'' \<notin> set w then None
         else let a = takeWhile (\<lambda>c. c \<noteq> CHR '']'') (tl w) in
           if ipv6_parses a then Some (''['' @ a @ '']'') else None)
      else let h = takeWhile (\<lambda>c. c \<noteq> CHR '':'') (takeWhile (\<lambda>c. c \<noteq> CHR ''/'') w) in if h = [] then None else Some h)"
  by (simp add: extract_host_def hd_split_at_char)

lemma extract_host_sound:
  assumes "extract_host url = Some h"
  shows "\<exists>rest. url = https @ h @ rest \<and> CHR ''@'' \<notin> set (h @ rest) \<and> h \<noteq> [] \<and>
    (hd h = CHR ''['' \<or> set h \<inter> {CHR ''/'', CHR '':''} = {} \<and> (rest = [] \<or> hd rest \<in> {CHR ''/'', CHR '':''}))"
proof -
  have "prefix https url" using assms by (simp add: extract_host_def split: if_splits)
  then obtain w where url: "url = https @ w" by (rule prefixE)
  note eq = assms [unfolded url extract_host_https]
  have at: "CHR ''@'' \<notin> set w" using eq by (simp split: if_splits)
  show ?thesis
  proof (cases "prefix ''['' w")
    case True
    then obtain v where v: "w = CHR ''['' # v" by (auto simp: prefix_def)
    with eq have h: "h = CHR ''['' # takeWhile (\<lambda>c. c \<noteq> CHR '']'') v @ '']''" and c: "CHR '']'' \<in> set v"
      by (simp_all add: Let_def split: if_splits)
    from split_list_first [OF c] obtain ys u where u: "v = ys @ CHR '']'' # u" "CHR '']'' \<notin> set ys" by blast
    have "takeWhile (\<lambda>c. c \<noteq> CHR '']'') (ys @ CHR '']'' # u) = ys" using u(2) by (induction ys) auto
    then have "h = CHR ''['' # ys @ '']''" using h u(1) by simp
    moreover from this have "w = h @ u" by (simp add: v u(1))
    ultimately show ?thesis using url at by (intro exI [of _ u]) simp
  next
    case False
    let ?a = "takeWhile (\<lambda>c. c \<noteq> CHR ''/'') w" and ?u = "dropWhile (\<lambda>c. c \<noteq> CHR ''/'') w"
    let ?b = "dropWhile (\<lambda>c. c \<noteq> CHR '':'') ?a"
    have h: "h = takeWhile (\<lambda>c. c \<noteq> CHR '':'') ?a" "h \<noteq> []"
      using eq at False by (simp_all add: Let_def split: if_splits)
    have "?a @ ?u = w" "h @ ?b = ?a" unfolding h(1) by (rule takeWhile_dropWhile_id)+
    then have w: "w = h @ ?b @ ?u" by (metis append_assoc)
    have "set h \<inter> {CHR ''/'', CHR '':''} = {}" unfolding h(1) by (auto dest!: set_takeWhileD)
    moreover have "?b = [] \<or> hd ?b = CHR '':''" "?u = [] \<or> hd ?u = CHR ''/''"
      using hd_dropWhile [of "\<lambda>c. c \<noteq> CHR '':''" ?a] hd_dropWhile [of "\<lambda>c. c \<noteq> CHR ''/''" w] by blast+
    then have "?b @ ?u = [] \<or> hd (?b @ ?u) \<in> {CHR ''/'', CHR '':''}"
      unfolding hd_append append_is_Nil_conv insert_iff by presburger
    ultimately obtain r where "w = h @ r" "set h \<inter> {CHR ''/'', CHR '':''} = {}" "r = [] \<or> hd r \<in> {CHR ''/'', CHR '':''}"
      using w by blast
    then show ?thesis using url at h(2) by auto
  qed
qed

end
