(* ===== verification/Credential.thy ===== *)
theory Credential
  imports Agent Egress Loopback "HOL-Library.Char_ord" "HOL-Library.List_Lexorder"
begin

section \<open>The credential gateway (\<open>agentd/src/credential/mod.rs\<close>)\<close>

text \<open>
  The broker that attaches provider credentials to the requests of MCP servers: the registry of
  ephemeral tokens, the OAuth token cache of each provider with its refresh and its state file,
  the handler of a request, the background refresh, the health states, and what the gateway
  shows and checkpoints. \<open>GatewayState\<close> and \<open>CredentialGateway\<close> share their maps through \<open>Arc\<close>s
  and are one record here. No lock of the source is ever poisoned, because the release profile
  aborts on panic.

  \<open>serde_json\<close>, \<open>reqwest\<close>, DNS, the clock, the environment and the files are parameters. A request
  is one step on the gateway; the two atomic operations on its request counter are taken apart
  in \<open>Credential_Cap\<close>, where requests interleave.
\<close>

subsection \<open>Failures and health\<close>

datatype recovery_kind = Reauth | ConfigFix | SecretReplace

fun recovery_kind_str :: "recovery_kind \<Rightarrow> string" where
  "recovery_kind_str Reauth = ''reauth''"
| "recovery_kind_str ConfigFix = ''config_fix''"
| "recovery_kind_str SecretReplace = ''secret_replace''"

datatype failure_class = Retryable | AttentionRequired recovery_kind

record credential_error =
  ce_class :: failure_class
  ce_message :: string

definition retryable :: "string \<Rightarrow> credential_error" where
  "retryable msg = \<lparr>ce_class = Retryable, ce_message = msg\<rparr>"

definition attention :: "recovery_kind \<Rightarrow> string \<Rightarrow> credential_error" where
  "attention rk msg = \<lparr>ce_class = AttentionRequired rk, ce_message = msg\<rparr>"

text \<open>\<open>ProviderHealthState\<close>: an entry carries the kind of recovery, the reason and since when.\<close>

datatype provider_health_state = Healthy | NeedsAttention recovery_kind string u64

definition is_attention_required :: "provider_health_state \<Rightarrow> bool" where
  "is_attention_required h = (case h of Healthy \<Rightarrow> False | NeedsAttention _ _ _ \<Rightarrow> True)"

subsection \<open>Configuration\<close>

datatype auth_style = OauthBearer | ApiKeyHeader | ApiKeyQuery

record provider_config =
  pc_auth_style :: auth_style
  pc_upstream_base :: string
  pc_header_name :: "string option"
  pc_header_value_prefix :: "string option"
  pc_secret_key :: "string option"
  pc_token_path :: "string option"
  pc_state_path :: "string option"
  pc_max_requests_per_agent :: "u64 option"
  pc_passthrough_query_params :: "string list"

record credential_gateway_config =
  cg_enabled :: bool
  cg_providers :: "(string, provider_config) hashmap"
  cg_caps_db_path :: "string option"

definition TOKEN_EXPIRY_BUFFER_SECS :: u64 where
  "TOKEN_EXPIRY_BUFFER_SECS = 60"

definition PROACTIVE_REFRESH_LEAD_SECS :: u64 where
  "PROACTIVE_REFRESH_LEAD_SECS = 300"

definition MAX_UPSTREAM_RESPONSE_BYTES :: nat where
  "MAX_UPSTREAM_RESPONSE_BYTES = 4 * 1024 * 1024"

definition MAX_INBOUND_REQUEST_BYTES :: nat where
  "MAX_INBOUND_REQUEST_BYTES = 4 * 1024 * 1024"

definition OAUTH_REFRESH_TIMEOUT_SECS :: u64 where
  "OAUTH_REFRESH_TIMEOUT_SECS = 15"

subsection \<open>Files of a provider\<close>

text \<open>The fields that \<open>serde\<close> reads from a secrets file; an absent \<open>token_url\<close> is filled in.\<close>

record oauth_secrets =
  os_client_id :: string
  os_client_secret :: string
  os_refresh_token :: string
  os_token_url :: "string option"

definition default_google_token_url :: string where
  "default_google_token_url = ''https://oauth2.googleapis.com/token''"

definition secrets_token_url :: "oauth_secrets \<Rightarrow> string" where
  "secrets_token_url s = (case os_token_url s of None \<Rightarrow> default_google_token_url | Some u \<Rightarrow> u)"

definition token_url_preview :: "string \<Rightarrow> string" where
  "token_url_preview url = chars_take 64 url"

record oauth_state =
  st_access_token :: string
  st_expires_at_unix :: u64
  st_refresh_token :: "string option"

record token_response =
  tr_access_token :: string
  tr_expires_in :: "u64 option"
  tr_refresh_token :: "string option"

text \<open>The typed readers of \<open>serde_json\<close>, with the text of their errors, and its printer of a state.\<close>

record cred_lib =
  cl_http :: http_lib
  cl_secrets :: "string \<Rightarrow> string + oauth_secrets"
  cl_state_parse :: "string \<Rightarrow> oauth_state option"
  cl_state_print :: "oauth_state \<Rightarrow> string"
  cl_token_response :: "string \<Rightarrow> string + token_response"

subsection \<open>The registry of tokens\<close>

record cred_entry =
  en_agent_id :: string
  en_allowed_providers :: "string list"

type_synonym cred_registry = "(string, cred_entry) hashmap"

definition registry_register :: "string \<Rightarrow> string \<Rightarrow> string list \<Rightarrow> cred_registry \<Rightarrow> cred_registry" where
  "registry_register token agent providers m =
     put token \<lparr>en_agent_id = agent, en_allowed_providers = providers\<rparr> m"

definition registry_deregister :: "string \<Rightarrow> cred_registry \<Rightarrow> cred_registry" where
  "registry_deregister token m = remove token m"

definition deregister_and_get_agent :: "string \<Rightarrow> cred_registry \<Rightarrow> string option \<times> cred_registry" where
  "deregister_and_get_agent token m =
     (case get m token of
        None \<Rightarrow> (None, m)
      | Some entry \<Rightarrow>
          let m' = remove token m;
              still_active = list_ex (\<lambda>(_, e). en_agent_id e = en_agent_id entry) m'
          in (if still_active then None else Some (en_agent_id entry), m'))"

definition registry_lookup :: "string \<Rightarrow> cred_registry \<Rightarrow> (string \<times> string list) option" where
  "registry_lookup token m =
     map_option (\<lambda>e. (en_agent_id e, en_allowed_providers e)) (get m token)"

text \<open>\<open>providers_for_agent\<close>: sorted, without repetitions.\<close>

definition providers_for_agent :: "string \<Rightarrow> cred_registry \<Rightarrow> string list" where
  "providers_for_agent agent m =
     remdups_adj (sort (concat (map (en_allowed_providers \<circ> snd) (filter (\<lambda>(_, e). en_agent_id e = agent) m))))"

subsection \<open>The token cache\<close>

record oauth_cache =
  oc_token :: "string option"
  oc_expires_at :: u64
  oc_refresh_token :: "string option"

definition cache_new :: oauth_cache where
  "cache_new = \<lparr>oc_token = None, oc_expires_at = 0, oc_refresh_token = None\<rparr>"

text \<open>\<open>load_from_disk\<close>; \<open>contents\<close> is what reading the state file gives.\<close>

definition load_from_disk :: "cred_lib \<Rightarrow> string option \<Rightarrow> u64 \<Rightarrow> oauth_cache \<Rightarrow> oauth_cache" where
  "load_from_disk L contents now c =
     (case Option.bind contents (cl_state_parse L) of
        None \<Rightarrow> c
      | Some st \<Rightarrow>
          if st_expires_at_unix st \<le> now + TOKEN_EXPIRY_BUFFER_SECS then c
          else if st_access_token st = [] then c
          else c\<lparr>oc_token := Some (st_access_token st), oc_expires_at := st_expires_at_unix st,
                 oc_refresh_token := st_refresh_token st\<rparr>)"

text \<open>\<open>contended\<close>: another task holds the lock of the cache.\<close>

definition try_peek_expiry :: "bool \<Rightarrow> oauth_cache \<Rightarrow> u64 option" where
  "try_peek_expiry contended c =
     (if contended then None else map_option (\<lambda>_. oc_expires_at c) (oc_token c))"

text \<open>
  \<open>write_state_atomic\<close> over the contents of the files. A fault is the step that fails; \<open>WriteFault n\<close>
  leaves \<open>n\<close> bytes in the temporary file. The error is the context of the step.
\<close>

type_synonym state_files = "(string, string) hashmap"

datatype write_fault =
    NoFault | DirFault string | OpenFault | WriteFault nat | FlushFault | SyncFault | RenameFault

definition tmp_path :: "string \<Rightarrow> string" where
  "tmp_path path = path @ ''.tmp''"

definition quoted :: "string \<Rightarrow> string" where
  "quoted s = [CHR 0x27] @ s @ [CHR 0x27]"

definition arrow :: string where
  "arrow = [CHR 0x20, CHR 0xE2, CHR 0x86, CHR 0x92, CHR 0x20]"

definition write_state_atomic ::
    "write_fault \<Rightarrow> string \<Rightarrow> string \<Rightarrow> state_files \<Rightarrow> state_files \<times> (string + unit)" where
  "write_state_atomic fault path data fs =
     (let tmp = tmp_path path; written = put tmp data fs in
      case fault of
        DirFault parent \<Rightarrow> (fs, Inl (''create state dir '' @ quoted parent))
      | OpenFault \<Rightarrow> (fs, Inl (''open tmp state file '' @ quoted tmp))
      | WriteFault n \<Rightarrow> (put tmp (take n data) fs, Inl (''write tmp state file '' @ quoted tmp))
      | FlushFault \<Rightarrow> (written, Inl (''flush tmp state file '' @ quoted tmp))
      | SyncFault \<Rightarrow> (written, Inl (''sync_all tmp state file '' @ quoted tmp))
      | RenameFault \<Rightarrow> (written, Inl (''rename '' @ quoted tmp @ arrow @ quoted path))
      | NoFault \<Rightarrow> (put path data (remove tmp fs), Inr ()))"

subsection \<open>Refreshing a token\<close>

text \<open>
  What the world does during one refresh. The reply of the token endpoint has a status and a body
  that may fail to arrive. The timeout of the slow path can fire while it waits for anything
  before the reply is complete, the first such wait being for the secrets file, or while the state
  file is written.
\<close>

datatype token_post = PostError string | PostReply nat "string + string"

datatype refresh_timeout = InTime | BeforeReply | DuringWrite

record refresh_io =
  ri_now :: u64
  ri_read :: "string \<Rightarrow> string + string"
  ri_lookup :: "string \<Rightarrow> ip_addr list option"
  ri_post :: "string \<Rightarrow> (string \<times> string) list \<Rightarrow> token_post"
  ri_timeout :: refresh_timeout
  ri_write :: write_fault
  ri_contended :: bool

definition provider_q :: "string \<Rightarrow> string" where
  "provider_q provider = ''provider '' @ quoted provider"

definition token_path_of :: "provider_config \<Rightarrow> string" where
  "token_path_of pcfg = (case pc_token_path pcfg of None \<Rightarrow> [] | Some p \<Rightarrow> p)"

text \<open>The slow path up to the address check: the secrets that may be used.\<close>

definition refresh_target ::
    "cred_lib \<Rightarrow> refresh_io \<Rightarrow> string \<Rightarrow> provider_config \<Rightarrow> credential_error + oauth_secrets" where
  "refresh_target L io provider pcfg =
     (let token_path = token_path_of pcfg in
      if token_path = [] then
        Inl (attention ConfigFix (provider_q provider @ '' has no token_path configured''))
      else case ri_read io token_path of
        Inl e \<Rightarrow> Inl (attention SecretReplace (''cannot read secrets file '' @ quoted token_path @ '': '' @ e))
      | Inr secrets_bytes \<Rightarrow>
          (case cl_secrets L secrets_bytes of
             Inl e \<Rightarrow> Inl (attention SecretReplace (''cannot parse secrets file '' @ quoted token_path @ '': '' @ e))
           | Inr secrets \<Rightarrow>
               let url = secrets_token_url secrets in
               if \<not> prefix https url then
                 Inl (attention ConfigFix (provider_q provider @ '' token_url must use https://, got '' @
                   quoted (token_url_preview url)))
               else case extract_host url of
                 None \<Rightarrow>
                   Inl (attention ConfigFix (provider_q provider @ '' token_url '' @
                     quoted (token_url_preview url) @ '' is malformed''))
               | Some token_host \<Rightarrow>
                   (case ri_lookup io (token_host @ '':443'') of
                      None \<Rightarrow> Inr secrets
                    | Some addrs \<Rightarrow>
                        (case find is_ssrf_blocked addrs of
                           None \<Rightarrow> Inr secrets
                         | Some ip \<Rightarrow>
                             Inl (attention ConfigFix (provider_q provider @ '' token_url '' @
                               quoted (token_url_preview url) @ '' resolves to SSRF-blocked address '' @
                               show_ip ip @ '' '' @ em_dash @ '' refusing token refresh (ar-04c)''))))))"

definition is_success :: "nat \<Rightarrow> bool" where
  "is_success status \<longleftrightarrow> 200 \<le> status \<and> status < 300"

text \<open>A refusal of the endpoint: which OAuth errors only a new authorisation can cure.\<close>

definition classify_refusal :: "cred_lib \<Rightarrow> nat \<Rightarrow> string \<Rightarrow> credential_error" where
  "classify_refusal L status body =
     (case Option.bind (Option.bind (json_parse (cl_http L) body) (\<lambda>v. json_get v ''error'')) json_as_str of
        Some err \<Rightarrow>
          if err \<in> set [''invalid_grant'', ''invalid_client'', ''token_expired'']
          then attention Reauth (''token refresh HTTP '' @ show_nat status @ '': '' @ err @ '' '' @ em_dash @
                 '' re-run agentctl auth'')
          else retryable (''token refresh HTTP '' @ show_nat status)
      | None \<Rightarrow> retryable (''token refresh HTTP '' @ show_nat status))"

definition token_params :: "oauth_secrets \<Rightarrow> string \<Rightarrow> (string \<times> string) list" where
  "token_params secrets refresh_token =
     [(''client_id'', os_client_id secrets), (''client_secret'', os_client_secret secrets),
      (''refresh_token'', refresh_token), (''grant_type'', ''refresh_token'')]"

definition request_token ::
    "cred_lib \<Rightarrow> refresh_io \<Rightarrow> oauth_secrets \<Rightarrow> string \<Rightarrow> credential_error + token_response" where
  "request_token L io secrets refresh_token =
     (case ri_post io (secrets_token_url secrets) (token_params secrets refresh_token) of
        PostError e \<Rightarrow> Inl (retryable (''token refresh request failed: '' @ e))
      | PostReply status body \<Rightarrow>
          if \<not> is_success status
          then Inl (classify_refusal L status (case body of Inl _ \<Rightarrow> [] | Inr b \<Rightarrow> b))
          else (case (case body of Inl e \<Rightarrow> Inl e | Inr b \<Rightarrow> cl_token_response L b) of
                  Inl e \<Rightarrow> Inl (retryable (''token refresh response parse failed: '' @ e))
                | Inr r \<Rightarrow> Inr r))"

definition refresh_token_for :: "oauth_cache \<Rightarrow> oauth_secrets \<Rightarrow> string" where
  "refresh_token_for c secrets =
     (case oc_refresh_token c of None \<Rightarrow> os_refresh_token secrets | Some t \<Rightarrow> t)"

text \<open>\<open>expires_in.unwrap_or(3600)\<close>; the sum wraps in the release build.\<close>

definition new_expiry :: "u64 \<Rightarrow> token_response \<Rightarrow> u64" where
  "new_expiry now r = now + (case tr_expires_in r of None \<Rightarrow> 3600 | Some n \<Rightarrow> n)"

definition cache_update :: "u64 \<Rightarrow> token_response \<Rightarrow> oauth_cache \<Rightarrow> oauth_cache" where
  "cache_update now r c =
     c\<lparr>oc_token := Some (tr_access_token r), oc_expires_at := new_expiry now r,
       oc_refresh_token := (case tr_refresh_token r of None \<Rightarrow> oc_refresh_token c | Some t \<Rightarrow> Some t)\<rparr>"

definition persisted_state :: "u64 \<Rightarrow> token_response \<Rightarrow> oauth_state" where
  "persisted_state now r =
     \<lparr>st_access_token = tr_access_token r, st_expires_at_unix = new_expiry now r,
      st_refresh_token = tr_refresh_token r\<rparr>"

definition timed_out :: "string \<Rightarrow> credential_error" where
  "timed_out provider =
     retryable (provider_q provider @ '' token refresh timed out after '' @
       show_word OAUTH_REFRESH_TIMEOUT_SECS @ ''s (ar-05)'')"

definition cached_token :: "u64 \<Rightarrow> oauth_cache \<Rightarrow> string option" where
  "cached_token now c =
     (case oc_token c of
        None \<Rightarrow> None
      | Some tok \<Rightarrow> if now + TOKEN_EXPIRY_BUFFER_SECS < oc_expires_at c then Some tok else None)"

text \<open>The cache, the files and the log that one call of \<open>get_or_refresh\<close> leaves.\<close>

type_synonym refresh_world = "oauth_cache \<times> state_files \<times> flight_log"

definition get_or_refresh ::
    "cred_lib \<Rightarrow> refresh_io \<Rightarrow> string \<Rightarrow> provider_config \<Rightarrow> refresh_world \<Rightarrow>
     refresh_world \<times> (credential_error + string)" where
  "get_or_refresh L io provider pcfg w =
     (case w of (c, fs, lg) \<Rightarrow>
      case cached_token (ri_now io) c of
        Some tok \<Rightarrow> (w, Inr tok)
      | None \<Rightarrow>
          if ri_timeout io = BeforeReply \<and> token_path_of pcfg \<noteq> [] then (w, Inl (timed_out provider))
          else case refresh_target L io provider pcfg of
            Inl e \<Rightarrow> (w, Inl e)
          | Inr secrets \<Rightarrow>
              (case request_token L io secrets (refresh_token_for c secrets) of
                 Inl e \<Rightarrow> (w, Inl e)
               | Inr r \<Rightarrow>
                   let c' = cache_update (ri_now io) r c in
                   (case pc_state_path pcfg of
                      None \<Rightarrow> ((c', fs, lg), Inr (tr_access_token r))
                    | Some path \<Rightarrow>
                        (case write_state_atomic (ri_write io) path
                                (cl_state_print L (persisted_state (ri_now io) r)) fs of
                           (fs', res) \<Rightarrow>
                             if ri_timeout io = DuringWrite then ((c', fs', lg), Inl (timed_out provider))
                             else
                               ((c', fs',
                                 case res of
                                   Inr _ \<Rightarrow> lg
                                 | Inl err \<Rightarrow>
                                     record_event ''credential_gateway'' None EvCredentialRefreshFailed
                                       [(''provider'', JStr provider), (''error'', JStr err),
                                        (''token_written'', JBool False)] lg),
                                Inr (tr_access_token r))))))"

subsection \<open>The state of the gateway\<close>

record gateway =
  gw_config :: credential_gateway_config
  gw_registry :: cred_registry
  gw_caches :: "(string, oauth_cache) hashmap"
  gw_pinned :: "(string, ip_addr) hashmap"
  gw_counters :: "(string \<times> string, u64) hashmap"
  gw_caps_db :: "(string, u64) hashmap option"
  gw_denied :: "(string \<times> string, u64) hashmap"
  gw_last_access :: "(string \<times> string, u64) hashmap"
  gw_expiry :: "(string, u64) hashmap"
  gw_last_refresh :: "(string, u64) hashmap"
  gw_last_error :: "(string, string option) hashmap"
  gw_states :: "(string, provider_health_state) hashmap"
  gw_files :: state_files
  gw_log :: flight_log

definition gw_record :: "string \<Rightarrow> event_kind \<Rightarrow> (string \<times> json) list \<Rightarrow> gateway \<Rightarrow> gateway" where
  "gw_record who kind data g = g\<lparr>gw_log := record_event who None kind data (gw_log g)\<rparr>"

definition get_cache :: "string \<Rightarrow> gateway \<Rightarrow> oauth_cache \<times> gateway" where
  "get_cache provider g =
     (case get (gw_caches g) provider of
        Some c \<Rightarrow> (c, g)
      | None \<Rightarrow> (cache_new, g\<lparr>gw_caches := put provider cache_new (gw_caches g)\<rparr>))"

text \<open>\<open>get_or_refresh\<close> on the provider's cache in the gateway.\<close>

definition refresh_provider ::
    "cred_lib \<Rightarrow> refresh_io \<Rightarrow> string \<Rightarrow> provider_config \<Rightarrow> gateway \<Rightarrow>
     gateway \<times> (credential_error + string)" where
  "refresh_provider L io provider pcfg g0 =
     (case get_cache provider g0 of
        (c, g) \<Rightarrow>
          (case get_or_refresh L io provider pcfg (c, gw_files g, gw_log g) of
             ((c', fs, lg), res) \<Rightarrow>
               (g\<lparr>gw_caches := put provider c' (gw_caches g), gw_files := fs, gw_log := lg\<rparr>, res)))"

subsection \<open>The health state machine\<close>

definition needs_attention :: "string \<Rightarrow> gateway \<Rightarrow> bool" where
  "needs_attention provider g =
     (case get (gw_states g) provider of None \<Rightarrow> False | Some h \<Rightarrow> is_attention_required h)"

definition note_recovered :: "string \<Rightarrow> string \<Rightarrow> gateway \<Rightarrow> gateway" where
  "note_recovered source provider g =
     (if needs_attention provider g then
        gw_record ''credential_gateway'' EvCredentialRecovered
          [(''provider'', JStr provider), (''source'', JStr source)]
          (g\<lparr>gw_states := put provider Healthy (gw_states g)\<rparr>)
      else g)"

definition note_attention :: "u64 \<Rightarrow> string \<Rightarrow> credential_error \<Rightarrow> gateway \<Rightarrow> gateway" where
  "note_attention now provider e g =
     (case ce_class e of
        Retryable \<Rightarrow> g
      | AttentionRequired rk \<Rightarrow>
          if needs_attention provider g then g
          else
            gw_record ''credential_gateway'' EvCredentialAttentionRequired
              [(''provider'', JStr provider), (''recovery_kind'', JStr (recovery_kind_str rk)),
               (''reason'', JStr (ce_message e))]
              (g\<lparr>gw_states := put provider (NeedsAttention rk (ce_message e) now) (gw_states g)\<rparr>))"

definition note_expiry :: "bool \<Rightarrow> u64 \<Rightarrow> string \<Rightarrow> gateway \<Rightarrow> gateway" where
  "note_expiry contended now provider g =
     (case Option.bind (get (gw_caches g) provider) (try_peek_expiry contended) of
        None \<Rightarrow> g
      | Some expires \<Rightarrow>
          g\<lparr>gw_expiry := put provider expires (gw_expiry g),
            gw_last_refresh := put provider now (gw_last_refresh g)\<rparr>)"

definition note_error :: "string option \<Rightarrow> string \<Rightarrow> gateway \<Rightarrow> gateway" where
  "note_error err provider g = g\<lparr>gw_last_error := put provider err (gw_last_error g)\<rparr>"

subsection \<open>The handler of a request\<close>

record credential_request = http_request +
  rq_query :: "string option"

record cred_upstream =
  cu_method :: string
  cu_url :: string
  cu_headers :: "(string \<times> string) list"
  cu_query :: "(string \<times> string) option"
  cu_body :: string

text \<open>The world during one request: the refresh, the clock after it and at the forward, the environment.\<close>

record cred_io =
  ci_refresh :: refresh_io
  ci_now_s :: u64
  ci_env :: "string \<Rightarrow> string option"
  ci_access_now :: u64

definition CRED_PASSTHROUGH_HEADERS :: "string list" where
  "CRED_PASSTHROUGH_HEADERS =
     [''content-type'', ''accept'', ''accept-language'', ''cache-control'', ''x-goog-api-version'']"

definition json_response :: "cred_lib \<Rightarrow> nat \<Rightarrow> (string \<times> json) list \<Rightarrow> http_response" where
  "json_response L status body =
     \<lparr>hr_status = status, hr_content_type = ''application/json'', hr_body = json_print (cl_http L) (JObj body)\<rparr>"

fun splitn :: "nat \<Rightarrow> char \<Rightarrow> string \<Rightarrow> string list" where
  "splitn 0 c s = []"
| "splitn (Suc 0) c s = [s]"
| "splitn (Suc (Suc n)) c s =
     (if c \<in> set s then takeWhile (\<lambda>x. x \<noteq> c) s # splitn (Suc n) c (tl (dropWhile (\<lambda>x. x \<noteq> c) s))
      else [s])"

definition to_ascii_lowercase :: "string \<Rightarrow> string" where
  "to_ascii_lowercase s =
     map (\<lambda>c. let n = of_char c :: nat in if 65 \<le> n \<and> n \<le> 90 then char_of (n + 32) else c) s"

definition normalize_path_segment :: "string \<Rightarrow> string" where
  "normalize_path_segment seg =
     join ''/''
       (filter (\<lambda>c. \<not> (c = [] \<or> c = ''..'' \<or> c = ''.'') \<and>
          to_ascii_lowercase c \<noteq> ''%2e'' \<and> to_ascii_lowercase c \<noteq> ''%2e%2e'')
        (split_at_char (CHR ''/'') seg))"

definition attach_credential :: "provider_config \<Rightarrow> string \<Rightarrow> (string \<times> string) list" where
  "attach_credential prov credential =
     (case pc_auth_style prov of
        OauthBearer \<Rightarrow> [(''Authorization'', ''Bearer '' @ credential)]
      | ApiKeyHeader \<Rightarrow>
          [(case pc_header_name prov of None \<Rightarrow> ''X-Api-Key'' | Some h \<Rightarrow> h,
            case pc_header_value_prefix prov of None \<Rightarrow> credential | Some pfx \<Rightarrow> pfx @ '' '' @ credential)]
      | ApiKeyQuery \<Rightarrow> [])"

definition build_upstream_headers ::
    "cred_lib \<Rightarrow> (string \<times> string) list \<Rightarrow> provider_config \<Rightarrow> string \<Rightarrow> (string \<times> string) list" where
  "build_upstream_headers L caller prov credential =
     filter (\<lambda>(name, v). to_ascii_lowercase name \<in> set CRED_PASSTHROUGH_HEADERS \<and> hv_to_str_ok (cl_http L) v) caller @
     attach_credential prov credential"

text \<open>Steps 1 to 3: who calls, and for which provider.\<close>

definition cred_identify ::
    "cred_lib \<Rightarrow> credential_request \<Rightarrow> gateway \<Rightarrow>
     http_response + (string \<times> string list \<times> string \<times> string)" where
  "cred_identify L req g =
     (case header_str (cl_http L) (rq_headers req) ''x-credential-token'' of
        None \<Rightarrow>
          Inl (json_response L 401 [(''error'', JStr ''missing_credential_token''),
            (''hint'', JStr ''Set x-credential-token header'')])
      | Some cred_token \<Rightarrow>
          (case registry_lookup cred_token (gw_registry g) of
             None \<Rightarrow> Inl (json_response L 401 [(''error'', JStr ''invalid_credential_token'')])
           | Some (agent, allowed) \<Rightarrow>
               (case splitn 3 (CHR ''/'') (rq_path req) of
                  _ # provider # rest \<Rightarrow>
                    if provider \<noteq> [] then Inr (agent, allowed, provider, case rest of [] \<Rightarrow> [] | r # _ \<Rightarrow> r)
                    else Inl (json_response L 400 [(''error'', JStr ''bad_request''),
                           (''hint'', JStr ''URI must be /<provider>/<path>'')])
                | _ \<Rightarrow> Inl (json_response L 400 [(''error'', JStr ''bad_request''),
                           (''hint'', JStr ''URI must be /<provider>/<path>'')]))))"

definition count_denied :: "string \<Rightarrow> string \<Rightarrow> gateway \<Rightarrow> gateway" where
  "count_denied agent provider g =
     g\<lparr>gw_denied := modify (agent, provider) (\<lambda>n. n + 1) (or_insert (agent, provider) 0 (gw_denied g))\<rparr>"

definition deny_credential :: "string \<Rightarrow> string \<Rightarrow> string \<Rightarrow> gateway \<Rightarrow> gateway" where
  "deny_credential agent provider reason g =
     count_denied agent provider
       (gw_record agent EvCredentialDenied
          [(''agent_id'', JStr agent), (''provider'', JStr provider), (''reason'', JStr reason)] g)"

text \<open>Steps 4 and 5: the grant, and the configuration of the provider.\<close>

definition cred_authorize ::
    "cred_lib \<Rightarrow> string \<Rightarrow> string list \<Rightarrow> string \<Rightarrow> gateway \<Rightarrow> gateway \<times> (http_response + provider_config)" where
  "cred_authorize L agent allowed provider g =
     (if allowed = [] then
        (deny_credential agent provider ''no_providers_configured'' g,
         Inl (json_response L 403 [(''error'', JStr ''credential_denied''),
           (''reason'', JStr ''no_providers_configured''),
           (''hint'', JStr (''Add a Credential capability to your agent'' @ [CHR 0x27] @ ''s [capabilities] config''))]))
      else if provider \<notin> set allowed then
        (deny_credential agent provider ''provider_not_allowed'' g,
         Inl (json_response L 403 [(''error'', JStr ''credential_denied''), (''provider'', JStr provider),
           (''reason'', JStr ''provider_not_allowed''),
           (''hint'', JStr ''Add Credential capability for this provider to your agent config'')]))
      else case get (cg_providers (gw_config g)) provider of
        Some pcfg \<Rightarrow> (g, Inr pcfg)
      | None \<Rightarrow>
          (gw_record agent EvCredentialNotProvisioned
             [(''provider'', JStr provider),
              (''hint'', JStr (''Add [credential_gateway.providers.'' @ provider @ ''] to your agent config''))] g,
           Inl (json_response L 503 [(''error'', JStr ''credential_not_provisioned''), (''provider'', JStr provider),
             (''hint'', JStr (''Add [credential_gateway.providers.'' @ provider @ ''] to your agent config or run `agentctl auth '' @
                provider @ ''` on the host''))])))"

text \<open>
  Step 5b: the request cap. \<open>fetch_add\<close> returns the old value of the counter, which \<open>or_insert_with\<close> made
  if there was none; a request over the limit takes its increment back with \<open>fetch_sub\<close>.
\<close>

definition fetch_add :: "string \<times> string \<Rightarrow> (string \<times> string, u64) hashmap \<Rightarrow> u64 \<times> (string \<times> string, u64) hashmap" where
  "fetch_add k m =
     (let m' = or_insert k 0 m in
      (case get m' k of None \<Rightarrow> 0 | Some n \<Rightarrow> n, modify k (\<lambda>n. n + 1) m'))"

definition fetch_sub :: "string \<times> string \<Rightarrow> (string \<times> string, u64) hashmap \<Rightarrow> (string \<times> string, u64) hashmap" where
  "fetch_sub k m = modify k (\<lambda>n. n - 1) m"

definition cred_cap ::
    "cred_lib \<Rightarrow> string \<Rightarrow> string \<Rightarrow> provider_config \<Rightarrow> gateway \<Rightarrow> gateway \<times> (http_response + unit)" where
  "cred_cap L agent provider pcfg g =
     (case pc_max_requests_per_agent pcfg of
        None \<Rightarrow> (g, Inr ())
      | Some limit \<Rightarrow>
          (case fetch_add (agent, provider) (gw_counters g) of
             (prev, m) \<Rightarrow>
               if prev \<ge> limit then
                 (gw_record agent EvCredentialCapExceeded
                    [(''agent_id'', JStr agent), (''provider'', JStr provider), (''count'', JWord (prev + 1)),
                     (''limit'', JWord limit)] (g\<lparr>gw_counters := fetch_sub (agent, provider) m\<rparr>),
                  Inl (json_response L 429 [(''error'', JStr ''credential_cap_exceeded''), (''provider'', JStr provider),
                    (''agent_id'', JStr agent), (''count'', JWord (prev + 1)), (''limit'', JWord limit),
                    (''hint'', JStr ''Per-agent request cap reached; cap resets when the agent exits'')]))
               else (g\<lparr>gw_counters := m\<rparr>, Inr ())))"

text \<open>Step 6: the query parameters on the allow list, and the bounded body.\<close>

definition forwarded_query :: "string option \<Rightarrow> provider_config \<Rightarrow> string" where
  "forwarded_query query pcfg =
     (let raw = (case query of None \<Rightarrow> [] | Some q \<Rightarrow> q) in
      if raw = [] \<or> pc_passthrough_query_params pcfg = [] then []
      else
        let allowed = filter (\<lambda>pair. hd (split_at_char (CHR ''='') pair) \<in> set (pc_passthrough_query_params pcfg))
                        (split_at_char (CHR ''&'') raw)
        in if allowed = [] then [] else ''?'' @ join ''&'' allowed)"

fun collect_limited :: "nat \<Rightarrow> string \<Rightarrow> string option list \<Rightarrow> string option" where
  "collect_limited bound acc [] = Some acc"
| "collect_limited bound acc (None # cs) = None"
| "collect_limited bound acc (Some b # cs) =
     (if bound < length acc + length b then None else collect_limited bound (acc @ b) cs)"

text \<open>Step 8: the credential.\<close>

definition oauth_credential ::
    "cred_lib \<Rightarrow> cred_io \<Rightarrow> string \<Rightarrow> provider_config \<Rightarrow> gateway \<Rightarrow> gateway \<times> (http_response + string)" where
  "oauth_credential L io provider pcfg g0 =
     (case refresh_provider L (ci_refresh io) provider pcfg g0 of
        (g, Inr tok) \<Rightarrow>
          (note_recovered ''foreground_request'' provider
             (note_error None provider
               (note_expiry (ri_contended (ci_refresh io)) (ci_now_s io) provider g)), Inr tok)
      | (g, Inl e) \<Rightarrow>
          (note_attention (ci_now_s io) provider e (note_error (Some (ce_message e)) provider g),
           Inl (json_response L 503 [(''error'', JStr ''credential_refresh_failed''), (''provider'', JStr provider),
             (''hint'', JStr ''Check token_path secrets and state_path permissions'')])))"

definition api_key_credential ::
    "cred_lib \<Rightarrow> cred_io \<Rightarrow> string \<Rightarrow> string \<Rightarrow> provider_config \<Rightarrow> gateway \<Rightarrow> gateway \<times> (http_response + string)" where
  "api_key_credential L io agent provider pcfg g =
     (let key_var = (case pc_secret_key pcfg of None \<Rightarrow> [] | Some k \<Rightarrow> k) in
      if key_var = [] then
        (g, Inl (json_response L 503 [(''error'', JStr ''credential_not_provisioned''), (''provider'', JStr provider),
           (''hint'', JStr ''Set secret_key in [credential_gateway.providers] config'')]))
      else
        let missing =
          (gw_record agent EvCredentialNotProvisioned
             [(''provider'', JStr provider), (''hint'', JStr (key_var @ '' env var not set''))] g,
           Inl (json_response L 503 [(''error'', JStr ''credential_not_provisioned''), (''provider'', JStr provider),
             (''hint'', JStr (''Set the '' @ key_var @ '' environment variable''))]))
        in (case ci_env io key_var of
              None \<Rightarrow> missing
            | Some v \<Rightarrow> if v \<noteq> [] then (g, Inr v) else missing))"

definition cred_credential ::
    "cred_lib \<Rightarrow> cred_io \<Rightarrow> string \<Rightarrow> string \<Rightarrow> provider_config \<Rightarrow> gateway \<Rightarrow> gateway \<times> (http_response + string)" where
  "cred_credential L io agent provider pcfg g =
     (case pc_auth_style pcfg of
        OauthBearer \<Rightarrow> oauth_credential L io provider pcfg g
      | _ \<Rightarrow> api_key_credential L io agent provider pcfg g)"

text \<open>Steps 9 to 12: the request that goes upstream, and the record of it.\<close>

definition trim_end_slashes :: "string \<Rightarrow> string" where
  "trim_end_slashes s = rev (dropWhile (\<lambda>c. c = CHR ''/'') (rev s))"

definition upstream_url :: "provider_config \<Rightarrow> string \<Rightarrow> string \<Rightarrow> string" where
  "upstream_url pcfg rest query =
     (let upstream_base = trim_end_slashes (pc_upstream_base pcfg);
          safe_rest = normalize_path_segment rest
      in if safe_rest = [] then upstream_base @ query else upstream_base @ ''/'' @ safe_rest @ query)"

definition build_upstream ::
    "cred_lib \<Rightarrow> credential_request \<Rightarrow> provider_config \<Rightarrow> string \<Rightarrow> string \<Rightarrow> string \<Rightarrow> cred_upstream" where
  "build_upstream L req pcfg rest credential body =
     \<lparr>cu_method = rq_method req, cu_url = upstream_url pcfg rest (forwarded_query (rq_query req) pcfg),
      cu_headers = build_upstream_headers L (rq_headers req) pcfg credential,
      cu_query =
        (if pc_auth_style pcfg = ApiKeyQuery
         then Some (case pc_header_name pcfg of None \<Rightarrow> ''key'' | Some k \<Rightarrow> k, credential) else None),
      cu_body = body\<rparr>"

definition path_str :: "string \<Rightarrow> string \<Rightarrow> string" where
  "path_str provider rest = ''/'' @ provider @ (if rest = [] then [] else ''/'') @ rest"

definition note_access :: "u64 \<Rightarrow> string \<Rightarrow> string \<Rightarrow> string \<Rightarrow> string \<Rightarrow> gateway \<Rightarrow> gateway" where
  "note_access now agent provider rest method g =
     (let g' = gw_record agent EvCredentialAccessed
          [(''agent_id'', JStr agent), (''provider'', JStr provider), (''path'', JStr (path_str provider rest)),
           (''method'', JStr method)] g
      in g'\<lparr>gw_last_access := put (agent, provider) now (gw_last_access g')\<rparr>)"

record cred_forward =
  cf_agent :: string
  cf_provider :: string
  cf_rest :: string
  cf_upstream :: cred_upstream

definition cred_prepare ::
    "cred_lib \<Rightarrow> cred_io \<Rightarrow> credential_request \<Rightarrow> gateway \<Rightarrow> gateway \<times> (http_response + cred_forward)" where
  "cred_prepare L io req g0 =
     (case cred_identify L req g0 of
        Inl r \<Rightarrow> (g0, Inl r)
      | Inr (agent, allowed, provider, rest) \<Rightarrow>
          (case cred_authorize L agent allowed provider g0 of
             (g1, Inl r) \<Rightarrow> (g1, Inl r)
           | (g1, Inr pcfg) \<Rightarrow>
               (case cred_cap L agent provider pcfg g1 of
                  (g2, Inl r) \<Rightarrow> (g2, Inl r)
                | (g2, Inr _) \<Rightarrow>
                    (case collect_limited MAX_INBOUND_REQUEST_BYTES [] (rq_body req) of
                       None \<Rightarrow> (g2, Inl (json_response L 413 [(''error'', JStr ''request_body_too_large'')]))
                     | Some body \<Rightarrow>
                         (case cred_credential L io agent provider pcfg g2 of
                            (g3, Inl r) \<Rightarrow> (g3, Inl r)
                          | (g3, Inr credential) \<Rightarrow>
                              (note_access (ci_access_now io) agent provider rest (rq_method req) g3,
                               Inr \<lparr>cf_agent = agent, cf_provider = provider, cf_rest = rest,
                                    cf_upstream = build_upstream L req pcfg rest credential body\<rparr>))))))"

text \<open>Steps 13 to 15: the reply.\<close>

fun read_response :: "string \<Rightarrow> string option list \<Rightarrow> string + string" where
  "read_response resp [] = Inr resp"
| "read_response resp (Some b # cs) =
     (if MAX_UPSTREAM_RESPONSE_BYTES < length resp + length b then Inl ''upstream_response_too_large''
      else read_response (resp @ b) cs)"
| "read_response resp (None # cs) = Inl ''upstream_body_error''"

definition cred_finish ::
    "cred_lib \<Rightarrow> cred_forward \<Rightarrow> send_outcome \<Rightarrow> gateway \<Rightarrow> gateway \<times> http_response" where
  "cred_finish L fwd outcome g =
     (let fail = (\<lambda>err. (g, json_response L 502 [(''error'', JStr err), (''provider'', JStr (cf_provider fwd))])) in
      case outcome of
        SendOk resp \<Rightarrow>
          (case read_response [] (up_body resp) of
             Inl err \<Rightarrow> fail err
           | Inr bytes \<Rightarrow>
               (gw_record (cf_agent fwd) EvCredentialEgressBrokered
                  [(''agent_id'', JStr (cf_agent fwd)), (''provider'', JStr (cf_provider fwd)),
                   (''path'', JStr (path_str (cf_provider fwd) (cf_rest fwd))),
                   (''response_status'', JNat (up_status resp)), (''response_bytes'', JNat (length bytes))] g,
                \<lparr>hr_status = up_status resp, hr_content_type = ''application/json'', hr_body = bytes\<rparr>))
      | _ \<Rightarrow> fail ''upstream_error'')"

definition handle_credential_request ::
    "cred_lib \<Rightarrow> cred_io \<Rightarrow> (cred_upstream \<Rightarrow> send_outcome) \<Rightarrow> credential_request \<Rightarrow> gateway \<Rightarrow>
     gateway \<times> http_response" where
  "handle_credential_request L io upstream req g =
     (case cred_prepare L io req g of
        (g', Inl r) \<Rightarrow> (g', r)
      | (g', Inr fwd) \<Rightarrow> cred_finish L fwd (upstream (cf_upstream fwd)) g')"

subsection \<open>The background refresh\<close>

text \<open>One round of \<open>proactive_refresh_loop\<close>: the gateway, and the seconds to sleep.\<close>

record proactive_io = cred_io +
  pr_contended :: bool
  pr_now :: u64

definition proactive_refresh ::
    "cred_lib \<Rightarrow> cred_io \<Rightarrow> string \<Rightarrow> provider_config \<Rightarrow> gateway \<Rightarrow> gateway" where
  "proactive_refresh L io provider pcfg g0 =
     (case refresh_provider L (ci_refresh io) provider pcfg g0 of
        (g, Inr _) \<Rightarrow>
          note_error None provider
            (note_expiry (ri_contended (ci_refresh io)) (ci_now_s io) provider
              (note_recovered ''proactive_refresh'' provider g))
      | (g, Inl e) \<Rightarrow> note_attention (ci_now_s io) provider e (note_error (Some (ce_message e)) provider g))"

definition proactive_refresh_round ::
    "cred_lib \<Rightarrow> proactive_io \<Rightarrow> string \<Rightarrow> gateway \<Rightarrow> gateway \<times> u64" where
  "proactive_refresh_round L io provider g =
     (case Option.bind (get (gw_caches g) provider) (try_peek_expiry (pr_contended io)) of
        None \<Rightarrow> (g, 300)
      | Some expires \<Rightarrow>
          if pr_now io + PROACTIVE_REFRESH_LEAD_SECS < expires
          then (g, max (expires - pr_now io - PROACTIVE_REFRESH_LEAD_SECS) 10)
          else
            (case get (cg_providers (gw_config g)) provider of
               None \<Rightarrow> g
             | Some pcfg \<Rightarrow> proactive_refresh L (cred_io.truncate io) provider pcfg g, 60))"

subsection \<open>Starting the gateway\<close>

text \<open>
  The world at the start: DNS, whether the client can be built, the clock, what the caps database
  holds (\<open>None\<close> when it cannot be opened). A provider's state file is read from the files.
\<close>

record start_io =
  si_lookup :: "string \<Rightarrow> ip_addr list option"
  si_client :: "string + unit"
  si_now :: u64
  si_caps_rows :: "string \<Rightarrow> (string, u64) hashmap option"

text \<open>The first public address of a host is pinned; a blocked one refuses the start.\<close>

fun pin_addrs ::
    "string \<Rightarrow> provider_config \<Rightarrow> string \<Rightarrow> ip_addr list \<Rightarrow> (string, ip_addr) hashmap \<Rightarrow>
     string + (string, ip_addr) hashmap" where
  "pin_addrs name prov host [] pinned = Inr pinned"
| "pin_addrs name prov host (ip # ips) pinned =
     (if is_ssrf_blocked ip then
        Inl (''credential gateway: provider '' @ quoted name @ '' upstream_base '' @ quoted (pc_upstream_base prov) @
          '' resolves to SSRF-blocked address '' @ show_ip ip @ '' '' @ em_dash @ '' use a public endpoint'')
      else pin_addrs name prov host ips (or_insert host ip pinned))"

fun pin_providers ::
    "start_io \<Rightarrow> (string \<times> provider_config) list \<Rightarrow> (string, ip_addr) hashmap \<Rightarrow>
     string + (string, ip_addr) hashmap" where
  "pin_providers io [] pinned = Inr pinned"
| "pin_providers io ((name, prov) # ps) pinned =
     (if \<not> prefix https (pc_upstream_base prov) then
        Inl (''credential gateway: provider '' @ quoted name @ '' upstream_base must use https://, got '' @
          quoted (pc_upstream_base prov))
      else case extract_host (pc_upstream_base prov) of
        None \<Rightarrow>
          Inl (''credential gateway: provider '' @ quoted name @ '' upstream_base '' @ quoted (pc_upstream_base prov) @
            '' is malformed '' @ em_dash @ '' must be https://hostname[/path] with no userinfo (user@host)'')
      | Some host \<Rightarrow>
          (case pin_addrs name prov host (case si_lookup io (host @ '':443'') of None \<Rightarrow> [] | Some as \<Rightarrow> as) pinned of
             Inl e \<Rightarrow> Inl e
           | Inr pinned' \<Rightarrow> pin_providers io ps pinned'))"

text \<open>No header that the gateway attaches may contain a control character.\<close>

definition is_control :: "char \<Rightarrow> bool" where
  "is_control c \<longleftrightarrow> (of_char c :: nat) < 32 \<or> (of_char c :: nat) = 127"

fun check_headers :: "(string \<times> provider_config) list \<Rightarrow> string option" where
  "check_headers [] = None"
| "check_headers ((name, prov) # ps) =
     (if (case pc_header_value_prefix prov of None \<Rightarrow> False | Some pfx \<Rightarrow> list_ex is_control pfx) then
        Some (''credential gateway: provider '' @ quoted name @ '' header_value_prefix must not contain '' @
          ''ASCII control characters (CRLF, NUL, TAB etc would allow HTTP header injection)'')
      else if (case pc_header_name prov of None \<Rightarrow> False | Some h \<Rightarrow> list_ex (\<lambda>c. is_control c \<or> c = CHR '':'') h) then
        Some (''credential gateway: provider '' @ quoted name @ '' header_name must not contain '' @
          ''ASCII control characters or colon (would allow HTTP header injection)'')
      else check_headers ps)"

definition load_cache :: "cred_lib \<Rightarrow> start_io \<Rightarrow> state_files \<Rightarrow> provider_config \<Rightarrow> oauth_cache" where
  "load_cache L io fs prov =
     (case pc_state_path prov of
        None \<Rightarrow> cache_new
      | Some sp \<Rightarrow> load_from_disk L (get fs sp) (si_now io) cache_new)"

definition load_caches ::
    "cred_lib \<Rightarrow> start_io \<Rightarrow> state_files \<Rightarrow> (string, provider_config) hashmap \<Rightarrow> (string, oauth_cache) hashmap" where
  "load_caches L io fs provs =
     map (\<lambda>(name, prov). (name, load_cache L io fs prov)) (filter (\<lambda>(_, prov). pc_auth_style prov = OauthBearer) provs)"

definition init_expiry :: "(string, oauth_cache) hashmap \<Rightarrow> (string, u64) hashmap" where
  "init_expiry caches =
     List.map_filter (\<lambda>(name, c). map_option (Pair name) (try_peek_expiry False c)) caches"

text \<open>\<open>open_caps_db\<close>: the rows whose key has the separator become counters.\<close>

definition cap_key :: "string \<Rightarrow> string \<Rightarrow> string" where
  "cap_key agent provider = agent @ [CHR 0x00] @ provider"

definition parse_cap_key :: "string \<Rightarrow> (string \<times> string) option" where
  "parse_cap_key k =
     (if CHR 0x00 \<in> set k
      then Some (takeWhile (\<lambda>c. c \<noteq> CHR 0x00) k, tl (dropWhile (\<lambda>c. c \<noteq> CHR 0x00) k)) else None)"

definition open_caps_db ::
    "start_io \<Rightarrow> string option \<Rightarrow> (string, u64) hashmap option \<times> (string \<times> string, u64) hashmap" where
  "open_caps_db io path =
     (case path of
        None \<Rightarrow> (None, [])
      | Some p \<Rightarrow>
          if p = [] then (None, [])
          else (case si_caps_rows io p of
                  None \<Rightarrow> (None, [])
                | Some rows \<Rightarrow>
                    (Some rows,
                     fold (\<lambda>(k, n) m. case parse_cap_key k of None \<Rightarrow> m | Some ap \<Rightarrow> put ap n m) rows [])))"

record provider_health_checkpoint =
  hc_recovery_kind :: string
  hc_reason :: string
  hc_since :: u64

definition parse_recovery_kind :: "string \<Rightarrow> recovery_kind" where
  "parse_recovery_kind s =
     (if s = ''reauth'' then Reauth
      else if s = ''config_fix'' then ConfigFix
      else if s = ''secret_replace'' then SecretReplace else ConfigFix)"

definition restore_health ::
    "(string, provider_health_checkpoint) hashmap \<Rightarrow> (string, provider_health_state) hashmap" where
  "restore_health health =
     map (\<lambda>(name, cp). (name, NeedsAttention (parse_recovery_kind (hc_recovery_kind cp)) (hc_reason cp) (hc_since cp))) health"

definition gateway_new ::
    "cred_lib \<Rightarrow> start_io \<Rightarrow> credential_gateway_config \<Rightarrow> state_files \<Rightarrow> flight_log \<Rightarrow>
     (string, provider_health_checkpoint) hashmap \<Rightarrow> string + gateway" where
  "gateway_new L io config fs recorder health =
     (case pin_providers io (cg_providers config) [] of
        Inl e \<Rightarrow> Inl e
      | Inr pinned \<Rightarrow>
          (case si_client io of
             Inl _ \<Rightarrow> Inl ''build credential gateway HTTP client''
           | Inr _ \<Rightarrow>
               (case check_headers (cg_providers config) of
                  Some e \<Rightarrow> Inl e
                | None \<Rightarrow>
                    let caches = load_caches L io fs (cg_providers config);
                        expiry = init_expiry caches
                    in case open_caps_db io (cg_caps_db_path config) of
                         (db, counters) \<Rightarrow>
                           Inr \<lparr>gw_config = config, gw_registry = [], gw_caches = caches, gw_pinned = pinned,
                                gw_counters = counters, gw_caps_db = db, gw_denied = [], gw_last_access = [],
                                gw_expiry = expiry, gw_last_refresh = map_values (\<lambda>_. si_now io) expiry,
                                gw_last_error = [], gw_states = restore_health health, gw_files = fs,
                                gw_log = recorder\<rparr>)))"

subsection \<open>The operations of the daemon on the gateway\<close>

definition register_token :: "string \<Rightarrow> string \<Rightarrow> string list \<Rightarrow> gateway \<Rightarrow> gateway" where
  "register_token token agent providers g =
     g\<lparr>gw_registry := registry_register token agent providers (gw_registry g)\<rparr>"

text \<open>\<open>remove_agent_caps\<close>; \<open>ok\<close>: the transaction on the database went through.\<close>

definition remove_agent_caps :: "bool \<Rightarrow> string \<Rightarrow> (string, u64) hashmap \<Rightarrow> (string, u64) hashmap" where
  "remove_agent_caps ok agent db =
     (if ok then filter (\<lambda>(k, _). \<not> prefix (agent @ [CHR 0x00]) k) db else db)"

definition forget :: "string \<Rightarrow> (string \<times> string, u64) hashmap \<Rightarrow> (string \<times> string, u64) hashmap" where
  "forget agent m = filter (\<lambda>((a, _), _). a \<noteq> agent) m"

definition deregister_token :: "bool \<Rightarrow> string \<Rightarrow> gateway \<Rightarrow> gateway" where
  "deregister_token ok token g0 =
     (case deregister_and_get_agent token (gw_registry g0) of
        (last_of, reg) \<Rightarrow>
          let g = g0\<lparr>gw_registry := reg\<rparr> in
          (case last_of of
             None \<Rightarrow> g
           | Some agent \<Rightarrow>
               g\<lparr>gw_counters := forget agent (gw_counters g), gw_denied := forget agent (gw_denied g),
                 gw_last_access := forget agent (gw_last_access g),
                 gw_caps_db := map_option (remove_agent_caps ok agent) (gw_caps_db g)\<rparr>))"

definition reset_attention :: "string \<Rightarrow> gateway \<Rightarrow> gateway \<times> bool" where
  "reset_attention provider g =
     (if \<not> contains_key (cg_providers (gw_config g)) provider then (g, False)
      else
        (gw_record ''credential_gateway'' EvCredentialRecovered
           [(''provider'', JStr provider), (''source'', JStr ''reset_attention'')]
           (note_error None provider
             (g\<lparr>gw_states := put provider Healthy (gw_states g),
                gw_caches := modify provider (\<lambda>c. c\<lparr>oc_token := None, oc_expires_at := 0\<rparr>) (gw_caches g)\<rparr>)),
         True))"

definition provider_health_checkpoints :: "gateway \<Rightarrow> (string, provider_health_checkpoint) hashmap" where
  "provider_health_checkpoints g =
     List.map_filter (\<lambda>(name, h). case h of
        Healthy \<Rightarrow> None
      | NeedsAttention rk reason since \<Rightarrow>
          Some (name, \<lparr>hc_recovery_kind = recovery_kind_str rk, hc_reason = reason, hc_since = since\<rparr>))
       (gw_states g)"

subsection \<open>What the gateway shows\<close>

record provider_health =
  ph_name :: string
  ph_token_fresh :: bool
  ph_last_refresh_at :: "u64 option"
  ph_expires_at :: "u64 option"
  ph_last_error :: "string option"
  ph_attention_reason :: "string option"
  ph_recovery_kind :: "string option"
  ph_attention_since :: "u64 option"

definition token_freshness ::
    "u64 \<Rightarrow> (string \<Rightarrow> string option) \<Rightarrow> string \<Rightarrow> gateway \<Rightarrow> bool \<times> u64 option" where
  "token_freshness now env name g =
     (let pcfg = get (cg_providers (gw_config g)) name in
      if map_option pc_auth_style pcfg = Some OauthBearer then
        let expires = (case get (gw_expiry g) name of None \<Rightarrow> 0 | Some e \<Rightarrow> e) in
        (saturating_add now TOKEN_EXPIRY_BUFFER_SECS < expires, if 0 < expires then Some expires else None)
      else
        (case Option.bind pcfg pc_secret_key of
           None \<Rightarrow> False
         | Some var \<Rightarrow> (case env var of None \<Rightarrow> False | Some v \<Rightarrow> v \<noteq> []), None))"

definition provider_snapshot ::
    "u64 \<Rightarrow> (string \<Rightarrow> string option) \<Rightarrow> gateway \<Rightarrow> string \<Rightarrow> provider_health" where
  "provider_snapshot now env g name =
     (case token_freshness now env name g of
        (fresh, expires) \<Rightarrow>
          (case (case get (gw_states g) name of
                   Some (NeedsAttention rk reason since) \<Rightarrow> (Some reason, Some (recovery_kind_str rk), Some since)
                 | _ \<Rightarrow> (None, None, None)) of
             (reason, rk, since) \<Rightarrow>
               \<lparr>ph_name = name, ph_token_fresh = fresh, ph_last_refresh_at = get (gw_last_refresh g) name,
                ph_expires_at = expires, ph_last_error = Option.bind (get (gw_last_error g) name) (\<lambda>e. e),
                ph_attention_reason = reason, ph_recovery_kind = rk, ph_attention_since = since\<rparr>))"

definition snapshot :: "u64 \<Rightarrow> (string \<Rightarrow> string option) \<Rightarrow> gateway \<Rightarrow> provider_health list" where
  "snapshot now env g = map (provider_snapshot now env g \<circ> fst) (cg_providers (gw_config g))"

text \<open>\<open>agent_grant_for\<close>; \<open>busy\<close>: the lock of the counters is taken, and no counts are shown.\<close>

definition of_agent :: "string \<Rightarrow> (string \<times> string, u64) hashmap \<Rightarrow> (string, u64) hashmap" where
  "of_agent agent m = map (\<lambda>((_, p), n). (p, n)) (filter (\<lambda>((a, _), _). a = agent) m)"

definition agent_grant_for ::
    "bool \<Rightarrow> string \<Rightarrow> gateway \<Rightarrow>
     string list \<times> (string, u64) hashmap \<times> (string, u64) hashmap \<times> (string, u64) hashmap" where
  "agent_grant_for busy agent g =
     (providers_for_agent agent (gw_registry g),
      if busy then [] else of_agent agent (gw_counters g),
      of_agent agent (gw_denied g), of_agent agent (gw_last_access g))"

subsection \<open>Tokens of the MCP servers (\<open>main.rs\<close>)\<close>

definition credential_allowed_providers :: "capability list option \<Rightarrow> string list" where
  "credential_allowed_providers caps =
     (case caps of
        None \<Rightarrow> []
      | Some cap_list \<Rightarrow>
          List.map_filter (\<lambda>c. case c of Credential p \<Rightarrow> Some (credential_provider_key p) | _ \<Rightarrow> None) cap_list)"

definition owning_agent_id :: "agent_config list \<Rightarrow> string \<Rightarrow> string" where
  "owning_agent_id agent_cfgs server_name =
     (case agent_cfgs of [] \<Rightarrow> server_name | [a] \<Rightarrow> ac_id a | _ \<Rightarrow> ''shared'')"

end
