(* ===== verification/Credential_Laws.thy ===== *)
theory Credential_Laws
  imports Credential
begin

section \<open>What the credential gateway guarantees\<close>

text \<open>
  The operations of the gateway as a step relation, and the locale \<open>gateway_invariant\<close>: what an
  invariant must satisfy of the elementary updates so that it holds in every state that the
  gateway can reach. Its interpretations give that every accepted token stands for the
  capabilities of a configured server, and that the health states follow the log. On top of
  them: a request is forwarded only within a capability, the credential is never a stale one,
  and the health of the providers survives a restart.
\<close>

subsection \<open>Steps\<close>

text \<open>A server of the configuration: its name and its capabilities.\<close>

type_synonym server = "string \<times> capability list option"

inductive gw_step :: "cred_lib \<Rightarrow> agent_config list \<Rightarrow> server set \<Rightarrow> gateway \<Rightarrow> gateway \<Rightarrow> bool"
  for L :: cred_lib and agents :: "agent_config list" and Srv :: "server set" where
  Request: "gw_step L agents Srv g (fst (handle_credential_request L io upstream req g))"
| Round: "gw_step L agents Srv g (fst (proactive_refresh_round L pio provider g))"
| Issue: "(name, caps) \<in> Srv \<Longrightarrow>
    gw_step L agents Srv g (register_token token (owning_agent_id agents name) (credential_allowed_providers caps) g)"
| Withdraw: "gw_step L agents Srv g (deregister_token ok token g)"
| Reset: "gw_step L agents Srv g (fst (reset_attention provider g))"

inductive gw_reach :: "cred_lib \<Rightarrow> agent_config list \<Rightarrow> server set \<Rightarrow> gateway \<Rightarrow> gateway \<Rightarrow> bool"
  for L :: cred_lib and agents :: "agent_config list" and Srv :: "server set" and g0 :: gateway where
  Start: "gw_reach L agents Srv g0 g0"
| Step: "gw_reach L agents Srv g0 g \<Longrightarrow> gw_step L agents Srv g g' \<Longrightarrow> gw_reach L agents Srv g0 g'"

subsection \<open>The part of the state that invariants read\<close>

definition gcore :: "gateway \<Rightarrow> credential_gateway_config \<times> cred_registry \<times> (string, provider_health_state) hashmap \<times> flight_log" where
  "gcore g = (gw_config g, gw_registry g, gw_states g, gw_log g)"

lemma gcore_simps [simp]:
  "gcore (g\<lparr>gw_counters := a\<rparr>) = gcore g" "gcore (g\<lparr>gw_caches := b\<rparr>) = gcore g"
  "gcore (g\<lparr>gw_denied := c\<rparr>) = gcore g" "gcore (g\<lparr>gw_last_access := d\<rparr>) = gcore g"
  "gcore (g\<lparr>gw_files := f\<rparr>) = gcore g" "gcore (g\<lparr>gw_caps_db := h\<rparr>) = gcore g"
  "gcore (note_error e p g) = gcore g" "gcore (note_expiry k n p g) = gcore g"
  "gcore (count_denied x p g) = gcore g"
  by (simp_all add: gcore_def note_error_def note_expiry_def count_denied_def split: option.split)

lemma gcore_get_cache: "get_cache p g = (c, g') \<Longrightarrow> gcore g' = gcore g"
  by (auto simp: get_cache_def split: option.splits)

lemma gcore_record: "gcore g' = gcore g \<Longrightarrow> gcore (gw_record w k d g') = gcore (gw_record w k d g)"
  by (simp add: gcore_def gw_record_def)

lemma gcore_needs_attention: "gcore g' = gcore g \<Longrightarrow> needs_attention p g' = needs_attention p g"
  by (simp add: gcore_def needs_attention_def)

lemma get_or_refresh_log:
  assumes "get_or_refresh L io p pcfg (c, fs, lg) = ((c', fs', lg'), res)"
  shows "lg' = lg \<or> (\<exists>d. lg' = record_event ''credential_gateway'' None EvCredentialRefreshFailed d lg)"
  using assms by (auto simp: get_or_refresh_def Let_def split: option.splits sum.splits prod.splits if_splits)

lemma refresh_provider_core:
  assumes "refresh_provider L io p pcfg g = (g', res)"
  shows "gcore g' = gcore g \<or> (\<exists>d. gcore g' = gcore (gw_record ''credential_gateway'' EvCredentialRefreshFailed d g))"
proof -
  obtain c g1 where c: "get_cache p g = (c, g1)" by fastforce
  obtain c' fs lg where r: "get_or_refresh L io p pcfg (c, gw_files g1, gw_log g1) = ((c', fs, lg), res)"
    and g': "g' = g1\<lparr>gw_caches := put p c' (gw_caches g1), gw_files := fs, gw_log := lg\<rparr>"
    using assms by (auto simp: refresh_provider_def c split: prod.splits)
  from get_or_refresh_log [OF r] gcore_get_cache [OF c] show ?thesis
    by (auto simp: g' gcore_def gw_record_def)
qed

subsection \<open>Invariants\<close>

locale gateway_invariant =
  fixes L :: cred_lib and agents :: "agent_config list" and Srv :: "server set" and Inv :: "gateway \<Rightarrow> bool"
  assumes frame: "Inv g \<Longrightarrow> gcore g' = gcore g \<Longrightarrow> Inv g'"
    and noted: "Inv g \<Longrightarrow> k \<noteq> EvCredentialAttentionRequired \<Longrightarrow> k \<noteq> EvCredentialRecovered \<Longrightarrow> Inv (gw_record w k d g)"
    and recovered: "Inv g \<Longrightarrow>
      Inv (gw_record w EvCredentialRecovered [(''provider'', JStr p), s] (g\<lparr>gw_states := put p Healthy (gw_states g)\<rparr>))"
    and alarmed: "Inv g \<Longrightarrow> \<not> needs_attention p g \<Longrightarrow>
      Inv (gw_record w EvCredentialAttentionRequired ((''provider'', JStr p) # d)
        (g\<lparr>gw_states := put p (NeedsAttention rk reason now) (gw_states g)\<rparr>))"
    and issued: "Inv g \<Longrightarrow> (name, caps) \<in> Srv \<Longrightarrow>
      Inv (register_token token (owning_agent_id agents name) (credential_allowed_providers caps) g)"
    and withdrawn: "Inv g \<Longrightarrow> Inv (g\<lparr>gw_registry := remove token (gw_registry g)\<rparr>)"
begin

lemma note_recovered_keeps: "Inv g \<Longrightarrow> Inv (note_recovered s p g)"
  by (simp add: note_recovered_def recovered)

lemma note_attention_keeps: "Inv g \<Longrightarrow> Inv (note_attention now p e g)"
  by (simp add: note_attention_def alarmed split: failure_class.split)

lemma note_error_keeps: "Inv g \<Longrightarrow> Inv (note_error e p g)"
  by (erule frame) simp

lemma note_expiry_keeps: "Inv g \<Longrightarrow> Inv (note_expiry b n p g)"
  by (erule frame) simp

lemma refresh_provider_keeps:
  assumes "Inv g" and "refresh_provider L io p pcfg g = (g', res)"
  shows "Inv g'"
  using refresh_provider_core [OF assms(2)]
proof (elim disjE exE)
  show "gcore g' = gcore g \<Longrightarrow> Inv g'" by (rule frame [OF assms(1)])
  show "gcore g' = gcore (gw_record ''credential_gateway'' EvCredentialRefreshFailed d g) \<Longrightarrow> Inv g'" for d
    by (rule frame [OF noted [OF assms(1)]]) simp_all
qed

lemmas note_keeps = note_recovered_keeps note_attention_keeps note_error_keeps note_expiry_keeps

lemma proactive_keeps: "Inv g \<Longrightarrow> Inv (fst (proactive_refresh_round L pio p g))"
  by (auto simp: proactive_refresh_round_def proactive_refresh_def intro!: note_keeps
    elim: refresh_provider_keeps split: option.split prod.split sum.split)

lemma deny_keeps: "Inv g \<Longrightarrow> Inv (deny_credential a p r g)"
  unfolding deny_credential_def by (rule frame [OF noted]) simp_all

lemma authorize_keeps: "Inv g \<Longrightarrow> cred_authorize L a al p g = (g', r) \<Longrightarrow> Inv g'"
  by (auto simp: cred_authorize_def deny_keeps noted split: if_splits option.splits)

lemma counters_keep: "Inv g \<Longrightarrow> Inv (g\<lparr>gw_counters := m\<rparr>)"
  by (erule frame) simp

lemma cap_keeps: "Inv g \<Longrightarrow> cred_cap L a p pcfg g = (g', r) \<Longrightarrow> Inv g'"
  by (auto simp: cred_cap_def noted counters_keep split: if_splits option.splits prod.splits)

lemma credential_keeps: "Inv g \<Longrightarrow> cred_credential L io a p pcfg g = (g', r) \<Longrightarrow> Inv g'"
  by (auto simp: cred_credential_def oauth_credential_def api_key_credential_def Let_def intro!: note_keeps noted
    elim: refresh_provider_keeps split: auth_style.splits prod.splits sum.splits if_splits option.splits)

lemma access_keeps: "Inv g \<Longrightarrow> Inv (note_access n a p rest m g)"
  unfolding note_access_def Let_def by (rule frame [OF noted]) simp_all

lemma prepare_keeps: "Inv g \<Longrightarrow> cred_prepare L io req g = (g', r) \<Longrightarrow> Inv g'"
  by (auto simp: cred_prepare_def split: sum.splits prod.splits option.splits)
    (meson authorize_keeps cap_keeps credential_keeps access_keeps)+

lemma finish_keeps: "Inv g \<Longrightarrow> Inv (fst (cred_finish L fwd out g))"
  by (auto simp: cred_finish_def Let_def intro: noted split: send_outcome.split sum.split)

lemma request_keeps: "Inv g \<Longrightarrow> Inv (fst (handle_credential_request L io up req g))"
  by (auto simp: handle_credential_request_def intro: finish_keeps dest: prepare_keeps split: prod.splits sum.splits)

lemma reset_keeps:
  assumes "Inv g"
  shows "Inv (fst (reset_attention p g))"
proof -
  have "gcore (fst (reset_attention p g)) =
      gcore (gw_record ''credential_gateway'' EvCredentialRecovered
        [(''provider'', JStr p), (''source'', JStr ''reset_attention'')] (g\<lparr>gw_states := put p Healthy (gw_states g)\<rparr>))"
    if "contains_key (cg_providers (gw_config g)) p"
    using that by (simp add: reset_attention_def gcore_def gw_record_def note_error_def)
  then show ?thesis using assms frame [OF recovered [OF assms]] by (cases "contains_key (cg_providers (gw_config g)) p") (auto simp: reset_attention_def)
qed

lemma deregister_keeps:
  assumes "Inv g"
  shows "Inv (deregister_token ok token g)"
proof -
  have "gcore (deregister_token ok token g) = gcore g \<or>
    gcore (deregister_token ok token g) = gcore (g\<lparr>gw_registry := remove token (gw_registry g)\<rparr>)"
    by (auto simp: deregister_token_def deregister_and_get_agent_def gcore_def Let_def split: option.split)
  then show ?thesis using assms frame withdrawn by blast
qed

lemma gw_step_keeps: "gw_step L agents Srv g g' \<Longrightarrow> Inv g \<Longrightarrow> Inv g'"
  by (induction rule: gw_step.induct) (auto intro: request_keeps proactive_keeps issued deregister_keeps reset_keeps)

lemma reachable: "gw_reach L agents Srv g0 g \<Longrightarrow> Inv g0 \<Longrightarrow> Inv g"
  by (induction rule: gw_reach.induct) (auto intro: gw_step_keeps)

end

subsection \<open>Tokens stand for capabilities\<close>

definition granted :: "agent_config list \<Rightarrow> server set \<Rightarrow> credential_gateway_config \<Rightarrow> gateway \<Rightarrow> bool" where
  "granted agents Srv config g \<longleftrightarrow> gw_config g = config \<and>
     (\<forall>token e. get (gw_registry g) token = Some e \<longrightarrow>
        (\<exists>name caps. (name, caps) \<in> Srv \<and> en_agent_id e = owning_agent_id agents name \<and>
           en_allowed_providers e = credential_allowed_providers caps))"

interpretation grants: gateway_invariant L agents Srv "granted agents Srv config" for L agents Srv config
proof unfold_locales
  show "granted agents Srv config g \<Longrightarrow> gcore g' = gcore g \<Longrightarrow> granted agents Srv config g'" for g g'
    by (simp add: granted_def gcore_def)
qed (force simp: granted_def gw_record_def register_token_def registry_register_def)+

lemma set_credential_allowed_providers:
  "q \<in> set (credential_allowed_providers caps) \<longleftrightarrow>
     (\<exists>cs p. caps = Some cs \<and> Credential p \<in> set cs \<and> credential_provider_key p = q)"
proof (cases caps)
  case (Some cs)
  have "q \<in> set (List.map_filter (\<lambda>c. case c of Credential p \<Rightarrow> Some (credential_provider_key p) | _ \<Rightarrow> None) cs) \<longleftrightarrow>
      (\<exists>p. Credential p \<in> set cs \<and> credential_provider_key p = q)"
    by (induction cs) (auto simp: List.map_filter_simps split: capability.splits)
  then show ?thesis by (simp add: Some credential_allowed_providers_def)
qed (simp add: credential_allowed_providers_def)

subsection \<open>What is forwarded\<close>

text \<open>The segments that the path normalisation drops.\<close>

definition dropped_segment :: "string \<Rightarrow> bool" where
  "dropped_segment s \<longleftrightarrow> s = [] \<or> s = ''..'' \<or> s = ''.'' \<or> to_ascii_lowercase s = ''%2e'' \<or> to_ascii_lowercase s = ''%2e%2e''"

lemma split_at_char_elems: "x \<in> set (split_at_char c s) \<Longrightarrow> c \<notin> set x"
  by (induction s arbitrary: x) (auto split: if_splits list.splits)

lemma join_slash: "ss \<noteq> [] \<Longrightarrow> ''/'' @ join ''/'' ss = concat (map ((#) CHR ''/'') ss)"
  by (induction ss rule: induct_list012) auto

lemma join_eq_Nil: "[] \<notin> set ss \<Longrightarrow> join ''/'' ss = [] \<longleftrightarrow> ss = []"
  by (cases ss rule: list.exhaust; cases "tl ss") auto

lemma upstream_url_below:
  "\<exists>segs. upstream_url pcfg rest query = trim_end_slashes (pc_upstream_base pcfg) @ concat (map ((#) CHR ''/'') segs) @ query \<and>
     list_all (\<lambda>s. \<not> dropped_segment s \<and> CHR ''/'' \<notin> set s) segs"
proof -
  let ?segs = "filter (\<lambda>s. \<not> dropped_segment s) (split_at_char (CHR ''/'') rest)"
  have n: "normalize_path_segment rest = join ''/'' ?segs"
    unfolding normalize_path_segment_def dropped_segment_def by (rule arg_cong [of _ _ "join _"]) (auto intro!: filter_cong)
  have "[] \<notin> set ?segs" by (simp add: dropped_segment_def)
  then have "upstream_url pcfg rest query = trim_end_slashes (pc_upstream_base pcfg) @ concat (map ((#) CHR ''/'') ?segs) @ query"
    using join_slash [of ?segs] join_eq_Nil [of ?segs] by (simp add: upstream_url_def n Let_def)
  then show ?thesis using split_at_char_elems by (intro exI [of _ ?segs]) (auto simp: list_all_iff)
qed

lemma cred_prepare_forwarded:
  assumes "cred_prepare L io req g = (g', Inr fwd)"
  obtains token allowed pcfg credential body g3 where
    "header_str (cl_http L) (rq_headers req) ''x-credential-token'' = Some token"
    "registry_lookup token (gw_registry g) = Some (cf_agent fwd, allowed)"
    "cf_provider fwd \<in> set allowed" "get (cg_providers (gw_config g)) (cf_provider fwd) = Some pcfg"
    "cf_upstream fwd = build_upstream L req pcfg (cf_rest fwd) credential body"
    "g' = note_access (ci_access_now io) (cf_agent fwd) (cf_provider fwd) (cf_rest fwd) (rq_method req) g3"
  using assms
  by (auto simp: cred_prepare_def cred_identify_def cred_authorize_def split: sum.splits prod.splits option.splits if_splits list.splits)


subsection \<open>The health states follow the log\<close>

text \<open>
  The reading of the log for one provider: whether it is in need of attention. A second alarm
  without a recovery in between is an error of the reading, \<open>None\<close>.
\<close>

definition health_event :: "string \<Rightarrow> event \<Rightarrow> bool option" where
  "health_event p e =
     (if json_get (ev_data e) ''provider'' \<noteq> Some (JStr p) then None
      else if ev_kind e = EvCredentialAttentionRequired then Some True
      else if ev_kind e = EvCredentialRecovered then Some False else None)"

definition read_health :: "string \<Rightarrow> event \<Rightarrow> bool option \<Rightarrow> bool option" where
  "read_health p e st =
     (case (st, health_event p e) of
        (None, _) \<Rightarrow> None
      | (Some a, None) \<Rightarrow> Some a
      | (Some a, Some True) \<Rightarrow> if a then None else Some True
      | (Some a, Some False) \<Rightarrow> Some False)"

definition health_from :: "string \<Rightarrow> bool \<Rightarrow> flight_log \<Rightarrow> bool option" where
  "health_from p a lg = fold (read_health p) lg (Some a)"

definition health_logged :: "gateway \<Rightarrow> gateway \<Rightarrow> bool" where
  "health_logged g0 g \<longleftrightarrow>
     (\<exists>new. gw_log g = gw_log g0 @ new \<and> (\<forall>p. health_from p (needs_attention p g0) new = Some (needs_attention p g)))"

lemma health_logged_extend:
  assumes "health_logged g0 g" and "gw_log g' = gw_log g @ [e]"
    and "\<And>p. read_health p e (Some (needs_attention p g)) = Some (needs_attention p g')"
  shows "health_logged g0 g'"
proof -
  from assms(1) obtain new where n: "gw_log g = gw_log g0 @ new"
    "\<And>p. health_from p (needs_attention p g0) new = Some (needs_attention p g)"
    unfolding health_logged_def by blast
  show ?thesis unfolding health_logged_def
    by (rule exI [of _ "new @ [e]"]) (use n assms(2,3) in \<open>simp add: health_from_def\<close>)
qed

lemma gw_log_record: "gw_log (gw_record w k d g) =
   gw_log g @ [\<lparr>ev_agent = w, ev_turn = None, ev_kind = k, ev_data = JObj d\<rparr>]"
  by (simp add: gw_record_def record_event_def)

lemma gw_log_record_states: "gw_log (gw_record w k d (g\<lparr>gw_states := ss\<rparr>)) =
   gw_log g @ [\<lparr>ev_agent = w, ev_turn = None, ev_kind = k, ev_data = JObj d\<rparr>]"
  by (simp add: gw_record_def record_event_def)

lemma needs_attention_record [simp]: "needs_attention p (gw_record w k d g) = needs_attention p g"
  by (simp add: needs_attention_def gw_record_def)

lemma needs_attention_states [simp]:
  "needs_attention p (g\<lparr>gw_states := put q h (gw_states g)\<rparr>) = (if p = q then is_attention_required h else needs_attention p g)"
  by (simp add: needs_attention_def)

interpretation health: gateway_invariant L agents Srv "health_logged g0" for L agents Srv g0
proof unfold_locales
  show "health_logged g0 g'" if "health_logged g0 g" "gcore g' = gcore g" for g g'
    using that gcore_needs_attention [OF that(2)] unfolding health_logged_def by (simp add: gcore_def)
  show "health_logged g0 (gw_record w k d g)"
    if "health_logged g0 g" "k \<noteq> EvCredentialAttentionRequired" "k \<noteq> EvCredentialRecovered" for g k w d
    by (rule health_logged_extend [OF that(1) gw_log_record]) (use that(2,3) in \<open>simp add: read_health_def health_event_def\<close>)
  show "health_logged g0 (gw_record w EvCredentialRecovered [(''provider'', JStr p), s] (g\<lparr>gw_states := put p Healthy (gw_states g)\<rparr>))"
    if "health_logged g0 g" for g p w s
    by (rule health_logged_extend [OF that gw_log_record_states])
      (simp add: read_health_def health_event_def json_get_def is_attention_required_def)
  show "health_logged g0 (gw_record w EvCredentialAttentionRequired ((''provider'', JStr p) # d)
      (g\<lparr>gw_states := put p (NeedsAttention rk reason now) (gw_states g)\<rparr>))"
    if "health_logged g0 g" "\<not> needs_attention p g" for g p w d rk reason now
    by (rule health_logged_extend [OF that(1) gw_log_record_states])
      (use that(2) in \<open>simp add: read_health_def health_event_def json_get_def is_attention_required_def\<close>)
  show "health_logged g0 (register_token token (owning_agent_id agents name) (credential_allowed_providers caps) g)"
    if "health_logged g0 g" for g token name caps
    using that by (simp add: health_logged_def register_token_def needs_attention_def)
  show "health_logged g0 (g\<lparr>gw_registry := remove token (gw_registry g)\<rparr>)" if "health_logged g0 g" for g token
    using that by (simp add: health_logged_def needs_attention_def)
qed


subsection \<open>Health survives a restart\<close>

interpretation health_keys: gateway_invariant L agents Srv "\<lambda>g. distinct (map fst (gw_states g))" for L agents Srv
  by unfold_locales (simp_all add: gcore_def gw_record_def register_token_def distinct_update)

lemma parse_recovery_kind_str [simp]: "parse_recovery_kind (recovery_kind_str rk) = rk"
  by (cases rk) (simp_all add: parse_recovery_kind_def)

lemma restore_checkpoints:
  "restore_health (provider_health_checkpoints g) = filter (is_attention_required \<circ> snd) (gw_states g)"
proof -
  have "restore_health (List.map_filter (\<lambda>(name, h). case h of Healthy \<Rightarrow> None
      | NeedsAttention rk reason since \<Rightarrow> Some (name, \<lparr>hc_recovery_kind = recovery_kind_str rk, hc_reason = reason, hc_since = since\<rparr>)) ss) =
    filter (is_attention_required \<circ> snd) ss" for ss
    by (induction ss)
      (auto simp: restore_health_def List.map_filter_simps is_attention_required_def split: provider_health_state.splits)
  then show ?thesis by (simp add: provider_health_checkpoints_def)
qed

lemma get_filter_distinct:
  "distinct (map fst m) \<Longrightarrow> get (filter (P \<circ> snd) m) k = (case get m k of None \<Rightarrow> None | Some v \<Rightarrow> if P v then Some v else None)"
  by (induction m) (auto split: option.splits dest: map_of_SomeD simp: image_iff)

text \<open>
  A provider that needs attention does so after a restart from the checkpoint, with the same
  recovery, reason and date, and no other provider does.
\<close>

theorem health_survives_restart:
  assumes "gateway_new L sio config fs lg [] = Inr g0" and "gw_reach L agents Srv g0 g"
    and "gateway_new L sio' config' fs' lg' (provider_health_checkpoints g) = Inr g1"
  shows "needs_attention p g1 = needs_attention p g \<and>
    (needs_attention p g \<longrightarrow> get (gw_states g1) p = get (gw_states g) p)"
proof -
  have "gw_states g0 = []" using assms(1)
    by (auto simp: gateway_new_def restore_health_def Let_def split: sum.splits option.splits prod.splits)
  then have d: "distinct (map fst (gw_states g))" using health_keys.reachable [OF assms(2)] by simp
  have "gw_states g1 = filter (is_attention_required \<circ> snd) (gw_states g)" using assms(3)
    by (auto simp: gateway_new_def restore_checkpoints Let_def split: sum.splits option.splits prod.splits)
  then show ?thesis by (simp add: needs_attention_def get_filter_distinct [OF d] split: option.split)
qed

subsection \<open>The checks at the start\<close>

definition all_public :: "(string, ip_addr) hashmap \<Rightarrow> bool" where
  "all_public pinned \<longleftrightarrow> (\<forall>host ip. get pinned host = Some ip \<longrightarrow> \<not> is_ssrf_blocked ip)"

lemma pin_addrs_sound:
  assumes "pin_addrs name prov host ips pinned = Inr pinned'"
  shows "list_all (\<lambda>ip. \<not> is_ssrf_blocked ip) ips" "all_public pinned \<Longrightarrow> all_public pinned'"
    "contains_key pinned h \<Longrightarrow> contains_key pinned' h" "ips \<noteq> [] \<Longrightarrow> contains_key pinned' host"
proof -
  have "list_all (\<lambda>ip. \<not> is_ssrf_blocked ip) ips \<and> (all_public pinned \<longrightarrow> all_public pinned') \<and>
      (\<forall>h. contains_key pinned h \<longrightarrow> contains_key pinned' h) \<and> (ips \<noteq> [] \<longrightarrow> contains_key pinned' host)"
    using assms
  proof (induction ips arbitrary: pinned)
    case (Cons ip ips)
    then have b: "\<not> is_ssrf_blocked ip" and p: "pin_addrs name prov host ips (or_insert host ip pinned) = Inr pinned'"
      by (auto split: if_splits)
    have "all_public (or_insert host ip pinned)" if "all_public pinned" using b that by (simp add: all_public_def)
    moreover have "contains_key (or_insert host ip pinned) host" by simp
    moreover have "contains_key (or_insert host ip pinned) h" if "contains_key pinned h" for h using that by auto
    ultimately show ?case using Cons.IH [OF p] b by simp
  qed simp
  then show "list_all (\<lambda>ip. \<not> is_ssrf_blocked ip) ips" "all_public pinned \<Longrightarrow> all_public pinned'"
    "contains_key pinned h \<Longrightarrow> contains_key pinned' h" "ips \<noteq> [] \<Longrightarrow> contains_key pinned' host" by simp_all
qed

text \<open>What the start guarantees of one provider.\<close>

definition provider_guarded :: "start_io \<Rightarrow> (string, ip_addr) hashmap \<Rightarrow> provider_config \<Rightarrow> bool" where
  "provider_guarded io pinned prov \<longleftrightarrow>
     (\<exists>host. extract_host (pc_upstream_base prov) = Some host \<and>
        (case si_lookup io (host @ '':443'') of
           None \<Rightarrow> True
         | Some ips \<Rightarrow> list_all (\<lambda>ip. \<not> is_ssrf_blocked ip) ips \<and> (ips \<noteq> [] \<longrightarrow> contains_key pinned host)))"

lemma provider_guarded_mono:
  "provider_guarded io pinned prov \<Longrightarrow> (\<And>h. contains_key pinned h \<Longrightarrow> contains_key pinned' h) \<Longrightarrow> provider_guarded io pinned' prov"
  unfolding provider_guarded_def by (force split: option.splits)

lemma pin_providers_sound:
  assumes "pin_providers io ps pinned = Inr pinned'" and "all_public pinned"
  shows "all_public pinned' \<and> (\<forall>h. contains_key pinned h \<longrightarrow> contains_key pinned' h) \<and>
    (\<forall>np \<in> set ps. provider_guarded io pinned' (snd np))"
  using assms
proof (induction ps arbitrary: pinned)
  case (Cons np ps)
  obtain name prov where np: "np = (name, prov)" by fastforce
  from Cons.prems(1) obtain host p1 where h: "extract_host (pc_upstream_base prov) = Some host"
    and a: "pin_addrs name prov host (case si_lookup io (host @ '':443'') of None \<Rightarrow> [] | Some as \<Rightarrow> as) pinned = Inr p1"
    and r: "pin_providers io ps p1 = Inr pinned'"
    by (auto simp: np split: if_splits option.splits sum.splits)
  note IH = Cons.IH [OF r pin_addrs_sound(2) [OF a Cons.prems(2)]]
  have "provider_guarded io p1 prov"
    unfolding provider_guarded_def using h pin_addrs_sound(1,4) [OF a] by (auto split: option.splits)
  then have "provider_guarded io pinned' prov" using IH by (auto intro: provider_guarded_mono)
  then show ?case using IH pin_addrs_sound(3) [OF a] by (simp add: np)
qed simp

definition header_safe :: "provider_config \<Rightarrow> bool" where
  "header_safe prov \<longleftrightarrow> (\<forall>h. pc_header_name prov = Some h \<longrightarrow> \<not> list_ex is_control h \<and> CHR '':'' \<notin> set h) \<and>
     (\<forall>pfx. pc_header_value_prefix prov = Some pfx \<longrightarrow> \<not> list_ex is_control pfx)"

lemma list_ex_disj: "list_ex (\<lambda>x. P x \<or> x = c) xs \<longleftrightarrow> list_ex P xs \<or> c \<in> set xs"
  by (induction xs) auto

lemma check_headers_Cons: "check_headers ((n, prov) # ps) = None \<Longrightarrow> header_safe prov \<and> check_headers ps = None"
  by (cases "pc_header_name prov"; cases "pc_header_value_prefix prov")
    (simp_all add: header_safe_def list_ex_disj split: if_splits)

lemma check_headers_sound: "check_headers ps = None \<Longrightarrow> np \<in> set ps \<Longrightarrow> header_safe (snd np)"
proof (induction ps)
  case (Cons a ps)
  then show ?case using check_headers_Cons [of "fst a" "snd a" ps] by auto
qed simp

text \<open>
  A gateway that starts has checked every provider it will ever forward to: the base URL is https
  with a well-formed host, every address the host resolved to is public and one of them is
  pinned, and no configured header name or prefix can break out of its line. No step changes the
  configuration.
\<close>

theorem started_gateway_is_guarded:
  assumes "gateway_new L sio config fs lg health = Inr g0" and "gw_reach L agents Srv g0 g"
    and "get (cg_providers (gw_config g)) p = Some prov"
  shows "provider_guarded sio (gw_pinned g0) prov \<and> all_public (gw_pinned g0) \<and> header_safe prov"
proof -
  from assms(1) have pins: "pin_providers sio (cg_providers config) [] = Inr (gw_pinned g0)"
    and heads: "check_headers (cg_providers config) = None" and "granted agents Srv config g0"
    by (auto simp: gateway_new_def granted_def Let_def split: sum.splits option.splits prod.splits)
  with grants.reachable [OF assms(2)] have "gw_config g = config" by (simp add: granted_def)
  then have np: "(p, prov) \<in> set (cg_providers config)" using map_of_SomeD [OF assms(3)] by simp
  have "all_public []" by (simp add: all_public_def)
  from pin_providers_sound [OF pins this] check_headers_sound [OF heads np] np show ?thesis by force
qed

end
