(* ===== verification/Credential_Cap.thy ===== *)
theory Credential_Cap
  imports Credential
begin

section \<open>The request cap under interleaving\<close>

text \<open>
  Step 5b of \<open>handle_credential_request\<close> is two atomic operations on a shared counter: \<open>fetch_add\<close>, and for
  a request over the limit \<open>fetch_sub\<close>. Requests run on several threads, so between the two any
  number of others may add and subtract. Here the two are separate steps of a relation over the
  counters, which also keeps, for each agent and provider, how many requests arrived, how many
  were admitted, and how many were refused and have not yet taken their increment back.

  \<open>K\<close> bounds the refusals in flight at one time; the limit and \<open>K\<close> together stay below \<open>2 ^ 64\<close>, so
  that the counter does not wrap. A withdrawal of the agent's last token starts the count anew.
\<close>

type_synonym cap_id = "string \<times> string"

record cap_world =
  cw_counters :: "(cap_id, u64) hashmap"
  cw_arrived :: "cap_id \<Rightarrow> nat"
  cw_admitted :: "cap_id \<Rightarrow> nat"
  cw_rejecting :: "cap_id \<Rightarrow> nat"

inductive cap_step :: "(cap_id \<Rightarrow> u64) \<Rightarrow> nat \<Rightarrow> cap_world \<Rightarrow> cap_world \<Rightarrow> bool"
  for limit :: "cap_id \<Rightarrow> u64" and K :: nat where
  Admit: "fetch_add k (cw_counters w) = (prev, m) \<Longrightarrow> \<not> limit k \<le> prev \<Longrightarrow>
    cap_step limit K w (w\<lparr>cw_counters := m, cw_arrived := (cw_arrived w)(k := cw_arrived w k + 1),
      cw_admitted := (cw_admitted w)(k := cw_admitted w k + 1)\<rparr>)"
| Refuse: "fetch_add k (cw_counters w) = (prev, m) \<Longrightarrow> limit k \<le> prev \<Longrightarrow> cw_rejecting w k < K \<Longrightarrow>
    cap_step limit K w (w\<lparr>cw_counters := m, cw_arrived := (cw_arrived w)(k := cw_arrived w k + 1),
      cw_rejecting := (cw_rejecting w)(k := cw_rejecting w k + 1)\<rparr>)"
| Rollback: "0 < cw_rejecting w k \<Longrightarrow>
    cap_step limit K w (w\<lparr>cw_counters := fetch_sub k (cw_counters w),
      cw_rejecting := (cw_rejecting w)(k := cw_rejecting w k - 1)\<rparr>)"

definition no_requests :: cap_world where
  "no_requests = \<lparr>cw_counters = [], cw_arrived = (\<lambda>_. 0), cw_admitted = (\<lambda>_. 0), cw_rejecting = (\<lambda>_. 0)\<rparr>"

definition cap_count :: "cap_id \<Rightarrow> (cap_id, u64) hashmap \<Rightarrow> nat" where
  "cap_count k m = (case get m k of None \<Rightarrow> 0 | Some n \<Rightarrow> unat n)"

lemma fetch_add_value: "unat (fst (fetch_add k m)) = cap_count k m"
  by (auto simp: fetch_add_def cap_count_def Let_def split: option.splits)

lemma fetch_add_count:
  "cap_count k' (snd (fetch_add k m)) = (if k' = k then (cap_count k m + 1) mod 2 ^ 64 else cap_count k' m)"
  by (auto simp: fetch_add_def cap_count_def Let_def unat_word_ariths split: option.splits)

lemma fetch_sub_count:
  "0 < cap_count k m \<Longrightarrow> cap_count k' (fetch_sub k m) = (if k' = k then cap_count k m - 1 else cap_count k' m)"
  by (auto simp: fetch_sub_def cap_count_def unat_minus_one unat_gt_0 split: option.splits)

text \<open>The bookkeeping of one agent and provider: counter, arrivals, admissions, pending refusals.\<close>

definition cap_book :: "nat \<Rightarrow> nat \<Rightarrow> nat \<Rightarrow> nat \<Rightarrow> nat \<Rightarrow> nat \<Rightarrow> bool" where
  "cap_book lm K n arrived admitted rejecting \<longleftrightarrow>
     n = admitted + rejecting \<and> admitted = min lm arrived \<and> rejecting \<le> K \<and> (0 < rejecting \<longrightarrow> lm \<le> arrived)"

lemma cap_book_admit:
  "cap_book lm K n a ad r \<Longrightarrow> n < lm \<Longrightarrow> lm + K < 2 ^ 64 \<Longrightarrow> cap_book lm K ((n + 1) mod 2 ^ 64) (a + 1) (ad + 1) r"
  by (auto simp: cap_book_def)

lemma cap_book_refuse:
  "cap_book lm K n a ad r \<Longrightarrow> lm \<le> n \<Longrightarrow> r < K \<Longrightarrow> lm + K < 2 ^ 64 \<Longrightarrow> cap_book lm K ((n + 1) mod 2 ^ 64) (a + 1) ad (r + 1)"
  by (auto simp: cap_book_def)

lemma cap_book_rollback: "cap_book lm K n a ad r \<Longrightarrow> 0 < r \<Longrightarrow> 0 < n \<and> cap_book lm K (n - 1) a ad (r - 1)"
  by (auto simp: cap_book_def)

definition cap_ok :: "(cap_id \<Rightarrow> u64) \<Rightarrow> nat \<Rightarrow> cap_world \<Rightarrow> cap_id \<Rightarrow> bool" where
  "cap_ok limit K w k =
     cap_book (unat (limit k)) K (cap_count k (cw_counters w)) (cw_arrived w k) (cw_admitted w k) (cw_rejecting w k)"

lemma cap_step_ok:
  assumes "cap_step limit K w w'" and ok: "\<And>k. cap_ok limit K w k" and K: "\<And>k. unat (limit k) + K < 2 ^ 64"
  shows "cap_ok limit K w' k'"
  using assms(1)
proof cases
  case (Admit k prev m)
  have n: "cap_count k (cw_counters w) < unat (limit k)"
    using Admit(2,3) fetch_add_value [of k "cw_counters w"] by (simp add: word_le_nat_alt)
  show ?thesis using cap_book_admit [OF ok [of k, unfolded cap_ok_def] n K] ok [of k'] fetch_add_count [of k' k "cw_counters w"]
    by (simp add: cap_ok_def Admit(1,2))
next
  case (Refuse k prev m)
  have n: "unat (limit k) \<le> cap_count k (cw_counters w)"
    using Refuse(2,3) fetch_add_value [of k "cw_counters w"] by (simp add: word_le_nat_alt)
  show ?thesis using cap_book_refuse [OF ok [of k, unfolded cap_ok_def] n Refuse(4) K] ok [of k'] fetch_add_count [of k' k "cw_counters w"]
    by (simp add: cap_ok_def Refuse(1,2))
next
  case (Rollback k)
  note b = cap_book_rollback [OF ok [of k, unfolded cap_ok_def] Rollback(2)]
  show ?thesis using b ok [of k'] fetch_sub_count [OF conjunct1 [OF b], of k'] by (simp add: cap_ok_def Rollback(1))
qed

lemma cap_reach_ok:
  assumes "(cap_step limit K)\<^sup>*\<^sup>* no_requests w" and "\<And>k. unat (limit k) + K < 2 ^ 64"
  shows "cap_ok limit K w k"
  using assms(1)
proof (induction arbitrary: k rule: rtranclp_induct)
  case base
  show ?case by (simp add: cap_ok_def cap_book_def no_requests_def cap_count_def)
next
  case (step w w')
  then show ?case using cap_step_ok assms(2) by blast
qed

text \<open>The handler performs these operations on the counters of the gateway.\<close>

lemma cred_cap_operations:
  assumes "pc_max_requests_per_agent pcfg = Some limit" and "cred_cap L a p pcfg g = (g', r)"
    and "fetch_add (a, p) (gw_counters g) = (prev, m)"
  shows "(\<exists>resp. r = Inl resp \<and> hr_status resp = 429) \<and> limit \<le> prev \<and> gw_counters g' = fetch_sub (a, p) m \<or>
    r = Inr () \<and> \<not> limit \<le> prev \<and> gw_counters g' = m"
  using assms by (auto simp: cred_cap_def gw_record_def json_response_def split: if_splits)

text \<open>
  C16. Under every interleaving of the requests on any number of threads, the cap of an agent for a
  provider is exact: of the requests that arrived, as many were admitted as the limit allows,
  none over it and none refused below it.
\<close>

theorem request_cap_is_exact:
  assumes "(cap_step limit K)\<^sup>*\<^sup>* no_requests w" and "\<And>k. unat (limit k) + K < 2 ^ 64"
  shows "cw_admitted w k = min (unat (limit k)) (cw_arrived w k)"
  using cap_reach_ok [OF assms, of k] by (simp add: cap_ok_def cap_book_def)

end
