(* ===== verification/Credential_Refresh.thy ===== *)
theory Credential_Refresh
  imports Credential
begin

section \<open>Tokens and their refresh\<close>

text \<open>
  What \<open>get_or_refresh\<close> returns and leaves behind: the token is live or new from an endpoint that
  passed the checks, a failure changes nothing unless the time ran out while the state was being
  written, the state file is old or new but never torn, and a restart resumes the token. Two
  findings: a refresh that does not rotate the refresh token drops the rotated one from the state
  file, and the background refresh does not refresh before the last minute.
\<close>

subsection \<open>The two ways to a token\<close>

lemma refresh_target_checked:
  assumes "refresh_target L io p pcfg = Inr secrets"
  shows "\<exists>host. extract_host (secrets_token_url secrets) = Some host \<and>
    (\<forall>ips. ri_lookup io (host @ '':443'') = Some ips \<longrightarrow> list_all (\<lambda>ip. \<not> is_ssrf_blocked ip) ips)"
  using assms
  by (auto simp: refresh_target_def Let_def find_None_iff list_all_iff split: if_splits sum.splits option.splits)

lemma request_token_reply:
  assumes "request_token L io secrets rt = Inr r"
  shows "\<exists>status b. ri_post io (secrets_token_url secrets) (token_params secrets rt) = PostReply status (Inr b) \<and>
    is_success status \<and> cl_token_response L b = Inr r"
  using assms by (auto simp: request_token_def split: token_post.splits if_splits sum.splits)

text \<open>The new state of the cache and of the files when the endpoint has answered.\<close>

definition after_reply ::
    "cred_lib \<Rightarrow> refresh_io \<Rightarrow> provider_config \<Rightarrow> token_response \<Rightarrow> oauth_cache \<Rightarrow> state_files \<Rightarrow> oauth_cache \<times> state_files" where
  "after_reply L io pcfg r c fs =
     (cache_update (ri_now io) r c,
      case pc_state_path pcfg of
        None \<Rightarrow> fs
      | Some path \<Rightarrow> fst (write_state_atomic (ri_write io) path (cl_state_print L (persisted_state (ri_now io) r)) fs))"

lemma get_or_refresh_cases:
  assumes "get_or_refresh L io p pcfg (c, fs, lg) = ((c', fs', lg'), res)"
  obtains
    (cached) tok where "cached_token (ri_now io) c = Some tok" "c' = c" "fs' = fs" "lg' = lg" "res = Inr tok"
  | (failed) e where "cached_token (ri_now io) c = None" "c' = c" "fs' = fs" "lg' = lg" "res = Inl e"
  | (replied) secrets r where "cached_token (ri_now io) c = None" "refresh_target L io p pcfg = Inr secrets"
      "request_token L io secrets (refresh_token_for c secrets) = Inr r" "(c', fs') = after_reply L io pcfg r c fs"
      "res = Inr (tr_access_token r) \<or> ri_timeout io = DuringWrite \<and> res = Inl (timed_out p)"
proof (cases "cached_token (ri_now io) c")
  case (Some tok)
  then have "c' = c \<and> fs' = fs \<and> lg' = lg \<and> res = Inr tok" using assms by (simp add: get_or_refresh_def)
  then show ?thesis using cached [OF Some] by blast
next
  case none: None
  show ?thesis
  proof (cases "\<exists>secrets r. refresh_target L io p pcfg = Inr secrets \<and>
      request_token L io secrets (refresh_token_for c secrets) = Inr r \<and> \<not> (ri_timeout io = BeforeReply \<and> token_path_of pcfg \<noteq> [])")
    case True
    then obtain secrets r where r: "refresh_target L io p pcfg = Inr secrets"
      "request_token L io secrets (refresh_token_for c secrets) = Inr r" "\<not> (ri_timeout io = BeforeReply \<and> token_path_of pcfg \<noteq> [])" by blast
    have "(c', fs') = after_reply L io pcfg r c fs"
      "res = Inr (tr_access_token r) \<or> ri_timeout io = DuringWrite \<and> res = Inl (timed_out p)"
      using assms none r by (auto simp: get_or_refresh_def after_reply_def Let_def split: option.splits prod.splits if_splits)
    then show ?thesis using replied [OF none r(1,2)] by blast
  next
    case False
    then have "\<exists>e. c' = c \<and> fs' = fs \<and> lg' = lg \<and> res = Inl e"
      using assms none by (auto simp: get_or_refresh_def split: sum.splits if_splits)
    then show ?thesis using failed [OF none] by blast
  qed
qed


subsection \<open>Failures\<close>

lemma write_state_atomic_path:
  "get (fst (write_state_atomic fault path data fs)) path = (if fault = NoFault then Some data else get fs path)"
  by (cases fault) (simp_all add: write_state_atomic_def tmp_path_def Let_def)

lemma write_state_atomic_other:
  "q \<noteq> path \<Longrightarrow> q \<noteq> tmp_path path \<Longrightarrow> get (fst (write_state_atomic fault path data fs)) q = get fs q"
  by (cases fault) (simp_all add: write_state_atomic_def Let_def)

text \<open>
  A refresh that fails leaves the cache, the files and the log as they were, except when the time
  ran out while the state was being written, and then the new token is in the cache and the next
  request finds it. Whatever fails, the state file of the provider is the old one or the complete
  new one.
\<close>

theorem failed_refresh_is_harmless:
  assumes "get_or_refresh L io p pcfg (c, fs, lg) = ((c', fs', lg'), res)"
  shows "(\<forall>e. res = Inl e \<longrightarrow> c' = c \<and> fs' = fs \<and> lg' = lg \<or>
      ri_timeout io = DuringWrite \<and> (\<exists>r. c' = cache_update (ri_now io) r c)) \<and>
    (\<forall>path. pc_state_path pcfg = Some path \<longrightarrow>
      get fs' path = get fs path \<or> (\<exists>r. get fs' path = Some (cl_state_print L (persisted_state (ri_now io) r))))"
  using assms
proof (cases rule: get_or_refresh_cases)
  case (replied secrets r)
  then show ?thesis
    by (auto simp: after_reply_def write_state_atomic_path split: option.splits)
qed simp_all

subsection \<open>Restarts\<close>

text \<open>What the code relies on of \<open>serde_json\<close>: it reads back the state it wrote.\<close>

definition state_roundtrip :: "cred_lib \<Rightarrow> bool" where
  "state_roundtrip L \<longleftrightarrow> (\<forall>st. cl_state_parse L (cl_state_print L st) = Some st)"

lemma reloaded:
  assumes "state_roundtrip L" and "get fs path = Some (cl_state_print L (persisted_state now r))"
  shows "load_from_disk L (get fs path) t cache_new =
    (if new_expiry now r \<le> t + TOKEN_EXPIRY_BUFFER_SECS \<or> tr_access_token r = [] then cache_new
     else \<lparr>oc_token = Some (tr_access_token r), oc_expires_at = new_expiry now r, oc_refresh_token = tr_refresh_token r\<rparr>)"
  using assms by (simp add: load_from_disk_def state_roundtrip_def persisted_state_def cache_new_def)

text \<open>
  After a refresh whose state was written, a daemon that restarts while the token is valid serves
  the same token, without a request to the endpoint.
\<close>

theorem restart_resumes_the_token:
  assumes "state_roundtrip L" and "pc_state_path pcfg = Some path" and "ri_write io = NoFault"
    and "get_or_refresh L io p pcfg (c, fs, lg) = ((c', fs', lg'), Inr tok)" and "c' \<noteq> c" and "tok \<noteq> []"
    and "t + TOKEN_EXPIRY_BUFFER_SECS < oc_expires_at c'" and "ri_now io' = t"
  shows "get_or_refresh L io' p pcfg (load_from_disk L (get fs' path) t cache_new, fs', lg'') =
    ((load_from_disk L (get fs' path) t cache_new, fs', lg''), Inr tok)"
  using assms(4)
proof (cases rule: get_or_refresh_cases)
  case (replied secrets r)
  then have r: "tok = tr_access_token r" "c' = cache_update (ri_now io) r c" by (auto simp: after_reply_def)
  have "get fs' path = Some (cl_state_print L (persisted_state (ri_now io) r))"
    using replied(4) assms(2,3) by (simp add: after_reply_def write_state_atomic_path)
  from reloaded [OF assms(1) this] have "cached_token t (load_from_disk L (get fs' path) t cache_new) = Some tok"
    using assms(6,7) r by (simp add: cached_token_def cache_update_def flip: not_less)
  then show ?thesis using assms(8) by (simp add: get_or_refresh_def)
qed (use assms(5) in simp_all)

subsection \<open>The rotated refresh token is lost\<close>

text \<open>
  C36. The state file records the refresh token of the last answer only. When the endpoint rotated the
  token once and then refreshes without rotating it, the running daemon keeps the rotated token,
  but a restart at any time comes up without it and falls back to the one in the secrets file,
  which the rotation may have revoked.
\<close>

theorem rotated_token_is_forgotten:
  assumes "state_roundtrip L" and "pc_state_path pcfg = Some path" and "ri_write io = NoFault"
    and "cached_token (ri_now io) c = None" and "refresh_target L io p pcfg = Inr secrets" and "ri_timeout io = InTime"
    and "request_token L io secrets (refresh_token_for c secrets) = Inr r"
    and "oc_refresh_token c = Some rotated" and "tr_refresh_token r = None"
  shows "\<exists>c' fs' tok. get_or_refresh L io p pcfg (c, fs, lg) = ((c', fs', lg), Inr tok) \<and>
    refresh_token_for c' secrets = rotated \<and>
    refresh_token_for (load_from_disk L (get fs' path) t cache_new) secrets = os_refresh_token secrets"
proof -
  let ?data = "cl_state_print L (persisted_state (ri_now io) r)"
  obtain fs' where w: "write_state_atomic NoFault path ?data fs = (fs', Inr ())"
    by (simp add: write_state_atomic_def Let_def)
  have "get fs' path = Some ?data" using write_state_atomic_path [of NoFault path ?data fs] w by simp
  from reloaded [OF assms(1) this, of t]
  have "refresh_token_for (load_from_disk L (get fs' path) t cache_new) secrets = os_refresh_token secrets"
    using assms(9) by (auto simp: refresh_token_for_def cache_new_def split: if_splits)
  moreover have "get_or_refresh L io p pcfg (c, fs, lg) = ((cache_update (ri_now io) r c, fs', lg), Inr (tr_access_token r))"
    using assms w by (simp add: get_or_refresh_def Let_def)
  moreover have "refresh_token_for (cache_update (ri_now io) r c) secrets = rotated"
    using assms(8,9) by (simp add: refresh_token_for_def cache_update_def)
  ultimately show ?thesis by blast
qed

subsection \<open>The background refresh waits for the last minute\<close>

text \<open>
  C37. The background task wakes five minutes before a token expires, in order to refresh it, but asks
  \<open>get_or_refresh\<close>, which hands out the cached token until a minute before its expiry. So during
  the first four of the five minutes a round refreshes nothing: the cache and the files stay as
  they are, and the task goes to sleep for another minute.
\<close>

theorem background_refresh_is_late:
  assumes "get (gw_caches g) p = Some c" and "oc_token c = Some tok" and "get (cg_providers (gw_config g)) p = Some pcfg"
    and "\<not> pr_contended io" and "oc_expires_at c \<le> pr_now io + PROACTIVE_REFRESH_LEAD_SECS"
    and "ri_now (ci_refresh io) + TOKEN_EXPIRY_BUFFER_SECS < oc_expires_at c"
  shows "get (gw_caches (fst (proactive_refresh_round L io p g))) p = Some c \<and>
    gw_files (fst (proactive_refresh_round L io p g)) = gw_files g \<and> snd (proactive_refresh_round L io p g) = 60"
proof -
  have "cached_token (ri_now (ci_refresh io)) c = Some tok" using assms(2,6) by (simp add: cached_token_def)
  then have r: "refresh_provider L (ci_refresh io) p pcfg g =
      (g\<lparr>gw_caches := put p c (gw_caches g), gw_files := gw_files g, gw_log := gw_log g\<rparr>, Inr tok)"
    using assms(1) by (simp add: refresh_provider_def get_cache_def get_or_refresh_def)
  have n: "gw_caches (note_error e q h) = gw_caches h" "gw_caches (note_expiry b m q h) = gw_caches h"
    "gw_caches (note_recovered s q h) = gw_caches h" "gw_files (note_error e q h) = gw_files h"
    "gw_files (note_expiry b m q h) = gw_files h" "gw_files (note_recovered s q h) = gw_files h" for e q h b m s
    by (simp_all add: note_error_def note_expiry_def note_recovered_def gw_record_def split: option.split)
  have "proactive_refresh_round L io p g = (proactive_refresh L (cred_io.truncate io) p pcfg g, 60)"
    using assms(1-4) leD [OF assms(5)] by (simp add: proactive_refresh_round_def try_peek_expiry_def)
  then show ?thesis by (simp add: proactive_refresh_def r n cred_io.truncate_def)
qed

end
