(* ===== verification/Credential_Samples.thy ===== *)
theory Credential_Samples
  imports Credential_Laws Credential_Cap Credential_Refresh
begin

section \<open>The credential gateway at work\<close>

text \<open>
  A gateway with a search provider that takes a key and an OAuth provider, with a library that reads
  back the states it writes. The properties of the gateway are applied to it, and it shows what
  the path normalisation lets through.
\<close>

subsection \<open>A library\<close>

fun enc_str :: "string \<Rightarrow> string" where
  "enc_str [] = ''.''"
| "enc_str (c # cs) = CHR ''x'' # c # enc_str cs"

fun dec_str :: "string \<Rightarrow> (string \<times> string) option" where
  "dec_str (d # c # s) = (if d = CHR ''x'' then map_option (\<lambda>(r, s'). (c # r, s')) (dec_str s) else Some ([], c # s))"
| "dec_str [d] = Some ([], [])"
| "dec_str [] = None"

lemma dec_enc_str: "dec_str (enc_str s @ t) = Some (s, t)"
proof (induction s)
  case Nil
  show ?case by (cases t) simp_all
qed simp

definition enc_state :: "oauth_state \<Rightarrow> string" where
  "enc_state st =
     enc_str (st_access_token st) @ enc_str (show_word (st_expires_at_unix st)) @
     (case st_refresh_token st of None \<Rightarrow> [] | Some t \<Rightarrow> enc_str t)"

definition dec_state :: "string \<Rightarrow> oauth_state option" where
  "dec_state s =
     Option.bind (dec_str s) (\<lambda>(tok, s1).
       Option.bind (dec_str s1) (\<lambda>(n, s2).
         Some \<lparr>st_access_token = tok, st_expires_at_unix = of_nat (nat_of_digits 0 n),
               st_refresh_token = map_option fst (dec_str s2)\<rparr>))"

lemma dec_enc_state: "dec_state (enc_state st) = Some st"
  by (cases st; cases "st_refresh_token st")
    (auto simp: dec_state_def enc_state_def dec_enc_str nat_of_show_nat dec_enc_str [of _ "[]", simplified])

definition cred_sample_lib :: cred_lib where
  "cred_sample_lib =
     \<lparr>cl_http = sample_http,
      cl_secrets = (\<lambda>s. Inr \<lparr>os_client_id = ''id'', os_client_secret = ''secret'', os_refresh_token = s, os_token_url = None\<rparr>),
      cl_state_parse = dec_state, cl_state_print = enc_state,
      cl_token_response = (\<lambda>b. Inr \<lparr>tr_access_token = b, tr_expires_in = Some 600, tr_refresh_token = None\<rparr>)\<rparr>"

lemma cred_sample_roundtrip: "state_roundtrip cred_sample_lib"
  by (simp add: state_roundtrip_def cred_sample_lib_def dec_enc_state)

subsection \<open>A gateway\<close>

definition brave :: provider_config where
  "brave =
     \<lparr>pc_auth_style = ApiKeyHeader, pc_upstream_base = ''https://api.search.brave.com/'',
      pc_header_name = Some ''X-Subscription-Token'', pc_header_value_prefix = None, pc_secret_key = Some ''BRAVE'',
      pc_token_path = None, pc_state_path = None, pc_max_requests_per_agent = Some 2, pc_passthrough_query_params = [''q'']\<rparr>"

definition google :: provider_config where
  "google =
     \<lparr>pc_auth_style = OauthBearer, pc_upstream_base = ''https://www.googleapis.com'', pc_header_name = None,
      pc_header_value_prefix = None, pc_secret_key = None, pc_token_path = Some ''/secrets'',
      pc_state_path = Some ''/state'', pc_max_requests_per_agent = None, pc_passthrough_query_params = []\<rparr>"

definition cred_sample_config :: credential_gateway_config where
  "cred_sample_config =
     \<lparr>cg_enabled = True, cg_providers = [(''brave-search'', brave), (''google'', google)], cg_caps_db_path = None\<rparr>"

definition cred_sample_start :: start_io where
  "cred_sample_start =
     \<lparr>si_lookup = (\<lambda>h. Some [V4 0x08080808]), si_client = Inr (), si_now = 1000, si_caps_rows = (\<lambda>_. None)\<rparr>"

definition cred_sample_gateway :: gateway where
  "cred_sample_gateway =
     \<lparr>gw_config = cred_sample_config, gw_registry = [], gw_caches = [(''google'', cache_new)],
      gw_pinned = [(''api.search.brave.com'', V4 0x08080808), (''www.googleapis.com'', V4 0x08080808)],
      gw_counters = [], gw_caps_db = None, gw_denied = [], gw_last_access = [], gw_expiry = [],
      gw_last_refresh = [], gw_last_error = [], gw_states = [], gw_files = [], gw_log = []\<rparr>"

lemma sample_pins: "pin_providers cred_sample_start (cg_providers cred_sample_config) [] = Inr (gw_pinned cred_sample_gateway)"
  by code_simp

lemma sample_headers: "check_headers (cg_providers cred_sample_config) = None"
  by code_simp

lemma sample_gateway_starts:
  "gateway_new cred_sample_lib cred_sample_start cred_sample_config [] [] [] = Inr cred_sample_gateway"
  using sample_pins sample_headers
  by (simp add: gateway_new_def cred_sample_start_def load_caches_def load_cache_def load_from_disk_def init_expiry_def
     open_caps_db_def restore_health_def cred_sample_config_def cred_sample_gateway_def brave_def google_def
     try_peek_expiry_def cache_new_def List.map_filter_simps map_values_def)

subsection \<open>A request\<close>

definition searcher :: server where
  "searcher = (''searcher'', Some [Credential BraveSearch])"

definition cred_sample_request :: credential_request where
  "cred_sample_request =
     \<lparr>rq_method = ''GET'', rq_path = ''/brave-search/res/../web'',
      rq_headers = [(''x-credential-token'', ''t''), (''authorization'', ''stolen''), (''accept'', ''json'')],
      rq_body = [], rq_query = Some ''q=x&key=mine''\<rparr>"

definition cred_sample_refresh :: refresh_io where
  "cred_sample_refresh =
     \<lparr>ri_now = 1000, ri_read = (\<lambda>_. Inr ''first''), ri_lookup = (\<lambda>_. Some [V4 0x08080808]),
      ri_post = (\<lambda>url ps. PostReply 200 (Inr ''fresh'')), ri_timeout = InTime, ri_write = NoFault, ri_contended = False\<rparr>"

definition cred_sample_io :: cred_io where
  "cred_sample_io =
     \<lparr>ci_refresh = cred_sample_refresh, ci_now_s = 1000, ci_env = (\<lambda>v. if v = ''BRAVE'' then Some ''sesame'' else None),
      ci_access_now = 1000\<rparr>"

definition issued_gateway :: gateway where
  "issued_gateway =
     register_token ''t'' (owning_agent_id [] ''searcher'') (credential_allowed_providers (Some [Credential BraveSearch]))
       cred_sample_gateway"

lemma issued_reached: "gw_reach cred_sample_lib [] {searcher} cred_sample_gateway issued_gateway"
  unfolding issued_gateway_def
  by (rule gw_reach.Step [OF gw_reach.Start gw_step.Issue]) (simp add: searcher_def)

lemma sample_identify:
  "cred_identify cred_sample_lib cred_sample_request issued_gateway =
     Inr (''searcher'', [''brave-search''], ''brave-search'', ''res/../web'')"
  by code_simp

lemma sample_upstream:
  "build_upstream cred_sample_lib cred_sample_request brave ''res/../web'' ''sesame'' [] =
     \<lparr>cu_method = ''GET'', cu_url = ''https://api.search.brave.com/res/web?q=x'',
      cu_headers = [(''accept'', ''json''), (''X-Subscription-Token'', ''sesame'')], cu_query = None, cu_body = []\<rparr>"
  by code_simp

definition sample_prepared :: cred_forward where
  "sample_prepared =
     \<lparr>cf_agent = ''searcher'', cf_provider = ''brave-search'', cf_rest = ''res/../web'',
      cf_upstream = build_upstream cred_sample_lib cred_sample_request brave ''res/../web'' ''sesame'' []\<rparr>"

lemma sample_prepare:
  "\<exists>g'. cred_prepare cred_sample_lib cred_sample_io cred_sample_request issued_gateway = (g', Inr sample_prepared)"
proof -
  have "get (cg_providers (gw_config issued_gateway)) ''brave-search'' = Some brave" "gw_counters issued_gateway = []"
    by (simp_all add: issued_gateway_def register_token_def cred_sample_gateway_def cred_sample_config_def)
  moreover have "rq_body cred_sample_request = []" by (simp add: cred_sample_request_def)
  ultimately show ?thesis
    by (simp add: cred_prepare_def sample_identify cred_authorize_def cred_cap_def brave_def [THEN arg_cong, of pc_max_requests_per_agent]
      brave_def [THEN arg_cong, of pc_auth_style] brave_def [THEN arg_cong, of pc_secret_key]
      fetch_add_def or_insert_def cred_credential_def api_key_credential_def cred_sample_io_def sample_prepared_def)
qed


subsection \<open>The cap\<close>

text \<open>Two requests against a limit of one: the second is refused, and takes its increment back.\<close>

definition two_requests :: cap_world where
  "two_requests =
     \<lparr>cw_counters = [((''a'', ''p''), 2)], cw_arrived = (\<lambda>_. 0)((''a'', ''p'') := 2),
      cw_admitted = (\<lambda>_. 0)((''a'', ''p'') := 1), cw_rejecting = (\<lambda>_. 0)((''a'', ''p'') := 1)\<rparr>"

lemma two_requests_reached: "(cap_step (\<lambda>_. 1) 5)\<^sup>*\<^sup>* no_requests two_requests"
proof -
  let ?k = "(''a'', ''p'')"
  let ?w = "no_requests\<lparr>cw_counters := [(?k, 1)], cw_arrived := (\<lambda>_. 0)(?k := 1), cw_admitted := (\<lambda>_. 0)(?k := 1)\<rparr>"
  have "cap_step (\<lambda>_. 1) 5 no_requests ?w"
    using cap_step.Admit [of ?k no_requests 0 "[(?k, 1)]" "\<lambda>_. 1" 5] by (simp add: fetch_add_def or_insert_def modify_def no_requests_def)
  moreover have "cap_step (\<lambda>_. 1) 5 ?w two_requests"
    using cap_step.Refuse [of ?k ?w 1 "[(?k, 2)]" "\<lambda>_. 1" 5]
    by (simp add: fetch_add_def or_insert_def modify_def no_requests_def two_requests_def numeral_2_eq_2)
  ultimately show ?thesis by (meson rtranclp.simps)
qed

theorem request_cap_is_exact_witness:
  "(cap_step (\<lambda>_. 1) 5)\<^sup>*\<^sup>* no_requests two_requests \<and> cw_arrived two_requests (''a'', ''p'') = 2 \<and>
   cw_admitted two_requests (''a'', ''p'') = min (unat (1 :: u64)) (cw_arrived two_requests (''a'', ''p''))"
  using request_cap_is_exact [OF two_requests_reached, of "(''a'', ''p'')"] two_requests_reached
  by (simp add: two_requests_def)

subsection \<open>Refreshes\<close>

lemma sample_target:
  "refresh_target cred_sample_lib cred_sample_refresh ''google'' google =
     Inr \<lparr>os_client_id = ''id'', os_client_secret = ''secret'', os_refresh_token = ''first'', os_token_url = None\<rparr>"
  by code_simp

lemma sample_token:
  "request_token cred_sample_lib cred_sample_refresh s rt =
     Inr \<lparr>tr_access_token = ''fresh'', tr_expires_in = Some 600, tr_refresh_token = None\<rparr>"
  by (simp add: request_token_def cred_sample_refresh_def cred_sample_lib_def is_success_def)

definition live_cache :: oauth_cache where
  "live_cache = \<lparr>oc_token = Some ''old'', oc_expires_at = 1200, oc_refresh_token = Some ''rotated''\<rparr>"

definition stale_cache :: oauth_cache where
  "stale_cache = live_cache\<lparr>oc_expires_at := 1060\<rparr>"

lemma sample_stale: "cached_token (ri_now cred_sample_refresh) stale_cache = None"
  by (simp add: cached_token_def stale_cache_def live_cache_def cred_sample_refresh_def TOKEN_EXPIRY_BUFFER_SECS_def)

lemma sample_refreshed:
  "\<exists>c' fs' lg'. get_or_refresh cred_sample_lib cred_sample_refresh ''google'' google (stale_cache, [], []) = ((c', fs', lg'), Inr ''fresh'')"
proof -
  have "ri_timeout cred_sample_refresh = InTime" "pc_state_path google = Some ''/state''"
    by (simp_all add: cred_sample_refresh_def google_def)
  then show ?thesis
    by (simp add: get_or_refresh_def sample_stale sample_target sample_token Let_def split: prod.split)
qed


theorem rotated_token_is_forgotten_witness:
  "\<exists>c' fs' tok. get_or_refresh cred_sample_lib cred_sample_refresh ''google'' google (stale_cache, [], []) = ((c', fs', []), Inr tok) \<and>
     refresh_token_for c' \<lparr>os_client_id = ''id'', os_client_secret = ''secret'', os_refresh_token = ''first'', os_token_url = None\<rparr> = ''rotated'' \<and>
     refresh_token_for (load_from_disk cred_sample_lib (get fs' ''/state'') 1000 cache_new)
       \<lparr>os_client_id = ''id'', os_client_secret = ''secret'', os_refresh_token = ''first'', os_token_url = None\<rparr> = ''first''"
proof -
  have io: "pc_state_path google = Some ''/state''" "ri_write cred_sample_refresh = NoFault" "ri_timeout cred_sample_refresh = InTime"
    "oc_refresh_token stale_cache = Some ''rotated''"
    by (simp_all add: google_def cred_sample_refresh_def stale_cache_def live_cache_def)
  show ?thesis
    using rotated_token_is_forgotten [OF cred_sample_roundtrip io(1,2) sample_stale sample_target io(3) sample_token io(4),
      where fs = "[]" and lg = "[]" and t = 1000] by simp
qed

definition live_gateway :: gateway where
  "live_gateway = cred_sample_gateway\<lparr>gw_caches := [(''google'', live_cache)]\<rparr>"

definition cred_sample_round :: proactive_io where
  "cred_sample_round = cred_io.extend cred_sample_io \<lparr>pr_contended = False, pr_now = 1000\<rparr>"

theorem background_refresh_is_late_witness:
  "get (gw_caches (fst (proactive_refresh_round cred_sample_lib cred_sample_round ''google'' live_gateway))) ''google'' = Some live_cache \<and>
   snd (proactive_refresh_round cred_sample_lib cred_sample_round ''google'' live_gateway) = 60"
proof -
  have "get (gw_caches live_gateway) ''google'' = Some live_cache" "oc_token live_cache = Some ''old''"
    "get (cg_providers (gw_config live_gateway)) ''google'' = Some google" "\<not> pr_contended cred_sample_round"
    "oc_expires_at live_cache \<le> pr_now cred_sample_round + PROACTIVE_REFRESH_LEAD_SECS"
    "ri_now (ci_refresh cred_sample_round) + TOKEN_EXPIRY_BUFFER_SECS < oc_expires_at live_cache"
    by (simp_all add: live_gateway_def cred_sample_gateway_def cred_sample_config_def live_cache_def cred_sample_round_def
      cred_sample_io_def cred_sample_refresh_def cred_io.defs PROACTIVE_REFRESH_LEAD_SECS_def TOKEN_EXPIRY_BUFFER_SECS_def)
  from background_refresh_is_late [OF this] show ?thesis by simp
qed

subsection \<open>A provider in need of attention\<close>

definition mailer :: server where
  "mailer = (''mailer'', Some [Credential Google])"

definition mail_gateway :: gateway where
  "mail_gateway = register_token ''t'' (owning_agent_id [] ''mailer'') (credential_allowed_providers (Some [Credential Google])) cred_sample_gateway"

definition mail_request :: credential_request where
  "mail_request =
     \<lparr>rq_method = ''GET'', rq_path = ''/google/mail'', rq_headers = [(''x-credential-token'', ''t'')], rq_body = [], rq_query = None\<rparr>"

definition mail_io :: cred_io where
  "mail_io = cred_sample_io\<lparr>ci_refresh := cred_sample_refresh\<lparr>ri_read := (\<lambda>_. Inl ''gone'')\<rparr>\<rparr>"

definition alarmed_gateway :: gateway where
  "alarmed_gateway = fst (handle_credential_request cred_sample_lib mail_io (\<lambda>_. SendError) mail_request mail_gateway)"

lemma alarmed_reached: "gw_reach cred_sample_lib [] {mailer} cred_sample_gateway alarmed_gateway"
proof -
  have "gw_step cred_sample_lib [] {mailer} cred_sample_gateway mail_gateway"
    unfolding mail_gateway_def by (rule gw_step.Issue) (simp add: mailer_def)
  then show ?thesis unfolding alarmed_gateway_def by (intro gw_reach.Step [OF _ gw_step.Request] gw_reach.Step [OF gw_reach.Start])
qed

lemma alarmed_needs_attention: "needs_attention ''google'' alarmed_gateway"
proof -
  have i: "cred_identify cred_sample_lib mail_request mail_gateway = Inr (''mailer'', [''google''], ''google'', ''mail'')" by code_simp
  have p: "get (cg_providers (gw_config mail_gateway)) ''google'' = Some google" "get (gw_caches mail_gateway) ''google'' = Some cache_new"
    "gw_states mail_gateway = []" "rq_body mail_request = []" "pc_max_requests_per_agent google = None" "pc_auth_style google = OauthBearer"
    by (simp_all add: mail_gateway_def register_token_def cred_sample_gateway_def cred_sample_config_def mail_request_def google_def)
  have t: "refresh_target cred_sample_lib (ci_refresh mail_io) ''google'' google =
      Inl (attention SecretReplace (''cannot read secrets file '' @ quoted ''/secrets'' @ '': gone''))"
    by (simp add: refresh_target_def token_path_of_def google_def mail_io_def)
  have q: "ri_timeout (ci_refresh mail_io) = InTime" by (simp add: mail_io_def cred_sample_refresh_def)
  show ?thesis
    by (simp add: alarmed_gateway_def handle_credential_request_def cred_prepare_def i cred_authorize_def p cred_cap_def
      cred_credential_def oauth_credential_def refresh_provider_def get_cache_def get_or_refresh_def cached_token_def t
      attention_def note_attention_def note_error_def needs_attention_def gw_record_def is_attention_required_def
      cache_new_def q)
qed


theorem health_survives_restart_witness:
  "\<exists>g1. gateway_new cred_sample_lib cred_sample_start cred_sample_config [] [] (provider_health_checkpoints alarmed_gateway) = Inr g1 \<and>
     needs_attention ''google'' g1"
proof -
  obtain g1 where g1: "gateway_new cred_sample_lib cred_sample_start cred_sample_config [] [] (provider_health_checkpoints alarmed_gateway) = Inr g1"
    using sample_gateway_starts by (auto simp: gateway_new_def Let_def split: sum.splits option.splits prod.splits)
  from health_survives_restart [OF sample_gateway_starts alarmed_reached this] g1 alarmed_needs_attention show ?thesis by blast
qed

subsection \<open>What the path normalisation lets through\<close>

text \<open>
  The normalisation drops \<open>..\<close> and \<open>%2e%2e\<close>, but not the mixed spellings \<open>.%2e\<close> and \<open>%2e.\<close>, nor a
  backslash, all of which the URL standard reads as going up or as a separator in an https URL.
\<close>

theorem mixed_dots_pass:
  "upstream_url (brave\<lparr>pc_upstream_base := ''https://h/api''\<rparr>) ''.%2e/admin'' [] = ''https://h/api/.%2e/admin''"
  by code_simp

text \<open>
  The host parser ends a host at a slash or a colon only. A URL with a query right after the host
  gives a name that no resolver knows, and a failed lookup skips the address check.
\<close>

theorem query_hides_the_host: "extract_host ''https://169.254.169.254?x'' = Some ''169.254.169.254?x''"
  by code_simp

end
