(* ===== verification/Spec2Isabelle.thy ===== *)
theory Spec2Isabelle
  imports Evidence_Resume Sched_Props Tool_Samples Credential_Samples
begin

text \<open>
  A verification library for \<open>agentd\<close>, a daemon that runs language-model agents under capabilities,
  budgets and a signed log of what they did.

  \<^bold>\<open>The program.\<close> The daemon (\<open>agentd/src\<close>) reads a configuration, restores a checkpoint if there is one,
  and runs a scheduler. Each native agent is a state machine that asks for inferences and tool calls
  as effects; the scheduler dispatches the effects, under a limit of concurrent inferences, token
  budgets per agent and per window, and nesting limits for spawned agents. Sealed jobs are agents
  that a schedule, another agent or an operator starts from a declaration. Universal agents are
  external processes whose model traffic passes through an egress proxy with an ephemeral key. What
  agents do is appended to a flight log, and security-relevant actions to a hash-chained and signed
  evidence log. Agents act through tools: native ones on files, on a shared knowledge base and on the
  history of runs, and remote ones on MCP servers, which reach external services through a credential
  gateway. Operators send control commands.

  \<^bold>\<open>Theories and sources.\<close>
  \<^item> \<open>Prelude\<close>: hash maps as association lists, saturating words, UTF-8 prefixes, decimal and JSON
    values, and the shared lemmas.
  \<^item> \<open>Capability\<close> (\<open>capability.rs\<close>): path normalisation, \<open>satisfies\<close>, \<open>satisfies_type\<close>,
    \<open>capability_covered_by\<close>, tier legality.
  \<^item> \<open>Events\<close> (\<open>events.rs\<close>, \<open>flight_recorder.rs\<close>): the kinds of records and the log.
  \<^item> \<open>Evidence\<close>, \<open>Evidence_Chain\<close>, \<open>Evidence_Resume\<close> (\<open>evidence.rs\<close>): the writer with rotation, the
    verifier, and the recovery at boot, over a file system whose calls may fail.
  \<^item> \<open>Cron\<close> (\<open>scheduler_cron.rs\<close>), \<open>Config\<close> (\<open>config.rs\<close>: the records the running system reads, job
    rendering), \<open>Context\<close> (\<open>inference/mod.rs\<close>, \<open>memory/context.rs\<close>: conversations and paging).
  \<^item> \<open>Egress\<close> (\<open>egress.rs\<close>): key registry, budget meter, receipts, and the proxy's request handler.
  \<^item> \<open>Agent\<close>, \<open>Agent_Life\<close> (\<open>agent/mod.rs\<close>): \<open>step\<close> and everything else that changes an agent, the
    conversation repair, the agent's checkpoint.
  \<^item> \<open>Universal\<close> (\<open>universal.rs\<close>): the command and environment of an external agent.
  \<^item> \<open>Scheduler\<close> (\<open>scheduler.rs\<close>): the record \<open>sched_state\<close> is \<open>SchedulerState\<close>; \<open>enqueue_or_defer\<close>,
    \<open>handle_agent_terminal\<close> and the dispatchers of spawns, jobs, messages and approvals.
  \<^item> \<open>Sched_Universal\<close>, \<open>Sched_Checkpoint\<close>, \<open>Sched_Run\<close>, \<open>Sched_Start\<close>, \<open>Sched_Control\<close> (\<open>scheduler.rs\<close>,
    \<open>checkpoint.rs\<close>, \<open>control.rs\<close>): external processes; writing and restoring checkpoints; the deferred
    queue, budget windows, native schedules and the results of futures; what \<open>run\<close> does before its
    loop; operator commands and \<open>loop_step\<close>, the arms of the main loop as a step relation.
  \<^item> \<open>Memory_Store\<close>, \<open>Memory_Laws\<close>, \<open>Memory_Search\<close>, \<open>Memory_Samples\<close> (\<open>memory/store.rs\<close>, \<open>memory/index.rs\<close>): the
    knowledge base on its five tables, with transactions that may fail; put, append, delete, limits,
    eviction, search and the backfill at opening.
  \<^item> \<open>Runs\<close>, \<open>Runs_Laws\<close>, \<open>Runs_Briefs\<close>, \<open>Runs_Samples\<close> (\<open>runs/store.rs\<close>): records of runs, their writer, morning
    briefs and pruning.
  \<^item> \<open>Tool_Specs\<close>, \<open>Tools\<close>, \<open>Tool_Laws\<close>, \<open>Tool_Props\<close>, \<open>Tool_Samples\<close> (\<open>tools/native.rs\<close>, \<open>tools/mod.rs\<close>): every native
    tool with its schema, the registry, and the capability gate of a call.
  \<^item> \<open>Loopback\<close> (\<open>loopback_proxy.rs\<close>), \<open>Credential\<close>, \<open>Credential_Laws\<close>, \<open>Credential_Cap\<close>, \<open>Credential_Refresh\<close>,
    \<open>Credential_Samples\<close> (\<open>credential/mod.rs\<close>): address and host guards; the gateway's start, tokens, request
    handler, OAuth refresh, request caps and health states.
  \<^item> \<open>Sched_Core\<close>, \<open>Sched_Inv\<close>, \<open>Sched_Laws\<close>, \<open>Sched_Props\<close>: the lemmas and properties of the scheduler.

  A state is passed explicitly, errors are values of a sum type, a panic of the source is the value
  \<open>Inl Panic\<close>, and machine integers are words. What is not in the repository is a parameter: hash,
  signatures, serialisation, the cron parser, the \<open>redb\<close> tables, HTTP, DNS, the clock, the operating
  system, the model's answers and, for the scheduler, the tools' results. A clock or device is read at the length of the log, so that successive reads
  may differ.

  \<^bold>\<open>What is shown.\<close> Attenuation of capabilities is sound and transitive, and file access stays below a
  granted prefix. Every evidence log that the writer leaves verifies, survives a crash after any
  byte, and is tamper-evident up to collisions of the hash. Every request of an agent respects the
  alternation rule of the provider. The proxy forwards only what a registered workload within budget
  sent, and overshoot of the window is bounded. For the scheduler, the locales \<open>sched_invariant\<close>,
  \<open>sched_invariant_enq\<close> and \<open>sched_loop\<close> state once what an invariant must satisfy to hold in all
  reachable states, from a fresh start or a checkpoint; four interpretations give the concurrency
  limit, the nesting limit, one live run per job, and the confinement of authority. Beyond those: the
  mutually recursive dispatcher terminates and satisfies the equation of the source; shutting down
  empties the queue; draining refines a priority queue and conserves work; a window rollover is
  exact; a cancel flags exactly the subtree; a sealed job tells its caller nothing; a checkpoint
  restores the scheduler; no key outlives its process.

  The knowledge base keeps its index, ages and counters consistent through any failing commits, a
  search equals a scan, and eviction enforces the limits. Every closed run is reported by exactly one
  brief. A tool call changes only what its capabilities allow: the locale \<open>segment_store\<close> states what a
  tool may rely on of the store, with the \<open>redb\<close> store as its interpretation; canon segments stay as
  they are, and protected tools stay native. For the credential gateway the locale \<open>gateway_invariant\<close>
  states what an invariant must satisfy to hold in all reachable states; its interpretations give
  that a request is forwarded only within a capability, that the health states are what the log
  says, and that they survive a restart. The request cap is exact under every interleaving, and a
  token handed out is live or new.

  \<^bold>\<open>Bounds.\<close> The dispatcher is defined by recursion on a depth. \<open>enqueue_or_defer\<close> starts it at
  \<open>Suc (potential s + effect_rank effect)\<close>: a result delivered to a parent uses up an entry of
  \<open>awaiting\<close>, a dispatched call a stored response. The depth is shown to be enough in every state, so
  it never shows in a result. The denial loop of a shutdown is bounded by \<open>potential\<close> likewise.

  \<^bold>\<open>Findings.\<close> A receipt line that the buffer refuses breaks the chain; a torn first receipt is not
  repaired; the conversation repair can leave two user turns in a row; a \<open>run_job\<close> child that is denied
  at birth strands its caller; a put can evict its own entry; \<open>mem_remember\<close> writes canon segments; an
  MCP tool named \<open>publish_brief\<close> makes the daemon record a brief that was never written; a rotated
  refresh token is lost at a restart; the background refresh of tokens comes four minutes late; the
  path normalisation of the gateway lets mixed encodings of dots through, and its host parser a
  query. Each is a theorem on the definitions that model the code.

  \<^bold>\<open>Not modelled.\<close> Sockets and the accept loops, the files other than those named, the inference
  clients and the JSON-RPC transports of MCP, sandboxing system calls, the management API, the FUSE
  surface with the status snapshot it shows, the telemetry exporter, \<open>agentctl\<close>, templates and reading
  of TOML, streaming of partial output, and the distillation of memory after a run. They are I/O
  around the modelled state, or front ends that reach it through the modelled control commands.
\<close>

end
